(* ===== verification/Nuk_Prelude.thy ===== *)
theory Nuk_Prelude
  imports Main "HOL-Library.Word" "HOL-Library.State_Monad" "HOL-Library.Sublist"
begin

unbundle bit_operations_syntax

text \<open>
  Shared vocabulary of the development: C strings held in fixed-size \<^verbatim>\<open>char\<close> buffers,
  little-endian byte encodings of machine integers, decimal and hexadecimal printing, and a small
  Hoare logic for the state monad of \<open>HOL-Library.State_Monad\<close> in which every operation
  with side effects is written.

  Bytes are \<^typ>\<open>char\<close>; the content of a buffer or a file is a \<^typ>\<open>string\<close>.
  A \<^verbatim>\<open>char name[N]\<close> that holds a NUL-terminated string is modelled by that string, without
  its terminator: it then has fewer than N characters, none of them NUL (predicate \<open>str_ok N\<close>).
\<close>

named_theorems wp_simps \<open>weakest preconditions of the monad's combinators\<close>
named_theorems pres \<open>introduction rules for \<open>preserves\<close> on the monad's combinators\<close>
named_theorems pres_os \<open>operations that change only the file system and the call counter\<close>
named_theorems pres_keep \<open>operations that change only named files\<close>

section \<open>C strings\<close>

abbreviation NUL :: char where "NUL \<equiv> CHR 0x00"

definition cstr :: "string \<Rightarrow> string" where
  "cstr b = takeWhile (\<lambda>c. c \<noteq> NUL) b"

definition str_ok :: "nat \<Rightarrow> string \<Rightarrow> bool" where
  "str_ok n s \<longleftrightarrow> length s < n \<and> NUL \<notin> set s"

text \<open>What a buffer of \<open>n\<close> bytes holds after \<^verbatim>\<open>strncpy(b, s, n - 1)\<close> with
  \<^verbatim>\<open>b[n-1] = 0\<close>, or after \<^verbatim>\<open>snprintf(b, n, "%s", s)\<close>.\<close>

definition cbuf :: "nat \<Rightarrow> string \<Rightarrow> string" where
  "cbuf n s = take (n - 1) s"

text \<open>The \<open>n\<close> bytes of a buffer that was zeroed before the string was stored.\<close>

definition pad :: "nat \<Rightarrow> string \<Rightarrow> string" where
  "pad n s = take n (s @ replicate n NUL)"

lemma length_pad [simp]: "length (pad n s) = n"
  by (simp add: pad_def)

lemma cstr_append_NUL: "NUL \<notin> set s \<Longrightarrow> cstr (s @ NUL # r) = s"
  unfolding cstr_def by (subst takeWhile_append2) auto

lemma cstr_id: "NUL \<notin> set s \<Longrightarrow> cstr s = s"
  unfolding cstr_def by (rule takeWhile_eq_all_conv [THEN iffD2]) auto

lemma pad_short: "length s \<le> n \<Longrightarrow> pad n s = s @ replicate (n - length s) NUL"
  by (simp add: pad_def min_def)

lemma cstr_pad [simp]: "str_ok n s \<Longrightarrow> cstr (pad n s) = s"
  by (cases "n - length s") (auto simp: pad_short str_ok_def cstr_append_NUL)

lemma cbuf_id [simp]: "str_ok n s \<Longrightarrow> cbuf n s = s"
  by (cases n) (auto simp: str_ok_def cbuf_def)

lemma str_ok_cbuf: "0 < n \<Longrightarrow> NUL \<notin> set s \<Longrightarrow> str_ok n (cbuf n s)"
  by (auto simp: str_ok_def cbuf_def dest: in_set_takeD)

lemma str_ok_Nil [simp]: "str_ok n [] \<longleftrightarrow> 0 < n"
  by (simp add: str_ok_def)

lemma NUL_notin_cstr [simp]: "NUL \<notin> set (cstr s)"
  by (auto simp: cstr_def dest: set_takeWhileD)

section \<open>Machine integers as bytes\<close>

text \<open>\<open>fwrite(&x, n, 1, fp)\<close> of an \<open>n\<close>-byte integer on a little-endian machine, and the
  value \<^verbatim>\<open>fread\<close> puts back.\<close>

fun le_bytes :: "nat \<Rightarrow> nat \<Rightarrow> string" where
  "le_bytes 0 x = []"
| "le_bytes (Suc n) x = char_of (x mod 256) # le_bytes n (x div 256)"

fun le_val :: "string \<Rightarrow> nat" where
  "le_val [] = 0"
| "le_val (c # cs) = of_char c + 256 * le_val cs"

lemma length_le_bytes [simp]: "length (le_bytes n x) = n"
  by (induction n arbitrary: x) auto

lemma le_val_le_bytes: "le_val (le_bytes n x) = x mod 256 ^ n"
proof (induction n arbitrary: x)
  case 0
  then show ?case by simp
next
  case (Suc n)
  have "x mod 256 ^ Suc n = x mod 256 + 256 * (x div 256 mod 256 ^ n)"
    by (simp add: mod_mult2_eq)
  with Suc show ?case by simp
qed

definition enc32 :: "32 word \<Rightarrow> string" where "enc32 w = le_bytes 4 (unat w)"
definition dec32 :: "string \<Rightarrow> 32 word" where "dec32 b = word_of_nat (le_val b)"
definition enc64 :: "64 word \<Rightarrow> string" where "enc64 w = le_bytes 8 (unat w)"
definition dec64 :: "string \<Rightarrow> 64 word" where "dec64 b = word_of_nat (le_val b)"
definition enc8 :: "8 word \<Rightarrow> string" where "enc8 w = le_bytes 1 (unat w)"
definition dec8 :: "string \<Rightarrow> 8 word" where "dec8 b = word_of_nat (le_val b)"

lemma length_enc [simp]: "length (enc32 w) = 4" "length (enc64 v) = 8" "length (enc8 u) = 1"
  by (simp_all add: enc32_def enc64_def enc8_def)

lemma unat_lt_32: "unat (w :: 32 word) < 256 ^ 4"
  using unsigned_less [of w, where ?'a = nat] by simp

lemma unat_lt_64: "unat (w :: 64 word) < 256 ^ 8"
  using unsigned_less [of w, where ?'a = nat] by simp

lemma unat_lt_8: "unat (w :: 8 word) < 256 ^ 1"
  using unsigned_less [of w, where ?'a = nat] by simp

lemma dec_enc [simp]: "dec32 (enc32 w) = w" "dec64 (enc64 v) = v" "dec8 (enc8 u) = u"
  unfolding dec32_def enc32_def dec64_def enc64_def dec8_def enc8_def le_val_le_bytes
  using unat_lt_32 [of w] unat_lt_64 [of v] unat_lt_8 [of u] by simp_all

text \<open>Signed quantities (\<^verbatim>\<open>time_t\<close>, \<^verbatim>\<open>int\<close>) in two's complement.\<close>

definition enc_time :: "int \<Rightarrow> string" where "enc_time t = enc64 (word_of_int t)"
definition dec_time :: "string \<Rightarrow> int" where "dec_time b = sint (dec64 b)"
definition enc_int :: "int \<Rightarrow> string" where "enc_int t = enc32 (word_of_int t)"
definition dec_int :: "string \<Rightarrow> int" where "dec_int b = sint (dec32 b)"

definition time_ok :: "int \<Rightarrow> bool" where "time_ok t \<longleftrightarrow> - (2 ^ 63) \<le> t \<and> t < 2 ^ 63"
definition int_ok :: "int \<Rightarrow> bool" where "int_ok t \<longleftrightarrow> - (2 ^ 31) \<le> t \<and> t < 2 ^ 31"

lemma length_enc_signed [simp]: "length (enc_time t) = 8" "length (enc_int i) = 4"
  by (simp_all add: enc_time_def enc_int_def)

lemma dec_enc_time [simp]: "time_ok t \<Longrightarrow> dec_time (enc_time t) = t"
  by (simp add: dec_time_def enc_time_def time_ok_def sint_sbintrunc' signed_take_bit_int_eq_self)

lemma dec_enc_int [simp]: "int_ok t \<Longrightarrow> dec_int (enc_int t) = t"
  by (simp add: dec_int_def enc_int_def int_ok_def sint_sbintrunc' signed_take_bit_int_eq_self)

section \<open>Printing numbers\<close>

text \<open>\<^verbatim>\<open>%u\<close>: decimal digits, most significant first.\<close>

fun dec_digits :: "nat \<Rightarrow> string" where
  "dec_digits n = (if n < 10 then [char_of (48 + n)]
                   else dec_digits (n div 10) @ [char_of (48 + n mod 10)])"

declare dec_digits.simps [simp del]

definition digit_val :: "char \<Rightarrow> nat" where "digit_val c = of_char c - 48"

definition dec_read :: "string \<Rightarrow> nat" where
  "dec_read s = foldl (\<lambda>a c. 10 * a + digit_val c) 0 s"

lemma digit_val_char_of: "d < 10 \<Longrightarrow> digit_val (char_of (48 + d)) = d"
  by (simp add: digit_val_def)

lemma dec_read_dec_digits: "dec_read (dec_digits n) = n"
proof (induction n rule: dec_digits.induct)
  case (1 n)
  show ?case
  proof (cases "n < 10")
    case True
    then show ?thesis
      by (simp add: dec_digits.simps [of n] dec_read_def digit_val_char_of)
  next
    case False
    with 1 have "dec_read (dec_digits (n div 10)) = n div 10" by simp
    with False show ?thesis
      by (simp add: dec_digits.simps [of n] dec_read_def digit_val_char_of)
  qed
qed

lemma dec_digits_inj: "dec_digits m = dec_digits n \<Longrightarrow> m = n"
  by (metis dec_read_dec_digits)

lemma dec_digits_set: "c \<in> set (dec_digits n) \<Longrightarrow> 48 \<le> (of_char c :: nat) \<and> (of_char c :: nat) \<le> 57"
proof (induction n rule: dec_digits.induct)
  case (1 n)
  then show ?case
    by (cases "n < 10") (auto simp: dec_digits.simps [of n])
qed

lemma NUL_notin_dec_digits [simp]: "NUL \<notin> set (dec_digits n)"
  using dec_digits_set [of NUL n] by auto

lemma length_dec_digits: "n < 10 ^ Suc k \<Longrightarrow> length (dec_digits n) \<le> Suc k"
proof (induction k arbitrary: n)
  case 0
  then show ?case by (simp add: dec_digits.simps [of n])
next
  case (Suc k)
  then have "n div 10 < 10 ^ Suc k" by simp
  with Suc.IH show ?case by (simp add: dec_digits.simps [of n])
qed

text \<open>\<^verbatim>\<open>%02x\<close> of one byte.\<close>

definition hex_digit :: "nat \<Rightarrow> char" where
  "hex_digit d = (if d < 10 then char_of (48 + d) else char_of (87 + d))"

definition hex_byte :: "char \<Rightarrow> string" where
  "hex_byte c = [hex_digit (of_char c div 16), hex_digit (of_char c mod 16)]"

lemma length_hex_bytes [simp]: "length (concat (map hex_byte s)) = 2 * length s"
  by (induction s) (auto simp: hex_byte_def)

lemma of_char_lt_256: "(of_char c :: nat) < 256"
  using of_char_mod_256 [of c, where ?'a = nat] by (metis mod_less_divisor zero_less_numeral)

lemma hex_digit_inj:
  assumes "a < 16" "b < 16"
  shows "hex_digit a = hex_digit b \<longleftrightarrow> a = b"
proof -
  have val: "of_char (hex_digit d) = (if d < 10 then 48 + d else 87 + d)" if "d < 16" for d :: nat
    using that by (simp add: hex_digit_def)
  have "a = b" if "hex_digit a = hex_digit b"
  proof -
    from that have "(of_char (hex_digit a) :: nat) = of_char (hex_digit b)" by simp
    with assms show ?thesis by (simp add: val split: if_splits)
  qed
  then show ?thesis by blast
qed

lemma hex_byte_inj: "hex_byte c = hex_byte d \<longleftrightarrow> c = d"
proof
  assume h: "hex_byte c = hex_byte d"
  have "(of_char c :: nat) div 16 = of_char d div 16" "(of_char c :: nat) mod 16 = of_char d mod 16"
    using h of_char_lt_256 [of c] of_char_lt_256 [of d] by (auto simp: hex_byte_def hex_digit_inj)
  then have "(of_char c :: nat) = of_char d"
    by (metis div_mult_mod_eq)
  then show "c = d" by simp
qed simp

lemma hex_bytes_inj: "concat (map hex_byte s) = concat (map hex_byte t) \<Longrightarrow> s = t"
proof (induction s arbitrary: t)
  case Nil
  then show ?case by (cases t) (simp_all add: hex_byte_def)
next
  case (Cons c s)
  then obtain d t' where t: "t = d # t'" by (cases t) (simp_all add: hex_byte_def)
  have "length (hex_byte c) = length (hex_byte d)" by (simp add: hex_byte_def)
  with Cons.prems t have "hex_byte c = hex_byte d" and "concat (map hex_byte s) = concat (map hex_byte t')"
    by simp_all
  with Cons.IH t show ?case by (simp add: hex_byte_inj)
qed

section \<open>A Hoare logic for the state monad\<close>

text \<open>
  \<open>wp m Q s\<close>: running \<open>m\<close> in \<open>s\<close> ends in a result and a state that satisfy \<open>Q\<close> (operations are
  total functions, so this is total correctness). \<open>preserves I m\<close>: whatever \<open>m\<close> does, it keeps
  the state predicate \<open>I\<close>; its rules follow the structure of a do block.
\<close>

definition wp :: "('s, 'a) state \<Rightarrow> ('a \<Rightarrow> 's \<Rightarrow> bool) \<Rightarrow> 's \<Rightarrow> bool" where
  "wp m Q s = (case run_state m s of (a, s') \<Rightarrow> Q a s')"

definition preserves :: "('s \<Rightarrow> bool) \<Rightarrow> ('s, 'a) state \<Rightarrow> bool" where
  "preserves I m \<longleftrightarrow> (\<forall>s. I s \<longrightarrow> I (snd (run_state m s)))"

text \<open>The equations are between functions of the state, so that they also apply under a binder that
  has been eta-contracted.\<close>

lemma wp_return [wp_simps]: "wp (State_Monad.return a) Q = Q a"
  by (rule ext) (simp add: wp_def)

lemma wp_bind [wp_simps]: "wp (State_Monad.bind m f) Q = wp m (\<lambda>a. wp (f a) Q)"
  by (rule ext) (simp add: wp_def split: prod.splits)

lemma wp_get [wp_simps]: "wp State_Monad.get Q = (\<lambda>s. Q s s)"
  by (rule ext) (simp add: wp_def)

lemma wp_set [wp_simps]: "wp (State_Monad.set t) Q = (\<lambda>_. Q () t)"
  by (rule ext) (simp add: wp_def)

lemma wp_update [wp_simps]: "wp (State_Monad.update f) Q = (\<lambda>s. Q () (f s))"
  by (rule ext) (simp add: wp_def State_Monad.update_def)

lemma wp_if [wp_simps]: "wp (if b then m else n) Q = (if b then wp m Q else wp n Q)"
  by simp

lemma wp_let [wp_simps]: "wp (let x = e in m x) Q = (let x = e in wp (m x) Q)"
  by simp

lemma wp_case_option [wp_simps]:
  "wp (case x of None \<Rightarrow> m | Some y \<Rightarrow> n y) Q = (case x of None \<Rightarrow> wp m Q | Some y \<Rightarrow> wp (n y) Q)"
  by (cases x) simp_all

lemma wp_case_sum [wp_simps]:
  "wp (case x of Inl e \<Rightarrow> m e | Inr y \<Rightarrow> n y) Q = (case x of Inl e \<Rightarrow> wp (m e) Q | Inr y \<Rightarrow> wp (n y) Q)"
  by (cases x) simp_all

lemma wp_case_prod [wp_simps]:
  "wp (case x of (a, b) \<Rightarrow> m a b) Q = (case x of (a, b) \<Rightarrow> wp (m a b) Q)"
  by (cases x) simp

lemma wp_mono: "wp m R s \<Longrightarrow> (\<And>a t. R a t \<Longrightarrow> Q a t) \<Longrightarrow> wp m Q s"
  by (auto simp: wp_def split: prod.splits)

lemma wpD: "wp m Q s \<Longrightarrow> run_state m s = (a, t) \<Longrightarrow> Q a t"
  by (simp add: wp_def)

lemma wpI: "(\<And>a t. run_state m s = (a, t) \<Longrightarrow> Q a t) \<Longrightarrow> wp m Q s"
  by (auto simp: wp_def split: prod.splits)

lemma wp_conj: "wp m Q s \<Longrightarrow> wp m R s \<Longrightarrow> wp m (\<lambda>a t. Q a t \<and> R a t) s"
  by (auto simp: wp_def split: prod.splits)

lemma wp_True [simp]: "wp m (\<lambda>_ _. True) s"
  by (simp add: wp_def split: prod.splits)

lemma preserves_wp: "preserves I m \<longleftrightarrow> (\<forall>s. I s \<longrightarrow> wp m (\<lambda>_. I) s)"
  by (simp add: preserves_def wp_def case_prod_beta)

lemma preservesI: "(\<And>s. I s \<Longrightarrow> wp m (\<lambda>_. I) s) \<Longrightarrow> preserves I m"
  by (simp add: preserves_wp)

lemma preservesD: "preserves I m \<Longrightarrow> I s \<Longrightarrow> wp m (\<lambda>_. I) s"
  by (simp add: preserves_wp)

lemma preserves_run: "preserves I m \<Longrightarrow> run_state m s = (a, t) \<Longrightarrow> I s \<Longrightarrow> I t"
  by (force simp: preserves_def)

lemma preserves_snd: "preserves I m \<Longrightarrow> I s \<Longrightarrow> I (snd (run_state m s))"
  by (simp add: preserves_def)

lemma pres_return [pres]: "preserves I (State_Monad.return a)"
  by (simp add: preserves_def)

lemma pres_bind [pres]: "preserves I m \<Longrightarrow> (\<And>a. preserves I (f a)) \<Longrightarrow> preserves I (State_Monad.bind m f)"
  by (simp add: preserves_wp wp_simps) (meson wp_mono)

lemma pres_get [pres]: "preserves I State_Monad.get"
  by (simp add: preserves_def)

lemma pres_if [pres]:
  "(b \<Longrightarrow> preserves I m) \<Longrightarrow> (\<not> b \<Longrightarrow> preserves I n) \<Longrightarrow> preserves I (if b then m else n)"
  by simp

lemma pres_let [pres]: "(\<And>x. preserves I (m x)) \<Longrightarrow> preserves I (let x = e in m x)"
  by simp

lemma pres_case_option [pres]:
  "preserves I m \<Longrightarrow> (\<And>y. preserves I (n y)) \<Longrightarrow> preserves I (case x of None \<Rightarrow> m | Some y \<Rightarrow> n y)"
  by (cases x) simp_all

lemma pres_case_sum [pres]:
  "(\<And>e. preserves I (m e)) \<Longrightarrow> (\<And>y. preserves I (n y)) \<Longrightarrow>
   preserves I (case x of Inl e \<Rightarrow> m e | Inr y \<Rightarrow> n y)"
  by (cases x) simp_all

lemma pres_case_prod [pres]: "(\<And>a b. preserves I (m a b)) \<Longrightarrow> preserves I (case x of (a, b) \<Rightarrow> m a b)"
  by (cases x) simp

lemma pres_update: "(\<And>s. I s \<Longrightarrow> I (f s)) \<Longrightarrow> preserves I (State_Monad.update f)"
  by (simp add: preserves_wp wp_simps)

text \<open>A loop over a list, with no result.\<close>

fun for_each :: "'a list \<Rightarrow> ('a \<Rightarrow> ('s, unit) state) \<Rightarrow> ('s, unit) state" where
  "for_each [] f = State_Monad.return ()"
| "for_each (x # xs) f = State_Monad.bind (f x) (\<lambda>_. for_each xs f)"

lemma pres_for_each [pres]: "(\<And>x. preserves I (f x)) \<Longrightarrow> preserves I (for_each xs f)"
  by (induction xs) (auto intro: pres)

lemma wp_for_each:
  assumes "\<And>k t. k < length xs \<Longrightarrow> I k t \<Longrightarrow> wp (f (xs ! k)) (\<lambda>_. I (Suc k)) t" and "I 0 s"
  shows "wp (for_each xs f) (\<lambda>_. I (length xs)) s"
  using assms
proof (induction xs arbitrary: I s)
  case (Cons x xs)
  have "wp (f x) (\<lambda>_. I (Suc 0)) s" using Cons.prems(1) [of 0 s] Cons.prems(2) by simp
  moreover have "wp (for_each xs f) (\<lambda>_. I (length (x # xs))) t" if "I (Suc 0) t" for t
    using Cons.IH [of "\<lambda>k. I (Suc k)" t] Cons.prems(1) [of "Suc _"] that by simp
  ultimately show ?case by (simp add: wp_bind) (rule wp_mono)
qed (simp add: wp_return)

lemma wp_for_each_upt:
  "(\<And>k t. k < n \<Longrightarrow> I k t \<Longrightarrow> wp (f k) (\<lambda>_. I (Suc k)) t) \<Longrightarrow> I 0 s \<Longrightarrow> wp (for_each [0..<n] f) (\<lambda>_. I n) s"
  using wp_for_each [of "[0..<n]" I f s] by simp

text \<open>A fact \<open>R\<close> about the result of \<open>m\<close>, whatever the state, for the rest of a do block.\<close>

definition yields :: "('s, 'a) state \<Rightarrow> ('a \<Rightarrow> bool) \<Rightarrow> bool" where
  "yields m R \<longleftrightarrow> (\<forall>s. wp m (\<lambda>a _. R a) s)"

lemma yields_return: "R a \<Longrightarrow> yields (State_Monad.return a) R"
  by (simp add: yields_def wp_return)

lemma yields_bind: "(\<And>a. yields (f a) R) \<Longrightarrow> yields (State_Monad.bind m f) R"
  by (auto simp: yields_def wp_bind intro: wp_mono [OF wp_True])

lemma yields_if: "(b \<Longrightarrow> yields m R) \<Longrightarrow> (\<not> b \<Longrightarrow> yields n R) \<Longrightarrow> yields (if b then m else n) R"
  by simp

lemmas yields_intros = yields_return yields_bind yields_if

lemma pres_bind_yields:
  assumes "yields m R" "preserves I m" "\<And>a. R a \<Longrightarrow> preserves I (f a)"
  shows "preserves I (State_Monad.bind m f)"
proof (rule preservesI)
  fix s assume "I s"
  with assms(1,2) have "wp m (\<lambda>a t. R a \<and> I t) s" by (simp add: yields_def preserves_wp wp_conj)
  with assms(3) show "wp (State_Monad.bind m f) (\<lambda>_. I) s" by (auto simp: wp_bind preserves_wp elim!: wp_mono)
qed

definition gets :: "('s \<Rightarrow> 'a) \<Rightarrow> ('s, 'a) state" where
  "gets f = State_Monad.bind State_Monad.get (\<lambda>s. State_Monad.return (f s))"

lemma wp_gets [wp_simps]: "wp (gets f) Q = (\<lambda>s. Q (f s) s)"
  by (simp add: gets_def wp_simps)

lemma run_gets [simp]: "run_state (gets f) s = (f s, s)"
  by (simp add: gets_def)

lemma pres_gets [pres]: "preserves I (gets f)"
  by (simp add: gets_def pres_bind pres_get pres_return)

definition modify :: "('s \<Rightarrow> 's) \<Rightarrow> ('s, unit) state" where
  "modify f = State_Monad.update f"

lemma wp_modify [wp_simps]: "wp (modify f) Q = (\<lambda>s. Q () (f s))"
  by (simp add: modify_def wp_simps)

lemma run_modify [simp]: "run_state (modify f) s = ((), f s)"
  by (simp add: modify_def State_Monad.update_def)

lemma pres_modify: "(\<And>s. I s \<Longrightarrow> I (f s)) \<Longrightarrow> preserves I (modify f)"
  by (simp add: modify_def pres_update)

abbreviation return :: "'a \<Rightarrow> ('s, 'a) state" where
  "return \<equiv> State_Monad.return"

end
