(* ===== verification/Posix.thy ===== *)
theory Posix
  imports Nuk_Prelude "HOL-Library.AList"
begin

text \<open>
  The operating-system interface the C code is written against: the file-system calls of POSIX with
  their error codes, \<^verbatim>\<open>time\<close>, \<^verbatim>\<open>getuid\<close> and the streams of \<^verbatim>\<open>stdio\<close>.

  A file system maps absolute path names to inodes (type, permission bits, owner, content or link
  target). Every call first checks what POSIX prescribes (existence, type, permission of the parent
  directory and of the file), and the environment may additionally refuse any call with any error:
  \<open>e_fault E t\<close> is the error the \<open>t\<close>-th call of the run meets, if any, and \<open>e_short E t\<close> bounds the
  bytes it transfers; \<open>e_malloc E k\<close> says whether an allocation succeeds. Statements that hold for every environment hold for every pattern of failures.

  The functions of OpenSSL and \<^verbatim>\<open>realpath\<close> are parameters too (fields of \<open>env\<close>). Their results are
  stored in buffers of fixed size, so they are padded or cut to that size where they are used.

  Not modelled: hard links, groups, directory symlinks in the middle of a path (only the last component is
  followed), concurrent changes by other processes, and the buffering of streams.
\<close>

datatype errno = EPERM | ENOENT | EINTR | EIO | EAGAIN | EACCES | EEXIST | ENOTDIR | EISDIR | EINVAL
  | ENOSPC | EROFS | ENOTEMPTY | ELOOP | ENAMETOOLONG | EOTHER int

datatype ftype = S_IFREG | S_IFDIR | S_IFLNK

record inode =
  i_type :: ftype
  i_mode :: "32 word"
  i_uid :: int
  i_data :: string

type_synonym fs = "(string \<times> inode) list"

record env =
  e_fault :: "nat \<Rightarrow> errno option"
  e_short :: "nat \<Rightarrow> nat option"
  e_malloc :: "nat \<Rightarrow> bool"
  e_time :: "nat \<Rightarrow> int"
  e_hour :: "int \<Rightarrow> int"
  e_rand :: "nat \<Rightarrow> nat \<Rightarrow> string option"
  e_pbkdf2 :: "string \<Rightarrow> string \<Rightarrow> nat \<Rightarrow> string option"
  e_sha256 :: "string \<Rightarrow> string"
  e_gcm_enc :: "string \<Rightarrow> string \<Rightarrow> nat \<Rightarrow> string \<Rightarrow> string"
  e_gcm_dec :: "string \<Rightarrow> string \<Rightarrow> nat \<Rightarrow> string \<Rightarrow> string"
  e_gcm_tag :: "string \<Rightarrow> string \<Rightarrow> string \<Rightarrow> string"
  e_gcm_ok :: "string \<Rightarrow> string \<Rightarrow> string \<Rightarrow> string \<Rightarrow> bool"
  e_ctr :: "string \<Rightarrow> string \<Rightarrow> nat \<Rightarrow> string"
  e_uid :: int
  e_euid :: int
  e_pid :: nat
  e_umask :: "32 word"
  e_realpath :: "fs \<Rightarrow> string \<Rightarrow> string option"
  e_home :: "string option"

section \<open>Paths and permissions\<close>

definition fs_get :: "fs \<Rightarrow> string \<Rightarrow> inode option" where
  "fs_get f p = map_of f p"

definition fs_put :: "string \<Rightarrow> inode \<Rightarrow> fs \<Rightarrow> fs" where
  "fs_put p n f = AList.update p n f"

definition fs_del :: "string \<Rightarrow> fs \<Rightarrow> fs" where
  "fs_del p f = AList.delete p f"

lemma fs_get_put: "fs_get (fs_put p n f) q = (if q = p then Some n else fs_get f q)"
  by (simp add: fs_get_def fs_put_def update_conv')

lemma fs_get_del: "fs_get (fs_del p f) q = (if q = p then None else fs_get f q)"
  by (simp add: fs_get_def fs_del_def delete_conv')

lemma fs_get_simps [simp]:
  "fs_get (fs_put p n f) p = Some n" "q \<noteq> p \<Longrightarrow> fs_get (fs_put p n f) q = fs_get f q"
  "fs_get (fs_del p f) p = None" "q \<noteq> p \<Longrightarrow> fs_get (fs_del p f) q = fs_get f q"
  by (simp_all add: fs_get_put fs_get_del)

definition base_name :: "string \<Rightarrow> string" where
  "base_name p = rev (takeWhile (\<lambda>c. c \<noteq> CHR ''/'') (rev p))"

definition parent_dir :: "string \<Rightarrow> string" where
  "parent_dir p = (if CHR ''/'' \<notin> set p then ''.''
     else (case rev (drop 1 (dropWhile (\<lambda>c. c \<noteq> CHR ''/'') (rev p))) of [] \<Rightarrow> ''/'' | d \<Rightarrow> d))"

definition may :: "env \<Rightarrow> inode \<Rightarrow> 32 word \<Rightarrow> bool" where
  "may E n b = (e_euid E = 0 \<or>
     (if e_euid E = i_uid n then drop_bit 6 (i_mode n) AND b = b else i_mode n AND b = b))"

abbreviation R_BIT :: "32 word" where "R_BIT \<equiv> 4"
abbreviation W_BIT :: "32 word" where "W_BIT \<equiv> 2"
abbreviation X_BIT :: "32 word" where "X_BIT \<equiv> 1"

definition search_err :: "env \<Rightarrow> fs \<Rightarrow> string \<Rightarrow> errno option" where
  "search_err E f d = (case fs_get f d of
     None \<Rightarrow> Some ENOENT
   | Some n \<Rightarrow> if i_type n \<noteq> S_IFDIR then Some ENOTDIR
              else if \<not> may E n X_BIT then Some EACCES else None)"

definition write_err :: "env \<Rightarrow> fs \<Rightarrow> string \<Rightarrow> errno option" where
  "write_err E f d = (case fs_get f d of
     None \<Rightarrow> Some ENOENT
   | Some n \<Rightarrow> if may E n W_BIT then None else Some EACCES)"

definition link_target :: "string \<Rightarrow> string \<Rightarrow> string" where
  "link_target p t = (case t of c # _ \<Rightarrow> if c = CHR ''/'' then t else parent_dir p @ ''/'' @ t
                      | [] \<Rightarrow> [])"

fun resolve :: "nat \<Rightarrow> fs \<Rightarrow> string \<Rightarrow> errno + string" where
  "resolve 0 f p = Inl ELOOP"
| "resolve (Suc k) f p = (case fs_get f p of
     None \<Rightarrow> Inr p
   | Some n \<Rightarrow> if i_type n = S_IFLNK then resolve k f (link_target p (i_data n)) else Inr p)"

definition SYMLOOP_MAX :: nat where "SYMLOOP_MAX = 40"

section \<open>The calls, as functions of the file system\<close>

type_synonym 'a call = "fs \<Rightarrow> (errno + 'a) \<times> fs"

definition fs_lstat :: "env \<Rightarrow> string \<Rightarrow> inode call" where
  "fs_lstat E p f = (case search_err E f (parent_dir p) of
     Some e \<Rightarrow> (Inl e, f)
   | None \<Rightarrow> (case fs_get f p of None \<Rightarrow> (Inl ENOENT, f) | Some n \<Rightarrow> (Inr n, f)))"

definition fs_stat :: "env \<Rightarrow> string \<Rightarrow> inode call" where
  "fs_stat E p f = (case resolve SYMLOOP_MAX f p of
     Inl e \<Rightarrow> (Inl e, f)
   | Inr q \<Rightarrow> fs_lstat E q f)"

definition fs_mkdir :: "env \<Rightarrow> string \<Rightarrow> 32 word \<Rightarrow> unit call" where
  "fs_mkdir E p m f = (case search_err E f (parent_dir p) of
     Some e \<Rightarrow> (Inl e, f)
   | None \<Rightarrow>
      (if fs_get f p \<noteq> None then (Inl EEXIST, f)
       else (case write_err E f (parent_dir p) of
          Some e \<Rightarrow> (Inl e, f)
        | None \<Rightarrow> (Inr (), fs_put p \<lparr>i_type = S_IFDIR, i_mode = m AND NOT (e_umask E),
                                 i_uid = e_euid E, i_data = []\<rparr> f))))"

definition fs_chmod :: "env \<Rightarrow> string \<Rightarrow> 32 word \<Rightarrow> unit call" where
  "fs_chmod E p m f = (case resolve SYMLOOP_MAX f p of
     Inl e \<Rightarrow> (Inl e, f)
   | Inr q \<Rightarrow> (case search_err E f (parent_dir q) of
        Some e \<Rightarrow> (Inl e, f)
      | None \<Rightarrow> (case fs_get f q of
           None \<Rightarrow> (Inl ENOENT, f)
         | Some n \<Rightarrow> if e_euid E = 0 \<or> e_euid E = i_uid n
                    then (Inr (), fs_put q (n\<lparr>i_mode := m\<rparr>) f) else (Inl EPERM, f))))"

definition fs_unlink :: "env \<Rightarrow> string \<Rightarrow> unit call" where
  "fs_unlink E p f = (case search_err E f (parent_dir p) of
     Some e \<Rightarrow> (Inl e, f)
   | None \<Rightarrow> (case fs_get f p of
        None \<Rightarrow> (Inl ENOENT, f)
      | Some n \<Rightarrow> if i_type n = S_IFDIR then (Inl EISDIR, f)
                 else (case write_err E f (parent_dir p) of
                    Some e \<Rightarrow> (Inl e, f) | None \<Rightarrow> (Inr (), fs_del p f))))"

definition is_child :: "string \<Rightarrow> string \<Rightarrow> bool" where
  "is_child d p \<longleftrightarrow> prefix (d @ ''/'') p \<and> drop (length d + 1) p \<noteq> []
                   \<and> CHR ''/'' \<notin> set (drop (length d + 1) p)"

definition child_names :: "fs \<Rightarrow> string \<Rightarrow> string list" where
  "child_names f d = map (drop (length d + 1)) (filter (is_child d) (map fst f))"

definition fs_rmdir :: "env \<Rightarrow> string \<Rightarrow> unit call" where
  "fs_rmdir E p f = (case search_err E f (parent_dir p) of
     Some e \<Rightarrow> (Inl e, f)
   | None \<Rightarrow> (case fs_get f p of
        None \<Rightarrow> (Inl ENOENT, f)
      | Some n \<Rightarrow> if i_type n \<noteq> S_IFDIR then (Inl ENOTDIR, f)
                 else if child_names f p \<noteq> [] then (Inl ENOTEMPTY, f)
                 else (case write_err E f (parent_dir p) of
                    Some e \<Rightarrow> (Inl e, f) | None \<Rightarrow> (Inr (), fs_del p f))))"

definition rename_key :: "string \<Rightarrow> string \<Rightarrow> string \<Rightarrow> string" where
  "rename_key a b k = (if k = a then b else if prefix (a @ ''/'') k then b @ drop (length a) k else k)"

definition move_node :: "string \<Rightarrow> string \<Rightarrow> inode \<Rightarrow> fs \<Rightarrow> fs" where
  "move_node a b n f = (if a = b then f
     else if i_type n = S_IFDIR then map (\<lambda>(k, x). (rename_key a b k, x)) (fs_del b f)
     else fs_put b n (fs_del a f))"

definition fs_rename :: "env \<Rightarrow> string \<Rightarrow> string \<Rightarrow> unit call" where
  "fs_rename E a b f = (case search_err E f (parent_dir a) of
     Some e \<Rightarrow> (Inl e, f)
   | None \<Rightarrow> (case search_err E f (parent_dir b) of
     Some e \<Rightarrow> (Inl e, f)
   | None \<Rightarrow> (case fs_get f a of
     None \<Rightarrow> (Inl ENOENT, f)
   | Some n \<Rightarrow> (case write_err E f (parent_dir a) of
     Some e \<Rightarrow> (Inl e, f)
   | None \<Rightarrow> (case write_err E f (parent_dir b) of
     Some e \<Rightarrow> (Inl e, f)
   | None \<Rightarrow> (case fs_get f b of
       None \<Rightarrow> (Inr (), move_node a b n f)
     | Some m \<Rightarrow> if i_type m = S_IFDIR \<and> i_type n \<noteq> S_IFDIR then (Inl EISDIR, f)
                else if i_type m \<noteq> S_IFDIR \<and> i_type n = S_IFDIR then (Inl ENOTDIR, f)
                else if i_type m = S_IFDIR \<and> child_names f b \<noteq> [] then (Inl ENOTEMPTY, f)
                else (Inr (), move_node a b n f)))))))"

definition fs_readdir :: "env \<Rightarrow> string \<Rightarrow> string list call" where
  "fs_readdir E p f = (case resolve SYMLOOP_MAX f p of
     Inl e \<Rightarrow> (Inl e, f)
   | Inr q \<Rightarrow> (case search_err E f (parent_dir q) of
        Some e \<Rightarrow> (Inl e, f)
      | None \<Rightarrow> (case fs_get f q of
           None \<Rightarrow> (Inl ENOENT, f)
         | Some n \<Rightarrow> if i_type n \<noteq> S_IFDIR then (Inl ENOTDIR, f)
                    else if \<not> may E n R_BIT then (Inl EACCES, f)
                    else (Inr (''.'' # ''..'' # child_names f q), f))))"

text \<open>Flags of \<^verbatim>\<open>open(2)\<close> on Linux/x86-64.\<close>

definition O_WRONLY :: "32 word" where "O_WRONLY = 1"
definition O_RDWR :: "32 word" where "O_RDWR = 2"
definition O_CREAT :: "32 word" where "O_CREAT = 64"
definition O_EXCL :: "32 word" where "O_EXCL = 128"
definition O_TRUNC :: "32 word" where "O_TRUNC = 512"
definition O_APPEND :: "32 word" where "O_APPEND = 1024"
definition O_NOFOLLOW :: "32 word" where "O_NOFOLLOW = 131072"

lemmas o_flags = O_WRONLY_def O_RDWR_def O_CREAT_def O_EXCL_def O_TRUNC_def O_APPEND_def O_NOFOLLOW_def

definition flag_set :: "32 word \<Rightarrow> 32 word \<Rightarrow> bool" where
  "flag_set fl b \<longleftrightarrow> fl AND b \<noteq> 0"

definition wants_write :: "32 word \<Rightarrow> bool" where
  "wants_write fl \<longleftrightarrow> flag_set fl O_WRONLY \<or> flag_set fl O_RDWR \<or> flag_set fl O_TRUNC"

definition wants_read :: "32 word \<Rightarrow> bool" where
  "wants_read fl \<longleftrightarrow> \<not> flag_set fl O_WRONLY"

definition open_target :: "fs \<Rightarrow> string \<Rightarrow> 32 word \<Rightarrow> errno + string" where
  "open_target f p fl =
    (if flag_set fl O_CREAT \<and> flag_set fl O_EXCL then Inr p
     else if flag_set fl O_NOFOLLOW then
       (case fs_get f p of Some n \<Rightarrow> if i_type n = S_IFLNK then Inl ELOOP else Inr p | None \<Rightarrow> Inr p)
     else resolve SYMLOOP_MAX f p)"

text \<open>The result of a successful \<open>open\<close> is the path of the file that was opened; it stands for the
  descriptor.\<close>

definition fs_open :: "env \<Rightarrow> string \<Rightarrow> 32 word \<Rightarrow> 32 word \<Rightarrow> string call" where
  "fs_open E p fl m f = (case open_target f p fl of
     Inl e \<Rightarrow> (Inl e, f)
   | Inr q \<Rightarrow> (case search_err E f (parent_dir q) of
        Some e \<Rightarrow> (Inl e, f)
      | None \<Rightarrow> (case fs_get f q of
           None \<Rightarrow>
             (if flag_set fl O_CREAT then
                (case write_err E f (parent_dir q) of
                   Some e \<Rightarrow> (Inl e, f)
                 | None \<Rightarrow> (Inr q, fs_put q \<lparr>i_type = S_IFREG, i_mode = m AND NOT (e_umask E),
                                          i_uid = e_euid E, i_data = []\<rparr> f))
              else (Inl ENOENT, f))
         | Some n \<Rightarrow>
             (if flag_set fl O_CREAT \<and> flag_set fl O_EXCL then (Inl EEXIST, f)
              else if i_type n = S_IFDIR \<and> (wants_write fl \<or> flag_set fl O_CREAT) then (Inl EISDIR, f)
              else if wants_write fl \<and> \<not> may E n W_BIT then (Inl EACCES, f)
              else if wants_read fl \<and> \<not> may E n R_BIT then (Inl EACCES, f)
              else (Inr q, if flag_set fl O_TRUNC then fs_put q (n\<lparr>i_data := []\<rparr>) f else f)))))"

definition fs_content :: "fs \<Rightarrow> string \<Rightarrow> string" where
  "fs_content f p = (case fs_get f p of Some n \<Rightarrow> i_data n | None \<Rightarrow> [])"

text \<open>\<^verbatim>\<open>pwrite\<close>: bytes between the old end and the offset are zero.\<close>

definition splice :: "nat \<Rightarrow> string \<Rightarrow> string \<Rightarrow> string" where
  "splice off b old = take off (old @ replicate (off - length old) NUL) @ b @ drop (off + length b) old"

definition fs_write_at :: "string \<Rightarrow> nat \<Rightarrow> string \<Rightarrow> fs \<Rightarrow> fs" where
  "fs_write_at p off b f = (case fs_get f p of
     None \<Rightarrow> f
   | Some n \<Rightarrow> fs_put p (n\<lparr>i_data := splice off b (i_data n)\<rparr>) f)"

definition fs_append :: "string \<Rightarrow> string \<Rightarrow> fs \<Rightarrow> fs" where
  "fs_append p b f = fs_write_at p (length (fs_content f p)) b f"

section \<open>The calls, as operations of the state monad\<close>

record os =
  o_fs :: fs
  o_tick :: nat

type_synonym ('w, 'a) io = "('w os_scheme, 'a) state"

definition tick :: "('w, nat) io" where
  "tick = do { t \<leftarrow> gets o_tick; modify (\<lambda>s. s\<lparr>o_tick := Suc t\<rparr>); return t }"

definition syscall :: "env \<Rightarrow> 'a call \<Rightarrow> ('w, errno + 'a) io" where
  "syscall E c = do {
     t \<leftarrow> tick;
     case e_fault E t of
       Some e \<Rightarrow> return (Inl e)
     | None \<Rightarrow> do {
         f \<leftarrow> gets o_fs;
         case c f of (r, f') \<Rightarrow> do { modify (\<lambda>s. s\<lparr>o_fs := f'\<rparr>); return r } } }"

definition sys_time :: "env \<Rightarrow> ('w, int) io" where
  "sys_time E = do { t \<leftarrow> tick; return (e_time E t) }"

definition sys_rand :: "env \<Rightarrow> nat \<Rightarrow> ('w, string option) io" where
  "sys_rand E n = do { t \<leftarrow> tick; return (map_option (pad n) (e_rand E t n)) }"

text \<open>An operation of a library that may fail for lack of memory or internally.\<close>

definition lib_ok :: "env \<Rightarrow> ('w, bool) io" where
  "lib_ok E = do { t \<leftarrow> tick; return (e_fault E t = None) }"

text \<open>What a read of the available bytes \<open>b\<close> returns at call \<open>t\<close>, and whether \<^verbatim>\<open>ferror\<close> is set; how many
  of the bytes \<open>b\<close> a write transfers.\<close>

definition fread_result :: "env \<Rightarrow> nat \<Rightarrow> string \<Rightarrow> string \<times> bool" where
  "fread_result E t b = (case e_fault E t of Some _ \<Rightarrow> ([], True)
     | None \<Rightarrow> (case e_short E t of
         Some k \<Rightarrow> if k < length b then (take k b, True) else (b, False)
       | None \<Rightarrow> (b, False)))"

definition fwrite_count :: "env \<Rightarrow> nat \<Rightarrow> string \<Rightarrow> nat" where
  "fwrite_count E t b = (case e_fault E t of Some _ \<Rightarrow> 0
     | None \<Rightarrow> (case e_short E t of Some k \<Rightarrow> min k (length b) | None \<Rightarrow> length b))"

text \<open>\<^verbatim>\<open>fread\<close> of \<open>n\<close> bytes at a position, and \<^verbatim>\<open>fwrite\<close> at the end of the file.\<close>

definition sys_fread :: "env \<Rightarrow> string \<Rightarrow> nat \<Rightarrow> nat \<Rightarrow> ('w, string \<times> bool) io" where
  "sys_fread E p off n = do {
     t \<leftarrow> tick;
     f \<leftarrow> gets o_fs;
     return (fread_result E t (take n (drop off (fs_content f p)))) }"

definition sys_fwrite :: "env \<Rightarrow> string \<Rightarrow> string \<Rightarrow> ('w, nat) io" where
  "sys_fwrite E p b = do {
     t \<leftarrow> tick;
     modify (\<lambda>s. s\<lparr>o_fs := fs_append p (take (fwrite_count E t b) b) (o_fs s)\<rparr>);
     return (fwrite_count E t b) }"

definition sys_pread :: "env \<Rightarrow> string \<Rightarrow> nat \<Rightarrow> nat \<Rightarrow> ('w, errno + string) io" where
  "sys_pread E p off n = do {
     t \<leftarrow> tick;
     f \<leftarrow> gets o_fs;
     let b = take n (drop off (fs_content f p));
     return (case e_fault E t of Some e \<Rightarrow> Inl e
             | None \<Rightarrow> Inr (case e_short E t of Some k \<Rightarrow> take k b | None \<Rightarrow> b)) }"

definition sys_pwrite :: "env \<Rightarrow> string \<Rightarrow> nat \<Rightarrow> string \<Rightarrow> ('w, errno + nat) io" where
  "sys_pwrite E p off b = do {
     t \<leftarrow> tick;
     case e_fault E t of
       Some e \<Rightarrow> return (Inl e)
     | None \<Rightarrow> do {
         let n = (case e_short E t of Some k \<Rightarrow> min k (length b) | None \<Rightarrow> length b);
         modify (\<lambda>s. s\<lparr>o_fs := fs_write_at p off (take n b) (o_fs s)\<rparr>);
         return (Inr n) } }"

abbreviation sys_stat where "sys_stat E p \<equiv> syscall E (fs_stat E p)"
abbreviation sys_lstat where "sys_lstat E p \<equiv> syscall E (fs_lstat E p)"
abbreviation sys_mkdir where "sys_mkdir E p m \<equiv> syscall E (fs_mkdir E p m)"
abbreviation sys_chmod where "sys_chmod E p m \<equiv> syscall E (fs_chmod E p m)"
abbreviation sys_unlink where "sys_unlink E p \<equiv> syscall E (fs_unlink E p)"
abbreviation sys_rmdir where "sys_rmdir E p \<equiv> syscall E (fs_rmdir E p)"
abbreviation sys_rename where "sys_rename E a b \<equiv> syscall E (fs_rename E a b)"
abbreviation sys_opendir where "sys_opendir E p \<equiv> syscall E (fs_readdir E p)"
abbreviation sys_open where "sys_open E p fl m \<equiv> syscall E (fs_open E p fl m)"

text \<open>Permission bits, written in octal in the source.\<close>

definition MODE_0000 :: "32 word" where "MODE_0000 = 0"
definition MODE_0022 :: "32 word" where "MODE_0022 = 0x12"
definition MODE_0400 :: "32 word" where "MODE_0400 = 0x100"
definition MODE_0600 :: "32 word" where "MODE_0600 = 0x180"
definition MODE_0666 :: "32 word" where "MODE_0666 = 0x1B6"
definition MODE_0700 :: "32 word" where "MODE_0700 = 0x1C0"
definition MODE_0777 :: "32 word" where "MODE_0777 = 0x1FF"

lemmas modes = MODE_0000_def MODE_0022_def MODE_0400_def MODE_0600_def MODE_0666_def MODE_0700_def
  MODE_0777_def

text \<open>\<^verbatim>\<open>fopen(p, "rb")\<close> and \<^verbatim>\<open>fopen(p, "wb")\<close>.\<close>

abbreviation sys_fopen_r where "sys_fopen_r E p \<equiv> sys_open E p 0 0"
abbreviation sys_fopen_w where
  "sys_fopen_w E p \<equiv> sys_open E p (O_WRONLY OR O_CREAT OR O_TRUNC) MODE_0666"

section \<open>Reasoning about the calls\<close>

lemma run_tick: "run_state tick s = (o_tick s, s\<lparr>o_tick := Suc (o_tick s)\<rparr>)"
  by (simp add: tick_def)

lemma wp_tick [wp_simps]: "wp tick Q = (\<lambda>s. Q (o_tick s) (s\<lparr>o_tick := Suc (o_tick s)\<rparr>))"
  by (rule ext) (simp add: wp_def run_tick)

lemma run_syscall: "run_state (syscall E c) s =
   (case e_fault E (o_tick s) of
      Some e \<Rightarrow> (Inl e, s\<lparr>o_tick := Suc (o_tick s)\<rparr>)
    | None \<Rightarrow> (case c (o_fs s) of (r, f') \<Rightarrow> (r, s\<lparr>o_tick := Suc (o_tick s), o_fs := f'\<rparr>)))"
  by (simp add: syscall_def run_tick split: option.splits prod.splits)

lemma run_sys_time: "run_state (sys_time E) s = (e_time E (o_tick s), s\<lparr>o_tick := Suc (o_tick s)\<rparr>)"
  by (simp add: sys_time_def run_tick)

lemma wp_sys_time [wp_simps]:
  "wp (sys_time E) Q = (\<lambda>s. Q (e_time E (o_tick s)) (s\<lparr>o_tick := Suc (o_tick s)\<rparr>))"
  by (rule ext) (simp add: wp_def run_sys_time)

lemma wp_sys_rand [wp_simps]:
  "wp (sys_rand E n) Q = (\<lambda>s. Q (map_option (pad n) (e_rand E (o_tick s) n)) (s\<lparr>o_tick := Suc (o_tick s)\<rparr>))"
  by (rule ext) (simp add: sys_rand_def wp_simps)

lemma wp_lib_ok [wp_simps]:
  "wp (lib_ok E) Q = (\<lambda>s. Q (e_fault E (o_tick s) = None) (s\<lparr>o_tick := Suc (o_tick s)\<rparr>))"
  by (rule ext) (simp add: lib_ok_def wp_simps)

text \<open>Predicates of the state that do not look at the file system or the call counter are kept by
  every call.\<close>

definition os_indep :: "('w os_scheme \<Rightarrow> bool) \<Rightarrow> bool" where
  "os_indep I \<longleftrightarrow> (\<forall>s f t. I (s\<lparr>o_fs := f\<rparr>) = I s \<and> I (s\<lparr>o_tick := t\<rparr>) = I s)"

lemma os_indepD [simp]: "os_indep I \<Longrightarrow> I (s\<lparr>o_fs := f\<rparr>) = I s" "os_indep I \<Longrightarrow> I (s\<lparr>o_tick := t\<rparr>) = I s"
  by (simp_all add: os_indep_def)

lemma pres_tick [pres_os]: "os_indep I \<Longrightarrow> preserves I tick"
  by (simp add: preserves_wp wp_simps)

lemma pres_syscall [pres_os]: "os_indep I \<Longrightarrow> preserves I (syscall E c)"
  by (auto simp: preserves_def run_syscall split: option.splits prod.splits)

lemma pres_sys_time [pres_os]: "os_indep I \<Longrightarrow> preserves I (sys_time E)"
  by (simp add: preserves_wp wp_simps)

lemma pres_sys_rand [pres_os]: "os_indep I \<Longrightarrow> preserves I (sys_rand E n)"
  by (simp add: preserves_wp wp_simps)

lemma pres_lib_ok [pres_os]: "os_indep I \<Longrightarrow> preserves I (lib_ok E)"
  by (simp add: preserves_wp wp_simps)

lemma pres_sys_fread [pres_os]: "os_indep I \<Longrightarrow> preserves I (sys_fread E p off n)"
  by (simp add: sys_fread_def preserves_wp wp_simps Let_def)

lemma pres_sys_fwrite [pres_os]: "os_indep I \<Longrightarrow> preserves I (sys_fwrite E p b)"
  by (simp add: sys_fwrite_def preserves_wp wp_simps Let_def)

lemma pres_sys_pread [pres_os]: "os_indep I \<Longrightarrow> preserves I (sys_pread E p off n)"
  by (simp add: sys_pread_def preserves_wp wp_simps Let_def)

lemma pres_sys_pwrite [pres_os]: "os_indep I \<Longrightarrow> preserves I (sys_pwrite E p off b)"
  by (simp add: sys_pwrite_def preserves_wp wp_simps Let_def split: option.splits)

text \<open>Calls that only read keep the file system.\<close>

definition read_only :: "'a call \<Rightarrow> bool" where
  "read_only c \<longleftrightarrow> (\<forall>f. snd (c f) = f)"

lemma read_only_lstat [simp]: "read_only (fs_lstat E p)"
  by (simp add: read_only_def fs_lstat_def split: option.splits)

lemma read_only_stat [simp]: "read_only (fs_stat E p)"
  using read_only_lstat by (auto simp: read_only_def fs_stat_def split: sum.splits)

lemma read_only_readdir [simp]: "read_only (fs_readdir E p)"
  by (simp add: read_only_def fs_readdir_def split: option.splits sum.splits)

lemma pres_fs_read_only: "read_only c \<Longrightarrow> preserves (\<lambda>s. o_fs s = f) (syscall E c)"
  by (auto simp: preserves_def run_syscall read_only_def split: option.splits prod.splits) (metis snd_conv)

lemma pres_fs_others:
  "preserves (\<lambda>s. o_fs s = f) tick" "preserves (\<lambda>s. o_fs s = f) (sys_time E)"
  "preserves (\<lambda>s. o_fs s = f) (sys_rand E n)" "preserves (\<lambda>s. o_fs s = f) (lib_ok E)"
  "preserves (\<lambda>s. o_fs s = f) (sys_fread E p off n)" "preserves (\<lambda>s. o_fs s = f) (sys_pread E p off n)"
  by (simp_all add: preserves_wp wp_simps sys_fread_def sys_pread_def Let_def)

text \<open>A call that fails leaves the file system as it was.\<close>

lemma syscall_Inl:
  assumes "run_state (syscall E c) s = (Inl e, t)" and "\<And>f e g. c f = (Inl e, g) \<Longrightarrow> g = f"
  shows "o_fs t = o_fs s"
  using assms by (auto simp: run_syscall split: option.splits prod.splits)

lemma fs_rename_Inl: "fs_rename E a b f = (Inl e, g) \<Longrightarrow> g = f"
  by (auto simp: fs_rename_def split: option.splits if_splits)

lemma fs_rename_file:
  assumes "fs_rename E a b f = (Inr (), g)" and "fs_get f a = Some n" and "i_type n = S_IFREG"
  shows "fs_get g b = Some n" and "a \<noteq> b \<Longrightarrow> fs_get g a = None" and "q \<noteq> a \<Longrightarrow> q \<noteq> b \<Longrightarrow> fs_get g q = fs_get f q"
  using assms by (auto simp: fs_rename_def move_node_def split: option.splits if_splits)

lemma splice_end [simp]: "splice (length old) b old = old @ b"
  by (simp add: splice_def)

lemma fs_content_append: "fs_get f p \<noteq> None \<Longrightarrow> fs_content (fs_append p b f) p = fs_content f p @ b"
  by (auto simp: fs_content_def fs_append_def fs_write_at_def)

lemma fs_append_other: "q \<noteq> p \<Longrightarrow> fs_get (fs_append p b f) q = fs_get f q"
  by (auto simp: fs_append_def fs_write_at_def split: option.splits)

lemma fs_put_put [simp]: "fs_put p n (fs_put p m f) = fs_put p n f"
  unfolding fs_put_def by (induction f) auto

lemma fs_put_same [simp]: "fs_get f p = Some n \<Longrightarrow> fs_put p n f = f"
  unfolding fs_put_def fs_get_def by (induction f) (auto split: if_splits)

lemma fs_append_put: "fs_get f p = Some n \<Longrightarrow> fs_append p b f = fs_put p (n\<lparr>i_data := i_data n @ b\<rparr>) f"
  by (simp add: fs_append_def fs_write_at_def fs_content_def)

lemma fold_fs_append:
  "fs_get f p = Some n \<Longrightarrow>
   fold (fs_append p) bs f = fs_put p (n\<lparr>i_data := i_data n @ concat bs\<rparr>) f"
  by (induction bs arbitrary: f n) (simp_all add: fs_append_put)

text \<open>An environment in which no call fails.\<close>

definition reliable :: "env \<Rightarrow> bool" where
  "reliable E \<longleftrightarrow> (\<forall>t. e_fault E t = None \<and> e_short E t = None \<and> e_malloc E t)"

lemma reliableD [simp]: "reliable E \<Longrightarrow> e_fault E t = None" "reliable E \<Longrightarrow> e_short E t = None"
  "reliable E \<Longrightarrow> e_malloc E t"
  by (simp_all add: reliable_def)

section \<open>Reading a stream to its end\<close>

definition alloc_ok :: "env \<Rightarrow> ('w, bool) io" where
  "alloc_ok E = do { t \<leftarrow> tick; return (e_malloc E t) }"

lemma wp_alloc_ok [wp_simps]:
  "wp (alloc_ok E) Q = (\<lambda>s. Q (e_malloc E (o_tick s)) (s\<lparr>o_tick := Suc (o_tick s)\<rparr>))"
  by (rule ext) (simp add: alloc_ok_def wp_simps)

lemma pres_alloc_ok [pres_os]: "os_indep I \<Longrightarrow> preserves I (alloc_ok E)"
  by (simp add: preserves_wp wp_simps)

text \<open>
  \<^verbatim>\<open>while ((n = fread(buf, 1, blk, fp)) > 0) { body }\<close>: \<open>f off b s\<close> is the body on the block \<open>b\<close> read at
  offset \<open>off\<close>, with the variables \<open>s\<close> it changes; \<open>Inl\<close> is its \<^verbatim>\<open>goto cleanup\<close>. The result at the end of
  the stream says whether \<^verbatim>\<open>ferror\<close> is set. Every round consumes a byte of the file, so one more
  round than the file has bytes is enough (\<open>while_read_rule\<close>).
\<close>

fun while_read :: "nat \<Rightarrow> env \<Rightarrow> string \<Rightarrow> nat \<Rightarrow> nat \<Rightarrow> (nat \<Rightarrow> string \<Rightarrow> 's \<Rightarrow> ('w, 'e + 's) io) \<Rightarrow> 's
    \<Rightarrow> ('w, 'e + 's \<times> bool) io" where
  "while_read 0 E p blk off f s = return (Inr (s, False))"
| "while_read (Suc k) E p blk off f s = do {
     (b, err) \<leftarrow> sys_fread E p off blk;
     if b = [] then return (Inr (s, err))
     else do {
       r \<leftarrow> f off b s;
       case r of
         Inl e \<Rightarrow> return (Inl e)
       | Inr s' \<Rightarrow> do {
           t \<leftarrow> while_read k E p blk (off + length b) f s';
           return (case t of Inl e \<Rightarrow> Inl e | Inr (s'', err') \<Rightarrow> Inr (s'', err \<or> err')) } } }"

definition read_loop :: "env \<Rightarrow> string \<Rightarrow> nat \<Rightarrow> (nat \<Rightarrow> string \<Rightarrow> 's \<Rightarrow> ('w, 'e + 's) io) \<Rightarrow> 's
    \<Rightarrow> ('w, 'e + 's \<times> bool) io" where
  "read_loop E p blk f s = do {
     fs \<leftarrow> gets o_fs;
     while_read (Suc (length (fs_content fs p))) E p blk 0 f s }"

lemma fread_result: "prefix (fst (fread_result E t b)) b" "\<not> snd (fread_result E t b) \<Longrightarrow> fst (fread_result E t b) = b"
  by (simp_all add: fread_result_def take_is_prefix split: option.splits if_splits)

lemma fread_result_reliable [simp]: "reliable E \<Longrightarrow> fread_result E t b = (b, False)"
  by (simp add: fread_result_def)

lemma fwrite_count_le: "fwrite_count E t b \<le> length b"
  by (simp add: fwrite_count_def split: option.splits)

lemma fwrite_count_reliable [simp]: "reliable E \<Longrightarrow> fwrite_count E t b = length b"
  by (simp add: fwrite_count_def)

lemma wp_sys_fread [wp_simps]:
  "wp (sys_fread E p off n) Q = (\<lambda>s. Q (fread_result E (o_tick s) (take n (drop off (fs_content (o_fs s) p)))) (s\<lparr>o_tick := Suc (o_tick s)\<rparr>))"
  by (rule ext) (simp add: sys_fread_def wp_simps)

lemma wp_sys_fwrite [wp_simps]:
  "wp (sys_fwrite E p b) Q = (\<lambda>s. Q (fwrite_count E (o_tick s) b)
       (s\<lparr>o_tick := Suc (o_tick s), o_fs := fs_append p (take (fwrite_count E (o_tick s) b) b) (o_fs s)\<rparr>))"
  by (rule ext) (simp add: sys_fwrite_def wp_simps)

lemma wp_syscall [wp_simps]: "wp (syscall E c) Q = (\<lambda>s. (case e_fault E (o_tick s) of
      Some e \<Rightarrow> Q (Inl e) (s\<lparr>o_tick := Suc (o_tick s)\<rparr>)
    | None \<Rightarrow> Q (fst (c (o_fs s))) (s\<lparr>o_tick := Suc (o_tick s), o_fs := snd (c (o_fs s))\<rparr>)))"
  by (rule ext) (simp add: wp_def run_syscall split: option.splits prod.splits)

text \<open>The loop invariant \<open>I off s w\<close> holds between rounds when \<open>off\<close> bytes have been consumed; \<open>X\<close> is
  what an exit by \<^verbatim>\<open>goto\<close> establishes. At the end of an error-free stream all bytes were consumed.\<close>

lemma while_read_rule:
  assumes body: "\<And>off b s w. I off s w \<Longrightarrow> fs_content (o_fs w) p = c \<Longrightarrow> b \<noteq> [] \<Longrightarrow>
      prefix b (take blk (drop off c)) \<Longrightarrow> (reliable E \<longrightarrow> b = take blk (drop off c)) \<Longrightarrow>
      wp (f off b s) (\<lambda>r w'. case r of Inl e \<Rightarrow> X e w'
         | Inr s' \<Rightarrow> I (off + length b) s' w' \<and> fs_content (o_fs w') p = c) w"
    and ticks: "\<And>off s w t. I off s w \<Longrightarrow> I off s (w\<lparr>o_tick := t\<rparr>)"
    and start: "I off s w" "fs_content (o_fs w) p = c" "off \<le> length c" "length c - off < k" "0 < blk"
  shows "wp (while_read k E p blk off f s)
     (\<lambda>r w'. case r of Inl e \<Rightarrow> X e w'
       | Inr (s', err) \<Rightarrow> \<exists>n \<le> length c. I n s' w' \<and> (\<not> err \<longrightarrow> n = length c)) w"
  using start
proof (induction k arbitrary: off s w)
  case 0
  then show ?case by simp
next
  case (Suc k)
  let ?w = "w\<lparr>o_tick := Suc (o_tick w)\<rparr>"
  obtain b err where b: "fread_result E (o_tick w) (take blk (drop off c)) = (b, err)" by fastforce
  have pre: "prefix b (take blk (drop off c))" and full: "\<not> err \<Longrightarrow> b = take blk (drop off c)"
    using fread_result [of E "o_tick w" "take blk (drop off c)"] b by simp_all
  have rel: "reliable E \<longrightarrow> b = take blk (drop off c)" using b by auto
  show ?case
  proof (cases "b = []")
    case True
    then have "\<not> err \<Longrightarrow> off = length c" using full Suc.prems by auto
    then show ?thesis using True b Suc.prems ticks [OF Suc.prems(1)] by (auto simp: wp_simps intro!: exI [of _ off])
  next
    case False
    have "length b \<le> length c - off" using prefix_length_le [OF pre] by simp
    then have off: "off + length b \<le> length c" "length c - (off + length b) < k"
      using Suc.prems(3,4) False by (auto simp: Suc_le_eq diff_less_mono2 length_greater_0_conv simp flip: length_greater_0_conv)
    have "wp (f off b s) (\<lambda>r w'. case r of Inl e \<Rightarrow> X e w'
         | Inr s' \<Rightarrow> I (off + length b) s' w' \<and> fs_content (o_fs w') p = c) ?w"
      using body [OF ticks [OF Suc.prems(1)] _ False pre rel] Suc.prems(2) by simp
    then have "wp (f off b s) (\<lambda>r w'. case r of Inl e \<Rightarrow> X e w'
         | Inr s' \<Rightarrow> wp (while_read k E p blk (off + length b) f s')
             (\<lambda>r w'. case r of Inl e \<Rightarrow> X e w'
               | Inr (s', err) \<Rightarrow> \<exists>n \<le> length c. I n s' w' \<and> (\<not> err \<longrightarrow> n = length c)) w') ?w"
    proof (rule wp_mono)
      fix r t
      assume "case r of Inl e \<Rightarrow> X e t | Inr s' \<Rightarrow> I (off + length b) s' t \<and> fs_content (o_fs t) p = c"
      then show "case r of Inl e \<Rightarrow> X e t
         | Inr s' \<Rightarrow> wp (while_read k E p blk (off + length b) f s')
             (\<lambda>r w'. case r of Inl e \<Rightarrow> X e w'
               | Inr (s', err) \<Rightarrow> \<exists>n \<le> length c. I n s' w' \<and> (\<not> err \<longrightarrow> n = length c)) t"
        using Suc.IH [OF _ _ off Suc.prems(5)] by (cases r) simp_all
    qed
    then show ?thesis
      using False b Suc.prems(2)
      by (auto simp: wp_simps elim!: wp_mono split: sum.splits) (blast intro: order_refl)+
  qed
qed

lemma read_loop_rule:
  assumes "\<And>off b s w. I off s w \<Longrightarrow> fs_content (o_fs w) p = c \<Longrightarrow> b \<noteq> [] \<Longrightarrow>
      prefix b (take blk (drop off c)) \<Longrightarrow> (reliable E \<longrightarrow> b = take blk (drop off c)) \<Longrightarrow>
      wp (f off b s) (\<lambda>r w'. case r of Inl e \<Rightarrow> X e w'
         | Inr s' \<Rightarrow> I (off + length b) s' w' \<and> fs_content (o_fs w') p = c) w"
    and "\<And>off s w t. I off s w \<Longrightarrow> I off s (w\<lparr>o_tick := t\<rparr>)"
    and "I 0 s w" "fs_content (o_fs w) p = c" "0 < blk"
  shows "wp (read_loop E p blk f s)
     (\<lambda>r w'. case r of Inl e \<Rightarrow> X e w'
       | Inr (s', err) \<Rightarrow> \<exists>n \<le> length c. I n s' w' \<and> (\<not> err \<longrightarrow> n = length c)) w"
proof -
  have "wp (while_read (Suc (length c)) E p blk 0 f s)
     (\<lambda>r w'. case r of Inl e \<Rightarrow> X e w'
       | Inr (s', err) \<Rightarrow> \<exists>n \<le> length c. I n s' w' \<and> (\<not> err \<longrightarrow> n = length c)) w"
    by (rule while_read_rule [where I = I, OF assms(1,2,3,4) _ _ assms(5)]) simp_all
  then show ?thesis unfolding read_loop_def wp_bind wp_gets assms(4) .
qed

text \<open>In an environment without failures the error flag stays clear.\<close>

lemma while_read_no_err:
  "reliable E \<Longrightarrow> wp (while_read k E p blk off f s) (\<lambda>r _. case r of Inl _ \<Rightarrow> True | Inr x \<Rightarrow> \<not> snd x) w"
proof (induction k arbitrary: off s w)
  case (Suc k)
  note IH = Suc.IH [OF Suc.prems]
  have step: "wp (f off b s) (\<lambda>r w'. \<forall>s'. r = Inr s' \<longrightarrow> wp (while_read k E p blk (off + length b) f s')
      (\<lambda>r _. case r of Inl _ \<Rightarrow> True | Inr x \<Rightarrow> \<not> snd x) w') v" for b v
    by (rule wpI) (simp add: IH)
  show ?case
    using Suc.prems
    by (simp add: wp_simps)
       (auto simp: wp_simps case_prod_beta intro!: wp_mono [OF step] elim!: wp_mono split: sum.splits)
qed (simp add: wp_simps)

lemma pres_while_read [pres]:
  assumes "\<And>off n. preserves I (sys_fread E p off n)" "\<And>off b s. preserves I (f off b s)"
  shows "preserves I (while_read k E p blk off f s)"
  using assms(2) by (induction k arbitrary: off s) (auto intro!: pres assms(1))

lemma pres_read_loop [pres]:
  "(\<And>off n. preserves I (sys_fread E p off n)) \<Longrightarrow> (\<And>off b s. preserves I (f off b s)) \<Longrightarrow>
   preserves I (read_loop E p blk f s)"
  by (auto simp: read_loop_def intro!: pres)

end
