(* ===== verification/Vault_Types.thy ===== *)
theory Vault_Types
  imports Posix
begin

text \<open>
  The data of \<^verbatim>\<open>c_src/vault/vault_core.h\<close>: constants, enumerations, the vault record, the
  catalog, the rule table, and the global state the vault subsystem works on.

  An enumeration that is read back from the catalog file can hold any 32-bit value, so
  \<open>VaultType\<close> and \<open>VaultStatus\<close> have a constructor for the values the header does not name.
  Text fields hold their C string, byte arrays their raw bytes. \<^verbatim>\<open>g_catalog.vaults[0 .. count-1]\<close>
  is the list \<open>c_vaults\<close>, so \<open>count\<close> is its length; a \<^verbatim>\<open>Vault *\<close> into the array is an index.
  The credits of a file bucket, a \<^verbatim>\<open>double\<close> that only ever changes by multiples of 0.025, are
  counted in fortieths.
\<close>

section \<open>Constants\<close>

definition VAULT_NAME_MAX :: nat where "VAULT_NAME_MAX = 128"
definition VAULT_PATH_MAX :: nat where "VAULT_PATH_MAX = 512"
definition PATH_MAX :: nat where "PATH_MAX = 4096"
definition NAME_MAX :: nat where "NAME_MAX = 255"
definition MAX_VAULTS :: nat where "MAX_VAULTS = 2048"
definition MAX_FILES_PER_VAULT :: nat where "MAX_FILES_PER_VAULT = 4096"
definition HASH_HEX_LEN :: nat where "HASH_HEX_LEN = 65"
definition SALT_LEN :: nat where "SALT_LEN = 32"
definition KEY_LEN :: nat where "KEY_LEN = 32"
definition PBKDF2_ITER :: nat where "PBKDF2_ITER = 310000"
definition MAX_PASS_ATTEMPTS :: int where "MAX_PASS_ATTEMPTS = 3"
definition MAX_PASS_LEN :: nat where "MAX_PASS_LEN = 256"
definition GCM_IV_LEN :: nat where "GCM_IV_LEN = 12"
definition GCM_TAG_LEN :: nat where "GCM_TAG_LEN = 16"
definition CATALOG_MAGIC :: string where "CATALOG_MAGIC = ''VLTS''"
definition CATALOG_VER :: "8 word" where "CATALOG_VER = 3"
definition FCOUNT_MAX :: nat where "FCOUNT_MAX = 1000"
definition MAX_RULES :: nat where "MAX_RULES = 64"
definition HASHMAP_BUCKETS :: nat where "HASHMAP_BUCKETS = 256"

lemmas sizes = VAULT_NAME_MAX_def VAULT_PATH_MAX_def PATH_MAX_def NAME_MAX_def MAX_VAULTS_def
  MAX_FILES_PER_VAULT_def HASH_HEX_LEN_def SALT_LEN_def KEY_LEN_def GCM_IV_LEN_def GCM_TAG_LEN_def
  FCOUNT_MAX_def MAX_RULES_def HASHMAP_BUCKETS_def

definition ALERT_INTERVALS :: "int list" where
  "ALERT_INTERVALS = [300, 600, 900, 1800, 3600, 7200, 14400, 28800, 43200, 86400, 172800, 259200,
     604800, 1209600, 1814400, 2592000, 5184000, 7776000, 15552000, 31536000]"

definition NUM_ALERT_INTERVALS :: nat where "NUM_ALERT_INTERVALS = length ALERT_INTERVALS"

section \<open>Enumerations\<close>

datatype VaultType = VAULT_TYPE_NORMAL | VAULT_TYPE_PROTECTED | VAULT_TYPE_RAW "32 word"

datatype VaultStatus = VAULT_STATUS_OK | VAULT_STATUS_LOCKED | VAULT_STATUS_ALERT
  | VAULT_STATUS_DELETED | VAULT_STATUS_RAW "32 word"

definition type_code :: "VaultType \<Rightarrow> 32 word" where
  "type_code t = (case t of VAULT_TYPE_NORMAL \<Rightarrow> 0 | VAULT_TYPE_PROTECTED \<Rightarrow> 1 | VAULT_TYPE_RAW w \<Rightarrow> w)"

definition type_of_code :: "32 word \<Rightarrow> VaultType" where
  "type_of_code w = (if w = 0 then VAULT_TYPE_NORMAL else if w = 1 then VAULT_TYPE_PROTECTED
                     else VAULT_TYPE_RAW w)"

definition status_code :: "VaultStatus \<Rightarrow> 32 word" where
  "status_code t = (case t of VAULT_STATUS_OK \<Rightarrow> 0 | VAULT_STATUS_LOCKED \<Rightarrow> 1 | VAULT_STATUS_ALERT \<Rightarrow> 2
     | VAULT_STATUS_DELETED \<Rightarrow> 3 | VAULT_STATUS_RAW w \<Rightarrow> w)"

definition status_of_code :: "32 word \<Rightarrow> VaultStatus" where
  "status_of_code w = (if w = 0 then VAULT_STATUS_OK else if w = 1 then VAULT_STATUS_LOCKED
     else if w = 2 then VAULT_STATUS_ALERT else if w = 3 then VAULT_STATUS_DELETED
     else VAULT_STATUS_RAW w)"

definition type_ok :: "VaultType \<Rightarrow> bool" where
  "type_ok t \<longleftrightarrow> type_of_code (type_code t) = t"

definition status_ok :: "VaultStatus \<Rightarrow> bool" where
  "status_ok t \<longleftrightarrow> status_of_code (status_code t) = t"

lemma type_ok_simps [simp]: "type_ok VAULT_TYPE_NORMAL" "type_ok VAULT_TYPE_PROTECTED"
  "type_ok (type_of_code w)"
  by (simp_all add: type_ok_def type_of_code_def type_code_def)

lemma status_ok_simps [simp]: "status_ok VAULT_STATUS_OK" "status_ok VAULT_STATUS_LOCKED"
  "status_ok VAULT_STATUS_ALERT" "status_ok VAULT_STATUS_DELETED" "status_ok (status_of_code w)"
  by (simp_all add: status_ok_def status_of_code_def status_code_def)

datatype LogLevel = LOG_INFO | LOG_WARN | LOG_ERROR | LOG_ALERT | LOG_AUDIT

datatype VaultErrorr = ERR_OK | ERR_INVALID_ARGS | ERR_NO_MEMORY | ERR_IO | ERR_CRYPTO | ERR_AUTH_FAIL
  | ERR_VAULT_LOCKED | ERR_VAULT_EXISTS | ERR_VAULT_NOT_FOUND | ERR_PERM_DENIED | ERR_CATALOG_FULL
  | ERR_PATH_INVALID | ERR_PASS_REQUIRED | ERR_INTEGRITY | ERR_SYSTEM | ERR_SYSTEM_UNSHARE_FAILED
  | ERR_SYSTEM_MOUNT_FAILED | ERR_SYSTEM_PIVOT_ROOT_FAILED | ERR_SYSTEM_CLONE_FAILED

definition err_code :: "VaultErrorr \<Rightarrow> int" where
  "err_code e = (case e of ERR_OK \<Rightarrow> 0 | ERR_INVALID_ARGS \<Rightarrow> -1 | ERR_NO_MEMORY \<Rightarrow> -2 | ERR_IO \<Rightarrow> -3
     | ERR_CRYPTO \<Rightarrow> -4 | ERR_AUTH_FAIL \<Rightarrow> -5 | ERR_VAULT_LOCKED \<Rightarrow> -6 | ERR_VAULT_EXISTS \<Rightarrow> -7
     | ERR_VAULT_NOT_FOUND \<Rightarrow> -8 | ERR_PERM_DENIED \<Rightarrow> -9 | ERR_CATALOG_FULL \<Rightarrow> -10 | ERR_PATH_INVALID \<Rightarrow> -11
     | ERR_PASS_REQUIRED \<Rightarrow> -12 | ERR_INTEGRITY \<Rightarrow> -13 | ERR_SYSTEM \<Rightarrow> -14 | ERR_SYSTEM_UNSHARE_FAILED \<Rightarrow> -15
     | ERR_SYSTEM_MOUNT_FAILED \<Rightarrow> -16 | ERR_SYSTEM_PIVOT_ROOT_FAILED \<Rightarrow> -17 | ERR_SYSTEM_CLONE_FAILED \<Rightarrow> -18)"

section \<open>Structures\<close>

record FileEntry =
  fe_name :: string
  fe_hash :: string
  fe_last_seen :: int
  fe_modified :: bool

record FileHashMap =
  hm_buckets :: "FileEntry list list"
  hm_count :: nat

record AlertState =
  al_first :: int
  al_last :: int
  al_idx :: "64 word"
  al_count :: "64 word"
  al_reason :: string

record FileBucket =
  fb_path :: string
  fb_credits :: int
  fb_last_update :: int
  fb_time_esgoted :: int
  fb_flash :: int

record Vault =
  v_id :: "32 word"
  v_name :: string
  v_type :: VaultType
  v_status :: VaultStatus
  v_has_pass :: bool
  v_path :: string
  v_cipher :: string
  v_mounted :: bool
  v_created :: int
  v_last_check :: int
  v_failed :: int
  v_salt :: string
  v_pass_hash :: string
  v_map :: FileHashMap
  v_alert :: AlertState
  v_fan_wd :: int
  v_write_mode :: bool
  v_worm :: "32 word"
  v_fbuckets :: "FileBucket list"
  v_bucket_credits :: int
  v_engine :: int

record Catalog =
  c_vaults :: "Vault list"
  c_next_id :: "32 word"
  c_category :: string
  c_mac_mode :: "8 word"

record VaultRule =
  r_vault_id :: "32 word"
  r_max_fails :: int
  r_from :: int
  r_to :: int

text \<open>\<^verbatim>\<open>g_monitor.lock\<close>, a default (not recursive) mutex: taking it while it is held, or using it after its
  destruction, is misuse.\<close>

datatype mutex = MUTEX_FREE | MUTEX_HELD | MUTEX_DESTROYED | MUTEX_MISUSED

text \<open>The globals of \<^verbatim>\<open>vault_catalog.c\<close>, \<^verbatim>\<open>vault_ffi.c\<close> and
  \<^verbatim>\<open>vault_engine.c\<close>, on top of the operating system's state.\<close>

record world = os +
  g_catalog :: Catalog
  g_rules :: "VaultRule list"
  g_pids :: "nat list"
  g_seed :: "32 word"
  g_catalog_path :: string
  g_catalog_file :: string
  g_log_file :: string
  g_lock_file :: string
  g_log_open :: bool
  g_mon_running :: bool
  g_mon_started :: bool
  g_fan_fd :: int
  g_running :: bool
  g_mutex :: mutex

type_synonym 'a vio = "(world, 'a) state"

section \<open>Zeroed structures\<close>

definition empty_map :: FileHashMap where
  "empty_map = \<lparr>hm_buckets = replicate HASHMAP_BUCKETS [], hm_count = 0\<rparr>"

definition zero_alert :: AlertState where
  "zero_alert = \<lparr>al_first = 0, al_last = 0, al_idx = 0, al_count = 0, al_reason = []\<rparr>"

text \<open>\<^verbatim>\<open>memset(v, 0, sizeof(Vault))\<close>\<close>

definition zero_vault :: Vault where
  "zero_vault = \<lparr>v_id = 0, v_name = [], v_type = VAULT_TYPE_NORMAL, v_status = VAULT_STATUS_OK,
     v_has_pass = False, v_path = [], v_cipher = [], v_mounted = False, v_created = 0, v_last_check = 0,
     v_failed = 0, v_salt = replicate SALT_LEN NUL, v_pass_hash = replicate 32 NUL, v_map = empty_map,
     v_alert = zero_alert, v_fan_wd = 0, v_write_mode = False, v_worm = 0, v_fbuckets = [], v_bucket_credits = 0, v_engine = 0\<rparr>"

section \<open>WORM flags\<close>

definition WORM_PROTECT_DELETE :: "32 word" where "WORM_PROTECT_DELETE = 1"
definition WORM_PROTECT_RENAME :: "32 word" where "WORM_PROTECT_RENAME = 2"
definition WORM_PROTECT_WRITE :: "32 word" where "WORM_PROTECT_WRITE = 4"
definition WORM_PROTECT_SCAN :: "32 word" where "WORM_PROTECT_SCAN = 8"
definition WORM_PROTECT_READ :: "32 word" where "WORM_PROTECT_READ = 16"
definition WORM_PROTECT_ALL :: "32 word" where
  "WORM_PROTECT_ALL = WORM_PROTECT_DELETE OR WORM_PROTECT_READ OR WORM_PROTECT_RENAME OR WORM_PROTECT_WRITE"

lemmas worm_flags = WORM_PROTECT_DELETE_def WORM_PROTECT_RENAME_def WORM_PROTECT_WRITE_def
  WORM_PROTECT_SCAN_def WORM_PROTECT_READ_def WORM_PROTECT_ALL_def

definition worm_check :: "Vault option \<Rightarrow> 32 word \<Rightarrow> bool" where
  "worm_check vo flag = (case vo of None \<Rightarrow> False
     | Some v \<Rightarrow> if v_worm v AND WORM_PROTECT_SCAN \<noteq> 0 then flag AND WORM_PROTECT_ALL \<noteq> 0
                else v_worm v AND flag \<noteq> 0)"

section \<open>Reading and writing the vault array\<close>

definition get_vault :: "nat \<Rightarrow> Vault vio" where
  "get_vault i = gets (\<lambda>w. c_vaults (g_catalog w) ! i)"

definition upd_vaults :: "(Vault list \<Rightarrow> Vault list) \<Rightarrow> world \<Rightarrow> world" where
  "upd_vaults f w = w\<lparr>g_catalog := (g_catalog w)\<lparr>c_vaults := f (c_vaults (g_catalog w))\<rparr>\<rparr>"

definition mod_vault :: "nat \<Rightarrow> (Vault \<Rightarrow> Vault) \<Rightarrow> unit vio" where
  "mod_vault i f = modify (upd_vaults (\<lambda>vs. vs[i := f (vs ! i)]))"

abbreviation vaults :: "world \<Rightarrow> Vault list" where
  "vaults w \<equiv> c_vaults (g_catalog w)"

lemma upd_vaults_simps [simp]:
  "vaults (upd_vaults f w) = f (vaults w)" "c_next_id (g_catalog (upd_vaults f w)) = c_next_id (g_catalog w)"
  "o_fs (upd_vaults f w) = o_fs w" "o_tick (upd_vaults f w) = o_tick w"
  "g_catalog_file (upd_vaults f w) = g_catalog_file w" "g_catalog_path (upd_vaults f w) = g_catalog_path w"
  "g_rules (upd_vaults f w) = g_rules w" "g_pids (upd_vaults f w) = g_pids w"
  "g_seed (upd_vaults f w) = g_seed w"
  "c_category (g_catalog (upd_vaults f w)) = c_category (g_catalog w)"
  "c_mac_mode (g_catalog (upd_vaults f w)) = c_mac_mode (g_catalog w)"
  by (simp_all add: upd_vaults_def)

lemma wp_get_vault [wp_simps]: "wp (get_vault i) Q = (\<lambda>w. Q (vaults w ! i) w)"
  by (simp add: get_vault_def wp_simps)

lemma wp_mod_vault [wp_simps]:
  "wp (mod_vault i f) Q = (\<lambda>w. Q () (upd_vaults (\<lambda>vs. vs[i := f (vs ! i)]) w))"
  by (simp add: mod_vault_def wp_simps)

lemma pres_get_vault [pres]: "preserves I (get_vault i)"
  by (simp add: get_vault_def pres_gets)

text \<open>Predicates of the catalog alone are independent of the operating system.\<close>

lemma os_indep_catalog [simp]: "os_indep (\<lambda>w :: world. P (g_catalog w))"
  by (simp add: os_indep_def)

lemma os_indep_catalog_eq [simp]: "os_indep (\<lambda>w :: world. g_catalog w = c)"
  by (simp add: os_indep_def)

section \<open>Size as a library class\<close>

text \<open>The size of a file table is the number of entries on its chains.\<close>

definition file_count :: "FileHashMap \<Rightarrow> nat" where
  "file_count m = sum_list (map length (hm_buckets m))"

end
