(* ===== verification/Vault_Text.thy ===== *)
theory Vault_Text
  imports Vault_Types
begin

text \<open>
  The string handling of \<^verbatim>\<open>c_src/vault/vault_crypto.c\<close>, sections 1 to 3: the formatting of log
  records, the error texts, and the sanitising of arguments, paths and names.

  A log record goes to the terminal and to the log file and is never read back by the program, so
  \<open>vault_log\<close> is the function from a formatted message to the lines written; the other theories leave
  the calls of \<^verbatim>\<open>vault_log\<close> out. A pointer argument that may be NULL is a \<open>string option\<close>.
\<close>

section \<open>Log records\<close>

abbreviation BACKSLASH :: char where "BACKSLASH \<equiv> CHR 0x5C"
abbreviation DQUOTE :: char where "DQUOTE \<equiv> CHR 0x22"
abbreviation SQUOTE :: char where "SQUOTE \<equiv> CHR 0x27"
abbreviation NL :: char where "NL \<equiv> CHR 0x0A"
abbreviation CR :: char where "CR \<equiv> CHR 0x0D"
abbreviation TAB :: char where "TAB \<equiv> CHR 0x09"

definition log_level_str :: "LogLevel \<Rightarrow> string" where
  "log_level_str lvl = (case lvl of LOG_INFO \<Rightarrow> ''INFO '' | LOG_WARN \<Rightarrow> ''WARN '' | LOG_ERROR \<Rightarrow> ''ERROR''
     | LOG_ALERT \<Rightarrow> ''ALERT'' | LOG_AUDIT \<Rightarrow> ''AUDIT'')"

text \<open>The loop of \<^verbatim>\<open>escape_json_string\<close>: \<open>n\<close> is \<^verbatim>\<open>dst_size\<close>, the last argument the output index \<open>j\<close>.\<close>

fun escape_loop :: "nat \<Rightarrow> string \<Rightarrow> nat \<Rightarrow> string" where
  "escape_loop n [] j = []"
| "escape_loop n (c # s) j =
     (if \<not> j < n - 2 then []
      else if c = NL then (if n - 3 \<le> j then [] else BACKSLASH # CHR ''n'' # escape_loop n s (j + 2))
      else if c = CR then (if n - 3 \<le> j then [] else BACKSLASH # CHR ''r'' # escape_loop n s (j + 2))
      else if c = TAB then (if n - 3 \<le> j then [] else BACKSLASH # CHR ''t'' # escape_loop n s (j + 2))
      else if c = DQUOTE \<or> c = BACKSLASH then
        (if n - 3 \<le> j then [] else BACKSLASH # c # escape_loop n s (j + 2))
      else c # escape_loop n s (j + 1))"

definition escape_json_string :: "string \<Rightarrow> nat \<Rightarrow> string" where
  "escape_json_string src dst_size = escape_loop dst_size src 0"

datatype stream = STDOUT | STDERR

text \<open>\<open>vault_log lvl verbose file timebuf msg pid\<close>: what is printed (stream and text), and the line appended to the log
  file when one is open. \<open>msg\<close> is the message \<^verbatim>\<open>vsnprintf\<close> produces.\<close>

definition vault_log :: "LogLevel \<Rightarrow> bool \<Rightarrow> bool \<Rightarrow> string \<Rightarrow> string \<Rightarrow> nat \<Rightarrow> (stream \<times> string) option \<times> string option" where
  "vault_log lvl verbose file timebuf msg pid =
    (let msgbuf = cbuf 1024 msg;
         console = (if lvl \<noteq> LOG_INFO \<or> verbose then
            Some (if lvl = LOG_ALERT \<or> lvl = LOG_ERROR then STDERR else STDOUT,
                  cbuf 2048 (''['' @ timebuf @ ''] ['' @ log_level_str lvl @ ''] '' @ msgbuf @ [NL])) else None);
         json = (if file then
            let escaped_msg = escape_json_string msgbuf 2048
            in Some (cbuf 4096 (''{'' @ [DQUOTE] @ ''timestamp'' @ [DQUOTE, CHR '':'', DQUOTE] @ timebuf @ [DQUOTE, CHR '','', DQUOTE]
                 @ ''level'' @ [DQUOTE, CHR '':'', DQUOTE] @ log_level_str lvl @ [DQUOTE, CHR '','', DQUOTE]
                 @ ''message'' @ [DQUOTE, CHR '':'', DQUOTE] @ escaped_msg @ [DQUOTE, CHR '','', DQUOTE]
                 @ ''pid'' @ [DQUOTE] @ '':'' @ dec_digits pid @ ''}'' @ [NL])) else None)
     in (console, json))"

text \<open>The reader's side of the escaping: a JSON string body, up to an unescaped quote.\<close>

fun unescape :: "string \<Rightarrow> string" where
  "unescape [] = []"
| "unescape [c] = (if c = DQUOTE \<or> c = BACKSLASH then [] else [c])"
| "unescape (c # d # s) =
     (if c = DQUOTE then []
      else if c = BACKSLASH then
        (if d = CHR ''n'' then NL else if d = CHR ''r'' then CR else if d = CHR ''t'' then TAB else d) # unescape s
      else c # unescape (d # s))"

lemma unescape_plain: "c \<noteq> DQUOTE \<Longrightarrow> c \<noteq> BACKSLASH \<Longrightarrow> unescape (c # s) = c # unescape s"
  by (cases s) simp_all

text \<open>The four escaping branches in one: the letter that follows the backslash.\<close>

definition escape_of :: "char \<Rightarrow> char option" where
  "escape_of c = (if c = NL then Some (CHR ''n'') else if c = CR then Some (CHR ''r'')
     else if c = TAB then Some (CHR ''t'') else if c = DQUOTE \<or> c = BACKSLASH then Some c else None)"

lemma escape_loop_Cons: "escape_loop n (c # s) j =
   (if \<not> j < n - 2 then []
    else case escape_of c of
       Some e \<Rightarrow> if n - 3 \<le> j then [] else BACKSLASH # e # escape_loop n s (j + 2)
     | None \<Rightarrow> c # escape_loop n s (j + 1))"
  by (simp add: escape_of_def)

lemma escape_of_Some:
  "escape_of c = Some e \<Longrightarrow> e \<noteq> NL \<and> e \<noteq> CR \<and> e \<noteq> TAB \<and> unescape (BACKSLASH # e # r) = c # unescape r"
  by (auto simp: escape_of_def split: if_splits)

lemma escape_of_None: "escape_of c = None \<Longrightarrow> c \<noteq> NL \<and> c \<noteq> CR \<and> c \<noteq> TAB \<and> c \<noteq> DQUOTE \<and> c \<noteq> BACKSLASH"
  by (auto simp: escape_of_def split: if_splits)

declare escape_loop.simps(2) [simp del] unescape.simps(3) [simp del]

lemma escape_loop_fits: "j + 1 < n \<Longrightarrow> j + length (escape_loop n s j) < n"
proof (induction s arbitrary: j)
  case (Cons c s)
  have "Suc (Suc (j + length (escape_loop n s (j + 2)))) < n" if "j < n - 2" "\<not> n - 3 \<le> j"
    using Cons.IH [of "j + 2"] that by simp
  moreover have "Suc (j + length (escape_loop n s (j + 1))) < n" if "j < n - 2"
    using Cons.IH [of "j + 1"] that by simp
  ultimately show ?case using Cons.prems by (auto simp: escape_loop_Cons split: option.splits)
qed simp

lemma escape_loop_clean: "x \<in> set (escape_loop n s j) \<Longrightarrow> x \<noteq> NL \<and> x \<noteq> CR \<and> x \<noteq> TAB"
proof (induction s arbitrary: j)
  case (Cons c s)
  then show ?case
    by (cases "escape_of c")
       (auto simp: escape_loop_Cons dest: escape_of_Some escape_of_None split: if_splits)
qed simp

lemma unescape_escape_prefix: "prefix (unescape (escape_loop n s j)) s"
proof (induction s arbitrary: j)
  case (Cons c s)
  then show ?case
    by (cases "escape_of c")
       (auto simp: escape_loop_Cons escape_of_Some unescape_plain dest: escape_of_None)
qed simp

text \<open>An escaped string has no bare quote: the quote that closes the field is read as its end.\<close>

lemma unescape_escape_append: "unescape (escape_loop n s j @ DQUOTE # r) = unescape (escape_loop n s j)"
proof (induction s arbitrary: j)
  case Nil
  then show ?case by (cases r) (simp_all add: unescape.simps(3))
next
  case (Cons c s)
  have closed: "unescape (DQUOTE # r) = []" by (cases r) (simp_all add: unescape.simps(3))
  with Cons show ?case
    by (cases "escape_of c")
       (auto simp: escape_loop_Cons escape_of_Some unescape_plain dest: escape_of_None)
qed

lemma unescape_escape_short:
  "2 * length s + j + 1 < n \<Longrightarrow> unescape (escape_loop n s j) = s"
proof (induction s arbitrary: j)
  case (Cons c s)
  then show ?case
    by (cases "escape_of c")
       (auto simp: escape_loop_Cons escape_of_Some unescape_plain dest: escape_of_None)
qed simp

section \<open>Error texts\<close>

definition vault_strerror :: "VaultErrorr \<Rightarrow> string" where
  "vault_strerror err = (case err of
     ERR_OK \<Rightarrow> ''Success''
   | ERR_INVALID_ARGS \<Rightarrow> ''Invalid arguments''
   | ERR_NO_MEMORY \<Rightarrow> ''Out of memory''
   | ERR_IO \<Rightarrow> ''I/O error''
   | ERR_CRYPTO \<Rightarrow> ''Cryptographic error''
   | ERR_AUTH_FAIL \<Rightarrow> ''Authentication failure''
   | ERR_VAULT_LOCKED \<Rightarrow> ''Vault is locked''
   | ERR_VAULT_EXISTS \<Rightarrow> ''Vault already exists''
   | ERR_VAULT_NOT_FOUND \<Rightarrow> ''Vault not found''
   | ERR_PERM_DENIED \<Rightarrow> ''Permission denied''
   | ERR_CATALOG_FULL \<Rightarrow> ''Catalog is full (max 2048 vaults)''
   | ERR_PATH_INVALID \<Rightarrow> ''Invalid path''
   | ERR_PASS_REQUIRED \<Rightarrow> ''Password required for protected vault''
   | ERR_INTEGRITY \<Rightarrow> ''File integrity violation''
   | ERR_SYSTEM \<Rightarrow> ''System error''
   | _ \<Rightarrow> ''Unknown error'')"

section \<open>Sanitising\<close>

definition is_space :: "char \<Rightarrow> bool" where
  "is_space c \<longleftrightarrow> c = CHR '' '' \<or> c = TAB \<or> c = NL \<or> c = CR"

text \<open>The loop that moves \<open>end\<close> towards \<open>s\<close> never erases the first character.\<close>

definition trim_trailing :: "string \<Rightarrow> string" where
  "trim_trailing s = (case s of [] \<Rightarrow> [] | c # r \<Rightarrow> c # rev (dropWhile is_space (rev r)))"

definition sanitize_arg :: "string option \<Rightarrow> string option" where
  "sanitize_arg so = (case so of None \<Rightarrow> None
     | Some s0 \<Rightarrow>
        let s = dropWhile is_space s0;
            len = length s;
            s = (if 2 \<le> len \<and> ((s ! 0 = DQUOTE \<and> s ! (len - 1) = DQUOTE) \<or> (s ! 0 = SQUOTE \<and> s ! (len - 1) = SQUOTE))
                 then tl (butlast s) else s)
        in Some (trim_trailing s))"

fun strstr :: "string \<Rightarrow> string \<Rightarrow> bool" where
  "strstr n [] \<longleftrightarrow> n = []"
| "strstr n (c # s) \<longleftrightarrow> prefix n (c # s) \<or> strstr n s"

definition validate_path :: "string option \<Rightarrow> VaultErrorr" where
  "validate_path po = (case po of None \<Rightarrow> ERR_PATH_INVALID
     | Some path \<Rightarrow>
        if path = [] then ERR_PATH_INVALID
        else if VAULT_PATH_MAX \<le> length path then ERR_PATH_INVALID
        else if path ! 0 \<noteq> CHR ''/'' then ERR_PATH_INVALID
        else if strstr ''/../'' path \<or> (3 \<le> length path \<and> drop (length path - 3) path = ''/..'') then ERR_PATH_INVALID
        else if \<exists>c \<in> set path. (of_char c :: nat) < 0x20 then ERR_PATH_INVALID
        else ERR_OK)"

definition name_char :: "char \<Rightarrow> bool" where
  "name_char c \<longleftrightarrow> (let x = of_char c :: nat in
     (97 \<le> x \<and> x \<le> 122) \<or> (65 \<le> x \<and> x \<le> 90) \<or> (48 \<le> x \<and> x \<le> 57) \<or> c = CHR ''_'' \<or> c = CHR ''-'')"

definition validate_name :: "string option \<Rightarrow> VaultErrorr" where
  "validate_name no = (case no of None \<Rightarrow> ERR_INVALID_ARGS
     | Some name \<Rightarrow>
        if name = [] then ERR_INVALID_ARGS
        else if VAULT_NAME_MAX \<le> length name then ERR_INVALID_ARGS
        else if \<exists>c \<in> set name. \<not> name_char c then ERR_INVALID_ARGS
        else ERR_OK)"

section \<open>Path components\<close>

fun components :: "string \<Rightarrow> string list" where
  "components [] = [[]]"
| "components (c # s) = (if c = CHR ''/'' then [] # components s
     else (case components s of t # ts \<Rightarrow> (c # t) # ts | [] \<Rightarrow> [[c]]))"

lemma components_not_Nil [simp]: "components s \<noteq> []"
  by (induction s) (auto split: list.splits)

lemma strstr_sublist: "strstr n s \<longleftrightarrow> (\<exists>u v. s = u @ n @ v)"
proof (induction s)
  case (Cons c s)
  show ?case
  proof
    assume "strstr n (c # s)"
    then consider "prefix n (c # s)" | "strstr n s" by auto
    then show "\<exists>u v. c # s = u @ n @ v"
    proof cases
      case 1
      then obtain v where "c # s = [] @ n @ v" by (auto simp: prefix_def)
      then show ?thesis by blast
    next
      case 2
      then obtain u v where "c # s = (c # u) @ n @ v" using Cons by auto
      then show ?thesis by blast
    qed
  next
    assume "\<exists>u v. c # s = u @ n @ v"
    then obtain u v where uv: "c # s = u @ n @ v" by blast
    then show "strstr n (c # s)"
    proof (cases u)
      case Nil
      with uv have "prefix n (c # s)" by (auto simp: prefix_def)
      then show ?thesis by simp
    next
      case (Cons d u')
      with uv Cons.IH show ?thesis by auto
    qed
  qed
qed auto

text \<open>The first component, and the later ones: each of these follows a slash.\<close>

lemma hd_components: "hd (components s) = takeWhile (\<lambda>c. c \<noteq> CHR ''/'') s"
proof (induction s)
  case (Cons c s)
  obtain x xs where "components s = x # xs" by (cases "components s") auto
  with Cons show ?case by simp
qed simp

lemma tl_components:
  "t \<in> set (tl (components s)) \<longleftrightarrow> (\<exists>u v. s = u @ CHR ''/'' # v \<and> t = takeWhile (\<lambda>c. c \<noteq> CHR ''/'') v)"
proof (induction s)
  case (Cons c s)
  obtain x xs where x: "components s = x # xs" by (cases "components s") auto
  have hd: "x = takeWhile (\<lambda>c. c \<noteq> CHR ''/'') s" using hd_components [of s] x by simp
  have split: "(\<exists>u v. c # s = u @ CHR ''/'' # v \<and> P v) \<longleftrightarrow>
     (c = CHR ''/'' \<and> P s) \<or> (\<exists>u v. s = u @ CHR ''/'' # v \<and> P v)" for P
    by (auto simp: Cons_eq_append_conv)
  show ?case
    unfolding split using Cons.IH x hd by auto
qed simp

section \<open>Properties\<close>

text \<open>a record written to the log file is one line, whatever the message contains, and the
  message field read back by a JSON reader is the message (its first 1023 bytes): a message taken
  from a file name can neither end the record nor forge another one.\<close>
theorem log_record_faithful:
  assumes "length timebuf < 32" and "NL \<notin> set timebuf" and "pid < 2 ^ 31"
  shows "\<exists>pre suf.
    snd (vault_log lvl verbose True timebuf msg pid)
      = Some (pre @ escape_json_string (cbuf 1024 msg) 2048 @ DQUOTE # suf @ [NL])
    \<and> NL \<notin> set (pre @ escape_json_string (cbuf 1024 msg) 2048 @ DQUOTE # suf)
    \<and> unescape (escape_json_string (cbuf 1024 msg) 2048 @ DQUOTE # suf @ [NL]) = cbuf 1024 msg"
proof -
  define e where "e = escape_json_string (cbuf 1024 msg) 2048"
  define pre where "pre = ''{'' @ [DQUOTE] @ ''timestamp'' @ [DQUOTE, CHR '':'', DQUOTE] @ timebuf @ [DQUOTE, CHR '','', DQUOTE]
     @ ''level'' @ [DQUOTE, CHR '':'', DQUOTE] @ log_level_str lvl @ [DQUOTE, CHR '','', DQUOTE]
     @ ''message'' @ [DQUOTE, CHR '':'', DQUOTE]"
  define suf where "suf = [CHR '','', DQUOTE] @ ''pid'' @ [DQUOTE] @ '':'' @ dec_digits pid @ ''}''"
  have "length e < 2048"
    using escape_loop_fits [of 0 2048 "cbuf 1024 msg"] by (simp add: e_def escape_json_string_def)
  moreover have "length (dec_digits pid) \<le> 10" using assms(3) length_dec_digits [of pid 9] by simp
  moreover have "length (log_level_str lvl) \<le> 5" by (cases lvl) (simp_all add: log_level_str_def)
  ultimately have len: "length (pre @ e @ DQUOTE # suf @ [NL]) \<le> 4095"
    using assms(1) by (simp add: pre_def suf_def)
  have "snd (vault_log lvl verbose True timebuf msg pid) = Some (cbuf 4096 (pre @ e @ DQUOTE # suf @ [NL]))"
    by (simp add: vault_log_def Let_def pre_def suf_def e_def)
  with len have "snd (vault_log lvl verbose True timebuf msg pid) = Some (pre @ e @ DQUOTE # suf @ [NL])"
    by (simp add: cbuf_def)
  moreover have "NL \<notin> set (log_level_str lvl)" by (cases lvl) (simp_all add: log_level_str_def)
  then have "NL \<notin> set (pre @ e @ DQUOTE # suf)"
    using assms(2) dec_digits_set [of NL pid] escape_loop_clean [of NL]
    by (auto simp: pre_def suf_def e_def escape_json_string_def)
  moreover have "unescape (e @ DQUOTE # suf @ [NL]) = cbuf 1024 msg"
    unfolding e_def escape_json_string_def unescape_escape_append
    by (rule unescape_escape_short) (simp add: cbuf_def)
  ultimately show ?thesis unfolding e_def by blast
qed

lemma log_record_faithful_witness:
  "\<exists>pre suf.
    snd (vault_log LOG_WARN False True ''2026-05-13T10:00:00Z'' (''bad'' @ [NL, DQUOTE]) 42)
      = Some (pre @ escape_json_string (cbuf 1024 (''bad'' @ [NL, DQUOTE])) 2048 @ DQUOTE # suf @ [NL])
    \<and> NL \<notin> set (pre @ escape_json_string (cbuf 1024 (''bad'' @ [NL, DQUOTE])) 2048 @ DQUOTE # suf)
    \<and> unescape (escape_json_string (cbuf 1024 (''bad'' @ [NL, DQUOTE])) 2048 @ DQUOTE # suf @ [NL])
        = cbuf 1024 (''bad'' @ [NL, DQUOTE])"
  by (rule log_record_faithful) simp_all

lemma strstr_dotdot_components:
  assumes "p \<noteq> []" and "p ! 0 = CHR ''/''"
  shows "strstr ''/../'' p \<or> (3 \<le> length p \<and> drop (length p - 3) p = ''/..'') \<longleftrightarrow> ''..'' \<in> set (components p)"
proof -
  from assms have "hd (components p) = []" by (cases p) (simp_all add: hd_components)
  moreover have "set (components p) = insert (hd (components p)) (set (tl (components p)))"
    by (cases "components p") auto
  ultimately have "''..'' \<in> set (components p) \<longleftrightarrow> ''..'' \<in> set (tl (components p))" by simp
  also have "\<dots> \<longleftrightarrow> (\<exists>u v. p = u @ CHR ''/'' # v \<and> ''..'' = takeWhile (\<lambda>c. c \<noteq> CHR ''/'') v)"
    by (rule tl_components)
  also have "\<dots> \<longleftrightarrow> (\<exists>u w. p = u @ ''/..'' @ w \<and> (w = [] \<or> hd w = CHR ''/''))"
  proof -
    have tw: "''..'' = takeWhile (\<lambda>c. c \<noteq> CHR ''/'') v \<longleftrightarrow> (\<exists>w. v = ''..'' @ w \<and> (w = [] \<or> hd w = CHR ''/''))" for v
    proof
      assume h: "''..'' = takeWhile (\<lambda>c. c \<noteq> CHR ''/'') v"
      then have "v = ''..'' @ dropWhile (\<lambda>c. c \<noteq> CHR ''/'') v" by (metis takeWhile_dropWhile_id)
      then show "\<exists>w. v = ''..'' @ w \<and> (w = [] \<or> hd w = CHR ''/'')"
        using hd_dropWhile [of "\<lambda>c. c \<noteq> CHR ''/''" v] by blast
    next
      assume "\<exists>w. v = ''..'' @ w \<and> (w = [] \<or> hd w = CHR ''/'')"
      then obtain w where "v = ''..'' @ w" "w = [] \<or> hd w = CHR ''/''" by blast
      then show "''..'' = takeWhile (\<lambda>c. c \<noteq> CHR ''/'') v" by (cases w) auto
    qed
    show ?thesis unfolding tw by (simp only: append_Cons append_Nil) blast
  qed
  also have "\<dots> \<longleftrightarrow> (\<exists>u w. p = u @ ''/../'' @ w) \<or> (\<exists>u. p = u @ ''/..'')"
  proof -
    have "w = [] \<or> hd w = CHR ''/'' \<longleftrightarrow> w = [] \<or> (\<exists>r. w = CHR ''/'' # r)" for w
      by (cases w) auto
    then show ?thesis by (simp only: append_Cons append_Nil) blast
  qed
  also have "(\<exists>u. p = u @ ''/..'') \<longleftrightarrow> 3 \<le> length p \<and> drop (length p - 3) p = ''/..''"
  proof
    assume "3 \<le> length p \<and> drop (length p - 3) p = ''/..''"
    then show "\<exists>u. p = u @ ''/..''" by (metis append_take_drop_id)
  qed auto
  finally show ?thesis by (simp add: strstr_sublist)
qed

text \<open>C18: \<open>validate_path\<close> accepts exactly the absolute paths shorter than the 512-byte field,
  free of control characters, none of whose components is \<open>..\<close>.\<close>
theorem validate_path_iff:
  "validate_path (Some p) = ERR_OK \<longleftrightarrow>
     p \<noteq> [] \<and> hd p = CHR ''/'' \<and> length p < 512 \<and> ''..'' \<notin> set (components p)
     \<and> list_all (\<lambda>c. 32 \<le> (of_char c :: nat)) p"
proof (cases "p \<noteq> [] \<and> p ! 0 = CHR ''/''")
  case True
  then show ?thesis
    using strstr_dotdot_components [of p]
    by (auto simp: validate_path_def VAULT_PATH_MAX_def hd_conv_nth not_less not_le list_all_iff)
next
  case False
  then show ?thesis by (auto simp: validate_path_def hd_conv_nth)
qed

text \<open>A validated name is a single path component: it has no slash, is not \<open>.\<close> or \<open>..\<close>, and fits the
  128-byte field.\<close>

lemma validate_name_component:
  "validate_name (Some n) = ERR_OK \<Longrightarrow>
     n \<noteq> [] \<and> length n < 128 \<and> CHR ''/'' \<notin> set n \<and> CHR ''.'' \<notin> set n \<and> NUL \<notin> set n"
  by (auto simp: validate_name_def VAULT_NAME_MAX_def name_char_def Let_def split: if_splits)

lemma sublist_trim_trailing: "prefix (trim_trailing s) s"
proof (cases s)
  case (Cons c r)
  have "prefix (rev (dropWhile is_space (rev r))) r"
    by (metis rev_rev_ident suffix_dropWhile suffix_to_prefix)
  with Cons show ?thesis by (simp add: trim_trailing_def)
qed (simp add: trim_trailing_def)

end
