(* ===== verification/Hash_Map.thy ===== *)
theory Hash_Map
  imports Vault_Types
begin

text \<open>
  The per-vault table of tracked files (\<^verbatim>\<open>vault_catalog.c\<close>, section 5): 256 chained buckets
  addressed by the FNV-1a hash of the file name. A \<^verbatim>\<open>FileEntry *\<close> is a pair of bucket number and
  position in the chain.

  \<open>file_table\<close> is the interface the rest of the program relies on: after \<open>hashmap_insert\<close> and an
  assignment through the returned pointer, a lookup finds the entry, other names are
  untouched, and the invariant is kept. It is interpreted on the model of the code.
\<close>

section \<open>The operations\<close>

fun hash_loop :: "32 word \<Rightarrow> string \<Rightarrow> 32 word" where
  "hash_loop h [] = h"
| "hash_loop h (c # s) = hash_loop ((h XOR of_char c) * 16777619) s"

definition hashmap_bucket :: "string \<Rightarrow> nat" where
  "hashmap_bucket s = unat (hash_loop 2166136261 s mod 256)"

type_synonym entry_ptr = "nat \<times> nat"

fun find_index :: "('a \<Rightarrow> bool) \<Rightarrow> 'a list \<Rightarrow> nat option" where
  "find_index P [] = None"
| "find_index P (x # xs) = (if P x then Some 0 else map_option Suc (find_index P xs))"

definition hashmap_find :: "FileHashMap \<Rightarrow> string \<Rightarrow> entry_ptr option" where
  "hashmap_find m filename =
     (let b = hashmap_bucket filename
      in map_option (Pair b) (find_index (\<lambda>e. fe_name e = filename) (hm_buckets m ! b)))"

definition entry_at :: "FileHashMap \<Rightarrow> entry_ptr \<Rightarrow> FileEntry" where
  "entry_at m p = hm_buckets m ! fst p ! snd p"

definition set_entry :: "entry_ptr \<Rightarrow> (FileEntry \<Rightarrow> FileEntry) \<Rightarrow> FileHashMap \<Rightarrow> FileHashMap" where
  "set_entry p f m = m\<lparr>hm_buckets := (hm_buckets m)[fst p := (hm_buckets m ! fst p)[snd p := f (entry_at m p)]]\<rparr>"

definition calloc_entry :: FileEntry where
  "calloc_entry = \<lparr>fe_name = [], fe_hash = replicate HASH_HEX_LEN NUL, fe_last_seen = 0, fe_modified = False\<rparr>"

text \<open>\<open>mem\<close> is whether \<^verbatim>\<open>calloc\<close> succeeds.\<close>

definition hashmap_insert :: "bool \<Rightarrow> FileHashMap \<Rightarrow> string \<Rightarrow> FileHashMap \<times> entry_ptr option" where
  "hashmap_insert mem m filename =
     (let b = hashmap_bucket filename
      in case hashmap_find m filename of
           Some p \<Rightarrow> (m, Some p)
         | None \<Rightarrow>
             (if \<not> mem then (m, None)
              else let e = calloc_entry\<lparr>fe_name := cbuf (NAME_MAX + 1) filename\<rparr>
                   in (m\<lparr>hm_buckets := (hm_buckets m)[b := e # hm_buckets m ! b],
                         hm_count := hm_count m + 1\<rparr>, Some (b, 0))))"

definition hashmap_clear :: "FileHashMap \<Rightarrow> FileHashMap" where
  "hashmap_clear m = m\<lparr>hm_buckets := map (\<lambda>_. []) (hm_buckets m), hm_count := 0\<rparr>"

text \<open>All entries, in the order in which the loops over \<^verbatim>\<open>buckets[0..255]\<close> visit them.\<close>

definition entries :: "FileHashMap \<Rightarrow> FileEntry list" where
  "entries m = concat (hm_buckets m)"

section \<open>Invariant and abstraction\<close>

definition bucket_ok :: "nat \<Rightarrow> FileEntry list \<Rightarrow> bool" where
  "bucket_ok b es \<longleftrightarrow> distinct (map fe_name es) \<and>
     (\<forall>e \<in> set es. hashmap_bucket (fe_name e) = b \<and> str_ok (NAME_MAX + 1) (fe_name e))"

definition hm_inv :: "FileHashMap \<Rightarrow> bool" where
  "hm_inv m \<longleftrightarrow> length (hm_buckets m) = HASHMAP_BUCKETS \<and>
     (\<forall>b < HASHMAP_BUCKETS. bucket_ok b (hm_buckets m ! b)) \<and> hm_count m = length (entries m)"

definition hm_lookup :: "FileHashMap \<Rightarrow> string \<Rightarrow> FileEntry option" where
  "hm_lookup m f = map_option (entry_at m) (hashmap_find m f)"

lemma hashmap_bucket_less [simp]: "hashmap_bucket s < HASHMAP_BUCKETS"
proof -
  have "hash_loop 2166136261 s mod 256 < (256 :: 32 word)"
    by (rule word_mod_less_divisor) simp
  then show ?thesis by (simp add: hashmap_bucket_def HASHMAP_BUCKETS_def word_less_nat_alt)
qed

lemma find_index_Some: "find_index P xs = Some i \<Longrightarrow> i < length xs \<and> P (xs ! i) \<and> find P xs = Some (xs ! i)"
  by (induction xs arbitrary: i) (auto split: if_splits)

lemma find_index_None: "find_index P xs = None \<longleftrightarrow> (\<forall>x \<in> set xs. \<not> P x)"
  by (induction xs) auto

lemma find_index_find: "map_option (\<lambda>i. xs ! i) (find_index P xs) = find P xs"
  by (induction xs) (auto simp: option.map_comp comp_def)

lemma hm_lookup_find: "hm_lookup m f = find (\<lambda>e. fe_name e = f) (hm_buckets m ! hashmap_bucket f)"
  by (simp add: hm_lookup_def hashmap_find_def Let_def option.map_comp comp_def entry_at_def
      flip: find_index_find)

lemma hm_lookup_name: "hm_lookup m f = Some e \<Longrightarrow> fe_name e = f"
  by (auto simp: hm_lookup_find find_Some_iff)

lemma hm_inv_bucket: "hm_inv m \<Longrightarrow> b < HASHMAP_BUCKETS \<Longrightarrow> bucket_ok b (hm_buckets m ! b)"
  by (simp add: hm_inv_def)

lemma find_distinct:
  "distinct (map fe_name es) \<Longrightarrow> e \<in> set es \<Longrightarrow> find (\<lambda>x. fe_name x = fe_name e) es = Some e"
  by (induction es) auto

text \<open>Membership in the table is lookup under the own name.\<close>

lemma entries_lookup:
  assumes "hm_inv m"
  shows "e \<in> set (entries m) \<longleftrightarrow> hm_lookup m (fe_name e) = Some e"
proof
  assume "e \<in> set (entries m)"
  then obtain es where "es \<in> set (hm_buckets m)" and "e \<in> set es"
    by (auto simp: entries_def)
  then obtain b where b: "b < length (hm_buckets m)" and e: "e \<in> set (hm_buckets m ! b)"
    by (metis in_set_conv_nth)
  from assms b have "bucket_ok b (hm_buckets m ! b)" by (simp add: hm_inv_def)
  with e show "hm_lookup m (fe_name e) = Some e"
    by (auto simp: bucket_ok_def hm_lookup_find find_distinct)
next
  assume "hm_lookup m (fe_name e) = Some e"
  then have "e \<in> set (hm_buckets m ! hashmap_bucket (fe_name e))"
    unfolding hm_lookup_find find_Some_iff by (metis nth_mem)
  moreover have "hashmap_bucket (fe_name e) < length (hm_buckets m)"
    using assms by (simp add: hm_inv_def)
  ultimately show "e \<in> set (entries m)"
    unfolding entries_def by (metis UN_I nth_mem set_concat)
qed

lemma hm_inv_empty: "hm_inv empty_map"
  by (simp add: hm_inv_def empty_map_def bucket_ok_def entries_def HASHMAP_BUCKETS_def)

lemma hm_lookup_empty: "hm_lookup empty_map f = None"
  by (simp add: hm_lookup_find empty_map_def)

lemma hm_inv_clear: "hm_inv m \<Longrightarrow> hm_inv (hashmap_clear m)"
  by (simp add: hm_inv_def hashmap_clear_def bucket_ok_def entries_def)

lemma hm_lookup_clear: "hm_inv m \<Longrightarrow> hm_lookup (hashmap_clear m) f = None"
  by (simp add: hm_lookup_find hashmap_clear_def hm_inv_def)

lemma length_concat_update:
  "b < length xss \<Longrightarrow> length (concat (xss[b := ys])) + length (xss ! b) = length (concat xss) + length ys"
  by (induction xss arbitrary: b) (auto split: nat.splits)

section \<open>Insertion\<close>

text \<open>\<open>hashmap_insert\<close> followed by the assignments through the pointer it returns.\<close>

definition hm_put :: "FileHashMap \<Rightarrow> string \<Rightarrow> FileEntry \<Rightarrow> FileHashMap" where
  "hm_put m f e = (case hashmap_insert True m f of
     (m', Some p) \<Rightarrow> set_entry p (\<lambda>x. e\<lparr>fe_name := fe_name x\<rparr>) m'
   | (m', None) \<Rightarrow> m')"

lemma bucket_ok_Cons: "bucket_ok b es \<Longrightarrow> hashmap_bucket (fe_name e) = b \<Longrightarrow>
   str_ok (NAME_MAX + 1) (fe_name e) \<Longrightarrow> fe_name e \<notin> fe_name ` set es \<Longrightarrow> bucket_ok b (e # es)"
  by (auto simp: bucket_ok_def)

lemma bucket_ok_update: "bucket_ok b es \<Longrightarrow> i < length es \<Longrightarrow> fe_name e = fe_name (es ! i) \<Longrightarrow>
   bucket_ok b (es[i := e])"
proof -
  assume h: "bucket_ok b es" "i < length es" "fe_name e = fe_name (es ! i)"
  then have "map fe_name (es[i := e]) = map fe_name es"
    by (metis list_update_id map_update nth_map)
  moreover have "\<forall>x \<in> set (es[i := e]). hashmap_bucket (fe_name x) = b \<and> str_ok (NAME_MAX + 1) (fe_name x)"
    using h by (auto simp: bucket_ok_def dest!: set_update_subset_insert [THEN subsetD])
  ultimately show "bucket_ok b (es[i := e])"
    using h(1) by (simp add: bucket_ok_def)
qed

lemma set_entry_inv:
  assumes "hm_inv m" and "hashmap_find m f = Some p" and "\<And>x. fe_name (g x) = fe_name x"
  shows "hm_inv (set_entry p g m)"
proof -
  obtain i where p: "p = (hashmap_bucket f, i)" and i: "i < length (hm_buckets m ! hashmap_bucket f)"
    using assms(2) by (auto simp: hashmap_find_def Let_def dest: find_index_Some)
  have "length (concat ((hm_buckets m)[hashmap_bucket f :=
           (hm_buckets m ! hashmap_bucket f)[i := g (entry_at m p)]])) = length (concat (hm_buckets m))"
    using assms(1) length_concat_update [of "hashmap_bucket f" "hm_buckets m"
        "(hm_buckets m ! hashmap_bucket f)[i := g (entry_at m p)]"]
    by (simp add: hm_inv_def)
  then show ?thesis
    using assms(1,3) p i
    by (auto simp: hm_inv_def set_entry_def entries_def nth_list_update entry_at_def intro!: bucket_ok_update)
qed

lemma hm_put_new:
  assumes "hashmap_find m f = None" and "fe_name e = f" and "str_ok (NAME_MAX + 1) f"
    and "length (hm_buckets m) = HASHMAP_BUCKETS"
  shows "hm_put m f e = m\<lparr>hm_buckets := (hm_buckets m)[hashmap_bucket f := e # hm_buckets m ! hashmap_bucket f],
                          hm_count := hm_count m + 1\<rparr>"
  using assms by (auto simp: hm_put_def hashmap_insert_def Let_def set_entry_def entry_at_def)

lemma hm_put_old:
  "hashmap_find m f = Some p \<Longrightarrow> hm_put m f e = set_entry p (\<lambda>x. e\<lparr>fe_name := fe_name x\<rparr>) m"
  by (simp add: hm_put_def hashmap_insert_def)

lemma hashmap_find_None: "hashmap_find m f = None \<longleftrightarrow> f \<notin> fe_name ` set (hm_buckets m ! hashmap_bucket f)"
  by (auto simp: hashmap_find_def Let_def find_index_None)

lemma hm_put_inv:
  assumes "hm_inv m" and "fe_name e = f" and "str_ok (NAME_MAX + 1) f"
  shows "hm_inv (hm_put m f e)"
proof (cases "hashmap_find m f")
  case None
  have len: "length (hm_buckets m) = HASHMAP_BUCKETS" using assms(1) by (simp add: hm_inv_def)
  have "length (concat ((hm_buckets m)[hashmap_bucket f := e # hm_buckets m ! hashmap_bucket f]))
        = Suc (length (concat (hm_buckets m)))"
    using len length_concat_update [of "hashmap_bucket f" "hm_buckets m" "e # hm_buckets m ! hashmap_bucket f"]
    by simp
  moreover have "bucket_ok (hashmap_bucket f) (e # hm_buckets m ! hashmap_bucket f)"
    using assms None by (auto simp: hashmap_find_None hm_inv_bucket intro!: bucket_ok_Cons)
  ultimately show ?thesis
    using assms(1) len hm_put_new [OF None assms(2,3) len]
    by (auto simp: hm_inv_def entries_def nth_list_update)
next
  case (Some p)
  then show ?thesis using assms(1) by (simp add: hm_put_old set_entry_inv)
qed

lemma find_update_same:
  "find_index P xs = Some i \<Longrightarrow> P y \<Longrightarrow> find P (xs[i := y]) = Some y"
  by (induction xs arbitrary: i) (auto split: if_splits)

lemma find_update_other:
  "i < length xs \<Longrightarrow> \<not> P (xs ! i) \<Longrightarrow> \<not> P y \<Longrightarrow> find P (xs[i := y]) = find P xs"
  by (induction xs arbitrary: i) (auto split: nat.splits)

text \<open>What an assignment through a pointer does to lookups.\<close>

lemma hm_lookup_set_entry:
  assumes "hashmap_find m f = Some p" and "\<And>x. fe_name (g x) = fe_name x"
    and "length (hm_buckets m) = HASHMAP_BUCKETS"
  shows "hm_lookup (set_entry p g m) f' = (if f' = f then map_option g (hm_lookup m f) else hm_lookup m f')"
proof -
  let ?b = "hashmap_bucket f"
  obtain i where p: "p = (?b, i)" and fi: "find_index (\<lambda>e. fe_name e = f) (hm_buckets m ! ?b) = Some i"
    using assms(1) by (auto simp: hashmap_find_def Let_def)
  from find_index_Some [OF fi] have i: "i < length (hm_buckets m ! ?b)" "fe_name (hm_buckets m ! ?b ! i) = f"
    "find (\<lambda>e. fe_name e = f) (hm_buckets m ! ?b) = Some (hm_buckets m ! ?b ! i)" by auto
  show ?thesis
    using assms p i find_update_same [OF fi, of "g (hm_buckets m ! ?b ! i)"]
    by (auto simp: hm_lookup_find set_entry_def entry_at_def nth_list_update find_update_other)
qed

lemma hm_lookup_put:
  assumes "hm_inv m" and "fe_name e = f" and "str_ok (NAME_MAX + 1) f"
  shows "hm_lookup (hm_put m f e) f' = (if f' = f then Some e else hm_lookup m f')"
proof (cases "hashmap_find m f")
  case None
  have len: "length (hm_buckets m) = HASHMAP_BUCKETS" using assms(1) by (simp add: hm_inv_def)
  show ?thesis
    using len assms(2) unfolding hm_put_new [OF None assms(2,3) len]
    by (auto simp: hm_lookup_find nth_list_update)
next
  case (Some p)
  have len: "length (hm_buckets m) = HASHMAP_BUCKETS" using assms(1) by (simp add: hm_inv_def)
  obtain x where x: "hm_lookup m f = Some x" using Some by (auto simp: hm_lookup_def)
  then have "e\<lparr>fe_name := fe_name x\<rparr> = e" using assms(2) hm_lookup_name [OF x] by simp
  with x show ?thesis
    using hm_lookup_set_entry [OF Some _ len, of "\<lambda>x. e\<lparr>fe_name := fe_name x\<rparr>"]
    by (simp add: hm_put_old [OF Some])
qed

section \<open>The interface\<close>

locale file_table =
  fixes empty :: "'m"
    and lookup :: "'m \<Rightarrow> string \<Rightarrow> FileEntry option"
    and put :: "'m \<Rightarrow> string \<Rightarrow> FileEntry \<Rightarrow> 'm"
    and invar :: "'m \<Rightarrow> bool"
  assumes invar_empty: "invar empty"
    and lookup_empty: "lookup empty f = None"
    and invar_put: "invar m \<Longrightarrow> fe_name e = f \<Longrightarrow> str_ok (NAME_MAX + 1) f \<Longrightarrow> invar (put m f e)"
    and lookup_put: "invar m \<Longrightarrow> fe_name e = f \<Longrightarrow> str_ok (NAME_MAX + 1) f \<Longrightarrow>
      lookup (put m f e) f' = (if f' = f then Some e else lookup m f')"
begin

text \<open>The loop of a loader: store entries one after the other.\<close>

definition put_all :: "'m \<Rightarrow> FileEntry list \<Rightarrow> 'm" where
  "put_all m es = fold (\<lambda>e m. put m (fe_name e) e) es m"

lemma invar_put_all: "invar m \<Longrightarrow> \<forall>e \<in> set es. str_ok (NAME_MAX + 1) (fe_name e) \<Longrightarrow> invar (put_all m es)"
  by (induction es arbitrary: m) (auto simp: put_all_def invar_put)

lemma lookup_put_all:
  assumes "invar m" and "\<forall>e \<in> set es. str_ok (NAME_MAX + 1) (fe_name e)" and "distinct (map fe_name es)"
  shows "lookup (put_all m es) f = (case find (\<lambda>e. fe_name e = f) es of None \<Rightarrow> lookup m f | Some e \<Rightarrow> Some e)"
  using assms
proof (induction es arbitrary: m)
  case Nil
  then show ?case by (simp add: put_all_def)
next
  case (Cons e es)
  have "fe_name e \<notin> fe_name ` set es" using Cons.prems(3) by simp
  then have none: "find (\<lambda>x. fe_name x = fe_name e) es = None"
    unfolding find_None_iff by (metis image_eqI)
  have "lookup (put_all m (e # es)) f = lookup (put_all (put m (fe_name e) e) es) f"
    by (simp add: put_all_def)
  also have "\<dots> = (case find (\<lambda>e. fe_name e = f) es of None \<Rightarrow> lookup (put m (fe_name e) e) f | Some e \<Rightarrow> Some e)"
    using Cons by (simp add: invar_put)
  finally show ?case
    using Cons.prems none by (auto simp: lookup_put split: option.splits)
qed

end

interpretation ft: file_table empty_map hm_lookup hm_put hm_inv
  by unfold_locales (auto simp: hm_inv_empty hm_lookup_empty hm_put_inv hm_lookup_put)

section \<open>Reloading a table in the order it was written\<close>

text \<open>\<^verbatim>\<open>catalog_load\<close> re-inserts the entries in the order \<^verbatim>\<open>catalog_save\<close> wrote them; each
  insertion is at the head of its chain, so every chain comes back reversed.\<close>

definition rev_chains :: "FileHashMap \<Rightarrow> FileHashMap" where
  "rev_chains m = m\<lparr>hm_buckets := map rev (hm_buckets m)\<rparr>"

lemma hm_lookup_Some_bucket: "hashmap_find m f = None \<longleftrightarrow> hm_lookup m f = None"
  by (simp add: hm_lookup_def)

lemma put_all_buckets:
  assumes "hm_inv m" "\<forall>e \<in> set es. str_ok (NAME_MAX + 1) (fe_name e) \<and> hm_lookup m (fe_name e) = None"
    and "distinct (map fe_name es)" and "b < HASHMAP_BUCKETS"
  shows "hm_buckets (ft.put_all m es) ! b = rev (filter (\<lambda>e. hashmap_bucket (fe_name e) = b) es) @ hm_buckets m ! b"
  using assms
proof (induction es arbitrary: m)
  case Nil
  then show ?case by (simp add: ft.put_all_def)
next
  case (Cons e es)
  have ok: "str_ok (NAME_MAX + 1) (fe_name e)" and fresh: "hashmap_find m (fe_name e) = None"
    using Cons.prems(2) by (auto simp: hm_lookup_Some_bucket)
  let ?m = "hm_put m (fe_name e) e"
  have inv: "hm_inv ?m" using Cons.prems(1) ok by (simp add: hm_put_inv)
  have "\<forall>x \<in> set es. str_ok (NAME_MAX + 1) (fe_name x) \<and> hm_lookup ?m (fe_name x) = None"
    using Cons.prems(1-3) ok by (auto simp: hm_lookup_put intro: rev_image_eqI)
  then have "hm_buckets (ft.put_all ?m es) ! b
     = rev (filter (\<lambda>e. hashmap_bucket (fe_name e) = b) es) @ hm_buckets ?m ! b"
    using Cons.IH [OF inv] Cons.prems(3,4) by simp
  moreover have "hm_buckets ?m ! b = (if b = hashmap_bucket (fe_name e) then e # hm_buckets m ! b else hm_buckets m ! b)"
    using Cons.prems(1,4) hm_put_new [OF fresh refl ok] by (auto simp: hm_inv_def nth_list_update)
  ultimately show ?case by (auto simp: ft.put_all_def)
qed

lemma filter_bucket_concat:
  assumes "\<And>k. k < length bs \<Longrightarrow> \<forall>e \<in> set (bs ! k). h e = d + k" and "b < length bs"
  shows "filter (\<lambda>e. h e = d + b) (concat bs) = bs ! b"
  using assms
proof (induction bs arbitrary: b d)
  case Nil
  then show ?case by simp
next
  case (Cons x xs)
  have x: "\<forall>e \<in> set x. h e = d" using Cons.prems(1) [of 0] by simp
  have xs: "\<forall>e \<in> set (xs ! k). h e = Suc d + k" if "k < length xs" for k
    using Cons.prems(1) [of "Suc k"] that by simp
  show ?case
  proof (cases b)
    case 0
    have "h e \<noteq> d" if e: "e \<in> set (concat xs)" for e
    proof -
      from e obtain es where es: "es \<in> set xs" and ees: "e \<in> set es" by auto
      from es obtain k where k: "k < length xs" and "xs ! k = es" unfolding in_set_conv_nth by blast
      with ees xs [OF k] have "h e = Suc d + k" by blast
      then show ?thesis by simp
    qed
    with x 0 show ?thesis by (simp add: filter_True filter_False del: set_concat)
  next
    case (Suc b')
    then have "filter (\<lambda>e. h e = d + b) x = []" using x by (auto simp: filter_empty_conv)
    moreover have "filter (\<lambda>e. h e = Suc d + b') (concat xs) = xs ! b'"
      using Cons.IH [of "Suc d" b'] xs Cons.prems(2) Suc by simp
    ultimately show ?thesis using Suc by simp
  qed
qed

section \<open>Properties\<close>

text \<open>C17: \<open>hashmap_insert\<close> followed by the assignments through its result behaves as the update of a finite
  map from file names to entries: the name written is found, every other lookup is
  unchanged, the chains stay free of duplicates and in their buckets, and \<open>count\<close> grows exactly for
  a new name.\<close>
theorem hashmap_refines_map:
  assumes "hm_inv m" and "str_ok (NAME_MAX + 1) f" and "fe_name e = f"
  shows "hm_inv (hm_put m f e)
    \<and> hm_lookup (hm_put m f e) = (hm_lookup m)(f \<mapsto> e)
    \<and> hm_count (hm_put m f e) = (if hm_lookup m f = None then hm_count m + 1 else hm_count m)"
proof (intro conjI)
  show "hm_inv (hm_put m f e)" using assms by (simp add: hm_put_inv)
  show "hm_lookup (hm_put m f e) = (hm_lookup m)(f \<mapsto> e)"
    using assms by (auto simp: hm_lookup_put)
  have len: "length (hm_buckets m) = HASHMAP_BUCKETS" using assms(1) by (simp add: hm_inv_def)
  show "hm_count (hm_put m f e) = (if hm_lookup m f = None then hm_count m + 1 else hm_count m)"
    using hm_put_new [OF _ assms(3,2) len] hm_put_old [of m f]
    by (cases "hashmap_find m f") (auto simp: hm_lookup_def set_entry_def)
qed

lemma hashmap_refines_map_witness:
  "hm_inv (hm_put empty_map ''a.txt'' (calloc_entry\<lparr>fe_name := ''a.txt''\<rparr>))
   \<and> hm_lookup (hm_put empty_map ''a.txt'' (calloc_entry\<lparr>fe_name := ''a.txt''\<rparr>)) ''a.txt''
       = Some (calloc_entry\<lparr>fe_name := ''a.txt''\<rparr>)
   \<and> hm_count (hm_put empty_map ''a.txt'' (calloc_entry\<lparr>fe_name := ''a.txt''\<rparr>)) = 1"
  using hashmap_refines_map [OF hm_inv_empty, of "''a.txt''" "calloc_entry\<lparr>fe_name := ''a.txt''\<rparr>"]
  by (simp add: str_ok_def NAME_MAX_def hm_lookup_empty) (simp add: empty_map_def)

end
