(* ===== verification/Catalog_Store.thy ===== *)
theory Catalog_Store
  imports Hash_Map
begin

text \<open>
  The persistent catalog: path resolution and migration, and the binary format of
  \<^verbatim>\<open>catalog.dat\<close> (\<^verbatim>\<open>vault_catalog.c\<close>, \<^verbatim>\<open>mkdir_p\<close>, \<^verbatim>\<open>resolve_paths\<close> and section 6).

  A sequence of \<^verbatim>\<open>fwrite\<close> calls is the list of the byte strings written; a sequence of
  \<^verbatim>\<open>FREAD_CHECK\<close> is a table of field widths and assignments, run by \<open>read_fields\<close>, which stops at the
  first short read and keeps what was assigned before. A text field is written padded with
  NULs to its width and read back up to its first NUL.
\<close>

section \<open>Directories and migration\<close>

definition mkdir_p_dirs :: "string \<Rightarrow> string list" where
  "mkdir_p_dirs tmp = map (\<lambda>i. take i tmp) (filter (\<lambda>i. tmp ! i = CHR ''/'') [1..<length tmp]) @ [tmp]"

fun mkdir_each :: "env \<Rightarrow> string list \<Rightarrow> bool vio" where
  "mkdir_each E [] = return True"
| "mkdir_each E (d # ds) = do {
     r \<leftarrow> sys_mkdir E d MODE_0700;
     if (case r of Inl e \<Rightarrow> e \<noteq> EEXIST | Inr _ \<Rightarrow> False) then return False
     else mkdir_each E ds }"

text \<open>The result is whether \<^verbatim>\<open>mkdir_p\<close> returns 0.\<close>

definition mkdir_p :: "env \<Rightarrow> string \<Rightarrow> bool vio" where
  "mkdir_p E path =
     (let len = length path
      in if len = 0 \<or> VAULT_PATH_MAX \<le> len then return False
         else mkdir_each E (mkdir_p_dirs (if last path = CHR ''/'' then butlast path else path)))"

definition legacy_catalog :: string where
  "legacy_catalog = ''/var/lib/vault_security/catalog.dat''"

definition resolve_paths :: "env \<Rightarrow> unit vio" where
  "resolve_paths E = do {
     let home = (case e_home E of None \<Rightarrow> ''/root'' | Some h \<Rightarrow> h);
     modify (\<lambda>w. w\<lparr>g_catalog_path := cbuf VAULT_PATH_MAX (home @ ''/.local/share/Nuk4sd''),
       g_catalog_file := cbuf VAULT_PATH_MAX (home @ ''/.local/share/Nuk4sd/catalog.dat''),
       g_log_file := cbuf VAULT_PATH_MAX (home @ ''/.local/share/Nuk4sd/vault_security.log''),
       g_lock_file := cbuf VAULT_PATH_MAX (home @ ''/.local/share/Nuk4sd/vault_security.pid'')\<rparr>);
     dir \<leftarrow> gets g_catalog_path;
     file \<leftarrow> gets g_catalog_file;
     st \<leftarrow> sys_stat E dir;
     _ \<leftarrow> (case st of Inl _ \<Rightarrow> mkdir_p E dir | Inr _ \<Rightarrow> return True);
     st \<leftarrow> sys_stat E file;
     st' \<leftarrow> (case st of Inl _ \<Rightarrow> sys_stat E legacy_catalog | Inr _ \<Rightarrow> return (Inl EEXIST));
     (case st' of Inl _ \<Rightarrow> return ()
      | Inr _ \<Rightarrow> do {
          src \<leftarrow> sys_fopen_r E legacy_catalog;
          (case src of Inl _ \<Rightarrow> return ()
           | Inr s \<Rightarrow> do {
               dst \<leftarrow> sys_fopen_w E file;
               (case dst of Inl _ \<Rightarrow> return ()
                | Inr d \<Rightarrow> do {
                    _ \<leftarrow> read_loop E s 8192 (\<lambda>off b u. do { _ \<leftarrow> sys_fwrite E d b; return (Inr u :: unit + unit) }) ();
                    _ \<leftarrow> sys_chmod E file MODE_0600;
                    return () }) }) }) }"

section \<open>Writing\<close>

definition catalog_header :: "Catalog \<Rightarrow> string list" where
  "catalog_header c = [CATALOG_MAGIC, enc8 CATALOG_VER, enc32 (word_of_nat (length (c_vaults c))),
     enc32 (c_next_id c), pad 32 (c_category c), enc8 (c_mac_mode c)]"

definition vault_fields :: "Vault \<Rightarrow> string list" where
  "vault_fields v =
    [enc32 (v_id v),
     pad VAULT_NAME_MAX (v_name v),
     enc32 (type_code (v_type v)),
     enc32 (status_code (v_status v)),
     enc8 (if v_has_pass v then 1 else 0),
     pad VAULT_PATH_MAX (v_path v),
     pad VAULT_PATH_MAX (v_cipher v),
     enc_time (v_created v),
     enc_time (v_last_check v),
     enc_int (v_failed v),
     enc64 (al_idx (v_alert v)),
     enc_time (al_first (v_alert v)),
     enc_time (al_last (v_alert v)),
     enc64 (al_count (v_alert v)),
     pad 256 (al_reason (v_alert v)),
     v_salt v,
     v_pass_hash v,
     enc32 (v_worm v)]"

definition entry_fields :: "FileEntry \<Rightarrow> string list" where
  "entry_fields e = [pad (NAME_MAX + 1) (fe_name e), fe_hash e, enc_time (fe_last_seen e),
     enc8 (if fe_modified e then 1 else 0)]"

text \<open>The number of entries written: the loops over buckets and chains stop once \<^verbatim>\<open>written\<close> reaches it.\<close>

definition saved_fcount :: "FileHashMap \<Rightarrow> nat" where
  "saved_fcount m = (let fcount = hm_count m mod 2 ^ 32 in if FCOUNT_MAX < fcount then FCOUNT_MAX else fcount)"

definition vault_chunks :: "Vault \<Rightarrow> string list" where
  "vault_chunks v = vault_fields v @ [enc32 (word_of_nat (saved_fcount (v_map v)))]
     @ concat (map entry_fields (take (saved_fcount (v_map v)) (entries (v_map v))))"

definition catalog_chunks :: "Catalog \<Rightarrow> string list" where
  "catalog_chunks c = catalog_header c @ concat (map vault_chunks (c_vaults c))"

definition write_chunks :: "env \<Rightarrow> string \<Rightarrow> string list \<Rightarrow> unit vio" where
  "write_chunks E fp bs = for_each bs (\<lambda>b. do { _ \<leftarrow> sys_fwrite E fp b; return () })"

definition catalog_save :: "env \<Rightarrow> VaultErrorr vio" where
  "catalog_save E = do {
     file \<leftarrow> gets g_catalog_file;
     let tmp = cbuf 512 (file @ ''.tmp'');
     fp \<leftarrow> sys_fopen_w E tmp;
     case fp of
       Inl _ \<Rightarrow> return ERR_IO
     | Inr fp \<Rightarrow> do {
         c \<leftarrow> gets g_catalog;
         write_chunks E fp (catalog_chunks c);
         r \<leftarrow> sys_rename E tmp file;
         (case r of
            Inl _ \<Rightarrow> do { _ \<leftarrow> sys_unlink E tmp; return ERR_IO }
          | Inr _ \<Rightarrow> do { _ \<leftarrow> sys_chmod E file MODE_0600; return ERR_OK }) } }"

section \<open>Reading\<close>

type_synonym 's field = "nat \<times> (string \<Rightarrow> 's \<Rightarrow> 's)"

text \<open>The result: whether all reads were complete, the structure as far as it was assigned, and the
  position in the file.\<close>

fun read_fields :: "env \<Rightarrow> string \<Rightarrow> nat \<Rightarrow> 's field list \<Rightarrow> 's \<Rightarrow> (bool \<times> 's \<times> nat) vio" where
  "read_fields E fp off [] s = return (True, s, off)"
| "read_fields E fp off ((n, f) # fs) s = do {
     (b, _) \<leftarrow> sys_fread E fp off n;
     if length b \<noteq> n then return (False, s, off)
     else read_fields E fp (off + n) fs (f b s) }"

definition alloc_slots :: "nat \<Rightarrow> Vault list \<Rightarrow> Vault list" where
  "alloc_slots n vs = take n (vs @ replicate n zero_vault)"

definition header_table :: "8 word \<Rightarrow> Catalog field list" where
  "header_table ver =
    [(4, \<lambda>b c. c\<lparr>c_vaults := alloc_slots (unat (dec32 b)) (c_vaults c)\<rparr>),
     (4, \<lambda>b c. c\<lparr>c_next_id := dec32 b\<rparr>),
     (32, \<lambda>b c. c\<lparr>c_category := cstr b\<rparr>)]
    @ (if 3 \<le> ver then [(1, \<lambda>b c. c\<lparr>c_mac_mode := dec8 b\<rparr>)] else [])"

definition vault_table :: "Vault field list" where
  "vault_table =
    [(4, \<lambda>b v. v\<lparr>v_id := dec32 b\<rparr>),
     (VAULT_NAME_MAX, \<lambda>b v. v\<lparr>v_name := cstr b\<rparr>),
     (4, \<lambda>b v. v\<lparr>v_type := type_of_code (dec32 b)\<rparr>),
     (4, \<lambda>b v. v\<lparr>v_status := status_of_code (dec32 b)\<rparr>),
     (1, \<lambda>b v. v\<lparr>v_has_pass := dec8 b \<noteq> 0\<rparr>),
     (VAULT_PATH_MAX, \<lambda>b v. v\<lparr>v_path := cstr b\<rparr>),
     (VAULT_PATH_MAX, \<lambda>b v. v\<lparr>v_cipher := cstr b\<rparr>),
     (8, \<lambda>b v. v\<lparr>v_created := dec_time b\<rparr>),
     (8, \<lambda>b v. v\<lparr>v_last_check := dec_time b\<rparr>),
     (4, \<lambda>b v. v\<lparr>v_failed := dec_int b\<rparr>),
     (8, \<lambda>b v. v\<lparr>v_alert := (v_alert v)\<lparr>al_idx := dec64 b\<rparr>\<rparr>),
     (8, \<lambda>b v. v\<lparr>v_alert := (v_alert v)\<lparr>al_first := dec_time b\<rparr>\<rparr>),
     (8, \<lambda>b v. v\<lparr>v_alert := (v_alert v)\<lparr>al_last := dec_time b\<rparr>\<rparr>),
     (8, \<lambda>b v. v\<lparr>v_alert := (v_alert v)\<lparr>al_count := dec64 b\<rparr>\<rparr>),
     (256, \<lambda>b v. v\<lparr>v_alert := (v_alert v)\<lparr>al_reason := cstr b\<rparr>\<rparr>),
     (SALT_LEN, \<lambda>b v. v\<lparr>v_salt := b\<rparr>),
     (32, \<lambda>b v. v\<lparr>v_pass_hash := b\<rparr>),
     (4, \<lambda>b v. v\<lparr>v_worm := dec32 b\<rparr>)]"

text \<open>The locals \<^verbatim>\<open>fname\<close>, \<^verbatim>\<open>fhash\<close>, \<^verbatim>\<open>ls\<close>, \<^verbatim>\<open>mod\<close> of one entry.\<close>

definition entry_table :: "FileEntry field list" where
  "entry_table =
    [(NAME_MAX + 1, \<lambda>b e. e\<lparr>fe_name := cstr b\<rparr>),
     (HASH_HEX_LEN, \<lambda>b e. e\<lparr>fe_hash := b\<rparr>),
     (8, \<lambda>b e. e\<lparr>fe_last_seen := dec_time b\<rparr>),
     (1, \<lambda>b e. e\<lparr>fe_modified := dec8 b \<noteq> 0\<rparr>)]"

definition store_loaded :: "bool \<Rightarrow> FileEntry \<Rightarrow> FileHashMap \<Rightarrow> FileHashMap" where
  "store_loaded mem e m = (case hashmap_insert mem m (fe_name e) of
     (m', None) \<Rightarrow> m'
   | (m', Some p) \<Rightarrow> set_entry p (\<lambda>x. x\<lparr>fe_hash := fe_hash e, fe_last_seen := fe_last_seen e,
                                        fe_modified := fe_modified e\<rparr>) m')"

fun load_files :: "env \<Rightarrow> string \<Rightarrow> nat \<Rightarrow> nat \<Rightarrow> FileHashMap \<Rightarrow> (bool \<times> FileHashMap \<times> nat) vio" where
  "load_files E fp off 0 m = return (True, m, off)"
| "load_files E fp off (Suc n) m = do {
     (ok, e, off') \<leftarrow> read_fields E fp off entry_table calloc_entry;
     if \<not> ok then return (False, m, off')
     else do {
       mem \<leftarrow> alloc_ok E;
       load_files E fp off' n (store_loaded mem e m) } }"

text \<open>One round of the loop over the vaults, on a zeroed structure.\<close>

definition load_vault :: "env \<Rightarrow> string \<Rightarrow> nat \<Rightarrow> (bool \<times> Vault \<times> nat) vio" where
  "load_vault E fp off = do {
     (ok, v, off) \<leftarrow> read_fields E fp off vault_table zero_vault;
     if \<not> ok then return (False, v, off)
     else do {
       (b, _) \<leftarrow> sys_fread E fp off 4;
       if length b \<noteq> 4 then return (False, v, off)
       else if MAX_FILES_PER_VAULT < unat (dec32 b) then return (False, v, off)
       else do {
         (ok, m, off) \<leftarrow> load_files E fp (off + 4) (unat (dec32 b)) (v_map v);
         return (if ok then (True, v\<lparr>v_map := m, v_fan_wd := -1\<rparr>, off)
                 else (False, v\<lparr>v_map := m\<rparr>, off)) } } }"

fun load_vaults :: "env \<Rightarrow> string \<Rightarrow> nat \<Rightarrow> nat \<Rightarrow> nat \<Rightarrow> VaultErrorr vio" where
  "load_vaults E fp off i 0 = return ERR_OK"
| "load_vaults E fp off i (Suc n) = do {
     (ok, v, off') \<leftarrow> load_vault E fp off;
     mod_vault i (\<lambda>_. v);
     if ok then load_vaults E fp off' (Suc i) n else return ERR_IO }"

definition start_fresh :: "unit vio" where
  "start_fresh = modify (\<lambda>w. w\<lparr>g_catalog := (g_catalog w)\<lparr>c_category := ''Nuk4sd'', c_next_id := 1, c_mac_mode := -1\<rparr>\<rparr>)"

definition catalog_load :: "env \<Rightarrow> VaultErrorr vio" where
  "catalog_load E = do {
     file \<leftarrow> gets g_catalog_file;
     fp \<leftarrow> sys_fopen_r E file;
     case fp of
       Inl e \<Rightarrow> if e = ENOENT then do { start_fresh; return ERR_OK } else return ERR_IO
     | Inr fp \<Rightarrow> do {
         (magic, _) \<leftarrow> sys_fread E fp 0 4;
         if length magic \<noteq> 4 \<or> magic \<noteq> CATALOG_MAGIC then return ERR_IO
         else do {
           (vb, _) \<leftarrow> sys_fread E fp 4 1;
           if length vb \<noteq> 1 then return ERR_IO
           else let ver = dec8 vb in
             if ver \<noteq> CATALOG_VER \<and> ver \<noteq> 2 then do {
               _ \<leftarrow> sys_rename E file (cbuf VAULT_PATH_MAX (file @ ''.v'' @ dec_digits (unat ver) @ ''.bak''));
               start_fresh;
               return ERR_OK }
             else do {
               c0 \<leftarrow> gets g_catalog;
               (ok, c, off) \<leftarrow> read_fields E fp 5 (header_table ver) c0;
               modify (\<lambda>w. w\<lparr>g_catalog := c\<rparr>);
               if \<not> ok then return ERR_IO
               else do {
                 (if ver < 3 then modify (\<lambda>w. w\<lparr>g_catalog := (g_catalog w)\<lparr>c_mac_mode := -1\<rparr>\<rparr>) else return ());
                 n \<leftarrow> gets (\<lambda>w. length (c_vaults (g_catalog w)));
                 if MAX_VAULTS < n then return ERR_IO
                 else load_vaults E fp off 0 n } } } } }"

end
