(* ===== verification/Samples.thy ===== *)
theory Samples
  imports Hash_Map
begin

text \<open>
  A concrete environment and a concrete state, on which the examples of the other theories are evaluated:
  a superuser process on a machine where no call fails, with one vault \<open>docs\<close> below \<open>/v\<close>, its
  cipher directory below \<open>/k\<close> and the catalog in \<open>/k/c\<close>. The cryptographic functions are simple
  stand-ins with the properties the real ones are documented to have.
\<close>

definition ex_env :: env where
  "ex_env = \<lparr>e_fault = \<lambda>_. None, e_short = \<lambda>_. None, e_malloc = \<lambda>_. True, e_time = \<lambda>t. 1000 + int t,
     e_hour = \<lambda>_. 12, e_rand = \<lambda>t n. Some (replicate n (char_of t)),
     e_pbkdf2 = \<lambda>pw salt n. Some (pad 32 pw), e_sha256 = \<lambda>d. pad 32 d,
     e_gcm_enc = \<lambda>k iv off b. b, e_gcm_dec = \<lambda>k iv off b. b,
     e_gcm_tag = \<lambda>k iv ct. pad 16 k, e_gcm_ok = \<lambda>k iv ct tag. tag = pad 16 k,
     e_ctr = \<lambda>k iv n. replicate n NUL, e_uid = 0, e_euid = 0, e_pid = 7, e_umask = MODE_0022,
     e_realpath = \<lambda>f p. if fs_get f p = None then None else Some p, e_home = Some ''/h''\<rparr>"

lemma reliable_ex_env [simp]: "reliable ex_env"
  by (simp add: reliable_def ex_env_def)

lemma ex_env_root [simp]: "e_euid ex_env = 0"
  by (simp add: ex_env_def)

definition ex_dir :: inode where
  "ex_dir = \<lparr>i_type = S_IFDIR, i_mode = MODE_0700, i_uid = 0, i_data = []\<rparr>"

definition ex_file :: "string \<Rightarrow> inode" where
  "ex_file b = \<lparr>i_type = S_IFREG, i_mode = MODE_0600, i_uid = 0, i_data = b\<rparr>"

definition ex_fs :: fs where
  "ex_fs = [(''/'', ex_dir), (''/k'', ex_dir), (''/v'', ex_dir), (''/k/docs'', ex_dir), (''/v/docs'', ex_dir),
     (''/v/docs/a'', ex_file ''hello''), (''/k/docs/a'', ex_file ''hello'')]"

definition ex_vault :: Vault where
  "ex_vault = zero_vault\<lparr>v_id := 1, v_name := ''docs'', v_path := ''/v/docs'', v_cipher := ''/k/docs''\<rparr>"

definition ex_world :: world where
  "ex_world = \<lparr>o_fs = ex_fs, o_tick = 0,
     g_catalog = \<lparr>c_vaults = [ex_vault], c_next_id = 2, c_category = ''Nuk4sd'', c_mac_mode = 0\<rparr>,
     g_rules = [], g_pids = [], g_seed = 0, g_catalog_path = ''/k'', g_catalog_file = ''/k/c'',
     g_log_file = ''/k/l'', g_lock_file = ''/k/p'', g_log_open = False, g_mon_running = False,
     g_mon_started = False, g_fan_fd = -1, g_running = True, g_mutex = MUTEX_FREE\<rparr>"

lemma ex_world_simps [simp]: "o_fs ex_world = ex_fs" "vaults ex_world = [ex_vault]"
  "g_catalog_file ex_world = ''/k/c''" "c_next_id (g_catalog ex_world) = 2" "o_tick ex_world = 0"
  "g_catalog_path ex_world = ''/k''"
  by (simp_all add: ex_world_def)

lemma ex_vault_simps [simp]: "v_map ex_vault = empty_map" "v_id ex_vault = 1" "v_name ex_vault = ''docs''"
  "v_status ex_vault = VAULT_STATUS_OK" "v_worm ex_vault = 0" "v_has_pass ex_vault = False"
  "v_failed ex_vault = 0" "v_mounted ex_vault = False" "v_path ex_vault = ''/v/docs''" "v_cipher ex_vault = ''/k/docs''"
  by (simp_all add: ex_vault_def zero_vault_def)

end
