(* ===== verification/Catalog_Roundtrip.thy ===== *)
theory Catalog_Roundtrip
  imports Catalog_Store Samples
begin

text \<open>
  What saving and loading the catalog achieve: a failed save leaves the catalog file untouched, and what
  a complete save writes is what a load reads back, apart from the fields the format does not
  hold.
\<close>

section \<open>Writing chunks\<close>

lemma write_chunks_reliable:
  "reliable E \<Longrightarrow> run_state (write_chunks E p bs) w =
     ((), w\<lparr>o_tick := o_tick w + length bs, o_fs := fold (fs_append p) bs (o_fs w)\<rparr>)"
  by (induction bs arbitrary: w)
     (simp_all add: write_chunks_def sys_fwrite_def tick_def run_tick)

lemma write_chunks_any:
  "wp (write_chunks E p bs)
     (\<lambda>_ w'. \<exists>t bs'. w' = w\<lparr>o_tick := t, o_fs := fold (fs_append p) bs' (o_fs w)\<rparr> \<and> list_all2 prefix bs' bs) w"
proof (induction bs arbitrary: w)
  case Nil
  show ?case
    by (simp add: write_chunks_def wp_simps) (rule exI [of _ "o_tick w"], simp)
next
  case (Cons b bs)
  let ?b = "take (fwrite_count E (o_tick w) b) b"
  let ?w = "w\<lparr>o_tick := Suc (o_tick w), o_fs := fs_append p ?b (o_fs w)\<rparr>"
  have "wp (write_chunks E p bs)
     (\<lambda>_ w'. \<exists>t bs'. w' = ?w\<lparr>o_tick := t, o_fs := fold (fs_append p) bs' (o_fs ?w)\<rparr> \<and> list_all2 prefix bs' bs) ?w"
    by (rule Cons.IH)
  then show ?case
    by (auto simp: write_chunks_def wp_simps take_is_prefix elim!: wp_mono intro!: exI [of _ "?b # _"])
qed

lemma fold_fs_append_other: "q \<noteq> p \<Longrightarrow> fs_get (fold (fs_append p) bs f) q = fs_get f q"
  by (induction bs arbitrary: f) (simp_all add: fs_append_other)

lemma fold_fs_append_same:
  "fs_get f p = Some n \<Longrightarrow> fs_get (fold (fs_append p) bs f) p = Some (n\<lparr>i_data := i_data n @ concat bs\<rparr>)"
  by (simp add: fold_fs_append)

text \<open>Opening a file for writing: what happens to it and to the others.\<close>

abbreviation W_FLAGS :: "32 word" where "W_FLAGS \<equiv> O_WRONLY OR O_CREAT OR O_TRUNC"

lemma w_flags [simp]: "flag_set W_FLAGS O_CREAT" "\<not> flag_set W_FLAGS O_EXCL" "\<not> flag_set W_FLAGS O_NOFOLLOW"
  "flag_set W_FLAGS O_TRUNC" "wants_write W_FLAGS" "\<not> wants_read W_FLAGS"
  by (simp_all add: flag_set_def o_flags wants_write_def wants_read_def)

definition not_link :: "fs \<Rightarrow> string \<Rightarrow> bool" where
  "not_link f p \<longleftrightarrow> (case fs_get f p of None \<Rightarrow> True | Some n \<Rightarrow> i_type n \<noteq> S_IFLNK)"

lemma resolve_Suc_not_link: "not_link f p \<Longrightarrow> resolve (Suc k) f p = Inr p"
  by (simp add: not_link_def split: option.splits)

lemma resolve_not_link: "not_link f p \<Longrightarrow> resolve SYMLOOP_MAX f p = Inr p"
  using resolve_Suc_not_link [of f p 39] by (simp add: SYMLOOP_MAX_def)

lemma fs_open_w_other:
  "fs_open E p W_FLAGS m f = (r, g) \<Longrightarrow> not_link f p \<Longrightarrow> q \<noteq> p \<Longrightarrow> fs_get g q = fs_get f q"
  by (auto simp: fs_open_def open_target_def resolve_not_link split: option.splits if_splits)

lemma fs_open_w_path:
  "fs_open E p W_FLAGS m f = (Inr q, g) \<Longrightarrow> not_link f p \<Longrightarrow>
     q = p \<and> (\<exists>n. fs_get g p = Some n \<and> i_data n = [] \<and>
       (fs_get f p = None \<longrightarrow> i_type n = S_IFREG \<and> i_uid n = e_euid E))"
  by (auto simp: fs_open_def open_target_def resolve_not_link split: option.splits if_splits)

section \<open>A failed save changes nothing\<close>

definition tmp_of :: "string \<Rightarrow> string" where "tmp_of file = cbuf 512 (file @ ''.tmp'')"

lemma tmp_of_neq: "length file < 508 \<Longrightarrow> tmp_of file \<noteq> file"
  by (simp add: tmp_of_def cbuf_def)

lemma fs_unlink_other: "q \<noteq> p \<Longrightarrow> fs_get (snd (fs_unlink E p f)) q = fs_get f q"
  by (simp add: fs_unlink_def split: option.splits)

lemma fs_rename_other:
  "fs_rename E a b f = (r, g) \<Longrightarrow> fs_get f a = Some n \<Longrightarrow> i_type n = S_IFREG \<Longrightarrow> q \<noteq> a \<Longrightarrow> q \<noteq> b \<Longrightarrow>
   fs_get g q = fs_get f q"
  by (auto simp: fs_rename_def move_node_def split: option.splits if_splits)

lemma fs_rename_fails: "fst (fs_rename E a b f) = Inl e \<Longrightarrow> snd (fs_rename E a b f) = f"
  using fs_rename_Inl [of E a b f e "snd (fs_rename E a b f)"] by (cases "fs_rename E a b f") simp

text \<open>From the open stream on.\<close>

lemma wp_save_rest:
  assumes "file \<noteq> tmp"
  shows "wp (write_chunks E tmp bs)
     (\<lambda>_. wp (do { r \<leftarrow> sys_rename E tmp file;
                 (case r of
                    Inl _ \<Rightarrow> do { _ \<leftarrow> sys_unlink E tmp; return ERR_IO }
                  | Inr _ \<Rightarrow> do { _ \<leftarrow> sys_chmod E file MODE_0600; return ERR_OK }) })
       (\<lambda>r w'. g_catalog w' = g_catalog w
         \<and> (r \<noteq> ERR_OK \<longrightarrow> r = ERR_IO \<and> fs_get (o_fs w') file = fs_get (o_fs w) file))) w"
  by (rule wp_mono [OF write_chunks_any])
     (use assms in \<open>auto simp: wp_simps fold_fs_append_other fs_unlink_other fs_rename_fails split: option.splits sum.splits\<close>)

lemma wp_catalog_save:
  assumes "length (g_catalog_file w) < 508" and "not_link (o_fs w) (tmp_of (g_catalog_file w))"
  shows "wp (catalog_save E) (\<lambda>r w'. g_catalog w' = g_catalog w
     \<and> (r \<noteq> ERR_OK \<longrightarrow> r = ERR_IO \<and> fs_get (o_fs w') (g_catalog_file w) = fs_get (o_fs w) (g_catalog_file w))) w"
proof -
  let ?file = "g_catalog_file w" and ?tmp = "tmp_of (g_catalog_file w)"
  have neq: "?file \<noteq> ?tmp" using tmp_of_neq [OF assms(1)] by simp
  obtain r g where o: "fs_open E ?tmp W_FLAGS MODE_0666 (o_fs w) = (r, g)" by fastforce
  have keep: "fs_get g ?file = fs_get (o_fs w) ?file" using fs_open_w_other [OF o assms(2) neq] .
  show ?thesis
  proof (cases r)
    case (Inl e)
    then show ?thesis
      using o keep by (auto simp: catalog_save_def tmp_of_def [symmetric] wp_simps Let_def split: option.splits)
  next
    case (Inr q)
    then have "q = ?tmp" using fs_open_w_path [of E ?tmp _ "o_fs w"] o assms(2) by blast
    then show ?thesis
      using Inr o keep wp_save_rest [OF neq, of E "catalog_chunks (g_catalog w)"
         "w\<lparr>o_tick := Suc (o_tick w), o_fs := g\<rparr>"]
      by (simp add: catalog_save_def tmp_of_def [symmetric] wp_bind wp_gets wp_syscall wp_return wp_let wp_if Let_def
          split: option.splits)
  qed
qed

section \<open>Reading back what was written\<close>

definition vault_wf :: "Vault \<Rightarrow> bool" where
  "vault_wf v \<longleftrightarrow> str_ok VAULT_NAME_MAX (v_name v) \<and> str_ok VAULT_PATH_MAX (v_path v)
     \<and> str_ok VAULT_PATH_MAX (v_cipher v) \<and> type_ok (v_type v) \<and> status_ok (v_status v)
     \<and> time_ok (v_created v) \<and> time_ok (v_last_check v) \<and> int_ok (v_failed v)
     \<and> time_ok (al_first (v_alert v)) \<and> time_ok (al_last (v_alert v)) \<and> str_ok 256 (al_reason (v_alert v))
     \<and> length (v_salt v) = SALT_LEN \<and> length (v_pass_hash v) = 32 \<and> hm_inv (v_map v)
     \<and> (\<forall>e \<in> set (entries (v_map v)). length (fe_hash e) = HASH_HEX_LEN \<and> time_ok (fe_last_seen e))"

definition catalog_wf :: "Catalog \<Rightarrow> bool" where
  "catalog_wf c \<longleftrightarrow> length (c_vaults c) \<le> MAX_VAULTS \<and> str_ok 32 (c_category c)
     \<and> (\<forall>v \<in> set (c_vaults c). vault_wf v)"

text \<open>The fields of a vault that the format does not hold, as a load leaves them; the chains come back
  reversed.\<close>

definition reload_vault :: "Vault \<Rightarrow> Vault" where
  "reload_vault v = v\<lparr>v_map := rev_chains (v_map v), v_mounted := False, v_fan_wd := -1,
     v_write_mode := False, v_fbuckets := [], v_bucket_credits := 0, v_engine := 0\<rparr>"

lemma run_sys_fread: "run_state (sys_fread E p off n) s =
   (fread_result E (o_tick s) (take n (drop off (fs_content (o_fs s) p))), s\<lparr>o_tick := Suc (o_tick s)\<rparr>)"
  by (simp add: sys_fread_def run_tick)

lemma run_alloc_ok: "run_state (alloc_ok E) s = (e_malloc E (o_tick s), s\<lparr>o_tick := Suc (o_tick s)\<rparr>)"
  by (simp add: alloc_ok_def run_tick)

definition apply_fields :: "'s field list \<Rightarrow> string list \<Rightarrow> 's \<Rightarrow> 's" where
  "apply_fields tab bs s = fold (\<lambda>(f, b) s. snd f b s) (zip tab bs) s"

definition widths_ok :: "'s field list \<Rightarrow> string list \<Rightarrow> bool" where
  "widths_ok tab bs \<longleftrightarrow> map fst tab = map length bs"

lemma read_fields_reliable:
  assumes "reliable E" "widths_ok tab bs" "drop off (fs_content (o_fs w) p) = concat bs @ suf"
  shows "run_state (read_fields E p off tab s) w =
     ((True, apply_fields tab bs s, off + length (concat bs)), w\<lparr>o_tick := o_tick w + length tab\<rparr>)"
  using assms(2,3)
proof (induction tab arbitrary: bs off s w)
  case Nil
  then show ?case by (simp add: widths_ok_def apply_fields_def)
next
  case (Cons f tab)
  obtain n g where f: "f = (n, g)" by fastforce
  obtain b bs' where bs: "bs = b # bs'" "length b = n" "widths_ok tab bs'"
    using Cons.prems(1) f by (cases bs) (auto simp: widths_ok_def)
  have "drop (off + n) (fs_content (o_fs w) p) = drop n (drop off (fs_content (o_fs w) p))"
    by (simp add: add.commute)
  then have rest: "drop (off + n) (fs_content (o_fs w) p) = concat bs' @ suf"
    using Cons.prems(2) bs by simp
  have head: "take n (drop off (fs_content (o_fs w) p)) = b" using Cons.prems(2) bs by simp
  show ?case
    using assms(1) f bs head rest
    by (simp add: run_sys_fread Cons.IH apply_fields_def add.assoc)
qed

definition entry_ok :: "FileEntry \<Rightarrow> bool" where
  "entry_ok e \<longleftrightarrow> str_ok (NAME_MAX + 1) (fe_name e) \<and> length (fe_hash e) = HASH_HEX_LEN \<and> time_ok (fe_last_seen e)"

lemma entry_table_fields:
  assumes "entry_ok e"
  shows "widths_ok entry_table (entry_fields e)" "apply_fields entry_table (entry_fields e) calloc_entry = e"
  using assms by (simp_all add: widths_ok_def entry_table_def entry_fields_def entry_ok_def apply_fields_def)

lemma store_loaded_put: "store_loaded True e m = hm_put m (fe_name e) e"
proof -
  have "(\<lambda>x. x\<lparr>fe_hash := fe_hash e, fe_last_seen := fe_last_seen e, fe_modified := fe_modified e\<rparr>)
      = (\<lambda>x. e\<lparr>fe_name := fe_name x\<rparr>)"
    by (rule ext) simp
  then show ?thesis by (simp add: store_loaded_def hm_put_def split: prod.splits option.splits)
qed

lemma load_files_reliable:
  assumes "reliable E" "\<forall>e \<in> set es. entry_ok e"
    "drop off (fs_content (o_fs w) p) = concat (concat (map entry_fields es)) @ suf"
  shows "\<exists>t. run_state (load_files E p off (length es) m) w =
     ((True, ft.put_all m es, off + length (concat (concat (map entry_fields es)))), w\<lparr>o_tick := t\<rparr>)"
  using assms(2,3)
proof (induction es arbitrary: off m w)
  case Nil
  show ?case by (simp add: ft.put_all_def) (rule exI [of _ "o_tick w"], simp)
next
  case (Cons e es)
  let ?c = "fs_content (o_fs w) p" and ?n = "length (concat (entry_fields e))"
  have e: "entry_ok e" using Cons.prems(1) by simp
  have head: "drop off ?c = concat (entry_fields e) @ (concat (concat (map entry_fields es)) @ suf)"
    using Cons.prems(2) by simp
  have "drop (off + ?n) ?c = drop ?n (drop off ?c)" by (simp add: add.commute)
  then have rest: "drop (off + ?n) ?c = concat (concat (map entry_fields es)) @ suf" using head by simp
  let ?w = "w\<lparr>o_tick := Suc (o_tick w + length entry_table)\<rparr>"
  obtain t where "run_state (load_files E p (off + ?n) (length es) (hm_put m (fe_name e) e)) ?w =
     ((True, ft.put_all (hm_put m (fe_name e) e) es, off + ?n + length (concat (concat (map entry_fields es)))),
      ?w\<lparr>o_tick := t\<rparr>)"
    using Cons.IH [of "off + ?n" ?w "hm_put m (fe_name e) e"] Cons.prems(1) rest by auto
  then show ?case
    using read_fields_reliable [OF assms(1) entry_table_fields(1) [OF e] head] assms(1)
    by (simp add: entry_table_fields(2) [OF e] run_alloc_ok store_loaded_put ft.put_all_def add.assoc)
      (rule exI [of _ t], rule refl)
qed

text \<open>Re-inserting the entries of a table in the order they were written reverses its chains.\<close>

lemma hm_inv_entries_distinct:
  assumes "hm_inv m"
  shows "distinct (map fe_name (entries m))" "e \<in> set (entries m) \<Longrightarrow> str_ok (NAME_MAX + 1) (fe_name e)"
proof -
  have bk: "\<forall>b < length (hm_buckets m). bucket_ok b (hm_buckets m ! b)"
    using assms by (simp add: hm_inv_def)
  have "distinct (map fe_name (concat bs)) \<and> (\<forall>e \<in> set (concat bs). str_ok (NAME_MAX + 1) (fe_name e) \<and> d \<le> hashmap_bucket (fe_name e))"
    if "\<forall>b < length bs. bucket_ok (d + b) (bs ! b)" for bs d
    using that
  proof (induction bs arbitrary: d)
    case (Cons x xs)
    have x: "bucket_ok d x" using Cons.prems [rule_format, of 0] by simp
    have "\<forall>b < length xs. bucket_ok (Suc d + b) (xs ! b)"
      using Cons.prems by (auto dest: spec [of _ "Suc _"])
    note xs = Cons.IH [OF this]
    have "set (map fe_name x) \<inter> set (map fe_name (concat xs)) = {}"
    proof (rule ccontr)
      assume "set (map fe_name x) \<inter> set (map fe_name (concat xs)) \<noteq> {}"
      then obtain a b where "a \<in> set x" "b \<in> set (concat xs)" "fe_name a = fe_name b" by auto
      with x xs show False by (force simp: bucket_ok_def)
    qed
    with x xs show ?case by (fastforce simp: bucket_ok_def)
  qed simp
  from this [of "hm_buckets m" 0] bk
  show "distinct (map fe_name (entries m))" "e \<in> set (entries m) \<Longrightarrow> str_ok (NAME_MAX + 1) (fe_name e)"
    by (auto simp: entries_def)
qed

lemma hm_count_put_all:
  assumes "hm_inv m" "\<forall>e \<in> set es. str_ok (NAME_MAX + 1) (fe_name e) \<and> hm_lookup m (fe_name e) = None"
    and "distinct (map fe_name es)"
  shows "hm_count (ft.put_all m es) = hm_count m + length es"
  using assms
proof (induction es arbitrary: m)
  case (Cons e es)
  have ok: "str_ok (NAME_MAX + 1) (fe_name e)" and fresh: "hashmap_find m (fe_name e) = None"
    using Cons.prems(2) by (auto simp: hm_lookup_Some_bucket)
  have "\<forall>x \<in> set es. str_ok (NAME_MAX + 1) (fe_name x) \<and> hm_lookup (hm_put m (fe_name e) e) (fe_name x) = None"
    using Cons.prems(1-3) ok by (auto simp: hm_lookup_put intro: rev_image_eqI)
  then have "hm_count (ft.put_all (hm_put m (fe_name e) e) es) = hm_count (hm_put m (fe_name e) e) + length es"
    using Cons.IH Cons.prems(1,3) ok by (simp add: hm_put_inv)
  moreover have "hm_count (hm_put m (fe_name e) e) = hm_count m + 1"
    using Cons.prems(1) hm_put_new [OF fresh refl ok] by (simp add: hm_inv_def)
  ultimately show ?case by (simp add: ft.put_all_def)
qed (simp add: ft.put_all_def)

lemma put_all_entries:
  assumes "hm_inv m"
  shows "ft.put_all empty_map (entries m) = rev_chains m"
proof (rule FileHashMap.equality)
  note ok = hm_inv_entries_distinct [OF assms]
  have pre: "\<forall>e \<in> set (entries m). str_ok (NAME_MAX + 1) (fe_name e) \<and> hm_lookup empty_map (fe_name e) = None"
    using ok(2) by (simp add: hm_lookup_empty)
  have len: "length (hm_buckets m) = HASHMAP_BUCKETS" using assms by (simp add: hm_inv_def)
  have inv: "hm_inv (ft.put_all empty_map (entries m))"
    using ft.invar_put_all [OF hm_inv_empty] ok(2) by blast
  show "hm_buckets (ft.put_all empty_map (entries m)) = hm_buckets (rev_chains m)"
  proof (rule nth_equalityI)
    show "length (hm_buckets (ft.put_all empty_map (entries m))) = length (hm_buckets (rev_chains m))"
      using inv len by (simp add: hm_inv_def rev_chains_def)
  next
    fix b assume "b < length (hm_buckets (ft.put_all empty_map (entries m)))"
    then have b: "b < HASHMAP_BUCKETS" using inv by (simp add: hm_inv_def)
    have "filter (\<lambda>e. hashmap_bucket (fe_name e) = b) (entries m) = hm_buckets m ! b"
      using filter_bucket_concat [of "hm_buckets m" "\<lambda>e. hashmap_bucket (fe_name e)" 0 b] assms b len
      by (simp add: hm_inv_def bucket_ok_def entries_def)
    moreover have "hm_buckets empty_map ! b = []" using b by (simp add: empty_map_def)
    ultimately show "hm_buckets (ft.put_all empty_map (entries m)) ! b = hm_buckets (rev_chains m) ! b"
      using put_all_buckets [OF hm_inv_empty pre ok(1) b] b len by (simp add: rev_chains_def)
  qed
  show "hm_count (ft.put_all empty_map (entries m)) = hm_count (rev_chains m)"
    using hm_count_put_all [OF hm_inv_empty pre ok(1)] assms
    by (simp add: hm_inv_def rev_chains_def) (simp add: empty_map_def)
qed simp

lemma vault_table_fields:
  assumes "vault_wf v"
  shows "widths_ok vault_table (vault_fields v)"
    and "apply_fields vault_table (vault_fields v) zero_vault =
      v\<lparr>v_mounted := False, v_map := empty_map, v_fan_wd := 0, v_write_mode := False, v_fbuckets := [],
        v_bucket_credits := 0, v_engine := 0\<rparr>"
proof -
  show "widths_ok vault_table (vault_fields v)"
    using assms by (simp add: widths_ok_def vault_table_def vault_fields_def vault_wf_def)
  have "v_alert v = \<lparr>al_first = al_first (v_alert v), al_last = al_last (v_alert v), al_idx = al_idx (v_alert v),
      al_count = al_count (v_alert v), al_reason = al_reason (v_alert v)\<rparr>" by simp
  then show "apply_fields vault_table (vault_fields v) zero_vault =
      v\<lparr>v_mounted := False, v_map := empty_map, v_fan_wd := 0, v_write_mode := False, v_fbuckets := [],
        v_bucket_credits := 0, v_engine := 0\<rparr>"
    using assms
    by (simp add: apply_fields_def vault_table_def vault_fields_def vault_wf_def zero_vault_def zero_alert_def
        type_ok_def status_ok_def)
qed

lemma saved_fcount_small: "hm_count m \<le> FCOUNT_MAX \<Longrightarrow> saved_fcount m = hm_count m"
  by (simp add: saved_fcount_def FCOUNT_MAX_def)

lemma unat_nat32: "n < 4294967296 \<Longrightarrow> unat (word_of_nat n :: 32 word) = n"
  by (simp add: unsigned_of_nat take_bit_nat_eq_self)

lemma load_vault_reliable:
  assumes "reliable E" "vault_wf v" "hm_count (v_map v) \<le> FCOUNT_MAX"
    and "drop off (fs_content (o_fs w) p) = concat (vault_chunks v) @ suf"
  shows "\<exists>t. run_state (load_vault E p off) w =
     ((True, reload_vault v, off + length (concat (vault_chunks v))), w\<lparr>o_tick := t\<rparr>)"
proof -
  let ?c = "fs_content (o_fs w) p" and ?m = "v_map v" and ?n = "hm_count (v_map v)"
  let ?fields = "concat (vault_fields v)" and ?es = "concat (concat (map entry_fields (entries (v_map v))))"
  have n: "?n = length (entries ?m)" and inv: "hm_inv ?m" using assms(2) by (auto simp: vault_wf_def hm_inv_def)
  have small: "?n < 2 ^ 32" "?n \<le> MAX_FILES_PER_VAULT" using assms(3) by (simp_all add: sizes)
  have chunks: "concat (vault_chunks v) = ?fields @ enc32 (word_of_nat ?n) @ ?es"
    using n by (simp add: vault_chunks_def saved_fcount_small [OF assms(3)])
  have d1: "drop off ?c = ?fields @ (enc32 (word_of_nat ?n) @ ?es @ suf)" using assms(4) chunks by simp
  have "drop (off + length ?fields) ?c = drop (length ?fields) (drop off ?c)" by (simp add: add.commute)
  then have d2: "drop (off + length ?fields) ?c = enc32 (word_of_nat ?n) @ ?es @ suf" using d1 by simp
  have "drop (off + length ?fields + 4) ?c = drop 4 (drop (off + length ?fields) ?c)" by (simp add: add.commute)
  then have d3: "drop (off + length ?fields + 4) ?c = ?es @ suf" using d2 by simp
  have ok: "\<forall>e \<in> set (entries ?m). entry_ok e"
    using assms(2) hm_inv_entries_distinct(2) [OF inv] by (auto simp: vault_wf_def entry_ok_def)
  let ?w = "w\<lparr>o_tick := Suc (o_tick w + length vault_table)\<rparr>"
  obtain t where "run_state (load_files E p (off + length ?fields + 4) ?n empty_map) ?w =
     ((True, rev_chains ?m, off + length ?fields + 4 + length ?es), ?w\<lparr>o_tick := t\<rparr>)"
    using load_files_reliable [OF assms(1) ok, of "off + length ?fields + 4" ?w p suf empty_map] d3 n
      put_all_entries [OF inv] by auto
  then show ?thesis
    using read_fields_reliable [OF assms(1) vault_table_fields(1) [OF assms(2)] d1] d2 assms(1) small
    by (simp add: load_vault_def vault_table_fields(2) [OF assms(2)] run_sys_fread unat_nat32 chunks
        reload_vault_def add.assoc) (rule exI [of _ t], simp)
qed

lemma run_mod_vault: "run_state (mod_vault i f) w = ((), upd_vaults (\<lambda>vs. vs[i := f (vs ! i)]) w)"
  by (simp add: mod_vault_def)

lemma upd_vaults_comp: "upd_vaults f (upd_vaults g w) = upd_vaults (\<lambda>vs. f (g vs)) w"
  by (simp add: upd_vaults_def)

lemma upd_vaults_tick: "upd_vaults f (w\<lparr>o_tick := t\<rparr>) = (upd_vaults f w)\<lparr>o_tick := t\<rparr>"
  by (simp add: upd_vaults_def)

fun store_all :: "nat \<Rightarrow> Vault list \<Rightarrow> Vault list \<Rightarrow> Vault list" where
  "store_all i [] slots = slots"
| "store_all i (v # vs) slots = store_all (Suc i) vs (slots[i := v])"

lemma store_all_eq:
  "length slots = i + length vs \<Longrightarrow> store_all i vs slots = take i slots @ vs"
proof (induction vs arbitrary: i slots)
  case (Cons v vs)
  then have "store_all i (v # vs) slots = take (Suc i) (slots[i := v]) @ vs" by simp
  also have "take (Suc i) (slots[i := v]) = take i slots @ [v]"
    using Cons.prems by (simp add: take_Suc_conv_app_nth)
  finally show ?case by simp
qed simp

lemma load_vaults_reliable:
  assumes "reliable E" "\<forall>v \<in> set vs. vault_wf v \<and> hm_count (v_map v) \<le> FCOUNT_MAX"
    and "drop off (fs_content (o_fs w) p) = concat (concat (map vault_chunks vs)) @ suf"
  shows "\<exists>t. run_state (load_vaults E p off i (length vs)) w =
     (ERR_OK, (upd_vaults (store_all i (map reload_vault vs)) w)\<lparr>o_tick := t\<rparr>)"
  using assms(2,3)
proof (induction vs arbitrary: off i w)
  case Nil
  show ?case by (simp add: upd_vaults_def) (rule exI [of _ "o_tick w"], simp)
next
  case (Cons v vs)
  let ?c = "fs_content (o_fs w) p" and ?n = "length (concat (vault_chunks v))"
  have v: "vault_wf v" "hm_count (v_map v) \<le> FCOUNT_MAX" using Cons.prems(1) by simp_all
  have head: "drop off ?c = concat (vault_chunks v) @ (concat (concat (map vault_chunks vs)) @ suf)"
    using Cons.prems(2) by simp
  obtain t where t: "run_state (load_vault E p off) w = ((True, reload_vault v, off + ?n), w\<lparr>o_tick := t\<rparr>)"
    using load_vault_reliable [OF assms(1) v head] by blast
  have "drop (off + ?n) ?c = drop ?n (drop off ?c)" by (simp add: add.commute)
  then have rest: "drop (off + ?n) ?c = concat (concat (map vault_chunks vs)) @ suf" using head by simp
  let ?w = "upd_vaults (\<lambda>xs. xs[i := reload_vault v]) (w\<lparr>o_tick := t\<rparr>)"
  obtain t' where "run_state (load_vaults E p (off + ?n) (Suc i) (length vs)) ?w =
     (ERR_OK, (upd_vaults (store_all (Suc i) (map reload_vault vs)) ?w)\<lparr>o_tick := t'\<rparr>)"
    using Cons.IH [of "off + ?n" ?w "Suc i"] Cons.prems(1) rest by auto
  then show ?case
    using t by (simp add: run_mod_vault upd_vaults_comp upd_vaults_tick) (rule exI [of _ t'], simp)
qed

definition reload_catalog :: "Catalog \<Rightarrow> Catalog" where
  "reload_catalog c = c\<lparr>c_vaults := map reload_vault (c_vaults c)\<rparr>"

lemma header_table_fields:
  assumes "catalog_wf c" "c_vaults c0 = []"
  shows "widths_ok (header_table 3) (drop 2 (catalog_header c))"
    and "apply_fields (header_table 3) (drop 2 (catalog_header c)) c0 =
       c\<lparr>c_vaults := replicate (length (c_vaults c)) zero_vault\<rparr>"
proof -
  show "widths_ok (header_table 3) (drop 2 (catalog_header c))"
    by (simp add: widths_ok_def header_table_def catalog_header_def)
  have "length (c_vaults c) < 4294967296" using assms(1) by (simp add: catalog_wf_def MAX_VAULTS_def)
  then show "apply_fields (header_table 3) (drop 2 (catalog_header c)) c0 =
       c\<lparr>c_vaults := replicate (length (c_vaults c)) zero_vault\<rparr>"
    using assms by (simp add: apply_fields_def header_table_def catalog_header_def alloc_slots_def
        catalog_wf_def unat_nat32)
qed

lemma catalog_load_reliable:
  assumes "reliable E" "catalog_wf c" "\<forall>v \<in> set (c_vaults c). hm_count (v_map v) \<le> FCOUNT_MAX"
    and "fs_open E (g_catalog_file w) 0 0 (o_fs w) = (Inr (g_catalog_file w), o_fs w)"
    and content: "fs_content (o_fs w) (g_catalog_file w) = concat (catalog_chunks c)"
    and "vaults w = []"
  shows "\<exists>t. run_state (catalog_load E) w = (ERR_OK, w\<lparr>g_catalog := reload_catalog c, o_tick := t\<rparr>)"
proof -
  let ?f = "g_catalog_file w" and ?hd = "drop 2 (catalog_header c)"
  let ?vs = "concat (concat (map vault_chunks (c_vaults c)))"
  have all: "concat (catalog_chunks c) = CATALOG_MAGIC @ enc8 CATALOG_VER @ concat ?hd @ ?vs"
    by (simp add: catalog_chunks_def catalog_header_def)
  have m: "take 4 (fs_content (o_fs w) ?f) = CATALOG_MAGIC" "length CATALOG_MAGIC = 4"
    using content all by (simp_all add: CATALOG_MAGIC_def)
  have v: "take 1 (drop 4 (fs_content (o_fs w) ?f)) = enc8 CATALOG_VER"
    using content all by (simp add: CATALOG_MAGIC_def)
  have d: "drop 5 (fs_content (o_fs w) ?f) = concat ?hd @ ?vs"
    using content all by (simp add: CATALOG_MAGIC_def)
  have "drop (5 + length (concat ?hd)) (fs_content (o_fs w) ?f) = drop (length (concat ?hd)) (drop 5 (fs_content (o_fs w) ?f))"
    by (simp add: add.commute)
  then have d2: "drop (5 + length (concat ?hd)) (fs_content (o_fs w) ?f) = ?vs @ []" using d by simp
  let ?c = "c\<lparr>c_vaults := replicate (length (c_vaults c)) zero_vault\<rparr>"
  let ?w = "w\<lparr>o_tick := o_tick w + 3 + length (header_table 3), g_catalog := ?c\<rparr>"
  have wf: "\<forall>v \<in> set (c_vaults c). vault_wf v \<and> hm_count (v_map v) \<le> FCOUNT_MAX" "length (c_vaults c) \<le> MAX_VAULTS"
    using assms(2,3) by (simp_all add: catalog_wf_def)
  obtain t where t: "run_state (load_vaults E ?f (5 + length (concat ?hd)) 0 (length (c_vaults c))) ?w =
     (ERR_OK, (upd_vaults (store_all 0 (map reload_vault (c_vaults c))) ?w)\<lparr>o_tick := t\<rparr>)"
    using load_vaults_reliable [OF assms(1) wf(1), of "5 + length (concat ?hd)" ?w ?f "[]" 0] d2 by auto
  have "upd_vaults (store_all 0 (map reload_vault (c_vaults c))) ?w = ?w\<lparr>g_catalog := reload_catalog c\<rparr>"
    by (simp add: upd_vaults_def store_all_eq reload_catalog_def)
  with t have "run_state (load_vaults E ?f (5 + length (concat ?hd)) 0 (length (c_vaults c))) ?w =
     (ERR_OK, w\<lparr>g_catalog := reload_catalog c, o_tick := t\<rparr>)" by simp
  then show ?thesis
    using assms(1,4,6) m v wf(2)
      read_fields_reliable [OF assms(1) header_table_fields(1) [OF assms(2), of "g_catalog w"], of 5 "w\<lparr>o_tick := o_tick w + 3\<rparr>" ?f ?vs "g_catalog w"] d
      header_table_fields(2) [OF assms(2), of "g_catalog w"]
    by (simp add: catalog_load_def run_syscall run_sys_fread CATALOG_VER_def numeral_3_eq_3)
       (rule exI [of _ t], simp)
qed

section \<open>What a successful save leaves on disk\<close>

lemma fs_rename_onto:
  assumes "fs_rename E a b f = (Inr (), g)" "fs_get f a = Some n" "i_type n = S_IFREG" "a \<noteq> b"
  shows "fs_get g b = Some n" "search_err E g (parent_dir b) = None"
proof -
  show b: "fs_get g b = Some n" using fs_rename_file(1) [OF assms(1-3)] .
  have s: "search_err E f (parent_dir b) = None"
    using assms(1,2) by (auto simp: fs_rename_def split: option.splits if_splits)
  then obtain d where d: "fs_get f (parent_dir b) = Some d" "i_type d = S_IFDIR" "may E d X_BIT"
    by (auto simp: search_err_def split: option.splits if_splits)
  have "parent_dir b \<noteq> a" using d assms(2,3) by auto
  moreover have "parent_dir b \<noteq> b"
  proof
    assume "parent_dir b = b"
    with d assms(1-3) show False by (auto simp: fs_rename_def split: option.splits if_splits)
  qed
  ultimately have "fs_get g (parent_dir b) = Some d" using fs_rename_file(3) [OF assms(1-3)] d by simp
  then show "search_err E g (parent_dir b) = None" using d by (simp add: search_err_def)
qed

lemma catalog_save_reliable:
  assumes "reliable E" "run_state (catalog_save E) w = (ERR_OK, w')"
    and "length (g_catalog_file w) < 508" "fs_get (o_fs w) (tmp_of (g_catalog_file w)) = None"
  shows "\<exists>f t. w' = w\<lparr>o_tick := t, o_fs := f\<rparr>
     \<and> fs_content f (g_catalog_file w) = concat (catalog_chunks (g_catalog w))
     \<and> fs_open E (g_catalog_file w) 0 0 f = (Inr (g_catalog_file w), f)"
proof -
  let ?file = "g_catalog_file w" and ?tmp = "tmp_of (g_catalog_file w)"
  let ?bs = "catalog_chunks (g_catalog w)"
  have neq: "?tmp \<noteq> ?file" using tmp_of_neq [OF assms(3)] .
  have nl: "not_link (o_fs w) ?tmp" using assms(4) by (simp add: not_link_def)
  obtain r g where o: "fs_open E ?tmp W_FLAGS MODE_0666 (o_fs w) = (r, g)" by fastforce
  have "\<exists>q. r = Inr q"
    using assms(1,2) o by (cases r) (simp_all add: catalog_save_def tmp_of_def [symmetric] run_syscall Let_def)
  then have r: "r = Inr ?tmp" using fs_open_w_path [of E ?tmp _ "o_fs w"] o nl by blast
  then obtain n where n: "fs_get g ?tmp = Some n" "i_data n = []" "i_type n = S_IFREG" "i_uid n = e_euid E"
    using fs_open_w_path [of E ?tmp _ "o_fs w"] o nl assms(4) by blast
  let ?n = "n\<lparr>i_data := concat ?bs\<rparr>" and ?g = "fold (fs_append ?tmp) ?bs g"
  have gn: "fs_get ?g ?tmp = Some ?n" using fold_fs_append_same [OF n(1), of ?bs] n(2) by simp
  obtain r' h where h: "fs_rename E ?tmp ?file ?g = (r', h)" by fastforce
  have run: "run_state (catalog_save E) w = (case r' of
       Inl _ \<Rightarrow> (ERR_IO, snd (run_state (sys_unlink E ?tmp) (w\<lparr>o_tick := o_tick w + 2 + length ?bs, o_fs := h\<rparr>)))
     | Inr _ \<Rightarrow> (ERR_OK, w\<lparr>o_tick := o_tick w + 3 + length ?bs, o_fs := snd (fs_chmod E ?file MODE_0600 h)\<rparr>))"
    using assms(1) o r h
    by (simp add: catalog_save_def tmp_of_def [symmetric] run_syscall write_chunks_reliable Let_def
        numeral_3_eq_3 split: sum.splits prod.splits)
  then have r': "r' = Inr ()" using assms(2) by (cases r') auto
  then have hr: "fs_rename E ?tmp ?file ?g = (Inr (), h)" using h by simp
  have hf: "fs_get h ?file = Some ?n" and hs: "search_err E h (parent_dir ?file) = None"
    using fs_rename_onto [OF hr gn _ neq] n(3) by simp_all
  have nl': "not_link h ?file" using hf n(3) by (simp add: not_link_def)
  let ?m = "?n\<lparr>i_mode := MODE_0600\<rparr>" and ?f = "fs_put ?file (?n\<lparr>i_mode := MODE_0600\<rparr>) h"
  have chmod: "fs_chmod E ?file MODE_0600 h = (Inr (), ?f)"
    using hf hs n(4) by (simp add: fs_chmod_def resolve_not_link [OF nl'])
  have "parent_dir ?file \<noteq> ?file"
  proof
    assume "parent_dir ?file = ?file"
    with hs hf n(3) show False by (simp add: search_err_def)
  qed
  then have "search_err E ?f (parent_dir ?file) = None" using hs by (simp add: search_err_def)
  moreover have "not_link ?f ?file" using n(3) by (simp add: not_link_def)
  moreover have "may E ?m R_BIT" using n(4) by (simp add: may_def modes)
  ultimately have "fs_open E ?file 0 0 ?f = (Inr ?file, ?f)"
    using n(3) by (simp add: fs_open_def open_target_def resolve_not_link flag_set_def wants_write_def wants_read_def)
  moreover have "fs_content ?f ?file = concat ?bs" by (simp add: fs_content_def)
  ultimately show ?thesis
    using run assms(2) r' chmod by (auto intro!: exI [of _ ?f] exI [of _ "o_tick w + 3 + length ?bs"])
qed

text \<open>When no call is refused, a superuser with a catalog directory is always told that the save
  succeeded, and what is in the file is what the writes transferred.\<close>

definition can_save :: "world \<Rightarrow> bool" where
  "can_save w \<longleftrightarrow> (let file = g_catalog_file w; tmp = tmp_of file; f = o_fs w in
     length file < 508 \<and> fs_get f tmp = None \<and> fs_get f file = None \<and> parent_dir tmp = parent_dir file
     \<and> (case fs_get f (parent_dir file) of Some d \<Rightarrow> i_type d = S_IFDIR | None \<Rightarrow> False))"

lemma catalog_save_unrefused:
  assumes "\<forall>t. e_fault E t = None" "e_euid E = 0" "can_save w"
  shows "wp (catalog_save E) (\<lambda>r w'. r = ERR_OK \<and>
     (\<exists>t bs. run_state (write_chunks E (tmp_of (g_catalog_file w)) (catalog_chunks (g_catalog w)))
         (w\<lparr>o_tick := Suc (o_tick w), o_fs := snd (fs_open E (tmp_of (g_catalog_file w)) W_FLAGS MODE_0666 (o_fs w))\<rparr>)
         = ((), w\<lparr>o_tick := t, o_fs := fold (fs_append (tmp_of (g_catalog_file w))) bs
             (snd (fs_open E (tmp_of (g_catalog_file w)) W_FLAGS MODE_0666 (o_fs w)))\<rparr>)
      \<and> fs_content (o_fs w') (g_catalog_file w) = concat bs)) w"
proof -
  let ?file = "g_catalog_file w" and ?tmp = "tmp_of (g_catalog_file w)" and ?bs0 = "catalog_chunks (g_catalog w)"
  obtain d where d: "fs_get (o_fs w) (parent_dir ?file) = Some d" "i_type d = S_IFDIR" and
    w: "length ?file < 508" "fs_get (o_fs w) ?tmp = None" "fs_get (o_fs w) ?file = None" "parent_dir ?tmp = parent_dir ?file"
    using assms(3) by (auto simp: can_save_def Let_def split: option.splits)
  have neq: "?tmp \<noteq> ?file" using tmp_of_neq [OF w(1)] .
  have par: "parent_dir ?file \<noteq> ?tmp" "parent_dir ?file \<noteq> ?file" using w d by auto
  have nl: "not_link (o_fs w) ?tmp" using w by (simp add: not_link_def)
  let ?n = "\<lparr>i_type = S_IFREG, i_mode = MODE_0666 AND NOT (e_umask E), i_uid = e_euid E, i_data = []\<rparr>"
  have dir: "search_err E f (parent_dir ?file) = None \<and> write_err E f (parent_dir ?file) = None"
    if "fs_get f (parent_dir ?file) = Some d" for f
    using that assms(2) d by (simp add: search_err_def write_err_def may_def)
  let ?o = "fs_put ?tmp ?n (o_fs w)"
  have o: "fs_open E ?tmp W_FLAGS MODE_0666 (o_fs w) = (Inr ?tmp, ?o)"
    using w dir [OF d(1)] by (simp add: fs_open_def open_target_def resolve_not_link [OF nl])
  let ?w = "w\<lparr>o_tick := Suc (o_tick w), o_fs := ?o\<rparr>"
  obtain t bs where run: "run_state (write_chunks E ?tmp ?bs0) ?w
      = ((), w\<lparr>o_tick := t, o_fs := fold (fs_append ?tmp) bs ?o\<rparr>)"
    using wpD [OF write_chunks_any, of E ?tmp ?bs0 ?w "()" "snd (run_state (write_chunks E ?tmp ?bs0) ?w)"]
    by (cases "run_state (write_chunks E ?tmp ?bs0) ?w") auto
  let ?g = "fold (fs_append ?tmp) bs ?o"
  have g: "fs_get ?g (parent_dir ?file) = Some d" "fs_get ?g ?file = None" "fs_get ?g ?tmp = Some (?n\<lparr>i_data := concat bs\<rparr>)"
    using fold_fs_append_same [of ?o ?tmp ?n bs] w d par neq
    by (simp_all add: fold_fs_append_other)
  then obtain h where h: "fs_rename E ?tmp ?file ?g = (Inr (), h)"
    using w dir [OF g(1)] by (auto simp: fs_rename_def)
  have hf: "fs_get h ?file = Some (?n\<lparr>i_data := concat bs\<rparr>)"
    using fs_rename_file(1) [OF h g(3)] by simp
  then have "fs_content (snd (fs_chmod E ?file MODE_0600 h)) ?file = concat bs"
    using resolve_not_link [of h ?file] by (simp add: fs_chmod_def not_link_def fs_content_def assms(2) split: option.splits)
  moreover have "run_state (catalog_save E) w
     = (ERR_OK, w\<lparr>o_tick := Suc (Suc t), o_fs := snd (fs_chmod E ?file MODE_0600 h)\<rparr>)"
    using assms(1) o run h
    by (simp add: catalog_save_def tmp_of_def [symmetric] run_syscall Let_def case_prod_beta)
  ultimately show ?thesis
    using run o by (simp add: wp_def) blast
qed

section \<open>Properties\<close>

text \<open>C13: saving then loading the catalog in a fresh process gives back every persistent field of every
  vault: identity, type, status, paths, time stamps, failed attempts, alert state, salt, password hash,
  WORM flags and, up to the order of its chains, the table of tracked files. What a load resets
  (mount state, write mode, monitor handle, buckets and engine level) is in \<open>reload_vault\<close>.\<close>
theorem catalog_roundtrip:
  assumes "reliable E" and "catalog_wf (g_catalog w)"
    and "\<forall>v \<in> set (vaults w). hm_count (v_map v) \<le> FCOUNT_MAX"
    and "length (g_catalog_file w) < 508" and "fs_get (o_fs w) (tmp_of (g_catalog_file w)) = None"
    and "run_state (catalog_save E) w = (ERR_OK, w')"
  shows "\<exists>t. run_state (catalog_load E) (upd_vaults (\<lambda>_. []) w')
     = (ERR_OK, w'\<lparr>g_catalog := reload_catalog (g_catalog w), o_tick := t\<rparr>)"
proof -
  obtain f t where w': "w' = w\<lparr>o_tick := t, o_fs := f\<rparr>"
    and f: "fs_content f (g_catalog_file w) = concat (catalog_chunks (g_catalog w))"
      "fs_open E (g_catalog_file w) 0 0 f = (Inr (g_catalog_file w), f)"
    using catalog_save_reliable [OF assms(1,6,4,5)] by blast
  show ?thesis
    using catalog_load_reliable [OF assms(1-3), of "upd_vaults (\<lambda>_. []) w'"] f w'
    by (simp add: upd_vaults_def)
qed

text \<open>C16: a save that reports an error, whatever call failed and however many bytes the
  writes transferred, leaves the catalog file and the catalog in memory exactly as they were.\<close>
theorem catalog_save_atomic:
  assumes "length (g_catalog_file w) < 508" and "not_link (o_fs w) (tmp_of (g_catalog_file w))"
    and "run_state (catalog_save E) w = (r, w')" and "r \<noteq> ERR_OK"
  shows "r = ERR_IO \<and> fs_get (o_fs w') (g_catalog_file w) = fs_get (o_fs w) (g_catalog_file w)
     \<and> g_catalog w' = g_catalog w"
  using wpD [OF wp_catalog_save [OF assms(1,2)] assms(3)] assms(4) by blast

text \<open>the results of the writes are not looked at. On a full disk (every write transfers nothing) the
  save reports success and has replaced the catalog by an empty file.\<close>
theorem catalog_save_ignores_write_errors:
  assumes "\<forall>t. e_fault E t = None \<and> e_short E t = Some 0" and "e_euid E = 0" and "can_save w"
    and "run_state (catalog_save E) w = (r, w')"
  shows "r = ERR_OK \<and> fs_content (o_fs w') (g_catalog_file w) = []"
proof -
  have none: "run_state (write_chunks E p bs) s = ((), s\<lparr>o_tick := o_tick s + length bs, o_fs := fold (fs_append p) (map (\<lambda>_. []) bs) (o_fs s)\<rparr>)"
    for p bs and s :: world
    using assms(1) by (induction bs arbitrary: s) (simp_all add: write_chunks_def sys_fwrite_def run_tick fwrite_count_def)
  let ?p = "tmp_of (g_catalog_file w)"
  let ?o = "snd (fs_open E ?p W_FLAGS MODE_0666 (o_fs w))"
  obtain t bs where r: "r = ERR_OK" and
    eq: "run_state (write_chunks E ?p (catalog_chunks (g_catalog w))) (w\<lparr>o_tick := Suc (o_tick w), o_fs := ?o\<rparr>)
       = ((), w\<lparr>o_tick := t, o_fs := fold (fs_append ?p) bs ?o\<rparr>)"
    and content: "fs_content (o_fs w') (g_catalog_file w) = concat bs"
    using wpD [OF catalog_save_unrefused [OF _ assms(2,3)] assms(4)] assms(1) by blast
  have "fs_get (o_fs w) ?p = None" "not_link (o_fs w) ?p"
    using assms(3) by (simp_all add: can_save_def not_link_def Let_def)
  moreover have "\<exists>n. fs_get ?o ?p = Some n \<and> i_data n = []"
  proof -
    have d: "case fs_get (o_fs w) (parent_dir ?p) of Some d \<Rightarrow> i_type d = S_IFDIR | None \<Rightarrow> False"
      using assms(3) by (simp add: can_save_def Let_def)
    with calculation assms(2) show ?thesis
      by (auto simp: fs_open_def open_target_def resolve_not_link search_err_def write_err_def may_def split: option.splits)
  qed
  then obtain n where n: "fs_get ?o ?p = Some n" "i_data n = []" by blast
  have "fold (fs_append ?p) bs ?o = fold (fs_append ?p) (map (\<lambda>_. []) (catalog_chunks (g_catalog w))) ?o"
  proof -
    have "o_fs (w\<lparr>o_tick := t, o_fs := fold (fs_append ?p) bs ?o\<rparr>)
        = o_fs (snd (run_state (write_chunks E ?p (catalog_chunks (g_catalog w))) (w\<lparr>o_tick := Suc (o_tick w), o_fs := ?o\<rparr>)))"
      unfolding eq by simp
    then show ?thesis unfolding none by simp
  qed
  then have "fs_get (fold (fs_append ?p) bs ?o) ?p = fs_get (fold (fs_append ?p) (map (\<lambda>_. []) (catalog_chunks (g_catalog w))) ?o) ?p"
    by simp
  then have "concat bs = concat (map (\<lambda>_. []) (catalog_chunks (g_catalog w)))"
    using fold_fs_append_same [OF n(1)] n by (metis append_Nil inode.select_convs(4) inode.surjective inode.update_convs(4) option.inject)
  with r content show ?thesis by simp
qed

section \<open>Examples\<close>

lemma ex_catalog_wf: "catalog_wf (g_catalog ex_world)"
  by (simp add: ex_world_def ex_vault_def zero_vault_def zero_alert_def catalog_wf_def vault_wf_def sizes str_ok_def
      type_ok_def status_ok_def type_code_def type_of_code_def status_code_def status_of_code_def
      time_ok_def int_ok_def hm_inv_empty) (simp add: entries_def empty_map_def)

lemma ex_can_save: "can_save ex_world"
  by (simp add: can_save_def tmp_of_def cbuf_def ex_fs_def ex_dir_def fs_get_def parent_dir_def Let_def)

lemma ex_save: "fst (run_state (catalog_save ex_env) ex_world) = ERR_OK"
  using catalog_save_unrefused [of ex_env ex_world] ex_can_save by (simp add: wp_def split: prod.splits)

lemma catalog_roundtrip_witness:
  "\<exists>w' t. run_state (catalog_save ex_env) ex_world = (ERR_OK, w') \<and>
     run_state (catalog_load ex_env) (upd_vaults (\<lambda>_. []) w')
       = (ERR_OK, w'\<lparr>g_catalog := reload_catalog (g_catalog ex_world), o_tick := t\<rparr>)"
proof -
  obtain w' where w': "run_state (catalog_save ex_env) ex_world = (ERR_OK, w')"
    using ex_save by (cases "run_state (catalog_save ex_env) ex_world") auto
  have "\<exists>t. run_state (catalog_load ex_env) (upd_vaults (\<lambda>_. []) w')
     = (ERR_OK, w'\<lparr>g_catalog := reload_catalog (g_catalog ex_world), o_tick := t\<rparr>)"
    by (rule catalog_roundtrip [OF reliable_ex_env ex_catalog_wf _ _ _ w'])
       (simp_all add: tmp_of_def cbuf_def ex_fs_def fs_get_def, simp add: empty_map_def)
  with w' show ?thesis by blast
qed

definition fail_env :: env where
  "fail_env = ex_env\<lparr>e_fault := \<lambda>t. if t = 0 then Some EACCES else None\<rparr>"

lemma catalog_save_atomic_witness:
  "\<exists>w'. run_state (catalog_save fail_env) ex_world = (ERR_IO, w')
     \<and> fs_get (o_fs w') ''/k/c'' = fs_get ex_fs ''/k/c'' \<and> g_catalog w' = g_catalog ex_world"
proof -
  obtain w' where w': "run_state (catalog_save fail_env) ex_world = (ERR_IO, w')"
    by (simp add: catalog_save_def run_syscall fail_env_def Let_def)
  then show ?thesis
    using catalog_save_atomic [of ex_world fail_env ERR_IO w']
    by (simp add: not_link_def tmp_of_def cbuf_def ex_fs_def fs_get_def)
qed

definition full_disk_env :: env where
  "full_disk_env = ex_env\<lparr>e_short := \<lambda>_. Some 0\<rparr>"

lemma catalog_save_ignores_write_errors_witness:
  "\<exists>w'. run_state (catalog_save full_disk_env) ex_world = (ERR_OK, w') \<and> fs_content (o_fs w') ''/k/c'' = []"
proof -
  obtain r w' where run: "run_state (catalog_save full_disk_env) ex_world = (r, w')" by fastforce
  have "\<forall>t. e_fault full_disk_env t = None \<and> e_short full_disk_env t = Some 0" "e_euid full_disk_env = 0"
    by (simp_all add: full_disk_env_def ex_env_def)
  from catalog_save_ignores_write_errors [OF this ex_can_save run] run show ?thesis by auto
qed

end
