(* ===== verification/Vault_Crypto.thy ===== *)
theory Vault_Crypto
  imports Catalog_Roundtrip
begin

text \<open>
  Section 4 of \<^verbatim>\<open>c_src/vault/vault_crypto.c\<close>: hashing, key derivation, password authentication with its
  lockout, and file encryption.

  OpenSSL is a parameter (fields of \<open>env\<close>). \<open>e_gcm_enc E key iv off b\<close> is the output of
  \<^verbatim>\<open>EVP_EncryptUpdate\<close> for the block \<open>b\<close> at byte \<open>off\<close> of the plaintext; AES-GCM is a stream mode, so the output
  has the length of the input and \<^verbatim>\<open>EVP_EncryptFinal_ex\<close> produces no bytes. \<open>e_gcm_tag\<close> and
  \<open>e_gcm_ok\<close> compute and check the tag of a whole ciphertext. A context that cannot be allocated or
  initialised is a refused \<open>lib_ok\<close>.
\<close>

section \<open>Hashes and keys\<close>

definition hex_of :: "string \<Rightarrow> string" where
  "hex_of digest = concat (map hex_byte digest) @ [NUL]"

definition sha256_hex :: "env \<Rightarrow> string \<Rightarrow> string" where
  "sha256_hex E data = hex_of (pad 32 (e_sha256 E data))"

definition sha256_file :: "env \<Rightarrow> string \<Rightarrow> (VaultErrorr + string) vio" where
  "sha256_file E path = do {
     fp \<leftarrow> sys_fopen_r E path;
     case fp of
       Inl _ \<Rightarrow> return (Inl ERR_IO)
     | Inr fp \<Rightarrow> do {
         ctx \<leftarrow> lib_ok E;
         if \<not> ctx then return (Inl ERR_CRYPTO)
         else do {
           init \<leftarrow> lib_ok E;
           if \<not> init then return (Inl ERR_CRYPTO)
           else do {
             r \<leftarrow> read_loop E fp 65536 (\<lambda>off b acc. return (Inr (acc @ b) :: VaultErrorr + string)) [];
             case r of
               Inl e \<Rightarrow> return (Inl e)
             | Inr (data, err) \<Rightarrow>
                 if err then return (Inl ERR_IO)
                 else do {
                   fin \<leftarrow> lib_ok E;
                   if \<not> fin then return (Inl ERR_CRYPTO)
                   else do {
                     cl \<leftarrow> lib_ok E;
                     if \<not> cl then return (Inl ERR_IO)
                     else return (Inr (hex_of (pad 32 (e_sha256 E data)))) } } } } } }"

definition derive_key_for :: "env \<Rightarrow> string option \<Rightarrow> string \<Rightarrow> string \<Rightarrow> VaultErrorr + string" where
  "derive_key_for E password salt purpose = (case password of
     None \<Rightarrow> Inl ERR_INVALID_ARGS
   | Some pw \<Rightarrow>
       let salted = take SALT_LEN salt @ take 32 purpose
       in (case e_pbkdf2 E pw salted PBKDF2_ITER of
             None \<Rightarrow> Inl ERR_CRYPTO
           | Some key \<Rightarrow> Inr (pad KEY_LEN key)))"

definition derive_key :: "env \<Rightarrow> string option \<Rightarrow> string \<Rightarrow> VaultErrorr + string" where
  "derive_key E password salt = derive_key_for E password salt ''legacy-unscoped''"

section \<open>Passwords\<close>

text \<open>Also on a vault that is not in the catalog yet, so the structure is passed and returned.\<close>

definition auth_set_password :: "env \<Rightarrow> Vault \<Rightarrow> string option \<Rightarrow> (VaultErrorr \<times> Vault) vio" where
  "auth_set_password E v password = (case password of
     None \<Rightarrow> return (ERR_INVALID_ARGS, v)
   | Some pw \<Rightarrow>
       if \<not> 8 \<le> length pw then return (ERR_INVALID_ARGS, v)
       else if \<not> length pw < MAX_PASS_LEN then return (ERR_INVALID_ARGS, v)
       else do {
         salt \<leftarrow> sys_rand E SALT_LEN;
         case salt of
           None \<Rightarrow> return (ERR_CRYPTO, v)
         | Some s \<Rightarrow>
             let v = v\<lparr>v_salt := s\<rparr> in
             (case derive_key_for E password (v_salt v) ''auth-verify'' of
                Inl e \<Rightarrow> return (e, v)
              | Inr key \<Rightarrow> return (ERR_OK, v\<lparr>v_pass_hash := key, v_has_pass := True\<rparr>)) })"

definition auth_verify_password :: "env \<Rightarrow> nat \<Rightarrow> string option \<Rightarrow> VaultErrorr vio" where
  "auth_verify_password E i password = do {
     v \<leftarrow> get_vault i;
     if password = None then return ERR_INVALID_ARGS
     else if \<not> v_has_pass v then return ERR_PASS_REQUIRED
     else if v_status v = VAULT_STATUS_LOCKED then return ERR_VAULT_LOCKED
     else (case derive_key_for E password (v_salt v) ''auth-verify'' of
        Inl e \<Rightarrow> return e
      | Inr key \<Rightarrow>
          if v_pass_hash v \<noteq> key then do {
            mod_vault i (\<lambda>v. v\<lparr>v_failed := v_failed v + 1\<rparr>);
            v \<leftarrow> get_vault i;
            (if MAX_PASS_ATTEMPTS \<le> v_failed v then do {
               mod_vault i (\<lambda>v. v\<lparr>v_status := VAULT_STATUS_LOCKED\<rparr>);
               _ \<leftarrow> catalog_save E;
               return () }
             else return ());
            return ERR_AUTH_FAIL }
          else do {
            mod_vault i (\<lambda>v. v\<lparr>v_failed := 0\<rparr>);
            return ERR_OK }) }"

section \<open>File encryption\<close>

text \<open>The body of the loop: \<open>ct\<close> is the ciphertext so far.\<close>

definition encrypt_block :: "env \<Rightarrow> string \<Rightarrow> string \<Rightarrow> string \<Rightarrow> nat \<Rightarrow> string \<Rightarrow> string \<Rightarrow> (VaultErrorr + string) vio" where
  "encrypt_block E key iv fout off b ct = do {
     ok \<leftarrow> lib_ok E;
     if \<not> ok then return (Inl ERR_CRYPTO)
     else do {
       let out = pad (length b) (e_gcm_enc E key iv off b);
       n \<leftarrow> sys_fwrite E fout out;
       if n \<noteq> length out then return (Inl ERR_IO)
       else return (Inr (ct @ out)) } }"

text \<open>From the open streams to the label \<^verbatim>\<open>cleanup\<close>. A read error ends the loop like the end of the
  file: \<^verbatim>\<open>encrypt_file\<close> does not ask \<^verbatim>\<open>ferror\<close>.\<close>

definition encrypt_body :: "env \<Rightarrow> string \<Rightarrow> string \<Rightarrow> string \<Rightarrow> VaultErrorr vio" where
  "encrypt_body E fin fout key = do {
     iv \<leftarrow> sys_rand E GCM_IV_LEN;
     case iv of
       None \<Rightarrow> return ERR_CRYPTO
     | Some iv \<Rightarrow> do {
         n \<leftarrow> sys_fwrite E fout iv;
         if n \<noteq> GCM_IV_LEN then return ERR_IO
         else do {
           ctx \<leftarrow> lib_ok E;
           if \<not> ctx then return ERR_CRYPTO
           else do {
             init \<leftarrow> lib_ok E;
             if \<not> init then return ERR_CRYPTO
             else do {
               r \<leftarrow> read_loop E fin 65536 (encrypt_block E key iv fout) [];
               case r of
                 Inl e \<Rightarrow> return e
               | Inr (ct, _) \<Rightarrow> do {
                   final \<leftarrow> lib_ok E;
                   if \<not> final then return ERR_CRYPTO
                   else do {
                     tagok \<leftarrow> lib_ok E;
                     if \<not> tagok then return ERR_CRYPTO
                     else do {
                       n \<leftarrow> sys_fwrite E fout (pad GCM_TAG_LEN (e_gcm_tag E key iv ct));
                       return (if n \<noteq> GCM_TAG_LEN then ERR_IO else ERR_OK) } } } } } } } }"

definition encrypt_file :: "env \<Rightarrow> string \<Rightarrow> string \<Rightarrow> string \<Rightarrow> VaultErrorr vio" where
  "encrypt_file E inpath outpath key = do {
     fin \<leftarrow> sys_fopen_r E inpath;
     fout \<leftarrow> sys_fopen_w E outpath;
     ret \<leftarrow> (case fin of
               Inl _ \<Rightarrow> return ERR_IO
             | Inr fi \<Rightarrow> (case fout of Inl _ \<Rightarrow> return ERR_IO | Inr fo \<Rightarrow> encrypt_body E fi fo key));
     (case fout of
        Inl _ \<Rightarrow> return ()
      | Inr _ \<Rightarrow> if ret \<noteq> ERR_OK then do { _ \<leftarrow> sys_unlink E outpath; return () } else return ());
     return ret }"

text \<open>\<^verbatim>\<open>while (offset < ct_len)\<close>: the blocks of the ciphertext.\<close>

function decrypt_loop :: "env \<Rightarrow> string \<Rightarrow> string \<Rightarrow> string \<Rightarrow> string \<Rightarrow> nat \<Rightarrow> VaultErrorr vio" where
  "decrypt_loop E key iv fout ct offset =
    (if \<not> offset < length ct then return ERR_OK
     else let chunk = (if 65536 < length ct - offset then 65536 else length ct - offset);
              b = take chunk (drop offset ct) in do {
       ok \<leftarrow> lib_ok E;
       if \<not> ok then return ERR_CRYPTO
       else do {
         n \<leftarrow> sys_fwrite E fout (pad chunk (e_gcm_dec E key iv offset b));
         if n \<noteq> chunk then return ERR_IO
         else decrypt_loop E key iv fout ct (offset + chunk) } })"
  by pat_completeness auto
termination by (relation "measure (\<lambda>(E, key, iv, fout, ct, offset). length ct - offset)") auto

declare decrypt_loop.simps [simp del]

definition MAX_DECRYPT_SIZE :: nat where "MAX_DECRYPT_SIZE = 512 * 1024 * 1024"

text \<open>From the open streams to \<^verbatim>\<open>cleanup\<close>.\<close>

definition decrypt_body :: "env \<Rightarrow> string \<Rightarrow> string \<Rightarrow> string \<Rightarrow> VaultErrorr vio" where
  "decrypt_body E fin fout key = do {
     f \<leftarrow> gets o_fs;
     let fsize = length (fs_content f fin);
     if fsize < GCM_IV_LEN + GCM_TAG_LEN then return ERR_IO
     else if MAX_DECRYPT_SIZE < fsize then return ERR_IO
     else do {
       mem \<leftarrow> alloc_ok E;
       if \<not> mem then return ERR_NO_MEMORY
       else do {
         (filebuf, _) \<leftarrow> sys_fread E fin 0 fsize;
         if length filebuf \<noteq> fsize then return ERR_IO
         else do {
           let iv = take GCM_IV_LEN filebuf;
           let ct_len = fsize - GCM_IV_LEN - GCM_TAG_LEN;
           let ciphertext = take ct_len (drop GCM_IV_LEN filebuf);
           let tag = drop (GCM_IV_LEN + ct_len) filebuf;
           ctx \<leftarrow> lib_ok E;
           if \<not> ctx then return ERR_CRYPTO
           else do {
             init \<leftarrow> lib_ok E;
             if \<not> init then return ERR_CRYPTO
             else do {
               settag \<leftarrow> lib_ok E;
               if \<not> settag then return ERR_CRYPTO
               else do {
                 r \<leftarrow> decrypt_loop E key iv fout ciphertext 0;
                 if r \<noteq> ERR_OK then return r
                 else do {
                   final \<leftarrow> lib_ok E;
                   if \<not> (final \<and> e_gcm_ok E key iv ciphertext tag) then return ERR_CRYPTO
                   else return ERR_OK } } } } } } } }"

definition is_symlink :: "errno + inode \<Rightarrow> bool" where
  "is_symlink r = (case r of Inl _ \<Rightarrow> False | Inr n \<Rightarrow> i_type n = S_IFLNK)"

definition decrypt_tmp :: "env \<Rightarrow> string \<Rightarrow> string" where
  "decrypt_tmp E outpath = cbuf PATH_MAX (outpath @ ''.tmp.'' @ dec_digits (e_pid E))"

text \<open>The label \<^verbatim>\<open>cleanup\<close>, with the output stream open: publish or discard.\<close>

definition decrypt_cleanup :: "env \<Rightarrow> string \<Rightarrow> string \<Rightarrow> VaultErrorr \<Rightarrow> VaultErrorr vio" where
  "decrypt_cleanup E tmppath outpath ret =
    (if ret = ERR_OK then do {
       st \<leftarrow> sys_lstat E outpath;
       if is_symlink st then do { _ \<leftarrow> sys_unlink E tmppath; return ERR_IO }
       else do {
         r \<leftarrow> sys_rename E tmppath outpath;
         (case r of
            Inl _ \<Rightarrow> do { _ \<leftarrow> sys_unlink E tmppath; return ERR_IO }
          | Inr _ \<Rightarrow> return ERR_OK) } }
     else do { _ \<leftarrow> sys_unlink E tmppath; return ret })"

definition decrypt_file :: "env \<Rightarrow> string \<Rightarrow> string \<Rightarrow> string \<Rightarrow> VaultErrorr vio" where
  "decrypt_file E inpath outpath key = do {
     fin \<leftarrow> sys_fopen_r E inpath;
     case fin of
       Inl _ \<Rightarrow> return ERR_IO
     | Inr fin \<Rightarrow> do {
         st \<leftarrow> sys_lstat E outpath;
         if is_symlink st then return ERR_IO
         else do {
           let tmppath = decrypt_tmp E outpath;
           fd \<leftarrow> sys_open E tmppath (O_WRONLY OR O_CREAT OR O_TRUNC OR O_NOFOLLOW) MODE_0600;
           case fd of
             Inl _ \<Rightarrow> return ERR_IO
           | Inr fd \<Rightarrow> do {
               stream \<leftarrow> lib_ok E;
               if \<not> stream then do { _ \<leftarrow> sys_unlink E tmppath; return ERR_IO }
               else do {
                 ret \<leftarrow> decrypt_body E fin fd key;
                 decrypt_cleanup E tmppath outpath ret } } } } }"

section \<open>Re-keying\<close>

definition ends_with :: "string \<Rightarrow> string \<Rightarrow> bool" where
  "ends_with s suf \<longleftrightarrow> length suf < length s \<and> drop (length s - length suf) s = suf"

abbreviation REKEY_BUF :: nat where "REKEY_BUF \<equiv> 512 + 255 + 2"

fun rekey_loop :: "env \<Rightarrow> string \<Rightarrow> string \<Rightarrow> string \<Rightarrow> string list \<Rightarrow> VaultErrorr vio" where
  "rekey_loop E path old_key new_key [] = return ERR_OK"
| "rekey_loop E path old_key new_key (d # ds) =
     (if \<not> ends_with d ''.enc'' then rekey_loop E path old_key new_key ds
      else
        let inpath = cbuf REKEY_BUF (path @ ''/'' @ d);
            tmppath = cbuf REKEY_BUF (path @ ''/'' @ d @ ''.rekey_tmp_'' @ dec_digits (e_pid E));
            reencpath = cbuf REKEY_BUF (path @ ''/'' @ d @ ''.rekey_new_'' @ dec_digits (e_pid E)) in do {
        st \<leftarrow> sys_lstat E inpath;
        if (case st of Inl _ \<Rightarrow> True | Inr n \<Rightarrow> i_type n \<noteq> S_IFREG)
        then rekey_loop E path old_key new_key ds
        else do {
          r \<leftarrow> decrypt_file E inpath tmppath old_key;
          if r \<noteq> ERR_OK then do { _ \<leftarrow> sys_unlink E tmppath; return ERR_CRYPTO }
          else do {
            r \<leftarrow> encrypt_file E tmppath reencpath new_key;
            if r \<noteq> ERR_OK then do {
              _ \<leftarrow> sys_unlink E tmppath; _ \<leftarrow> sys_unlink E reencpath; return ERR_CRYPTO }
            else do {
              _ \<leftarrow> sys_unlink E tmppath;
              r \<leftarrow> sys_rename E reencpath inpath;
              (case r of
                 Inl _ \<Rightarrow> do { _ \<leftarrow> sys_unlink E reencpath; return ERR_IO }
               | Inr _ \<Rightarrow> rekey_loop E path old_key new_key ds) } } } })"

definition rekey_vault_files :: "env \<Rightarrow> Vault \<Rightarrow> string \<Rightarrow> string \<Rightarrow> VaultErrorr vio" where
  "rekey_vault_files E v old_key new_key = do {
     dir \<leftarrow> sys_opendir E (v_path v);
     case dir of
       Inl _ \<Rightarrow> return ERR_OK
     | Inr names \<Rightarrow> rekey_loop E (v_path v) old_key new_key names }"

section \<open>Effects outside the file system\<close>

text \<open>File operations leave the catalog and the other globals alone.\<close>

lemma pres_write_chunks [pres_os]: "os_indep I \<Longrightarrow> preserves I (write_chunks E p bs)"
  by (auto simp: write_chunks_def intro!: pres pres_os)

lemma pres_catalog_save [pres_os]: "os_indep I \<Longrightarrow> preserves I (catalog_save E)"
  by (auto simp: catalog_save_def Let_def intro!: pres pres_os)

lemma pres_sha256_file [pres_os]: "os_indep I \<Longrightarrow> preserves I (sha256_file E p)"
  by (auto simp: sha256_file_def intro!: pres pres_os)

lemma pres_encrypt_block [pres_os]: "os_indep I \<Longrightarrow> preserves I (encrypt_block E key iv fo off b ct)"
  by (auto simp: encrypt_block_def Let_def intro!: pres pres_os)

lemma pres_encrypt_body [pres_os]: "os_indep I \<Longrightarrow> preserves I (encrypt_body E fi fo key)"
  by (auto simp: encrypt_body_def Let_def intro!: pres pres_os)

lemma pres_encrypt_file [pres_os]: "os_indep I \<Longrightarrow> preserves I (encrypt_file E a b key)"
  by (auto simp: encrypt_file_def intro!: pres pres_os)

lemma pres_decrypt_loop [pres_os]:
  assumes "os_indep I"
  shows "preserves I (decrypt_loop E key iv fo ct off)"
proof (induction "length ct - off" arbitrary: off rule: less_induct)
  case less
  have "preserves I (decrypt_loop E key iv fo ct m)" if "off < length ct" "off < m" for m
    using that by (intro less) simp
  then show ?case
    by (subst decrypt_loop.simps) (auto simp: Let_def assms intro!: pres pres_os)
qed

lemma pres_decrypt_body [pres_os]: "os_indep I \<Longrightarrow> preserves I (decrypt_body E fi fo key)"
  by (auto simp: decrypt_body_def Let_def intro!: pres pres_os)

lemma pres_decrypt_cleanup [pres_os]: "os_indep I \<Longrightarrow> preserves I (decrypt_cleanup E a b ret)"
  by (auto simp: decrypt_cleanup_def intro!: pres pres_os)

lemma pres_decrypt_file [pres_os]: "os_indep I \<Longrightarrow> preserves I (decrypt_file E a b key)"
  by (auto simp: decrypt_file_def Let_def intro!: pres pres_os)

lemma pres_rekey_loop [pres_os]: "os_indep I \<Longrightarrow> preserves I (rekey_loop E path k1 k2 ds)"
  by (induction ds) (auto simp: Let_def intro!: pres pres_os)

lemma pres_rekey_vault_files [pres_os]: "os_indep I \<Longrightarrow> preserves I (rekey_vault_files E v k1 k2)"
  by (auto simp: rekey_vault_files_def intro!: pres pres_os)

lemma pres_auth_set_password [pres_os]: "os_indep I \<Longrightarrow> preserves I (auth_set_password E v pw)"
  by (auto simp: auth_set_password_def Let_def intro!: pres pres_os)

lemma wp_pres: "os_indep (\<lambda>w. P w = x) \<Longrightarrow> preserves (\<lambda>w. P w = x) m \<Longrightarrow> P w = x \<Longrightarrow> wp m (\<lambda>_ w'. P w' = x) w"
  by (rule preservesD)

section \<open>The lockout\<close>

text \<open>What one attempt does to a vault: the contract of \<^verbatim>\<open>auth_verify_password\<close>.\<close>

definition key_matches :: "env \<Rightarrow> Vault \<Rightarrow> string \<Rightarrow> bool" where
  "key_matches E v pw \<longleftrightarrow> derive_key_for E (Some pw) (v_salt v) ''auth-verify'' = Inr (v_pass_hash v)"

definition auth_step :: "env \<Rightarrow> string option \<Rightarrow> Vault \<Rightarrow> VaultErrorr \<times> Vault" where
  "auth_step E password v = (case password of None \<Rightarrow> (ERR_INVALID_ARGS, v)
     | Some pw \<Rightarrow>
        if \<not> v_has_pass v then (ERR_PASS_REQUIRED, v)
        else if v_status v = VAULT_STATUS_LOCKED then (ERR_VAULT_LOCKED, v)
        else if (\<exists>e. derive_key_for E (Some pw) (v_salt v) ''auth-verify'' = Inl e) then (ERR_CRYPTO, v)
        else if key_matches E v pw then (ERR_OK, v\<lparr>v_failed := 0\<rparr>)
        else (ERR_AUTH_FAIL, v\<lparr>v_failed := v_failed v + 1,
               v_status := if MAX_PASS_ATTEMPTS \<le> v_failed v + 1 then VAULT_STATUS_LOCKED else v_status v\<rparr>))"

lemma wp_catalog_save_globals: "wp (catalog_save E) (\<lambda>_ w'. g_catalog w' = g_catalog w) w"
  using preservesD [OF pres_catalog_save [of "\<lambda>w'. g_catalog w' = g_catalog w" E], of w]
  by (simp add: os_indep_def)

lemma derive_key_for_error: "derive_key_for E (Some pw) s p = Inl e \<Longrightarrow> e = ERR_CRYPTO"
  by (auto simp: derive_key_for_def Let_def split: option.splits)

lemma wp_auth_verify:
  assumes "i < length (vaults w)"
  shows "wp (auth_verify_password E i password)
     (\<lambda>r w'. r = fst (auth_step E password (vaults w ! i)) \<and>
        g_catalog w' = (g_catalog w)\<lparr>c_vaults := (vaults w)[i := snd (auth_step E password (vaults w ! i))]\<rparr>) w"
proof (cases password)
  case None
  then show ?thesis by (simp add: auth_verify_password_def auth_step_def wp_simps)
next
  case (Some pw)
  let ?v = "vaults w ! i"
  show ?thesis
  proof (cases "derive_key_for E (Some pw) (v_salt ?v) ''auth-verify''")
    case (Inl e)
    then show ?thesis using Some derive_key_for_error [OF Inl]
      by (simp add: auth_verify_password_def auth_step_def wp_simps)
  next
    case (Inr key)
    have save: "wp (catalog_save E) (\<lambda>_ w'. g_catalog w' = c) s" if "g_catalog s = c" for s c
      using wp_catalog_save_globals [of E s] that by simp
    show ?thesis
      using Some Inr assms
      by (auto simp: auth_verify_password_def auth_step_def wp_simps key_matches_def upd_vaults_def
          intro!: save)
  qed
qed

text \<open>A sequence of attempts, and the results they get.\<close>

fun auth_attempts :: "env \<Rightarrow> nat \<Rightarrow> string option list \<Rightarrow> VaultErrorr list vio" where
  "auth_attempts E i [] = return []"
| "auth_attempts E i (p # ps) = do { r \<leftarrow> auth_verify_password E i p; rs \<leftarrow> auth_attempts E i ps; return (r # rs) }"

fun auth_trace :: "env \<Rightarrow> string option list \<Rightarrow> Vault \<Rightarrow> VaultErrorr list" where
  "auth_trace E [] v = []"
| "auth_trace E (p # ps) v = (case auth_step E p v of (r, v') \<Rightarrow> r # auth_trace E ps v')"

lemma wp_auth_attempts:
  "i < length (vaults w) \<Longrightarrow> wp (auth_attempts E i ps) (\<lambda>rs _. rs = auth_trace E ps (vaults w ! i)) w"
proof (induction ps arbitrary: w)
  case (Cons p ps)
  have "wp (auth_attempts E i ps) (\<lambda>rs _. rs = auth_trace E ps (snd (auth_step E p (vaults w ! i)))) w'"
    if "g_catalog w' = (g_catalog w)\<lparr>c_vaults := (vaults w)[i := snd (auth_step E p (vaults w ! i))]\<rparr>" for w'
    using Cons.IH [of w'] that Cons.prems by simp
  then show ?case
    by (auto simp: wp_simps case_prod_beta elim!: wp_mono intro!: wp_mono [OF wp_auth_verify [OF Cons.prems]])
qed (simp add: wp_simps)

text \<open>Right passwords never matter to what follows a lock.\<close>

lemma auth_trace_locked:
  "v_has_pass v \<Longrightarrow> v_status v = VAULT_STATUS_LOCKED \<Longrightarrow>
   auth_trace E (map Some pws) v = replicate (length pws) ERR_VAULT_LOCKED"
  by (induction pws) (simp_all add: auth_step_def)

definition wrong_password :: "env \<Rightarrow> Vault \<Rightarrow> string \<Rightarrow> bool" where
  "wrong_password E v pw \<longleftrightarrow> (\<exists>key. derive_key_for E (Some pw) (v_salt v) ''auth-verify'' = Inr key \<and> key \<noteq> v_pass_hash v)"

lemma auth_trace_wrong:
  assumes "list_all (wrong_password E v) pws" "v_has_pass v" "v_status v \<noteq> VAULT_STATUS_LOCKED"
    "v_failed v = int k" "k + length pws = 3" "pws \<noteq> []"
  shows "auth_trace E (map Some (pws @ later)) v =
     replicate (length pws) ERR_AUTH_FAIL @ replicate (length later) ERR_VAULT_LOCKED"
  using assms
proof (induction pws arbitrary: v k)
  case (Cons p ps)
  let ?v = "snd (auth_step E (Some p) v)"
  have step: "auth_step E (Some p) v = (ERR_AUTH_FAIL, v\<lparr>v_failed := v_failed v + 1,
      v_status := if MAX_PASS_ATTEMPTS \<le> v_failed v + 1 then VAULT_STATUS_LOCKED else v_status v\<rparr>)"
    using Cons.prems by (auto simp: auth_step_def wrong_password_def key_matches_def)
  show ?case
  proof (cases "ps = []")
    case True
    then show ?thesis
      using step Cons.prems auth_trace_locked [of "?v" E later] by (simp add: MAX_PASS_ATTEMPTS_def)
  next
    case False
    have "wrong_password E ?v = wrong_password E v"
      unfolding step by (rule ext) (simp add: wrong_password_def)
    then have "list_all (wrong_password E ?v) ps" using Cons.prems(1) by simp
    moreover have "length ps \<ge> 1" using False by (cases ps) auto
    then have "v_status ?v \<noteq> VAULT_STATUS_LOCKED"
      using step Cons.prems(3-5) by (simp add: MAX_PASS_ATTEMPTS_def)
    ultimately show ?thesis
      using Cons.IH [of ?v "Suc k"] step Cons.prems False by simp
  qed
qed simp

end
