(* ===== verification/File_Crypto.thy ===== *)
theory File_Crypto
  imports Vault_Crypto
begin

text \<open>
  What \<^verbatim>\<open>encrypt_file\<close>, \<^verbatim>\<open>decrypt_file\<close> and \<^verbatim>\<open>sha256_file\<close> achieve: a file survives encryption and
  decryption, nothing unauthenticated is ever published, and the limits on the way.
\<close>

section \<open>Which files an operation touches\<close>

definition keeps :: "string set \<Rightarrow> (string \<Rightarrow> inode option) \<Rightarrow> 'w os_scheme \<Rightarrow> bool" where
  "keeps P g w \<longleftrightarrow> (\<forall>q. q \<notin> P \<longrightarrow> fs_get (o_fs w) q = g q)"

lemma keeps_refl: "keeps P (fs_get (o_fs w)) w"
  by (simp add: keeps_def)

lemma keepsD: "keeps P g w \<Longrightarrow> q \<notin> P \<Longrightarrow> fs_get (o_fs w) q = g q"
  by (simp add: keeps_def)

lemma keeps_tick [simp]: "keeps P g (w\<lparr>o_tick := t\<rparr>) = keeps P g w"
  by (simp add: keeps_def)

lemma pres_keeps [pres_keep]:
  "preserves (keeps P g) tick" "preserves (keeps P g) (lib_ok E)" "preserves (keeps P g) (alloc_ok E)"
  "preserves (keeps P g) (sys_rand E n)" "preserves (keeps P g) (sys_time E)"
  "preserves (keeps P g) (sys_fread E p off n)" "preserves (keeps P g) (sys_pread E p off n)"
  by (simp_all add: preserves_wp wp_simps sys_pread_def Let_def)

lemma pres_keeps_read_only [pres_keep]: "read_only c \<Longrightarrow> preserves (keeps P g) (syscall E c)"
  by (auto simp: preserves_wp wp_simps read_only_def keeps_def split: option.splits)

lemma fs_append_keeps: "p \<in> P \<Longrightarrow> q \<notin> P \<Longrightarrow> fs_get (fs_append p b f) q = fs_get f q"
  by (rule fs_append_other) auto

lemma pres_keeps_fwrite: "p \<in> P \<Longrightarrow> preserves (keeps P g) (sys_fwrite E p b)"
  by (auto simp: preserves_wp wp_simps keeps_def fs_append_keeps)

lemma fs_unlink_keeps: "q \<noteq> p \<Longrightarrow> fs_get (snd (fs_unlink E p f)) q = fs_get f q"
  by (simp add: fs_unlink_other)

lemma pres_keeps_unlink: "p \<in> P \<Longrightarrow> preserves (keeps P g) (sys_unlink E p)"
proof -
  assume p: "p \<in> P"
  have "fs_get (snd (fs_unlink E p f)) q = fs_get f q" if "q \<notin> P" for q f
    using p that by (intro fs_unlink_other) auto
  then show ?thesis by (auto simp: preserves_wp wp_simps keeps_def split: option.splits)
qed

lemma pres_keeps_encrypt_block: "fo \<in> P \<Longrightarrow> preserves (keeps P g) (encrypt_block E key iv fo off b ct)"
  by (auto simp: encrypt_block_def Let_def intro!: pres pres_keep pres_keeps_fwrite)

lemma pres_keeps_encrypt_body: "fo \<in> P \<Longrightarrow> preserves (keeps P g) (encrypt_body E fi fo key)"
  by (auto simp: encrypt_body_def Let_def intro!: pres pres_keep pres_keeps_fwrite pres_keeps_encrypt_block)

lemma pres_keeps_decrypt_loop: "fo \<in> P \<Longrightarrow> preserves (keeps P g) (decrypt_loop E key iv fo ct off)"
proof (induction "length ct - off" arbitrary: off rule: less_induct)
  case less
  have "preserves (keeps P g) (decrypt_loop E key iv fo ct m)" if "off < length ct" "off < m" for m
    using that by (intro less) simp_all
  then show ?case
    by (subst decrypt_loop.simps) (auto simp: Let_def less intro!: pres pres_keep pres_keeps_fwrite)
qed

lemma pres_keeps_decrypt_body: "fo \<in> P \<Longrightarrow> preserves (keeps P g) (decrypt_body E fi fo key)"
  by (auto simp: decrypt_body_def Let_def intro!: pres pres_keep pres_keeps_decrypt_loop)

section \<open>Nothing unauthenticated is published\<close>

definition authentic :: "env \<Rightarrow> string \<Rightarrow> string \<Rightarrow> bool" where
  "authentic E key c \<longleftrightarrow> GCM_IV_LEN + GCM_TAG_LEN \<le> length c \<and> length c \<le> MAX_DECRYPT_SIZE \<and>
     e_gcm_ok E key (take 12 c) (take (length c - 28) (drop 12 c)) (drop (length c - 16) c)"

lemma fread_result_full: "fread_result E t b = (b', err) \<Longrightarrow> length b' = length b \<Longrightarrow> b' = b"
  using fread_result(1) [of E t b] by (auto simp: prefix_def)

lemma wp_decrypt_body_auth:
  "wp (decrypt_body E fi fo key) (\<lambda>r _. r = ERR_OK \<longrightarrow> authentic E key (fs_content (o_fs w) fi)) w"
proof -
  let ?c = "fs_content (o_fs w) fi"
  let ?A = "authentic E key ?c"
  have any: "wp m (\<lambda>r _. r = ERR_OK \<longrightarrow> ?A) s" if ?A for m and s :: world
    using that by (simp add: wpI)
  have fin: "\<not> e_gcm_ok E key (take GCM_IV_LEN b) (take (length ?c - GCM_IV_LEN - GCM_TAG_LEN) (drop GCM_IV_LEN b))
       (drop (GCM_IV_LEN + (length ?c - GCM_IV_LEN - GCM_TAG_LEN)) b)"
    if "\<not> ?A" "\<not> length ?c < GCM_IV_LEN + GCM_TAG_LEN" "\<not> MAX_DECRYPT_SIZE < length ?c" "b = ?c" for b
    using that by (simp add: authentic_def GCM_IV_LEN_def GCM_TAG_LEN_def)
  show ?thesis
  proof (cases ?A)
    case False
    have loop: "wp (decrypt_loop E key iv fo ct 0) (\<lambda>r _. r = ERR_OK \<longrightarrow> True) s" for iv ct s by simp
    show ?thesis
      unfolding decrypt_body_def Let_def wp_bind wp_gets wp_if wp_return wp_alloc_ok wp_sys_fread wp_case_prod wp_lib_ok
      using False fin [OF False]
      by (auto dest: fread_result_full split: prod.splits intro!: wpI)
  qed (rule any)
qed

abbreviation P_FLAGS :: "32 word" where "P_FLAGS \<equiv> O_WRONLY OR O_CREAT OR O_TRUNC OR O_NOFOLLOW"

lemma p_flags [simp]: "flag_set P_FLAGS O_CREAT" "\<not> flag_set P_FLAGS O_EXCL" "flag_set P_FLAGS O_NOFOLLOW"
  "flag_set P_FLAGS O_TRUNC" "wants_write P_FLAGS" "\<not> wants_read P_FLAGS"
  by (simp_all add: flag_set_def o_flags wants_write_def wants_read_def)

text \<open>With \<^verbatim>\<open>O_NOFOLLOW\<close> the file opened is the one named, whatever is there.\<close>

lemma fs_open_p_path: "fs_open E p P_FLAGS m f = (Inr q, g) \<Longrightarrow> q = p"
  by (auto simp: fs_open_def open_target_def split: option.splits if_splits)

lemma fs_open_p_other: "fs_open E p P_FLAGS m f = (r, g) \<Longrightarrow> q \<noteq> p \<Longrightarrow> fs_get g q = fs_get f q"
  by (auto simp: fs_open_def open_target_def split: option.splits if_splits)

lemma read_flags [simp]: "\<not> flag_set 0 b" "\<not> wants_write 0" "wants_read 0"
  by (simp_all add: flag_set_def wants_write_def wants_read_def)

lemma fs_open_r: "fs_open E p 0 0 f = (Inr q, g) \<Longrightarrow> g = f \<and> resolve SYMLOOP_MAX f p = Inr q"
  by (auto simp: fs_open_def open_target_def split: option.splits if_splits sum.splits)

lemma fs_open_r_fs: "snd (fs_open E p 0 0 f) = f"
  by (auto simp: fs_open_def open_target_def split: option.splits if_splits sum.splits)

lemma fs_lstat_fs [simp]: "snd (fs_lstat E p f) = f"
  using read_only_lstat by (simp add: read_only_def)

lemma fs_open_p_any:
  "fst (fs_open E p P_FLAGS m f) = Inr q \<Longrightarrow> q = p"
  "q \<noteq> p \<Longrightarrow> fs_get (snd (fs_open E p P_FLAGS m f)) q = fs_get f q"
  "q \<noteq> p \<Longrightarrow> fs_content (snd (fs_open E p P_FLAGS m f)) q = fs_content f q"
proof -
  obtain r g where o: "fs_open E p P_FLAGS m f = (r, g)" by fastforce
  show "fst (fs_open E p P_FLAGS m f) = Inr q \<Longrightarrow> q = p" using fs_open_p_path o by auto
  show "q \<noteq> p \<Longrightarrow> fs_get (snd (fs_open E p P_FLAGS m f)) q = fs_get f q" using fs_open_p_other o by auto
  then show "q \<noteq> p \<Longrightarrow> fs_content (snd (fs_open E p P_FLAGS m f)) q = fs_content f q" by (simp add: fs_content_def)
qed

text \<open>From the body on: the results of \<^verbatim>\<open>decrypt_file\<close> after its output was opened.\<close>

lemma wp_decrypt_cleanup:
  "q \<noteq> tmp \<Longrightarrow> wp (decrypt_cleanup E tmp q ret)
     (\<lambda>r w'. (r \<noteq> ERR_OK \<longrightarrow> fs_get (o_fs w') q = fs_get (o_fs w) q) \<and> (r = ERR_OK \<longrightarrow> ret = ERR_OK)) w"
  by (auto simp: decrypt_cleanup_def wp_simps fs_unlink_other fs_rename_fails split: option.splits sum.splits)

lemma wp_decrypt_finish:
  assumes "q \<noteq> tmp"
  shows "wp (decrypt_body E fin tmp key) (\<lambda>ret. wp (decrypt_cleanup E tmp q ret)
     (\<lambda>r w'. (r \<noteq> ERR_OK \<longrightarrow> fs_get (o_fs w') q = fs_get (o_fs w) q)
        \<and> (r = ERR_OK \<longrightarrow> authentic E key (fs_content (o_fs w) fin)))) w"
proof -
  have "wp (decrypt_body E fin tmp key) (\<lambda>_. keeps {tmp} (fs_get (o_fs w))) w"
    by (rule preservesD [OF pres_keeps_decrypt_body]) (simp_all add: keeps_refl)
  then have body: "wp (decrypt_body E fin tmp key) (\<lambda>ret w'. fs_get (o_fs w') q = fs_get (o_fs w) q
       \<and> (ret = ERR_OK \<longrightarrow> authentic E key (fs_content (o_fs w) fin))) w"
    by (rule wp_mono [OF wp_conj [OF _ wp_decrypt_body_auth]]) (use assms in \<open>auto dest: keepsD\<close>)
  show ?thesis
    by (rule wp_mono [OF body], rule wp_mono [OF wp_decrypt_cleanup [OF assms]]) auto
qed

lemma wp_decrypt_file:
  assumes "outpath \<noteq> decrypt_tmp E outpath" "inpath \<noteq> decrypt_tmp E outpath" "not_link (o_fs w) inpath"
  shows "wp (decrypt_file E inpath outpath key)
     (\<lambda>r w'. (r \<noteq> ERR_OK \<longrightarrow> fs_get (o_fs w') outpath = fs_get (o_fs w) outpath)
        \<and> (r = ERR_OK \<longrightarrow> authentic E key (fs_content (o_fs w) inpath))) w"
proof -
  have fin: "fi = inpath" if "fst (fs_open E inpath 0 0 (o_fs w)) = Inr fi" for fi
    using fs_open_r [of E inpath "o_fs w" fi] that resolve_not_link [OF assms(3)]
    by (cases "fs_open E inpath 0 0 (o_fs w)") auto
  show ?thesis
    using assms(1,2)
    by (auto simp: decrypt_file_def Let_def wp_simps fs_open_r_fs fs_open_p_any(2,3) fs_unlink_other
        split: option.splits sum.splits dest!: fin fs_open_p_any(1) intro!: wp_mono [OF wp_decrypt_finish [OF assms(1)]])
qed

section \<open>A file survives encryption and decryption\<close>

text \<open>The documented behaviour of AES-GCM: decrypting a block gives back what was encrypted at
  the same position under the same key and nonce, and the tag computed is accepted.\<close>

definition gcm_inverse :: "env \<Rightarrow> bool" where
  "gcm_inverse E \<longleftrightarrow>
     (\<forall>k iv off b. pad (length b) (e_gcm_dec E k iv off (pad (length b) (e_gcm_enc E k iv off b))) = b) \<and>
     (\<forall>k iv ct. e_gcm_ok E k iv ct (pad GCM_TAG_LEN (e_gcm_tag E k iv ct)))"

text \<open>The whole ciphertext and plaintext, in blocks of 64 KiB.\<close>

function gcm_stream :: "(nat \<Rightarrow> string \<Rightarrow> string) \<Rightarrow> nat \<Rightarrow> string \<Rightarrow> string" where
  "gcm_stream f off b = (if b = [] then [] else
     let c = take 65536 b in pad (length c) (f off c) @ gcm_stream f (off + length c) (drop 65536 b))"
  by pat_completeness auto
termination by (relation "measure (\<lambda>(f, off, b). length b)") auto

declare gcm_stream.simps [simp del]

lemma gcm_stream_Nil [simp]: "gcm_stream f off [] = []"
  by (simp add: gcm_stream.simps)

lemma length_gcm_stream [simp]: "length (gcm_stream f off b) = length b"
proof (induction f off b rule: gcm_stream.induct)
  case (1 f off b)
  then show ?case by (subst gcm_stream.simps) (auto simp: Let_def)
qed

lemma gcm_stream_block:
  assumes "e \<noteq> []" "length e = 65536 \<or> (length e \<le> 65536 \<and> r = [])"
  shows "gcm_stream g off (e @ r) = pad (length e) (g off e) @ gcm_stream g (off + length e) r"
proof -
  have "take 65536 (e @ r) = e" "drop 65536 (e @ r) = r" using assms(2) by auto
  then show ?thesis using assms(1) by (subst gcm_stream.simps) (simp add: Let_def del: take_append drop_append)
qed

lemma gcm_stream_inverse:
  assumes "\<And>off b. pad (length b) (g off (pad (length b) (f off b))) = b"
  shows "gcm_stream g off (gcm_stream f off b) = b"
proof (induction "length b" arbitrary: off b rule: less_induct)
  case less
  show ?case
  proof (cases "b = []")
    case False
    define c where "c = take 65536 b"
    define e where "e = pad (length c) (f off c)"
    define r where "r = gcm_stream f (off + length c) (drop 65536 b)"
    have e: "gcm_stream f off b = e @ r"
      using False unfolding e_def r_def c_def by (subst gcm_stream.simps) (simp add: Let_def)
    have len: "length e = length c" by (simp add: e_def)
    have "c \<noteq> []" using False by (simp add: c_def)
    then have "e \<noteq> []" using len by fastforce
    moreover have "length e = 65536 \<or> (length e \<le> 65536 \<and> r = [])"
      unfolding len r_def c_def by (cases "65536 \<le> length b") simp_all
    ultimately have "gcm_stream g off (e @ r) = pad (length e) (g off e) @ gcm_stream g (off + length e) r"
      by (rule gcm_stream_block)
    also have "pad (length e) (g off e) = c" using assms [of c off] len by (simp add: e_def)
    also have "gcm_stream g (off + length e) r = drop 65536 b"
      using less [of "drop 65536 b" "off + length c"] False len by (simp add: r_def)
    finally show ?thesis using e by (simp add: c_def)
  qed simp
qed

lemma fs_append_put' [simp]: "fs_get f p = Some n \<Longrightarrow> fs_append p b f = fs_put p (n\<lparr>i_data := i_data n @ b\<rparr>) f"
  by (rule fs_append_put)

lemma wp_decrypt_loop_reliable:
  assumes "reliable E"
  shows "fs_get (o_fs w) fo = Some n \<Longrightarrow> off \<le> length ct \<Longrightarrow>
    wp (decrypt_loop E key iv fo ct off) (\<lambda>r w'. r = ERR_OK \<and> (\<exists>t. w' = w\<lparr>o_tick := t,
       o_fs := fs_put fo (n\<lparr>i_data := i_data n @ gcm_stream (e_gcm_dec E key iv) off (drop off ct)\<rparr>) (o_fs w)\<rparr>)) w"
proof (induction "length ct - off" arbitrary: off n w rule: less_induct)
  case less
  show ?case
  proof (cases "off < length ct")
    case False
    then show ?thesis
      using less.prems by (subst decrypt_loop.simps) (auto simp: wp_simps intro!: exI [of _ "o_tick w"])
  next
    case True
    define m where "m = (if 65536 < length ct - off then 65536 else length ct - off)"
    let ?b = "take m (drop off ct)"
    let ?out = "pad m (e_gcm_dec E key iv off ?b)" and ?n = "n\<lparr>i_data := i_data n @ pad m (e_gcm_dec E key iv off ?b)\<rparr>"
    let ?w = "w\<lparr>o_tick := Suc (Suc (o_tick w)), o_fs := fs_put fo ?n (o_fs w)\<rparr>"
    have m: "0 < m" "off + m \<le> length ct" "length ?b = m" "?b = take 65536 (drop off ct)"
      using True by (auto simp: m_def)
    have stream: "gcm_stream (e_gcm_dec E key iv) off (drop off ct)
        = ?out @ gcm_stream (e_gcm_dec E key iv) (off + m) (drop (off + m) ct)"
    proof -
      have "drop 65536 (drop off ct) = drop (off + m) ct" by (auto simp: m_def add.commute)
      then show ?thesis using True m by (subst gcm_stream.simps) (simp add: Let_def)
    qed
    have "wp (decrypt_loop E key iv fo ct (off + m)) (\<lambda>r w'. r = ERR_OK \<and> (\<exists>t. w' = ?w\<lparr>o_tick := t,
       o_fs := fs_put fo (?n\<lparr>i_data := i_data ?n @ gcm_stream (e_gcm_dec E key iv) (off + m) (drop (off + m) ct)\<rparr>) (o_fs ?w)\<rparr>)) ?w"
      using less.hyps [of "off + m" ?w ?n] m True by simp
    then show ?thesis
      using True assms less.prems(1) m(3)
      by (subst decrypt_loop.simps) (simp add: Let_def wp_simps stream flip: m_def)
  qed
qed

lemma wp_encrypt_loop_reliable:
  assumes "reliable E" "fs_get (o_fs w) fo = Some n" "fi \<noteq> fo"
  shows "wp (read_loop E fi 65536 (encrypt_block E key iv fo) [])
    (\<lambda>r w'. \<exists>t err. r = Inr (gcm_stream (e_gcm_enc E key iv) 0 (fs_content (o_fs w) fi), err) \<and>
       w' = w\<lparr>o_tick := t,
          o_fs := fs_put fo (n\<lparr>i_data := i_data n @ gcm_stream (e_gcm_enc E key iv) 0 (fs_content (o_fs w) fi)\<rparr>) (o_fs w)\<rparr>) w"
    (is "wp ?loop ?Q w")
proof -
  let ?c = "fs_content (o_fs w) fi" and ?s = "gcm_stream (e_gcm_enc E key iv)"
  define I where "I = (\<lambda>off ct w'. \<exists>t. w' = w\<lparr>o_tick := t, o_fs := fs_put fo (n\<lparr>i_data := i_data n @ ct\<rparr>) (o_fs w)\<rparr>
     \<and> ?s 0 ?c = ct @ ?s off (drop off ?c))"
  have loop: "wp ?loop (\<lambda>r w'. case r of Inl e \<Rightarrow> False
       | Inr (s', err) \<Rightarrow> \<exists>m \<le> length ?c. I m s' w' \<and> (\<not> err \<longrightarrow> m = length ?c)) w"
  proof (rule read_loop_rule [where I = I and c = ?c])
    fix off b ct w'
    assume inv: "I off ct w'" and c: "fs_content (o_fs w') fi = ?c" and b: "b \<noteq> []"
      and rel: "reliable E \<longrightarrow> b = take 65536 (drop off ?c)"
    have b': "b = take 65536 (drop off ?c)" "drop off ?c \<noteq> []" using b rel assms(1) by auto
    have "drop 65536 (drop off ?c) = drop (off + length b) ?c"
      using b' by (cases "65536 \<le> length ?c - off") (auto simp: add.commute)
    then have "?s off (drop off ?c) = pad (length b) (e_gcm_enc E key iv off b) @ ?s (off + length b) (drop (off + length b) ?c)"
      using b' by (subst gcm_stream.simps) (simp add: Let_def)
    then show "wp (encrypt_block E key iv fo off b ct)
       (\<lambda>r w'. case r of Inl e \<Rightarrow> False | Inr s' \<Rightarrow> I (off + length b) s' w' \<and> fs_content (o_fs w') fi = ?c) w'"
      using inv c assms by (auto simp: encrypt_block_def I_def wp_simps Let_def fs_content_def)
  next
    show "I off ct (w'\<lparr>o_tick := t\<rparr>)" if "I off ct w'" for off ct w' t
      using that by (auto simp: I_def intro!: exI [of _ t])
    show "I 0 [] w" using assms(2) by (auto simp: I_def intro!: exI [of _ "o_tick w"])
  qed simp_all
  have "wp ?loop (\<lambda>r _. case r of Inl _ \<Rightarrow> True | Inr x \<Rightarrow> \<not> snd x) w"
    unfolding read_loop_def wp_bind wp_gets by (rule while_read_no_err [OF assms(1)])
  from wp_conj [OF loop this] show ?thesis
    by (rule wp_mono) (auto simp: I_def split: sum.splits)
qed

lemma ex_os_state: "\<exists>t. s\<lparr>o_fs := f, o_tick := u\<rparr> = s\<lparr>o_tick := t, o_fs := f\<rparr>"
  by (rule exI [of _ u]) simp

definition encrypted :: "env \<Rightarrow> string \<Rightarrow> string \<Rightarrow> string \<Rightarrow> string" where
  "encrypted E key iv pt = (let ct = gcm_stream (e_gcm_enc E key iv) 0 pt
     in iv @ ct @ pad GCM_TAG_LEN (e_gcm_tag E key iv ct))"

lemma wp_encrypt_body_reliable:
  assumes "reliable E" "fs_get (o_fs w) fo = Some n" "fi \<noteq> fo" "e_rand E (o_tick w) GCM_IV_LEN = Some r"
  shows "wp (encrypt_body E fi fo key) (\<lambda>ret w'. ret = ERR_OK \<and> (\<exists>t. w' = w\<lparr>o_tick := t,
     o_fs := fs_put fo (n\<lparr>i_data := i_data n @ encrypted E key (pad GCM_IV_LEN r) (fs_content (o_fs w) fi)\<rparr>) (o_fs w)\<rparr>)) w"
proof -
  let ?iv = "pad GCM_IV_LEN r" and ?c = "fs_content (o_fs w) fi"
  let ?n = "n\<lparr>i_data := i_data n @ ?iv\<rparr>"
  let ?w = "w\<lparr>o_fs := fs_put fo ?n (o_fs w), o_tick := Suc (Suc (Suc (Suc (o_tick w))))\<rparr>"
  have c: "fs_content (o_fs ?w) fi = ?c" using assms(3) by (simp add: fs_content_def)
  have w: "fs_get (o_fs ?w) fo = Some ?n" by simp
  note loop = wp_encrypt_loop_reliable [OF assms(1) w assms(3), unfolded c]
  show ?thesis
    using assms(1,2,4)
    by (simp add: encrypt_body_def wp_simps Let_def)
       (rule wp_mono [OF loop], auto simp: wp_simps encrypted_def Let_def)
qed

text \<open>The superuser opening an existing file, and a fresh one.\<close>

definition dir_at :: "fs \<Rightarrow> string \<Rightarrow> bool" where
  "dir_at f d \<longleftrightarrow> (case fs_get f d of None \<Rightarrow> False | Some n \<Rightarrow> i_type n = S_IFDIR)"

definition file_at :: "fs \<Rightarrow> string \<Rightarrow> bool" where
  "file_at f p \<longleftrightarrow> dir_at f (parent_dir p) \<and> (case fs_get f p of None \<Rightarrow> False | Some n \<Rightarrow> i_type n = S_IFREG)"

definition fresh_at :: "fs \<Rightarrow> string \<Rightarrow> bool" where
  "fresh_at f p \<longleftrightarrow> dir_at f (parent_dir p) \<and> fs_get f p = None"

definition new_file :: "env \<Rightarrow> 32 word \<Rightarrow> string \<Rightarrow> inode" where
  "new_file E m b = \<lparr>i_type = S_IFREG, i_mode = m AND NOT (e_umask E), i_uid = e_euid E, i_data = b\<rparr>"

lemma new_file_simps [simp]: "i_type (new_file E m b) = S_IFREG" "i_data (new_file E m b) = b"
  "(new_file E m b)\<lparr>i_data := b'\<rparr> = new_file E m b'"
  by (simp_all add: new_file_def)

lemma dir_at_search: "dir_at f d \<Longrightarrow> e_euid E = 0 \<Longrightarrow> search_err E f d = None \<and> write_err E f d = None"
  by (auto simp: dir_at_def search_err_def write_err_def may_def split: option.splits)

lemma dir_at_put: "dir_at f d \<Longrightarrow> fs_get f p = None \<or> file_at f p \<Longrightarrow> dir_at (fs_put p n f) d"
  by (cases "d = p") (auto simp: dir_at_def file_at_def split: option.splits)

lemma open_r_root: "file_at f p \<Longrightarrow> e_euid E = 0 \<Longrightarrow> fs_open E p 0 0 f = (Inr p, f)"
  using resolve_not_link [of f p]
  by (auto simp: file_at_def fs_open_def open_target_def not_link_def dir_at_search may_def split: option.splits)

lemma open_w_root: "fresh_at f p \<Longrightarrow> e_euid E = 0 \<Longrightarrow>
   fs_open E p W_FLAGS m f = (Inr p, fs_put p (new_file E m []) f)"
  using resolve_not_link [of f p]
  by (auto simp: fresh_at_def fs_open_def open_target_def not_link_def dir_at_search new_file_def)

lemma open_p_root: "fresh_at f p \<Longrightarrow> e_euid E = 0 \<Longrightarrow>
   fs_open E p P_FLAGS m f = (Inr p, fs_put p (new_file E m []) f)"
  by (auto simp: fresh_at_def fs_open_def open_target_def dir_at_search new_file_def)

lemma rename_root: "file_at f a \<Longrightarrow> fresh_at f b \<Longrightarrow> e_euid E = 0 \<Longrightarrow> fs_get f a = Some n \<Longrightarrow>
   fs_rename E a b f = (Inr (), fs_put b n (fs_del a f))"
  by (auto simp: file_at_def fresh_at_def fs_rename_def dir_at_search move_node_def split: option.splits)

lemma wp_encrypt_file_root:
  assumes "reliable E" "e_euid E = 0" "\<forall>t n. e_rand E t n \<noteq> None" "file_at (o_fs w) a" "fresh_at (o_fs w) b"
  shows "wp (encrypt_file E a b key) (\<lambda>ret w'. ret = ERR_OK \<and> (\<exists>t iv. length iv = GCM_IV_LEN \<and> w' = w\<lparr>o_tick := t,
     o_fs := fs_put b (new_file E MODE_0666 (encrypted E key iv (fs_content (o_fs w) a))) (o_fs w)\<rparr>)) w"
proof -
  let ?f = "fs_put b (new_file E MODE_0666 []) (o_fs w)"
  let ?w = "w\<lparr>o_tick := Suc (Suc (o_tick w)), o_fs := ?f\<rparr>"
  have ab: "a \<noteq> b" using assms(4,5) by (auto simp: file_at_def fresh_at_def split: option.splits)
  have g: "fs_get (o_fs ?w) b = Some (new_file E MODE_0666 [])" by simp
  have c: "fs_content (o_fs ?w) a = fs_content (o_fs w) a" using ab by (simp add: fs_content_def)
  obtain r where r: "e_rand E (o_tick ?w) GCM_IV_LEN = Some r" using assms(3) by blast
  note body = wp_encrypt_body_reliable [OF assms(1) g ab r, unfolded c]
  show ?thesis
    using assms(1) open_r_root [OF assms(4,2)] open_w_root [OF assms(5,2)]
    by (simp add: encrypt_file_def wp_simps)
       (rule wp_mono [OF body], auto simp: wp_simps intro!: exI [of _ "pad GCM_IV_LEN r"])
qed

lemma encrypted_parts:
  assumes "length iv = GCM_IV_LEN"
  shows "length (encrypted E key iv pt) = 28 + length pt" "take GCM_IV_LEN (encrypted E key iv pt) = iv"
    "take (length pt) (drop GCM_IV_LEN (encrypted E key iv pt)) = gcm_stream (e_gcm_enc E key iv) 0 pt"
    "drop (GCM_IV_LEN + length pt) (encrypted E key iv pt)
       = pad GCM_TAG_LEN (e_gcm_tag E key iv (gcm_stream (e_gcm_enc E key iv) 0 pt))"
  using assms by (simp_all add: encrypted_def Let_def GCM_IV_LEN_def GCM_TAG_LEN_def)

lemma wp_decrypt_body_reliable:
  assumes "reliable E" "gcm_inverse E" "fs_get (o_fs w) fo = Some n" "length iv = GCM_IV_LEN"
    and "fs_content (o_fs w) fi = encrypted E key iv pt" "length pt + 28 \<le> MAX_DECRYPT_SIZE"
  shows "wp (decrypt_body E fi fo key) (\<lambda>ret w'. ret = ERR_OK \<and> (\<exists>t. w' = w\<lparr>o_tick := t,
     o_fs := fs_put fo (n\<lparr>i_data := i_data n @ pt\<rparr>) (o_fs w)\<rparr>)) w"
proof -
  let ?ct = "gcm_stream (e_gcm_enc E key iv) 0 pt"
  let ?w = "w\<lparr>o_tick := Suc (Suc (Suc (Suc (Suc (o_tick w)))))\<rparr>"
  have g: "fs_get (o_fs ?w) fo = Some n" using assms(3) by simp
  have inv: "gcm_stream (e_gcm_dec E key iv) 0 ?ct = pt"
    by (rule gcm_stream_inverse) (use assms(2) in \<open>simp add: gcm_inverse_def\<close>)
  have ok: "e_gcm_ok E key iv ?ct (pad GCM_TAG_LEN (e_gcm_tag E key iv ?ct))"
    using assms(2) by (simp add: gcm_inverse_def)
  have len: "28 + length pt - GCM_IV_LEN - GCM_TAG_LEN = length pt" "GCM_IV_LEN + GCM_TAG_LEN = 28"
    by (simp_all add: GCM_IV_LEN_def GCM_TAG_LEN_def)
  note loop = wp_decrypt_loop_reliable [OF assms(1) g, of 0 ?ct key iv, simplified, unfolded inv]
  show ?thesis
    using assms(1,5,6)
    by (simp add: decrypt_body_def wp_simps Let_def encrypted_parts [OF assms(4)] len)
       (rule wp_mono [OF loop], auto simp: wp_simps ok encrypted_parts [OF assms(4)] intro!: ex_os_state)
qed

lemma wp_decrypt_file_root:
  assumes "reliable E" "gcm_inverse E" "e_euid E = 0" "file_at (o_fs w) b" "fresh_at (o_fs w) c"
    and "fresh_at (o_fs w) (decrypt_tmp E c)" "c \<noteq> decrypt_tmp E c" "length iv = GCM_IV_LEN"
    and "fs_content (o_fs w) b = encrypted E key iv pt" "length pt + 28 \<le> MAX_DECRYPT_SIZE"
  shows "wp (decrypt_file E b c key) (\<lambda>ret w'. ret = ERR_OK \<and> (\<exists>t. w' = w\<lparr>o_tick := t,
     o_fs := fs_put c (new_file E MODE_0600 pt)
       (fs_del (decrypt_tmp E c) (fs_put (decrypt_tmp E c) (new_file E MODE_0600 pt) (o_fs w)))\<rparr>)) w"
proof -
  let ?tmp = "decrypt_tmp E c" and ?n = "new_file E MODE_0600"
  let ?f = "fs_put ?tmp (?n []) (o_fs w)"
  let ?w = "w\<lparr>o_fs := ?f, o_tick := Suc (Suc (Suc (Suc (o_tick w))))\<rparr>"
  have bt: "b \<noteq> ?tmp" using assms(4,6) by (auto simp: file_at_def fresh_at_def split: option.splits)
  have g: "fs_get (o_fs ?w) ?tmp = Some (?n [])" by simp
  have cb: "fs_content (o_fs ?w) b = encrypted E key iv pt" using assms(9) bt by (simp add: fs_content_def)
  note body = wp_decrypt_body_reliable [OF assms(1,2) g assms(8) cb assms(10)]
  let ?h = "fs_put ?tmp (?n pt) (o_fs w)"
  have h: "file_at ?h ?tmp" "fresh_at ?h c" "fs_get ?h ?tmp = Some (?n pt)"
    using assms(5-7) dir_at_put [of "o_fs w" _ ?tmp] by (auto simp: file_at_def fresh_at_def)
  have l: "fst (fs_lstat E c (o_fs w)) = Inl ENOENT" "fst (fs_lstat E c ?h) = Inl ENOENT"
    using assms(3,5) h(2) by (simp_all add: fresh_at_def fs_lstat_def dir_at_search)
  show ?thesis
    using assms(1) open_r_root [OF assms(4,3)] open_p_root [OF assms(6,3)] l(1)
    by (simp add: decrypt_file_def wp_simps Let_def is_symlink_def)
       (rule wp_mono [OF body],
        auto simp: decrypt_cleanup_def wp_simps is_symlink_def l(2) rename_root [OF h(1,2) assms(3) h(3)] intro!: ex_os_state)
qed

section \<open>Properties\<close>

text \<open>C5: whatever calls fail, \<open>decrypt_file\<close> either fails and leaves its output path exactly as it
  was, or succeeds and the input file held a nonce, a ciphertext and a tag that GCM accepts
  under the key: no unauthenticated byte is ever visible under the output path.\<close>
theorem decrypt_publishes_only_authentic:
  assumes "outpath \<noteq> decrypt_tmp E outpath" and "inpath \<noteq> decrypt_tmp E outpath" and "not_link (o_fs w) inpath"
    and "run_state (decrypt_file E inpath outpath key) w = (r, w')"
  shows "if r = ERR_OK then authentic E key (fs_content (o_fs w) inpath)
         else fs_get (o_fs w') outpath = fs_get (o_fs w) outpath"
  using wpD [OF wp_decrypt_file [OF assms(1-3)] assms(4)] by simp

text \<open>C7: a regular file encrypted and then decrypted under the same key comes back byte for byte,
  and both operations report success, up to the size \<open>decrypt_file\<close> accepts.\<close>
theorem encrypt_decrypt_roundtrip:
  assumes "reliable E" and "gcm_inverse E" and "e_euid E = 0" and "\<forall>t n. e_rand E t n \<noteq> None"
    and "file_at (o_fs w) a" and "fresh_at (o_fs w) b" and "fresh_at (o_fs w) c" and "fresh_at (o_fs w) (decrypt_tmp E c)"
    and "distinct [b, c, decrypt_tmp E c]" and "length (fs_content (o_fs w) a) + 28 \<le> MAX_DECRYPT_SIZE"
  shows "wp (do { r \<leftarrow> encrypt_file E a b key; r' \<leftarrow> decrypt_file E b c key; return (r, r') })
     (\<lambda>r w'. r = (ERR_OK, ERR_OK) \<and> fs_content (o_fs w') c = fs_content (o_fs w) a) w"
proof -
  let ?pt = "fs_content (o_fs w) a"
  have dec: "wp (decrypt_file E b c key) (\<lambda>ret w'. ret = ERR_OK \<and> fs_content (o_fs w') c = ?pt)
      (w\<lparr>o_tick := t, o_fs := fs_put b (new_file E MODE_0666 (encrypted E key iv ?pt)) (o_fs w)\<rparr>)"
    if "length iv = GCM_IV_LEN" for t iv
    by (rule wp_mono [OF wp_decrypt_file_root [OF assms(1-3), where iv = iv and pt = ?pt]])
       (use that assms(6-10) dir_at_put [of "o_fs w" _ b] in
         \<open>auto simp: file_at_def fresh_at_def fs_content_def\<close>)
  show ?thesis
    unfolding wp_bind
    by (rule wp_mono [OF wp_encrypt_file_root [OF assms(1,3,4,5,6)]])
       (auto simp: wp_simps intro!: wp_mono [OF dec])
qed

text \<open>\<open>encrypt_file\<close> has no size limit, \<open>decrypt_file\<close> has one: a file of more than 512 MiB minus 28 bytes is
  encrypted with success into a file that \<open>decrypt_file\<close> refuses under every key.\<close>
theorem encrypted_beyond_limit_is_lost:
  assumes "reliable E" and "e_euid E = 0" and "\<forall>t n. e_rand E t n \<noteq> None"
    and "file_at (o_fs w) a" and "fresh_at (o_fs w) b" and "b \<noteq> decrypt_tmp E c"
    and "MAX_DECRYPT_SIZE < length (fs_content (o_fs w) a) + 28"
  shows "wp (do { r \<leftarrow> encrypt_file E a b key; r' \<leftarrow> decrypt_file E b c key'; return (r, r') })
     (\<lambda>r w'. fst r = ERR_OK \<and> snd r \<noteq> ERR_OK) w"
proof -
  let ?pt = "fs_content (o_fs w) a"
  have refuse: "wp (decrypt_file E b c key') (\<lambda>ret _. ret \<noteq> ERR_OK) w'"
    if nl: "not_link (o_fs w') b" and large: "MAX_DECRYPT_SIZE < length (fs_content (o_fs w') b)" for w'
  proof -
    have big: "wp (decrypt_body E b fo key') (\<lambda>ret _. ret \<noteq> ERR_OK) v"
      if "fs_content (o_fs v) b = fs_content (o_fs w') b" for v fo
      using wp_decrypt_body_auth [of E b fo key' v] that large
      by (auto elim!: wp_mono simp: authentic_def)
    have fin: "fi = b" if "fst (fs_open E b 0 0 (o_fs w')) = Inr fi" for fi
      using fs_open_r [of E b "o_fs w'" fi] that resolve_not_link [OF nl]
      by (cases "fs_open E b 0 0 (o_fs w')") auto
    show ?thesis
      using assms(6)
      by (auto simp: decrypt_file_def Let_def wp_simps fs_open_r_fs fs_open_p_any(3) decrypt_cleanup_def
          split: option.splits sum.splits dest!: fin fs_open_p_any(1) intro!: wp_mono [OF big])
  qed
  show ?thesis
    unfolding wp_bind
    by (rule wp_mono [OF wp_encrypt_file_root [OF assms(1-5)]])
       (use assms(7) in \<open>auto simp: wp_simps not_link_def fs_content_def encrypted_parts intro!: wp_mono [OF refuse]\<close>)
qed

section \<open>Examples\<close>

lemma ex_gcm_inverse: "gcm_inverse ex_env"
  by (auto simp: gcm_inverse_def ex_env_def GCM_TAG_LEN_def pad_def min_def)

lemma ex_tmp: "decrypt_tmp ex_env ''/v/b'' = ''/v/b.tmp.7''"
proof -
  have "char_of (55 :: nat) = CHR ''7''" by code_simp
  then show ?thesis by (simp add: decrypt_tmp_def ex_env_def cbuf_def PATH_MAX_def dec_digits.simps)
qed

lemma ex_places: "file_at ex_fs ''/v/docs/a''" "fresh_at ex_fs ''/v/a''" "fresh_at ex_fs ''/v/b''"
  "fresh_at ex_fs ''/v/b.tmp.7''" "fs_content ex_fs ''/v/docs/a'' = ''hello''"
  by (simp_all add: file_at_def fresh_at_def dir_at_def ex_fs_def ex_dir_def ex_file_def fs_get_def fs_content_def parent_dir_def)

lemma ex_rand: "\<forall>t n. e_rand ex_env t n \<noteq> None"
  by (simp add: ex_env_def)

lemma encrypt_decrypt_roundtrip_witness:
  "wp (do { r \<leftarrow> encrypt_file ex_env ''/v/docs/a'' ''/v/a'' ''k''; r' \<leftarrow> decrypt_file ex_env ''/v/a'' ''/v/b'' ''k''; return (r, r') })
     (\<lambda>r w'. r = (ERR_OK, ERR_OK) \<and> fs_content (o_fs w') ''/v/b'' = ''hello'') ex_world"
  using encrypt_decrypt_roundtrip [OF reliable_ex_env ex_gcm_inverse ex_env_root ex_rand, of ex_world "''/v/docs/a''" "''/v/a''" "''/v/b''" "''k''"]
  by (simp add: ex_places ex_tmp MAX_DECRYPT_SIZE_def)

lemma decrypt_publishes_only_authentic_witness:
  "\<exists>r w'. run_state (decrypt_file ex_env ''/v/docs/a'' ''/v/b'' ''k'') ex_world = (r, w') \<and>
    (if r = ERR_OK then authentic ex_env ''k'' ''hello'' else fs_get (o_fs w') ''/v/b'' = None)"
proof -
  obtain r w' where run: "run_state (decrypt_file ex_env ''/v/docs/a'' ''/v/b'' ''k'') ex_world = (r, w')" by fastforce
  have "not_link ex_fs ''/v/docs/a''" "fs_get ex_fs ''/v/b'' = None"
    by (simp_all add: not_link_def ex_fs_def ex_file_def fs_get_def)
  with decrypt_publishes_only_authentic [OF _ _ _ run] run show ?thesis
    by (auto simp: ex_tmp ex_places split: if_splits)
qed

definition big_world :: world where
  "big_world = ex_world\<lparr>o_fs := fs_put ''/v/docs/a'' (ex_file (replicate MAX_DECRYPT_SIZE NUL)) ex_fs\<rparr>"

lemma encrypted_beyond_limit_is_lost_witness:
  "wp (do { r \<leftarrow> encrypt_file ex_env ''/v/docs/a'' ''/v/a'' ''k''; r' \<leftarrow> decrypt_file ex_env ''/v/a'' ''/v/b'' ''k''; return (r, r') })
     (\<lambda>r w'. fst r = ERR_OK \<and> snd r \<noteq> ERR_OK) big_world"
proof (rule encrypted_beyond_limit_is_lost [OF reliable_ex_env ex_env_root ex_rand])
  show "file_at (o_fs big_world) ''/v/docs/a''" "fresh_at (o_fs big_world) ''/v/a''"
    by (simp_all add: big_world_def file_at_def fresh_at_def dir_at_def ex_fs_def ex_dir_def ex_file_def fs_get_put fs_get_def [of "_ # _"] fs_get_def [of "[]"] parent_dir_def)
  show "MAX_DECRYPT_SIZE < length (fs_content (o_fs big_world) ''/v/docs/a'') + 28"
    by (simp add: big_world_def fs_content_def ex_file_def)
qed (simp add: ex_tmp)

text \<open>C1: the brute-force bound: of any sequence of wrong passwords, exactly three are compared
  with the stored hash; from then on every attempt, with the right password too, is answered
  \<open>ERR_VAULT_LOCKED\<close>.\<close>
theorem lockout_after_three:
  assumes "i < length (vaults w)" and "v_has_pass (vaults w ! i)"
    and "v_status (vaults w ! i) \<noteq> VAULT_STATUS_LOCKED" and "v_failed (vaults w ! i) = 0"
    and "list_all (wrong_password E (vaults w ! i)) [a, b, c]"
  shows "wp (auth_attempts E i (map Some ([a, b, c] @ later)))
     (\<lambda>rs _. rs = replicate 3 ERR_AUTH_FAIL @ replicate (length later) ERR_VAULT_LOCKED) w"
proof -
  have "auth_trace E (map Some ([a, b, c] @ later)) (vaults w ! i)
      = replicate (length [a, b, c]) ERR_AUTH_FAIL @ replicate (length later) ERR_VAULT_LOCKED"
    by (rule auth_trace_wrong [OF assms(5,2,3), of 0]) (use assms(4) in simp_all)
  then show ?thesis
    by (intro wp_mono [OF wp_auth_attempts [OF assms(1)]]) (simp only: list.size numeral_3_eq_3 add_0 add_Suc One_nat_def)
qed

definition ex_locked_world :: world where
  "ex_locked_world = upd_vaults (map (\<lambda>v. v\<lparr>v_has_pass := True, v_pass_hash := pad 32 ''secret-pw''\<rparr>)) ex_world"

lemma lockout_after_three_witness:
  "wp (auth_attempts ex_env 0 (map Some ([''a'', ''b'', ''c''] @ [''secret-pw''])))
     (\<lambda>rs _. rs = [ERR_AUTH_FAIL, ERR_AUTH_FAIL, ERR_AUTH_FAIL, ERR_VAULT_LOCKED]) ex_locked_world"
  using lockout_after_three [of 0 ex_locked_world ex_env "''a''" "''b''" "''c''" "[''secret-pw'']"]
  by (simp add: ex_locked_world_def wrong_password_def derive_key_for_def ex_env_def KEY_LEN_def pad_def numeral_3_eq_3)

end
