(* ===== verification/Vault_Monitor.thy ===== *)
theory Vault_Monitor
  imports File_Crypto Vault_Text
begin

text \<open>
  \<^verbatim>\<open>c_src/vault/vault_monitor.c\<close>: read-only enforcement, the integrity scan, alerts and their escalation,
  the rule engine, the per-file credit buckets and one round of the monitor thread; and the two
  lookups of \<^verbatim>\<open>vault_catalog.c\<close> they use.

  A \<^verbatim>\<open>Vault *\<close> is the index of the vault in the catalog, a \<^verbatim>\<open>FileBucket *\<close> the position in the vault's
  list. The names \<^verbatim>\<open>readdir\<close> yields are those present at \<^verbatim>\<open>opendir\<close>. The fanotify events are only
  logged by the code, so a round of the monitor thread is what it does besides: escalation and watches.
\<close>

section \<open>Lookups\<close>

definition vault_find_by_id :: "32 word \<Rightarrow> nat option vio" where
  "vault_find_by_id vid = gets (\<lambda>w. find_index (\<lambda>v. v_id v = vid) (vaults w))"

definition vault_find_by_name :: "string \<Rightarrow> nat option vio" where
  "vault_find_by_name name = gets (\<lambda>w. find_index (\<lambda>v. v_name v = name) (vaults w))"

section \<open>Read-only enforcement\<close>

text \<open>\<^verbatim>\<open>fchmodat\<close> on every regular file of the directory that is not hidden.\<close>

definition hidden :: "string \<Rightarrow> bool" where
  "hidden d \<longleftrightarrow> take 1 d = ''.''"

definition chmod_file :: "env \<Rightarrow> string \<Rightarrow> 32 word \<Rightarrow> string \<Rightarrow> unit vio" where
  "chmod_file E path mode d =
    (if hidden d then return ()
     else do {
       st \<leftarrow> sys_lstat E (path @ ''/'' @ d);
       case st of
         Inl _ \<Rightarrow> return ()
       | Inr n \<Rightarrow> if i_type n = S_IFLNK \<or> i_type n \<noteq> S_IFREG then return ()
                  else do { _ \<leftarrow> sys_chmod E (path @ ''/'' @ d) mode; return () } })"

definition vault_enforce_readonly :: "env \<Rightarrow> nat \<Rightarrow> unit vio" where
  "vault_enforce_readonly E i = do {
     v \<leftarrow> get_vault i;
     if v_status v = VAULT_STATUS_DELETED then return ()
     else do {
       dir \<leftarrow> sys_opendir E (v_path v);
       case dir of
         Inl _ \<Rightarrow> return ()
       | Inr names \<Rightarrow> do {
           for_each names (chmod_file E (v_path v) MODE_0400);
           mod_vault i (\<lambda>v. v\<lparr>v_write_mode := False\<rparr>) } } }"

definition vault_set_write_mode :: "env \<Rightarrow> nat \<Rightarrow> bool \<Rightarrow> unit vio" where
  "vault_set_write_mode E i enable = do {
     v \<leftarrow> get_vault i;
     if v_status v = VAULT_STATUS_DELETED then return ()
     else do {
       dir \<leftarrow> sys_opendir E (v_path v);
       case dir of
         Inl _ \<Rightarrow> return ()
       | Inr names \<Rightarrow> do {
           for_each names (chmod_file E (v_path v) (if enable then MODE_0600 else MODE_0400));
           mod_vault i (\<lambda>v. v\<lparr>v_write_mode := enable\<rparr>) } } }"

section \<open>Alerts\<close>

definition alert_mark :: "int \<Rightarrow> string \<Rightarrow> Vault \<Rightarrow> Vault" where
  "alert_mark now reason v =
    (let a = v_alert v;
         a = (if al_first a = 0 then a\<lparr>al_first := now, al_idx := 0\<rparr> else a)
     in v\<lparr>v_alert := a\<lparr>al_reason := cbuf 256 reason\<rparr>, v_status := VAULT_STATUS_ALERT\<rparr>)"

definition alert_trigger :: "env \<Rightarrow> nat \<Rightarrow> string \<Rightarrow> unit vio" where
  "alert_trigger E i reason = do {
     now \<leftarrow> sys_time E;
     mod_vault i (alert_mark now reason);
     _ \<leftarrow> catalog_save E;
     return () }"

definition alert_interval :: "64 word \<Rightarrow> int" where
  "alert_interval idx = (if unat idx < NUM_ALERT_INTERVALS then ALERT_INTERVALS ! unat idx
     else ALERT_INTERVALS ! (NUM_ALERT_INTERVALS - 1))"

definition alert_check_escalation :: "env \<Rightarrow> nat \<Rightarrow> unit vio" where
  "alert_check_escalation E i = do {
     v \<leftarrow> get_vault i;
     if v_status v \<noteq> VAULT_STATUS_ALERT then return ()
     else do {
       now \<leftarrow> sys_time E;
       let a = v_alert v;
       if al_last a = 0 then
         mod_vault i (\<lambda>v. v\<lparr>v_alert := a\<lparr>al_count := al_count a + 1, al_last := now\<rparr>\<rparr>)
       else if alert_interval (al_idx a) \<le> now - al_last a then do {
         mod_vault i (\<lambda>v. v\<lparr>v_alert := a\<lparr>al_count := al_count a + 1, al_last := now,
            al_idx := if unat (al_idx a) < NUM_ALERT_INTERVALS - 1 then al_idx a + 1 else al_idx a\<rparr>\<rparr>);
         _ \<leftarrow> sys_chmod E (v_path v) MODE_0000;
         return () }
       else return () } }"

definition clear_modified :: "FileHashMap \<Rightarrow> FileHashMap" where
  "clear_modified m = m\<lparr>hm_buckets := map (map (\<lambda>e. e\<lparr>fe_modified := False\<rparr>)) (hm_buckets m)\<rparr>"

definition no_password :: "string option \<Rightarrow> bool" where
  "no_password password \<longleftrightarrow> password = None \<or> password = Some []"

definition alert_resolve :: "env \<Rightarrow> 32 word \<Rightarrow> string option \<Rightarrow> VaultErrorr vio" where
  "alert_resolve E vid password = do {
     p \<leftarrow> vault_find_by_id vid;
     case p of
       None \<Rightarrow> return ERR_VAULT_NOT_FOUND
     | Some i \<Rightarrow> do {
         v \<leftarrow> get_vault i;
         err \<leftarrow> (if v_type v = VAULT_TYPE_PROTECTED then
                   (if no_password password then return ERR_PASS_REQUIRED
                    else auth_verify_password E i password)
                 else return ERR_OK);
         if err \<noteq> ERR_OK then return err
         else do {
           mod_vault i (\<lambda>v. v\<lparr>v_map := clear_modified (v_map v), v_alert := zero_alert, v_status := VAULT_STATUS_OK\<rparr>);
           vault_enforce_readonly E i;
           v \<leftarrow> get_vault i;
           _ \<leftarrow> sys_chmod E (v_path v) MODE_0700;
           _ \<leftarrow> sys_chmod E (v_path v) MODE_0700;
           catalog_save E } } }"

section \<open>The integrity scan\<close>

abbreviation SCAN_BUF :: nat where "SCAN_BUF \<equiv> 512 + 255 + 2"

definition set_file :: "nat \<Rightarrow> entry_ptr \<Rightarrow> (FileEntry \<Rightarrow> FileEntry) \<Rightarrow> unit vio" where
  "set_file i p f = mod_vault i (\<lambda>v. v\<lparr>v_map := set_entry p f (v_map v)\<rparr>)"

text \<open>The file is tracked, with entry \<open>e\<close> at \<open>p\<close>.\<close>

definition scan_known :: "env \<Rightarrow> nat \<Rightarrow> int \<Rightarrow> string \<Rightarrow> string \<Rightarrow> entry_ptr \<Rightarrow> FileEntry \<Rightarrow> unit vio" where
  "scan_known E i scan_start d new_hash p e = do {
     (if fe_hash e \<noteq> new_hash then do {
        (if \<not> fe_modified e then do {
           set_file i p (\<lambda>e. e\<lparr>fe_modified := True\<rparr>);
           alert_trigger E i (cbuf 256 (''File modified: '' @ d)) }
         else return ());
        set_file i p (\<lambda>e. e\<lparr>fe_hash := new_hash\<rparr>) }
      else set_file i p (\<lambda>e. e\<lparr>fe_modified := False\<rparr>));
     set_file i p (\<lambda>e. e\<lparr>fe_last_seen := scan_start\<rparr>) }"

text \<open>The file has the hash \<open>new_hash\<close>.\<close>

definition track_file :: "env \<Rightarrow> nat \<Rightarrow> int \<Rightarrow> string \<Rightarrow> string \<Rightarrow> unit vio" where
  "track_file E i scan_start d new_hash = do {
     v \<leftarrow> get_vault i;
     case hashmap_find (v_map v) d of
       None \<Rightarrow> do {
         mem \<leftarrow> alloc_ok E;
         case hashmap_insert mem (v_map v) d of
           (m, p) \<Rightarrow> do {
             mod_vault i (\<lambda>v. v\<lparr>v_map := m\<rparr>);
             (case p of
                None \<Rightarrow> return ()
              | Some p \<Rightarrow> set_file i p (\<lambda>e. e\<lparr>fe_hash := new_hash, fe_last_seen := scan_start,
                                            fe_modified := False\<rparr>)) } }
     | Some p \<Rightarrow> scan_known E i scan_start d new_hash p (entry_at (v_map v) p) }"

definition scan_file :: "env \<Rightarrow> nat \<Rightarrow> int \<Rightarrow> string \<Rightarrow> unit vio" where
  "scan_file E i scan_start d =
    (if hidden d then return ()
     else do {
       v \<leftarrow> get_vault i;
       let filepath = cbuf SCAN_BUF (v_path v @ ''/'' @ d);
       st \<leftarrow> sys_stat E filepath;
       if (case st of Inl _ \<Rightarrow> True | Inr n \<Rightarrow> i_type n \<noteq> S_IFREG) then return ()
       else do {
         h \<leftarrow> sha256_file E filepath;
         case h of
           Inl _ \<Rightarrow> return ()
         | Inr new_hash \<Rightarrow> track_file E i scan_start d new_hash } })"

definition positions :: "FileHashMap \<Rightarrow> entry_ptr list" where
  "positions m = concat (map (\<lambda>b. map (Pair b) [0..<length (hm_buckets m ! b)]) [0..<HASHMAP_BUCKETS])"

definition check_missing :: "env \<Rightarrow> nat \<Rightarrow> int \<Rightarrow> entry_ptr \<Rightarrow> unit vio" where
  "check_missing E i scan_start p = do {
     v \<leftarrow> get_vault i;
     let e = entry_at (v_map v) p;
     if fe_last_seen e < scan_start \<and> \<not> fe_modified e then do {
       set_file i p (\<lambda>e. e\<lparr>fe_modified := True\<rparr>);
       alert_trigger E i (cbuf 256 (''Tracked file missing/deleted: '' @ fe_name e)) }
     else return () }"

definition monitor_scan_vault :: "env \<Rightarrow> nat \<Rightarrow> unit vio" where
  "monitor_scan_vault E i = do {
     v \<leftarrow> get_vault i;
     if v_status v = VAULT_STATUS_DELETED then return ()
     else do {
       scan_start \<leftarrow> sys_time E;
       dir \<leftarrow> sys_opendir E (v_path v);
       case dir of
         Inl _ \<Rightarrow> return ()
       | Inr names \<Rightarrow> do {
           for_each names (scan_file E i scan_start);
           v \<leftarrow> get_vault i;
           for_each (positions (v_map v)) (check_missing E i scan_start);
           now \<leftarrow> sys_time E;
           mod_vault i (\<lambda>v. v\<lparr>v_last_check := now\<rparr>) } } }"

section \<open>The rule engine\<close>

definition rule_add :: "32 word \<Rightarrow> int \<Rightarrow> int \<Rightarrow> int \<Rightarrow> unit vio" where
  "rule_add vault_id max_fails hour_from hour_to = modify (\<lambda>w.
     if MAX_RULES \<le> length (g_rules w) then w
     else w\<lparr>g_rules := g_rules w @ [\<lparr>r_vault_id = vault_id, r_max_fails = max_fails, r_from = hour_from, r_to = hour_to\<rparr>]\<rparr>)"

definition in_window :: "int \<Rightarrow> VaultRule \<Rightarrow> bool" where
  "in_window hour r = (if r_from r \<le> r_to r then r_from r \<le> hour \<and> hour \<le> r_to r
     else r_from r \<le> hour \<or> hour \<le> r_to r)"

fun rule_loop :: "env \<Rightarrow> nat \<Rightarrow> int \<Rightarrow> VaultRule list \<Rightarrow> unit vio" where
  "rule_loop E i hour [] = return ()"
| "rule_loop E i hour (r # rs) = do {
     v \<leftarrow> get_vault i;
     if r_vault_id r \<noteq> v_id v then rule_loop E i hour rs
     else if 0 < r_max_fails r \<and> r_max_fails r \<le> v_failed v
       then alert_trigger E i ''Max failed login attempts exceeded (rule)''
     else if 0 \<le> r_from r \<and> 0 \<le> r_to r \<and> 0 \<le> hour \<and> \<not> in_window hour r
       then alert_trigger E i ''Access outside allowed time window (rule)''
     else rule_loop E i hour rs }"

definition rule_evaluate :: "env \<Rightarrow> nat \<Rightarrow> unit vio" where
  "rule_evaluate E i = do {
     now \<leftarrow> sys_time E;
     rs \<leftarrow> gets g_rules;
     rule_loop E i (e_hour E now) rs }"

section \<open>Credit buckets\<close>

text \<open>15 credits are 600 fortieths; the refill of 0.025 per second is one fortieth.\<close>

definition SANDBOX_JAIL_MARKER :: string where "SANDBOX_JAIL_MARKER = ''.diamond_jail_ready''"

definition is_sandbox_internal :: "string option \<Rightarrow> bool" where
  "is_sandbox_internal no = (case no of None \<Rightarrow> False
     | Some name \<Rightarrow> name \<noteq> [] \<and> (name = SANDBOX_JAIL_MARKER \<or> take 9 name = ''.sandbox_''
         \<or> name \<in> set [''proc'', ''tmp'', ''dev'', ''bin'', ''lib'', ''lib64'']))"

definition replenish_file_bucket_if_needed :: "FileBucket \<Rightarrow> int \<Rightarrow> FileBucket" where
  "replenish_file_bucket_if_needed fb now =
    (if fb_last_update fb = 0 then
       fb\<lparr>fb_credits := 600, fb_time_esgoted := 0, fb_flash := 2, fb_last_update := now\<rparr>
     else
       let c = fb_credits fb + (now - fb_last_update fb)
       in fb\<lparr>fb_credits := if 600 < c then 600 else c, fb_last_update := now\<rparr>)"

definition set_bucket :: "nat \<Rightarrow> nat \<Rightarrow> (FileBucket \<Rightarrow> FileBucket) \<Rightarrow> unit vio" where
  "set_bucket i j f = mod_vault i (\<lambda>v. v\<lparr>v_fbuckets := (v_fbuckets v)[j := f (v_fbuckets v ! j)]\<rparr>)"

definition deduct_credit_and_maybe_alert :: "env \<Rightarrow> nat \<Rightarrow> nat option \<Rightarrow> string \<Rightarrow> unit vio" where
  "deduct_credit_and_maybe_alert E i fb evname = (case fb of None \<Rightarrow> return ()
     | Some j \<Rightarrow> do {
         set_bucket i j (\<lambda>b. b\<lparr>fb_credits := fb_credits b - 40\<rparr>);
         v \<leftarrow> get_vault i;
         let b = v_fbuckets v ! j;
         if fb_credits b \<le> 0 then do {
           set_bucket i j (\<lambda>b. b\<lparr>fb_credits := 0\<rparr>);
           alert_trigger E i (cbuf 256 (''Emergency! All credits exhausted for file '' @ [SQUOTE] @ evname @ [SQUOTE] @ '' ''
              @ (if 0 < fb_time_esgoted b then ''(multiple times)'' else [])));
           vault_enforce_readonly E i }
         else if fb_credits b \<le> 40 then
           set_bucket i j (\<lambda>b. b\<lparr>fb_time_esgoted := fb_time_esgoted b + 1\<rparr>)
         else return () })"

definition flash_credit_reduce :: "FileBucket \<Rightarrow> FileBucket" where
  "flash_credit_reduce b = (if 0 < fb_flash b then
     let c = fb_credits b - 20 in b\<lparr>fb_flash := fb_flash b - 1, fb_credits := if c < 0 then 0 else c\<rparr> else b)"

definition suspect_access :: "Vault \<Rightarrow> entry_ptr option \<Rightarrow> int \<Rightarrow> entry_ptr option" where
  "suspect_access v e now = None"

definition handle_in_access_event :: "env \<Rightarrow> nat \<Rightarrow> string option \<Rightarrow> int \<Rightarrow> unit vio" where
  "handle_in_access_event E i evname now = (case evname of None \<Rightarrow> return ()
     | Some nm \<Rightarrow>
         if is_sandbox_internal evname then return ()
         else do {
           v \<leftarrow> get_vault i;
           (case suspect_access v (hashmap_find (v_map v) nm) now of
              Some _ \<Rightarrow> alert_trigger E i (cbuf 256 (''Suspicious access: '' @ nm))
            | None \<Rightarrow> return ()) })"

definition handle_in_modify_event :: "env \<Rightarrow> nat \<Rightarrow> string option \<Rightarrow> bool \<Rightarrow> bool \<Rightarrow> unit vio" where
  "handle_in_modify_event E i evname is_sandbox write_mode = (case evname of None \<Rightarrow> return ()
     | Some nm \<Rightarrow>
         if is_sandbox then return ()
         else if \<not> write_mode then do {
           alert_trigger E i (cbuf 256 (''Unauthorized write (Ransomware attempt?): '' @ nm));
           vault_enforce_readonly E i }
         else monitor_scan_vault E i)"

definition find_file_bucket :: "Vault \<Rightarrow> string \<Rightarrow> nat option" where
  "find_file_bucket v path = find_index (\<lambda>b. take VAULT_PATH_MAX (fb_path b) = take VAULT_PATH_MAX path) (v_fbuckets v)"

text \<open>The new bucket is the head of the list.\<close>

definition create_file_bucket :: "env \<Rightarrow> nat \<Rightarrow> string \<Rightarrow> nat option vio" where
  "create_file_bucket E i path = do {
     mem \<leftarrow> alloc_ok E;
     if \<not> mem then return None
     else do {
       now \<leftarrow> sys_time E;
       mod_vault i (\<lambda>v. v\<lparr>v_fbuckets := \<lparr>fb_path = cbuf VAULT_PATH_MAX path, fb_credits = 600, fb_last_update = now,
          fb_time_esgoted = 0, fb_flash = 0\<rparr> # v_fbuckets v\<rparr>);
       return (Some 0) } }"

section \<open>The monitor thread\<close>

definition add_watch :: "env \<Rightarrow> nat \<Rightarrow> unit vio" where
  "add_watch E i = do {
     v \<leftarrow> get_vault i;
     if v_status v = VAULT_STATUS_DELETED then return ()
     else if 0 \<le> v_fan_wd v then return ()
     else if v_mounted v then return ()
     else do {
       ok \<leftarrow> lib_ok E;
       mod_vault i (\<lambda>v. v\<lparr>v_fan_wd := if ok then 1 else -1\<rparr>) } }"

definition monitor_add_vault_watches :: "env \<Rightarrow> unit vio" where
  "monitor_add_vault_watches E = do {
     fd \<leftarrow> gets g_fan_fd;
     if fd < 0 then return ()
     else do {
       n \<leftarrow> gets (\<lambda>w. length (vaults w));
       for_each [0..<n] (add_watch E) } }"

definition monitor_vault_by_path :: "string \<Rightarrow> nat option vio" where
  "monitor_vault_by_path path = gets (\<lambda>w. find_index (\<lambda>v. v_status v \<noteq> VAULT_STATUS_DELETED
      \<and> 0 < length (v_cipher v) \<and> take (length (v_cipher v)) path = v_cipher v) (vaults w))"

text \<open>Before the loop, and one round of it: what the thread does with its lock held.\<close>

definition monitor_start :: "env \<Rightarrow> unit vio" where
  "monitor_start E = do {
     monitor_add_vault_watches E;
     n \<leftarrow> gets (\<lambda>w. length (vaults w));
     for_each [0..<n] (monitor_scan_vault E) }"

definition monitor_round :: "env \<Rightarrow> unit vio" where
  "monitor_round E = do {
     n \<leftarrow> gets (\<lambda>w. length (vaults w));
     for_each [0..<n] (alert_check_escalation E);
     monitor_add_vault_watches E }"

end
