(* ===== verification/Vault_Manager.thy ===== *)
theory Vault_Manager
  imports Vault_Monitor
begin

text \<open>
  Section 7 of \<^verbatim>\<open>c_src/vault/vault_catalog.c\<close>: creating, deleting, renaming and unlocking vaults and
  changing their passwords. \<^verbatim>\<open>g_catalog.vaults[count]\<close>, where a new vault is built before
  \<^verbatim>\<open>count++\<close>, is a local value here: nothing reads the slot when the creation fails.
\<close>

section \<open>The operations\<close>

text \<open>\<^verbatim>\<open>vault_auto_name\<close>: the names tried are pairwise different, so one more round than there are
  vaults is enough (\<open>auto_name_fresh\<close>).\<close>

fun auto_name_loop :: "nat \<Rightarrow> Vault list \<Rightarrow> nat \<Rightarrow> string" where
  "auto_name_loop 0 vs n = cbuf VAULT_NAME_MAX (''Nuk4sd_'' @ dec_digits n)"
| "auto_name_loop (Suc k) vs n =
     (let candidate = cbuf VAULT_NAME_MAX (''Nuk4sd_'' @ dec_digits n)
      in if find_index (\<lambda>v. v_name v = candidate) vs \<noteq> None then auto_name_loop k vs (n + 1) else candidate)"

definition vault_auto_name :: "string vio" where
  "vault_auto_name = gets (\<lambda>w. auto_name_loop (Suc (length (vaults w))) (vaults w) 1)"

definition given :: "string option \<Rightarrow> bool" where
  "given s \<longleftrightarrow> (case s of None \<Rightarrow> False | Some t \<Rightarrow> t \<noteq> [])"

text \<open>The mount directory: a new one, or an existing one that is safe to use.\<close>

definition prepare_dir :: "env \<Rightarrow> string \<Rightarrow> VaultErrorr vio" where
  "prepare_dir E path_buf = do {
     r \<leftarrow> sys_mkdir E path_buf MODE_0700;
     case r of
       Inr _ \<Rightarrow> return ERR_OK
     | Inl e \<Rightarrow>
         if e = EEXIST then do {
           st \<leftarrow> sys_lstat E path_buf;
           case st of
             Inl _ \<Rightarrow> return ERR_PATH_INVALID
           | Inr n \<Rightarrow>
               if i_type n \<noteq> S_IFDIR \<or> i_type n = S_IFLNK then return ERR_PATH_INVALID
               else if i_uid n \<noteq> e_uid E then return ERR_PERM_DENIED
               else if i_mode n AND MODE_0022 \<noteq> 0 then return ERR_PERM_DENIED
               else return ERR_OK }
         else return ERR_IO }"

definition cipher_dir :: "string \<Rightarrow> 32 word \<Rightarrow> string" where
  "cipher_dir base vid = cbuf VAULT_PATH_MAX (base @ ''/cipher_'' @ dec_digits (unat vid))"

definition new_vault :: "32 word \<Rightarrow> VaultType \<Rightarrow> int \<Rightarrow> string \<Rightarrow> string \<Rightarrow> string \<Rightarrow> Vault" where
  "new_vault vid vtype now name_buf path_buf cipher =
     zero_vault\<lparr>v_id := vid, v_type := vtype, v_status := VAULT_STATUS_OK, v_created := now,
        v_last_check := now, v_fan_wd := -1, v_mounted := False, v_name := cbuf VAULT_NAME_MAX name_buf,
        v_path := cbuf VAULT_PATH_MAX path_buf, v_cipher := cipher\<rparr>"

text \<open>From \<^verbatim>\<open>count++\<close> on.\<close>

definition commit_vault :: "env \<Rightarrow> Vault \<Rightarrow> VaultErrorr vio" where
  "commit_vault E v = do {
     i \<leftarrow> gets (\<lambda>w. length (vaults w));
     modify (upd_vaults (\<lambda>vs. vs @ [v]));
     vault_enforce_readonly E i;
     err \<leftarrow> catalog_save E;
     _ \<leftarrow> sys_chmod E (v_cipher v) MODE_0000;
     return err }"

text \<open>From \<^verbatim>\<open>memset\<close> on: the arguments are checked and the mount directory is there.\<close>

definition build_vault :: "env \<Rightarrow> string \<Rightarrow> VaultType \<Rightarrow> string \<Rightarrow> string option \<Rightarrow> VaultErrorr vio" where
  "build_vault E name_buf vtype path_buf password = do {
     vid \<leftarrow> gets (\<lambda>w. c_next_id (g_catalog w));
     modify (\<lambda>w. w\<lparr>g_catalog := (g_catalog w)\<lparr>c_next_id := vid + 1\<rparr>\<rparr>);
     now \<leftarrow> sys_time E;
     base \<leftarrow> gets g_catalog_path;
     let v = new_vault vid vtype now name_buf path_buf (cipher_dir base vid);
     r \<leftarrow> sys_mkdir E (v_cipher v) MODE_0700;
     if (case r of Inl e \<Rightarrow> e \<noteq> EEXIST | Inr _ \<Rightarrow> False) then return ERR_IO
     else do {
       (err, v) \<leftarrow> (if vtype = VAULT_TYPE_PROTECTED then auth_set_password E v password else return (ERR_OK, v));
       if err \<noteq> ERR_OK then return err
       else commit_vault E v } }"

definition vault_create :: "env \<Rightarrow> string option \<Rightarrow> VaultType \<Rightarrow> string option \<Rightarrow> string option \<Rightarrow> VaultErrorr vio" where
  "vault_create E name_arg vtype path_arg password = do {
     count \<leftarrow> gets (\<lambda>w. length (vaults w));
     if MAX_VAULTS \<le> count then return ERR_CATALOG_FULL
     else do {
       auto \<leftarrow> vault_auto_name;
       let name_buf = (if given name_arg then the (sanitize_arg name_arg) else auto);
       if given name_arg \<and> VAULT_NAME_MAX \<le> length name_buf then return ERR_INVALID_ARGS
       else if validate_name (Some name_buf) \<noteq> ERR_OK then return (validate_name (Some name_buf))
       else do {
         other \<leftarrow> vault_find_by_name name_buf;
         if other \<noteq> None then return ERR_VAULT_EXISTS
         else do {
           base \<leftarrow> gets g_catalog_path;
           let path_buf = (if given path_arg then cbuf VAULT_PATH_MAX (the (sanitize_arg path_arg))
                           else cbuf VAULT_PATH_MAX (base @ ''/'' @ name_buf));
           if given path_arg \<and> validate_path (Some path_buf) \<noteq> ERR_OK then return (validate_path (Some path_buf))
           else if vtype = VAULT_TYPE_PROTECTED \<and> no_password password then return ERR_PASS_REQUIRED
           else do {
             err \<leftarrow> prepare_dir E path_buf;
             if err \<noteq> ERR_OK then return err
             else build_vault E name_buf vtype path_buf password } } } } }"

text \<open>The check that guards the operations on a protected vault.\<close>

definition check_password :: "env \<Rightarrow> nat \<Rightarrow> string option \<Rightarrow> VaultErrorr vio" where
  "check_password E i password = do {
     v \<leftarrow> get_vault i;
     if v_type v = VAULT_TYPE_PROTECTED then
       (if no_password password then return ERR_PASS_REQUIRED else auth_verify_password E i password)
     else return ERR_OK }"

definition remove_nth :: "nat \<Rightarrow> 'a list \<Rightarrow> 'a list" where
  "remove_nth i xs = take i xs @ drop (Suc i) xs"

definition vault_delete :: "env \<Rightarrow> 32 word \<Rightarrow> string option \<Rightarrow> VaultErrorr vio" where
  "vault_delete E vid password = do {
     p \<leftarrow> vault_find_by_id vid;
     case p of
       None \<Rightarrow> return ERR_VAULT_NOT_FOUND
     | Some i \<Rightarrow> do {
         err \<leftarrow> check_password E i password;
         if err \<noteq> ERR_OK then return err
         else do {
           modify (upd_vaults (remove_nth i));
           catalog_save E } } }"

definition vault_rename :: "env \<Rightarrow> 32 word \<Rightarrow> string \<Rightarrow> string option \<Rightarrow> VaultErrorr vio" where
  "vault_rename E vid new_name password = do {
     p \<leftarrow> vault_find_by_id vid;
     case p of
       None \<Rightarrow> return ERR_VAULT_NOT_FOUND
     | Some i \<Rightarrow> do {
         let n = the (sanitize_arg (Some new_name));
         if VAULT_NAME_MAX \<le> length n then return ERR_INVALID_ARGS
         else if validate_name (Some n) \<noteq> ERR_OK then return (validate_name (Some n))
         else do {
           other \<leftarrow> vault_find_by_name n;
           if other \<noteq> None then return ERR_VAULT_EXISTS
           else do {
             err \<leftarrow> check_password E i password;
             if err \<noteq> ERR_OK then return err
             else do {
               mod_vault i (\<lambda>v. v\<lparr>v_name := cbuf VAULT_NAME_MAX n\<rparr>);
               catalog_save E } } } } }"

definition vault_unlock :: "env \<Rightarrow> 32 word \<Rightarrow> string option \<Rightarrow> VaultErrorr vio" where
  "vault_unlock E vid password = do {
     p \<leftarrow> vault_find_by_id vid;
     case p of
       None \<Rightarrow> return ERR_VAULT_NOT_FOUND
     | Some i \<Rightarrow> do {
         v \<leftarrow> get_vault i;
         if v_status v \<noteq> VAULT_STATUS_LOCKED then return ERR_OK
         else if no_password password then return ERR_PASS_REQUIRED
         else do {
           err \<leftarrow> auth_verify_password E i password;
           if err \<noteq> ERR_OK then return err
           else do {
             mod_vault i (\<lambda>v. v\<lparr>v_status := VAULT_STATUS_OK, v_failed := 0\<rparr>);
             catalog_save E } } } }"

text \<open>From the moment the old password is accepted.\<close>

definition replace_password :: "env \<Rightarrow> nat \<Rightarrow> string option \<Rightarrow> string option \<Rightarrow> VaultErrorr vio" where
  "replace_password E i old_pass new_pass = do {
     v \<leftarrow> get_vault i;
     case derive_key_for E old_pass (v_salt v) ''file-encryption'' of
       Inl err \<Rightarrow> return err
     | Inr old_key \<Rightarrow> do {
         rnd \<leftarrow> sys_rand E SALT_LEN;
         case rnd of
           None \<Rightarrow> return ERR_CRYPTO
         | Some new_salt \<Rightarrow> (case derive_key_for E new_pass new_salt ''file-encryption'' of
             Inl err \<Rightarrow> return err
           | Inr new_key \<Rightarrow> do {
               err \<leftarrow> rekey_vault_files E v old_key new_key;
               if err \<noteq> ERR_OK then return err
               else do {
                 mod_vault i (\<lambda>v. v\<lparr>v_salt := new_salt\<rparr>);
                 (case derive_key_for E new_pass new_salt ''auth-verify'' of
                    Inl err \<Rightarrow> return err
                  | Inr key \<Rightarrow> do {
                      mod_vault i (\<lambda>v. v\<lparr>v_pass_hash := key\<rparr>);
                      catalog_save E }) } }) } }"

definition vault_change_password :: "env \<Rightarrow> 32 word \<Rightarrow> string option \<Rightarrow> string option \<Rightarrow> VaultErrorr vio" where
  "vault_change_password E vid old_pass new_pass = do {
     p \<leftarrow> vault_find_by_id vid;
     case p of
       None \<Rightarrow> return ERR_VAULT_NOT_FOUND
     | Some i \<Rightarrow> do {
         v \<leftarrow> get_vault i;
         if \<not> v_has_pass v then return ERR_PASS_REQUIRED
         else do {
           err \<leftarrow> auth_verify_password E i old_pass;
           if err \<noteq> ERR_OK then return err
           else replace_password E i old_pass new_pass } } }"

end
