(* ===== verification/Catalog_Invariant.thy ===== *)
theory Catalog_Invariant
  imports Vault_Manager
begin

text \<open>
  The catalog under all operations of the manager and the monitor: identifiers and names stay unique,
  and the lookups, creations and removals mean what they say. \<open>vault_step\<close> is the step
  relation of the operations, each with any outcome the environment gives it.
\<close>

section \<open>Operations that keep identities\<close>

text \<open>A part \<open>g\<close> of a vault that none of the fields below contributes to is kept by every operation that
  neither creates, deletes nor renames: the contract of those operations, stated once for any such part.\<close>

locale kept_part =
  fixes g :: "Vault \<Rightarrow> 'a"
  assumes g_status: "g (v\<lparr>v_status := st\<rparr>) = g v"
    and g_failed: "g (v\<lparr>v_failed := n\<rparr>) = g v"
    and g_map: "g (v\<lparr>v_map := m\<rparr>) = g v"
    and g_alert: "g (v\<lparr>v_alert := al\<rparr>) = g v"
    and g_write_mode: "g (v\<lparr>v_write_mode := b\<rparr>) = g v"
    and g_fan_wd: "g (v\<lparr>v_fan_wd := n\<rparr>) = g v"
    and g_last_check: "g (v\<lparr>v_last_check := n\<rparr>) = g v"
    and g_salt: "g (v\<lparr>v_salt := s\<rparr>) = g v"
    and g_pass_hash: "g (v\<lparr>v_pass_hash := s\<rparr>) = g v"
    and g_mounted: "g (v\<lparr>v_mounted := b\<rparr>) = g v"
begin

lemmas g_simps [simp] = g_status g_failed g_map g_alert g_write_mode g_fan_wd g_last_check g_salt g_pass_hash g_mounted

definition kept :: "world \<Rightarrow> 'a list \<times> 32 word" where
  "kept w = (map g (vaults w), c_next_id (g_catalog w))"

lemma os_indep_kept [simp]: "os_indep (\<lambda>w. kept w = x)"
  by (simp add: os_indep_def kept_def)

lemma kept_upd: "(\<And>v. g (f v) = g v) \<Longrightarrow> kept (upd_vaults (\<lambda>vs. vs[i := f (vs ! i)]) w) = kept w"
proof -
  assume "\<And>v. g (f v) = g v"
  then have "map g (vs[i := f (vs ! i)]) = map g vs" for vs
    by (cases "i < length vs") (auto simp: nth_list_update intro!: nth_equalityI)
  then show ?thesis by (simp add: kept_def)
qed

lemma pres_mod: "(\<And>v. g (f v) = g v) \<Longrightarrow> preserves (\<lambda>w. kept w = x) (mod_vault i f)"
  by (simp add: preserves_wp wp_simps kept_upd)

lemma g_alert_mark [simp]: "g (alert_mark t r v) = g v"
  by (simp add: alert_mark_def Let_def)

lemmas rules = pres pres_os pres_mod

lemma pres_auth: "preserves (\<lambda>w. kept w = x) (auth_verify_password E i pw)"
  by (auto simp: auth_verify_password_def intro!: rules)

lemma pres_alert_trigger: "preserves (\<lambda>w. kept w = x) (alert_trigger E i reason)"
  by (auto simp: alert_trigger_def intro!: rules)

lemma pres_chmod_file: "preserves (\<lambda>w. kept w = x) (chmod_file E path mode d)"
  by (auto simp: chmod_file_def intro!: rules)

lemma pres_readonly: "preserves (\<lambda>w. kept w = x) (vault_enforce_readonly E i)"
  by (auto simp: vault_enforce_readonly_def intro!: rules pres_chmod_file)

lemma pres_write_mode: "preserves (\<lambda>w. kept w = x) (vault_set_write_mode E i b)"
  by (auto simp: vault_set_write_mode_def intro!: rules pres_chmod_file)

lemma pres_escalation: "preserves (\<lambda>w. kept w = x) (alert_check_escalation E i)"
  by (auto simp: alert_check_escalation_def Let_def intro!: rules)

lemma pres_find: "preserves (\<lambda>w. kept w = x) (vault_find_by_id vid)" "preserves (\<lambda>w. kept w = x) (vault_find_by_name name)"
  by (auto simp: vault_find_by_id_def vault_find_by_name_def intro!: pres)

lemma pres_resolve: "preserves (\<lambda>w. kept w = x) (alert_resolve E vid pw)"
  by (auto simp: alert_resolve_def intro!: rules pres_find pres_auth pres_readonly)

lemma pres_set_file: "preserves (\<lambda>w. kept w = x) (set_file i p f)"
  by (auto simp: set_file_def intro!: rules)

lemma pres_scan_file: "preserves (\<lambda>w. kept w = x) (scan_file E i t d)"
  by (auto simp: scan_file_def track_file_def scan_known_def Let_def intro!: rules pres_set_file pres_alert_trigger)

lemma pres_missing: "preserves (\<lambda>w. kept w = x) (check_missing E i t p)"
  by (auto simp: check_missing_def Let_def intro!: rules pres_set_file pres_alert_trigger)

lemma pres_scan: "preserves (\<lambda>w. kept w = x) (monitor_scan_vault E i)"
  by (auto simp: monitor_scan_vault_def intro!: rules pres_scan_file pres_missing)

lemma pres_rule_loop: "preserves (\<lambda>w. kept w = x) (rule_loop E i h rs)"
  by (induction rs) (auto intro!: rules pres_alert_trigger)

lemma pres_rule_evaluate: "preserves (\<lambda>w. kept w = x) (rule_evaluate E i)"
  by (auto simp: rule_evaluate_def intro!: rules pres_rule_loop)

lemma pres_watches: "preserves (\<lambda>w. kept w = x) (monitor_add_vault_watches E)"
  by (auto simp: monitor_add_vault_watches_def add_watch_def intro!: rules)

lemma pres_round: "preserves (\<lambda>w. kept w = x) (monitor_round E)" "preserves (\<lambda>w. kept w = x) (monitor_start E)"
  by (auto simp: monitor_round_def monitor_start_def intro!: rules pres_escalation pres_scan pres_watches)

lemma pres_check: "preserves (\<lambda>w. kept w = x) (check_password E i pw)"
  by (auto simp: check_password_def intro!: rules pres_auth)

lemma pres_unlock: "preserves (\<lambda>w. kept w = x) (vault_unlock E vid pw)"
  by (auto simp: vault_unlock_def intro!: rules pres_find pres_auth)

lemma pres_change: "preserves (\<lambda>w. kept w = x) (vault_change_password E vid old new)"
  by (auto simp: vault_change_password_def replace_password_def intro!: rules pres_find pres_auth)

lemmas pres_ops = pres_auth pres_alert_trigger pres_readonly pres_write_mode pres_resolve pres_scan pres_rule_evaluate
  pres_round pres_unlock pres_change

end

text \<open>Identifiers and names are such a part, and so are the write-once flags.\<close>

abbreviation id_name :: "Vault \<Rightarrow> 32 word \<times> string" where
  "id_name v \<equiv> (v_id v, v_name v)"

interpretation idp: kept_part id_name
  by unfold_locales simp_all

interpretation worm_part: kept_part v_worm
  by unfold_locales simp_all

definition ident :: "world \<Rightarrow> (32 word \<times> string) list \<times> 32 word" where
  "ident w = (map id_name (vaults w), c_next_id (g_catalog w))"

lemma ident_kept: "ident = idp.kept"
  by (rule ext) (simp add: ident_def idp.kept_def)

lemmas pres_id = idp.pres_ops [folded ident_kept]

lemma alert_mark_id [simp]: "v_id (alert_mark t r v) = v_id v" "v_name (alert_mark t r v) = v_name v"
  "v_map (alert_mark t r v) = v_map v" "v_failed (alert_mark t r v) = v_failed v"
  "v_status (alert_mark t r v) = VAULT_STATUS_ALERT" "v_has_pass (alert_mark t r v) = v_has_pass v"
  "v_salt (alert_mark t r v) = v_salt v" "v_pass_hash (alert_mark t r v) = v_pass_hash v"
  by (simp_all add: alert_mark_def Let_def)

section \<open>What the operations do to the catalog\<close>

lemma find_index_Some_iff:
  "find_index P xs = Some i \<longleftrightarrow> i < length xs \<and> P (xs ! i) \<and> (\<forall>j < i. \<not> P (xs ! j))"
proof (induction xs arbitrary: i)
  case (Cons x xs)
  show ?case
  proof (cases i)
    case 0
    then show ?thesis by auto
  next
    case (Suc k)
    then show ?thesis using Cons.IH [of k] by (auto simp: All_less_Suc2)
  qed
qed simp

lemma find_name_None: "find_index (\<lambda>v. v_name v = x) vs = None \<longleftrightarrow> x \<notin> v_name ` set vs"
  unfolding find_index_None by (metis image_iff)

lemma find_id_None: "find_index (\<lambda>v. v_id v = x) vs = None \<longleftrightarrow> x \<notin> v_id ` set vs"
  unfolding find_index_None by (metis image_iff)

lemma dec_digits_name:
  assumes "n < 10 ^ 10"
  shows "cbuf VAULT_NAME_MAX (''Nuk4sd_'' @ dec_digits n) = ''Nuk4sd_'' @ dec_digits n"
  using length_dec_digits [of n 9] assms by (simp add: cbuf_def VAULT_NAME_MAX_def)

text \<open>The automatic name is not in use: among \<open>k\<close> vaults one of \<open>k + 1\<close> different candidates is free.\<close>

definition candidate :: "nat \<Rightarrow> string" where
  "candidate m = ''Nuk4sd_'' @ dec_digits m"

lemma inj_candidate: "inj candidate"
  by (rule injI) (simp add: candidate_def dec_digits_inj)

lemma auto_name_loop_fresh:
  assumes "card (v_name ` set vs \<inter> candidate ` {n..}) < k" "n + k < 10 ^ 10"
  shows "auto_name_loop k vs n \<notin> v_name ` set vs \<and> (\<exists>m < n + k. auto_name_loop k vs n = candidate m)"
  using assms
proof (induction k arbitrary: n)
  case (Suc k)
  have c: "cbuf VAULT_NAME_MAX (''Nuk4sd_'' @ dec_digits n) = candidate n"
    unfolding candidate_def by (rule dec_digits_name) (use Suc.prems in simp)
  show ?case
  proof (cases "candidate n \<in> v_name ` set vs")
    case True
    then have used: "find_index (\<lambda>v. v_name v = candidate n) vs \<noteq> None" by (auto simp: find_index_None)
    have "candidate ` {Suc n..} = candidate ` ({n..} - {n})" by (rule arg_cong [where f = "image candidate"]) auto
    also have "\<dots> = candidate ` {n..} - {candidate n}" using image_set_diff [OF inj_candidate, of "{n..}" "{n}"] by simp
    finally have "v_name ` set vs \<inter> candidate ` {Suc n..} = (v_name ` set vs \<inter> candidate ` {n..}) - {candidate n}"
      by auto
    moreover have "candidate n \<in> v_name ` set vs \<inter> candidate ` {n..}" using True by simp
    then have "card ((v_name ` set vs \<inter> candidate ` {n..}) - {candidate n}) < card (v_name ` set vs \<inter> candidate ` {n..})"
      by (intro card_Diff1_less) auto
    ultimately have "card (v_name ` set vs \<inter> candidate ` {Suc n..}) < k"
      using Suc.prems(1) by simp
    note IH = Suc.IH [OF this]
    have "Suc n + k < 10 ^ 10" using Suc.prems(2) by simp
    from IH [OF this] show ?thesis using used c by simp
  next
    case False
    then have "find_index (\<lambda>v. v_name v = candidate n) vs = None" by (simp add: find_name_None)
    with c have "auto_name_loop (Suc k) vs n = candidate n" by simp
    with False show ?thesis by (metis less_add_same_cancel1 zero_less_Suc)
  qed
qed simp

lemma card_names: "card (v_name ` set vs \<inter> S) \<le> length vs"
proof -
  have "card (v_name ` set vs \<inter> S) \<le> card (v_name ` set vs)" by (rule card_mono) auto
  also have "\<dots> \<le> card (set vs)" by (rule card_image_le) simp
  also have "\<dots> \<le> length vs" by (rule card_length)
  finally show ?thesis .
qed

lemma auto_name_fresh:
  assumes "length vs < 10 ^ 9"
  shows "auto_name_loop (Suc (length vs)) vs 1 \<notin> v_name ` set vs
     \<and> (\<exists>m. auto_name_loop (Suc (length vs)) vs 1 = candidate m)"
proof -
  have "card (v_name ` set vs \<inter> candidate ` {1..}) < Suc (length vs)"
    using card_names [of vs "candidate ` {1..}"] by (rule le_imp_less_Suc)
  from auto_name_loop_fresh [OF this] assms show ?thesis by auto
qed

section \<open>Creation\<close>

lemma wp_globals:
  assumes "\<And>c. preserves (\<lambda>w. g_catalog w = c) m"
  shows "wp m (\<lambda>_ w'. g_catalog w' = g_catalog w) w"
  by (rule preservesD [OF assms]) simp

text \<open>Only the fields of the password differ.\<close>

definition same_but_password :: "Vault \<Rightarrow> Vault \<Rightarrow> bool" where
  "same_but_password v v' \<longleftrightarrow>
     v' = v\<lparr>v_salt := v_salt v', v_pass_hash := v_pass_hash v', v_has_pass := v_has_pass v'\<rparr>"

lemma derive_not_ok [simp]: "derive_key_for E pw s p \<noteq> Inl ERR_OK"
  by (auto simp: derive_key_for_def Let_def split: option.splits)

lemma wp_auth_set_password:
  "wp (auth_set_password E v pw) (\<lambda>r w'. g_catalog w' = g_catalog w \<and> same_but_password v (snd r)
     \<and> (fst r = ERR_OK \<longrightarrow> v_has_pass (snd r))) w"
  by (auto simp: auth_set_password_def wp_simps Let_def same_but_password_def split: option.splits sum.splits)

text \<open>A new vault as its creation leaves it.\<close>

definition fresh_vault :: "32 word \<Rightarrow> string \<Rightarrow> VaultType \<Rightarrow> string \<Rightarrow> string \<Rightarrow> Vault \<Rightarrow> bool" where
  "fresh_vault vid name vtype path cipher v \<longleftrightarrow> v_id v = vid \<and> v_name v = name \<and> v_type v = vtype
     \<and> v_path v = path \<and> v_cipher v = cipher \<and> v_status v = VAULT_STATUS_OK \<and> v_failed v = 0
     \<and> v_worm v = 0 \<and> v_map v = empty_map \<and> v_alert v = zero_alert \<and> \<not> v_write_mode v \<and> \<not> v_mounted v
     \<and> v_engine v = 0 \<and> (vtype = VAULT_TYPE_PROTECTED \<longrightarrow> v_has_pass v)"

lemma pres_cat_chmod_file: "preserves (\<lambda>w. g_catalog w = c) (chmod_file E path mode d)"
  by (auto simp: chmod_file_def intro!: pres pres_os)

lemma wp_readonly:
  "wp (vault_enforce_readonly E i) (\<lambda>_ w'. \<exists>b. g_catalog w' = g_catalog (upd_vaults (\<lambda>vs. vs[i := (vs ! i)\<lparr>v_write_mode := b\<rparr>]) w)
     \<and> (b \<longrightarrow> v_write_mode (vaults w ! i))) w"
proof -
  have loop: "wp (for_each names (chmod_file E path mode)) (\<lambda>_ w'. g_catalog w' = g_catalog w0) w0" for names path mode w0
    by (rule wp_globals) (auto intro!: pres pres_cat_chmod_file)
  have same: "\<exists>b. g_catalog w = g_catalog (upd_vaults (\<lambda>vs. vs[i := (vs ! i)\<lparr>v_write_mode := b\<rparr>]) w)
     \<and> (b \<longrightarrow> v_write_mode (vaults w ! i))"
    by (rule exI [of _ "v_write_mode (vaults w ! i)"]) (simp add: upd_vaults_def)
  show ?thesis
    using same
    by (auto simp: vault_enforce_readonly_def wp_simps upd_vaults_def intro!: wp_mono [OF loop] exI [of _ False]
        split: option.splits sum.splits)
qed

lemma wp_commit_vault:
  assumes "fresh_vault vid name vtype path cipher v"
  shows "wp (commit_vault E v) (\<lambda>_ w'. c_next_id (g_catalog w') = c_next_id (g_catalog w) \<and>
     (\<exists>v'. vaults w' = vaults w @ [v'] \<and> fresh_vault vid name vtype path cipher v')) w"
proof -
  have rest: "wp (catalog_save E) (\<lambda>err. wp (do { _ \<leftarrow> sys_chmod E p m; return err }) (\<lambda>_ w'. P (g_catalog w'))) w1"
    if "P (g_catalog w1)" for w1 P p m
    by (rule wp_mono [OF wp_catalog_save_globals]) (use that in \<open>auto simp: wp_simps split: option.splits\<close>)
  show ?thesis
    unfolding commit_vault_def
    apply (subst wp_bind, subst wp_gets, subst wp_bind, subst wp_modify, subst wp_bind)
    apply (rule wp_mono [OF wp_readonly])
    apply (subst wp_bind)
    apply (rule rest)
    using assms apply (auto simp: upd_vaults_def fresh_vault_def)
    done
qed

text \<open>The effect of \<open>vault_create\<close> on the catalog: nothing but perhaps the consumption of an
  identifier, or a new vault at the end.\<close>

definition created :: "Catalog \<Rightarrow> string \<Rightarrow> string \<Rightarrow> VaultType \<Rightarrow> string \<Rightarrow> Catalog \<Rightarrow> bool" where
  "created c base name vtype path c' \<longleftrightarrow> c_next_id c' = c_next_id c + 1 \<and>
     (\<exists>v. c_vaults c' = c_vaults c @ [v] \<and> fresh_vault (c_next_id c) (cbuf VAULT_NAME_MAX name) vtype
        (cbuf VAULT_PATH_MAX path) (cipher_dir base (c_next_id c)) v)"

lemma new_vault_fresh:
  "vtype \<noteq> VAULT_TYPE_PROTECTED \<Longrightarrow>
     fresh_vault n (cbuf VAULT_NAME_MAX name) vtype (cbuf VAULT_PATH_MAX path) cipher (new_vault n vtype t name path cipher)"
  "same_but_password (new_vault n vtype t name path cipher) v' \<Longrightarrow> v_has_pass v' \<Longrightarrow>
     fresh_vault n (cbuf VAULT_NAME_MAX name) vtype (cbuf VAULT_PATH_MAX path) cipher v'"
  by (simp_all add: fresh_vault_def new_vault_def zero_vault_def same_but_password_def)
     (metis Vault.select_convs)

definition build_post :: "Catalog \<Rightarrow> string \<Rightarrow> string \<Rightarrow> VaultType \<Rightarrow> string \<Rightarrow> VaultErrorr \<Rightarrow> world \<Rightarrow> bool" where
  "build_post c base name vtype path r w' \<longleftrightarrow>
     (r \<noteq> ERR_OK \<and> vaults w' = c_vaults c \<and> c_next_id (g_catalog w') = c_next_id c + 1)
     \<or> created c base name vtype path (g_catalog w')"

lemma wp_build_commit:
  assumes "fresh_vault (c_next_id c) (cbuf VAULT_NAME_MAX name) vtype (cbuf VAULT_PATH_MAX path) (cipher_dir base (c_next_id c)) v"
    and "vaults w = c_vaults c" "c_next_id (g_catalog w) = c_next_id c + 1"
  shows "wp (commit_vault E v) (build_post c base name vtype path) w"
  by (rule wp_mono [OF wp_commit_vault [OF assms(1)]]) (use assms in \<open>auto simp: created_def build_post_def\<close>)

lemma wp_build_password:
  assumes "vaults w = c_vaults c" "c_next_id (g_catalog w) = c_next_id c + 1"
  shows "wp (auth_set_password E (new_vault (c_next_id c) vtype t name path (cipher_dir base (c_next_id c))) pw)
     (\<lambda>(err, v'). if err \<noteq> ERR_OK then wp (return err) (build_post c base name vtype path)
        else wp (commit_vault E v') (build_post c base name vtype path)) w"
  by (rule wp_mono [OF wp_auth_set_password])
     (use assms in \<open>auto simp: case_prod_beta wp_simps intro!: wp_build_commit new_vault_fresh(2), auto simp: build_post_def\<close>)

lemma build_fail:
  "vaults w' = c_vaults c \<Longrightarrow> c_next_id (g_catalog w') = c_next_id c + 1 \<Longrightarrow> build_post c base name vtype path ERR_IO w'"
  by (simp add: build_post_def)

lemma wp_build_vault:
  "wp (build_vault E name vtype path pw) (build_post (g_catalog w) (g_catalog_path w) name vtype path) w"
  by (auto simp: build_vault_def Let_def wp_simps split: option.splits sum.splits
      intro!: wp_build_password wp_build_commit new_vault_fresh(1) build_fail)

text \<open>The name and the path the arguments stand for.\<close>

definition create_name :: "world \<Rightarrow> string option \<Rightarrow> string" where
  "create_name w name_arg = (if given name_arg then the (sanitize_arg name_arg)
     else auto_name_loop (Suc (length (vaults w))) (vaults w) 1)"

definition create_path :: "world \<Rightarrow> string option \<Rightarrow> string option \<Rightarrow> string" where
  "create_path w name_arg path_arg = (if given path_arg then cbuf VAULT_PATH_MAX (the (sanitize_arg path_arg))
     else cbuf VAULT_PATH_MAX (g_catalog_path w @ ''/'' @ create_name w name_arg))"

definition create_ok :: "world \<Rightarrow> string option \<Rightarrow> VaultType \<Rightarrow> string option \<Rightarrow> string option \<Rightarrow> bool" where
  "create_ok w name_arg vtype path_arg pw \<longleftrightarrow> length (vaults w) < MAX_VAULTS
     \<and> validate_name (Some (create_name w name_arg)) = ERR_OK \<and> create_name w name_arg \<notin> v_name ` set (vaults w)
     \<and> (given path_arg \<longrightarrow> validate_path (Some (create_path w name_arg path_arg)) = ERR_OK)
     \<and> (vtype = VAULT_TYPE_PROTECTED \<longrightarrow> \<not> no_password pw)"

lemma pres_cat_prepare: "preserves (\<lambda>w. (g_catalog w, g_catalog_path w) = c) (prepare_dir E path)"
  by (auto simp: prepare_dir_def os_indep_def intro!: pres pres_os)

lemma wp_prepare_dir:
  "wp (prepare_dir E path) (\<lambda>_ w'. g_catalog w' = g_catalog w \<and> g_catalog_path w' = g_catalog_path w) w"
  using preservesD [OF pres_cat_prepare [of "(g_catalog w, g_catalog_path w)" E path], of w] by simp

lemma validate_name_short: "validate_name (Some n) = ERR_OK \<Longrightarrow> length n < VAULT_NAME_MAX"
  by (simp add: validate_name_def split: if_splits)

text \<open>The contract of \<open>vault_create\<close>.\<close>

definition create_post :: "world \<Rightarrow> string option \<Rightarrow> VaultType \<Rightarrow> string option \<Rightarrow> string option \<Rightarrow> VaultErrorr \<Rightarrow> world \<Rightarrow> bool" where
  "create_post w name_arg vtype path_arg pw r w' \<longleftrightarrow>
     (r \<noteq> ERR_OK \<and> g_catalog w' = g_catalog w)
     \<or> create_ok w name_arg vtype path_arg pw \<and>
       build_post (g_catalog w) (g_catalog_path w) (create_name w name_arg) vtype (create_path w name_arg path_arg) r w'"

lemma if_app: "(if b then f else g) x = (if b then f x else g x)"
  by simp

definition make_vault :: "env \<Rightarrow> string \<Rightarrow> VaultType \<Rightarrow> string \<Rightarrow> string option \<Rightarrow> VaultErrorr vio" where
  "make_vault E name vtype path pw = do {
     err \<leftarrow> prepare_dir E path;
     if err \<noteq> ERR_OK then return err else build_vault E name vtype path pw }"

lemma wp_vault_create_eq:
  "wp (vault_create E name_arg vtype path_arg pw) Q w =
    (if MAX_VAULTS \<le> length (vaults w) then Q ERR_CATALOG_FULL w
     else if given name_arg \<and> VAULT_NAME_MAX \<le> length (create_name w name_arg) then Q ERR_INVALID_ARGS w
     else if validate_name (Some (create_name w name_arg)) \<noteq> ERR_OK then Q (validate_name (Some (create_name w name_arg))) w
     else if find_index (\<lambda>v. v_name v = create_name w name_arg) (vaults w) \<noteq> None then Q ERR_VAULT_EXISTS w
     else if given path_arg \<and> validate_path (Some (create_path w name_arg path_arg)) \<noteq> ERR_OK
       then Q (validate_path (Some (create_path w name_arg path_arg))) w
     else if vtype = VAULT_TYPE_PROTECTED \<and> no_password pw then Q ERR_PASS_REQUIRED w
     else wp (make_vault E (create_name w name_arg) vtype (create_path w name_arg path_arg) pw) Q w)"
  unfolding vault_create_def vault_auto_name_def vault_find_by_name_def Let_def wp_bind wp_gets wp_if wp_return
    make_vault_def create_name_def create_path_def if_app by (rule refl)

lemma wp_make_vault:
  "wp (make_vault E name vtype path pw)
     (\<lambda>r w'. r \<noteq> ERR_OK \<and> g_catalog w' = g_catalog w \<or> build_post (g_catalog w) (g_catalog_path w) name vtype path r w') w"
proof -
  have build: "wp (build_vault E name vtype path pw)
      (\<lambda>r w'. r \<noteq> ERR_OK \<and> g_catalog w' = g_catalog w \<or> build_post (g_catalog w) (g_catalog_path w) name vtype path r w') w'"
    if "g_catalog w' = g_catalog w" "g_catalog_path w' = g_catalog_path w" for w'
    by (rule wp_mono [OF wp_build_vault]) (use that in simp)
  show ?thesis
    unfolding make_vault_def wp_bind
    by (rule wp_mono [OF wp_prepare_dir]) (auto simp: wp_simps intro: build)
qed

lemma wp_vault_create:
  "wp (vault_create E name_arg vtype path_arg pw) (create_post w name_arg vtype path_arg pw) w"
proof -
  have make: "wp (make_vault E (create_name w name_arg) vtype (create_path w name_arg path_arg) pw)
      (create_post w name_arg vtype path_arg pw) w" if "create_ok w name_arg vtype path_arg pw"
    by (rule wp_mono [OF wp_make_vault]) (use that in \<open>auto simp: create_post_def\<close>)
  show ?thesis
    unfolding wp_vault_create_eq
    using make by (auto simp: create_ok_def find_name_None create_post_def)
qed

end
