(* ===== verification/Vault_Steps.thy ===== *)
theory Vault_Steps
  imports Catalog_Invariant
begin

text \<open>
  The manager and the monitor as one transition system: \<open>vault_step E\<close> relates the states before and
  after any operation, whatever its arguments, its result and the faults of the environment. On it the
  invariant of the catalog is an induction over the steps of a run, and the contracts of deletion,
  renaming, unlocking and alerts are lemmas on single steps.
\<close>

section \<open>Deletion and renaming\<close>

lemma wp_check_password:
  assumes "i < length (vaults w)"
  shows "wp (check_password E i pw) (\<lambda>r w'. r = (if v_type (vaults w ! i) = VAULT_TYPE_PROTECTED then
        (if no_password pw then ERR_PASS_REQUIRED else fst (auth_step E pw (vaults w ! i))) else ERR_OK)
      \<and> c_next_id (g_catalog w') = c_next_id (g_catalog w)
      \<and> (vaults w' = vaults w \<or> v_type (vaults w ! i) = VAULT_TYPE_PROTECTED \<and> vaults w' = (vaults w)[i := snd (auth_step E pw (vaults w ! i))])) w"
  using assms
  by (auto simp: check_password_def wp_simps intro!: wp_mono [OF wp_auth_verify])

lemma auth_step_ident [simp]: "v_id (snd (auth_step E pw v)) = v_id v" "v_name (snd (auth_step E pw v)) = v_name v"
  "v_worm (snd (auth_step E pw v)) = v_worm v"
  by (auto simp: auth_step_def split: option.splits sum.splits)

lemma map_remove_nth: "map f (remove_nth i xs) = remove_nth i (map f xs)"
  by (simp add: remove_nth_def take_map drop_map)

lemma set_remove_nth: "set (remove_nth i xs) \<subseteq> set xs"
  using set_take_subset [of i xs] set_drop_subset [of "Suc i" xs] by (auto simp: remove_nth_def)

lemma remove_nth_update [simp]: "remove_nth i (xs[i := x]) = remove_nth i xs"
  by (simp add: remove_nth_def drop_update_cancel)

lemma length_remove_nth: "length (remove_nth i xs) \<le> length xs"
  by (simp add: remove_nth_def)

lemma distinct_remove_nth: "distinct xs \<Longrightarrow> distinct (remove_nth i xs)"
proof -
  assume "distinct xs"
  then have "distinct (take i xs @ drop i xs)" by simp
  then show ?thesis
    unfolding remove_nth_def distinct_append
    using set_drop_subset_set_drop [of i "Suc i" xs] distinct_drop [OF \<open>distinct xs\<close>, of "Suc i"] by auto
qed

lemma in_remove_nth: "distinct xs \<Longrightarrow> i < length xs \<Longrightarrow> set (remove_nth i xs) = set xs - {xs ! i}"
proof -
  assume d: "distinct xs" and i: "i < length xs"
  from i have x: "xs = take i xs @ xs ! i # drop (Suc i) xs" by (simp add: id_take_nth_drop)
  with d have "distinct (take i xs @ xs ! i # drop (Suc i) xs)" by simp
  then have "set (remove_nth i xs) = set (take i xs @ xs ! i # drop (Suc i) xs) - {xs ! i}"
    by (auto simp: remove_nth_def)
  then show ?thesis using x by simp
qed

text \<open>What the holder of the vault must present: nothing for a normal vault, else the password.\<close>

definition authorized :: "env \<Rightarrow> Vault \<Rightarrow> string option \<Rightarrow> VaultErrorr" where
  "authorized E v pw = (if v_type v = VAULT_TYPE_PROTECTED then
     (if no_password pw then ERR_PASS_REQUIRED else fst (auth_step E pw v)) else ERR_OK)"

definition delete_post :: "env \<Rightarrow> world \<Rightarrow> 32 word \<Rightarrow> string option \<Rightarrow> VaultErrorr \<Rightarrow> world \<Rightarrow> bool" where
  "delete_post E w vid pw r w' \<longleftrightarrow> c_next_id (g_catalog w') = c_next_id (g_catalog w) \<and>
    (case find_index (\<lambda>v. v_id v = vid) (vaults w) of
       None \<Rightarrow> r = ERR_VAULT_NOT_FOUND \<and> vaults w' = vaults w
     | Some i \<Rightarrow> if authorized E (vaults w ! i) pw = ERR_OK then vaults w' = remove_nth i (vaults w)
         else r = authorized E (vaults w ! i) pw \<and>
           (\<exists>v. vaults w' = (vaults w)[i := v] \<and> v_id v = vid \<and> v_name v = v_name (vaults w ! i) \<and> v_worm v = v_worm (vaults w ! i)))"

lemma wp_save: "(\<And>r w'. g_catalog w' = g_catalog s \<Longrightarrow> Q r w') \<Longrightarrow> wp (catalog_save E) Q s"
  by (rule wp_mono [OF wp_catalog_save_globals]) simp

lemma update_exists:
  "vs ! i = v0 \<Longrightarrow> P v0 \<Longrightarrow> \<exists>v. vs = vs[i := v] \<and> P v"
  "P v1 \<Longrightarrow> \<exists>v. vs[i := v1] = vs[i := v] \<and> P v"
  by (auto intro: exI [of _ "vs ! i"])

lemma wp_vault_delete: "wp (vault_delete E vid pw) (delete_post E w vid pw) w"
proof (cases "find_index (\<lambda>v. v_id v = vid) (vaults w)")
  case None
  then show ?thesis by (simp add: vault_delete_def vault_find_by_id_def wp_simps delete_post_def)
next
  case (Some i)
  then have i: "i < length (vaults w)" "v_id (vaults w ! i) = vid" by (auto simp: find_index_Some_iff)
  show ?thesis
    unfolding vault_delete_def vault_find_by_id_def wp_bind wp_gets Some option.case
    by (rule wp_mono [OF wp_check_password [OF i(1)]])
       (use Some i in \<open>auto simp: wp_simps delete_post_def authorized_def split: if_splits intro!: wp_save update_exists\<close>)
qed

definition rename_post :: "env \<Rightarrow> world \<Rightarrow> 32 word \<Rightarrow> string \<Rightarrow> string option \<Rightarrow> VaultErrorr \<Rightarrow> world \<Rightarrow> bool" where
  "rename_post E w vid new pw r w' \<longleftrightarrow> c_next_id (g_catalog w') = c_next_id (g_catalog w) \<and>
    (case find_index (\<lambda>v. v_id v = vid) (vaults w) of
       None \<Rightarrow> r = ERR_VAULT_NOT_FOUND \<and> vaults w' = vaults w
     | Some i \<Rightarrow> let n = the (sanitize_arg (Some new)) in
         if validate_name (Some n) = ERR_OK \<and> n \<notin> v_name ` set (vaults w) \<and> authorized E (vaults w ! i) pw = ERR_OK
         then \<exists>v. vaults w' = (vaults w)[i := v] \<and> v_id v = vid \<and> v_name v = n \<and> v_worm v = v_worm (vaults w ! i)
         else r \<noteq> ERR_OK \<and> (\<exists>v. vaults w' = (vaults w)[i := v] \<and> v_id v = vid \<and> v_name v = v_name (vaults w ! i) \<and> v_worm v = v_worm (vaults w ! i)))"

lemma cbuf_name: "validate_name (Some n) = ERR_OK \<Longrightarrow> cbuf VAULT_NAME_MAX n = n"
  using validate_name_short [of n] by (simp add: cbuf_def)

lemma wp_vault_rename: "wp (vault_rename E vid new pw) (rename_post E w vid new pw) w"
proof (cases "find_index (\<lambda>v. v_id v = vid) (vaults w)")
  case None
  then show ?thesis by (simp add: vault_rename_def vault_find_by_id_def wp_simps rename_post_def)
next
  case (Some i)
  then have i: "i < length (vaults w)" "v_id (vaults w ! i) = vid" by (auto simp: find_index_Some_iff)
  let ?n = "the (sanitize_arg (Some new))"
  have same: "rename_post E w vid new pw r w" if "r \<noteq> ERR_OK" "validate_name (Some ?n) \<noteq> ERR_OK \<or> ?n \<in> v_name ` set (vaults w)" for r
    using that Some i by (auto simp: rename_post_def Let_def intro!: update_exists)
  have go: "wp (do { err \<leftarrow> check_password E i pw; if err \<noteq> ERR_OK then return err
      else do { mod_vault i (\<lambda>v. v\<lparr>v_name := cbuf VAULT_NAME_MAX ?n\<rparr>); catalog_save E } }) (rename_post E w vid new pw) w"
    if "validate_name (Some ?n) = ERR_OK" "?n \<notin> v_name ` set (vaults w)"
    unfolding wp_bind
    by (rule wp_mono [OF wp_check_password [OF i(1)]])
       (use that Some i in \<open>auto simp: wp_simps rename_post_def Let_def authorized_def cbuf_name split: if_splits intro!: wp_save update_exists\<close>)
  show ?thesis
    unfolding vault_rename_def vault_find_by_id_def vault_find_by_name_def Let_def wp_bind wp_gets Some option.case
    using go same validate_name_short [of ?n] by (auto simp: wp_if wp_return wp_bind wp_gets find_name_None simp del: not_None_eq)
qed

section \<open>The transition system\<close>

inductive vault_step :: "env \<Rightarrow> world \<Rightarrow> world \<Rightarrow> bool" for E where
  create: "run_state (vault_create E name_arg vtype path_arg pw) w = (r, w') \<Longrightarrow> vault_step E w w'"
| delete: "run_state (vault_delete E vid pw) w = (r, w') \<Longrightarrow> vault_step E w w'"
| rename: "run_state (vault_rename E vid new pw) w = (r, w') \<Longrightarrow> vault_step E w w'"
| unlock: "run_state (vault_unlock E vid pw) w = (r, w') \<Longrightarrow> vault_step E w w'"
| change: "run_state (vault_change_password E vid old new) w = (r, w') \<Longrightarrow> vault_step E w w'"
| auth: "run_state (auth_verify_password E i pw) w = (r, w') \<Longrightarrow> vault_step E w w'"
| resolve: "run_state (alert_resolve E vid pw) w = (r, w') \<Longrightarrow> vault_step E w w'"
| trigger: "run_state (alert_trigger E i reason) w = (r, w') \<Longrightarrow> vault_step E w w'"
| scan: "run_state (monitor_scan_vault E i) w = (r, w') \<Longrightarrow> vault_step E w w'"
| rules: "run_state (rule_evaluate E i) w = (r, w') \<Longrightarrow> vault_step E w w'"
| readonly: "run_state (vault_enforce_readonly E i) w = (r, w') \<Longrightarrow> vault_step E w w'"
| write_mode: "run_state (vault_set_write_mode E i b) w = (r, w') \<Longrightarrow> vault_step E w w'"
| monitor_init: "run_state (monitor_start E) w = (r, w') \<Longrightarrow> vault_step E w w'"
| monitor: "run_state (monitor_round E) w = (r, w') \<Longrightarrow> vault_step E w w'"

inductive_cases vault_stepE: "vault_step E w w'"

text \<open>The invariant of the catalog: identifiers and names are unique, no identifier is at or above the
  next one, every name passes the validation, and the array bound is kept.\<close>

definition catalog_inv :: "world \<Rightarrow> bool" where
  "catalog_inv w \<longleftrightarrow> distinct (map v_id (vaults w)) \<and> distinct (map v_name (vaults w))
     \<and> (\<forall>v \<in> set (vaults w). v_id v < c_next_id (g_catalog w) \<and> validate_name (Some (v_name v)) = ERR_OK)
     \<and> length (vaults w) \<le> MAX_VAULTS"

text \<open>The same on the identities.\<close>

definition ident_inv :: "(32 word \<times> string) list \<times> 32 word \<Rightarrow> bool" where
  "ident_inv x \<longleftrightarrow> distinct (map fst (fst x)) \<and> distinct (map snd (fst x))
     \<and> (\<forall>p \<in> set (fst x). fst p < snd x \<and> validate_name (Some (snd p)) = ERR_OK) \<and> length (fst x) \<le> MAX_VAULTS"

lemma catalog_inv_ident: "catalog_inv w \<longleftrightarrow> ident_inv (ident w)"
  by (simp add: catalog_inv_def ident_inv_def ident_def comp_def)

lemma ident_update:
  "v_id v = v_id (vs ! i) \<Longrightarrow> v_name v = v_name (vs ! i) \<Longrightarrow>
   map (\<lambda>v. (v_id v, v_name v)) (vs[i := v]) = map (\<lambda>v. (v_id v, v_name v)) vs"
  by (cases "i < length vs") (auto simp: nth_list_update intro!: nth_equalityI)

text \<open>The three ways an operation changes the identities.\<close>

datatype change = Keep | Use_Id | Add string | Remove nat | Relabel nat string

fun apply_change :: "change \<Rightarrow> (32 word \<times> string) list \<times> 32 word \<Rightarrow> (32 word \<times> string) list \<times> 32 word" where
  "apply_change Keep x = x"
| "apply_change Use_Id (ids, n) = (ids, n + 1)"
| "apply_change (Add name) (ids, n) = (ids @ [(n, name)], n + 1)"
| "apply_change (Remove i) (ids, n) = (remove_nth i ids, n)"
| "apply_change (Relabel i name) (ids, n) = (ids[i := (fst (ids ! i), name)], n)"

fun change_ok :: "change \<Rightarrow> (32 word \<times> string) list \<times> 32 word \<Rightarrow> bool" where
  "change_ok (Add name) x \<longleftrightarrow> validate_name (Some name) = ERR_OK \<and> name \<notin> snd ` set (fst x) \<and> length (fst x) < MAX_VAULTS"
| "change_ok (Relabel i name) x \<longleftrightarrow> i < length (fst x) \<and> validate_name (Some name) = ERR_OK \<and> name \<notin> snd ` set (fst x)"
| "change_ok c x \<longleftrightarrow> True"

lemma word_less_Suc: "unat (n :: 32 word) < 4294967295 \<Longrightarrow> m < n \<Longrightarrow> m < n + 1"
  by (simp add: word_less_nat_alt unat_plus_if')

lemma word_less_self: "unat (n :: 32 word) < 4294967295 \<Longrightarrow> n < n + 1"
  by (simp add: word_less_nat_alt unat_plus_if')

lemma change_inv:
  assumes "ident_inv x" "change_ok c x" "unat (snd x) < 4294967295"
  shows "ident_inv (apply_change c x)"
proof (cases c)
  case (Remove i)
  then show ?thesis
    using assms(1) length_remove_nth [of i "fst x"]
    by (cases x) (auto simp: ident_inv_def distinct_remove_nth map_remove_nth dest: set_remove_nth [THEN subsetD])
next
  case (Relabel i name)
  have "map fst ((fst x)[i := (fst (fst x ! i), name)]) = map fst (fst x)"
    by (cases "i < length (fst x)") (auto simp: nth_list_update intro!: nth_equalityI)
  with Relabel assms(1,2) show ?thesis
    by (cases x) (auto simp: ident_inv_def map_update distinct_list_update dest!: set_update_subset_insert [THEN subsetD])
qed (use assms in \<open>cases x; auto simp: ident_inv_def word_less_Suc word_less_self\<close>)+

definition changes :: "world \<Rightarrow> world \<Rightarrow> bool" where
  "changes w w' \<longleftrightarrow> (\<exists>c. change_ok c (ident w) \<and> ident w' = apply_change c (ident w))"

lemma changes_keep: "ident w' = ident w \<Longrightarrow> changes w w'"
  by (auto simp: changes_def intro!: exI [of _ Keep])

lemma changes_create: "create_post w name_arg vtype path_arg pw r w' \<Longrightarrow> changes w w'"
proof -
  assume post: "create_post w name_arg vtype path_arg pw r w'"
  let ?name = "create_name w name_arg"
  consider "g_catalog w' = g_catalog w"
    | "vaults w' = vaults w" "c_next_id (g_catalog w') = c_next_id (g_catalog w) + 1"
    | v where "create_ok w name_arg vtype path_arg pw" "vaults w' = vaults w @ [v]" "v_id v = c_next_id (g_catalog w)"
        "v_name v = cbuf VAULT_NAME_MAX ?name" "c_next_id (g_catalog w') = c_next_id (g_catalog w) + 1"
    using post by (auto simp: create_post_def build_post_def created_def fresh_vault_def)
  then show ?thesis
  proof cases
    case 1
    then show ?thesis by (simp add: changes_keep ident_def)
  next
    case 2
    then show ?thesis by (auto simp: changes_def ident_def intro!: exI [of _ Use_Id])
  next
    case 3
    then show ?thesis
      by (auto simp: changes_def ident_def create_ok_def cbuf_name image_image intro!: exI [of _ "Add ?name"])
  qed
qed

lemma changes_delete: "delete_post E w vid pw r w' \<Longrightarrow> changes w w'"
proof -
  assume post: "delete_post E w vid pw r w'"
  show ?thesis
  proof (cases "vaults w' = vaults w")
    case True
    with post show ?thesis by (auto simp: delete_post_def ident_def intro!: changes_keep)
  next
    case False
    with post obtain i where i: "find_index (\<lambda>v. v_id v = vid) (vaults w) = Some i"
      by (auto simp: delete_post_def split: option.splits)
    then have "v_id (vaults w ! i) = vid" by (simp add: find_index_Some_iff)
    with post i consider "vaults w' = remove_nth i (vaults w)" | v where "vaults w' = (vaults w)[i := v]" "v_id v = v_id (vaults w ! i)" "v_name v = v_name (vaults w ! i)"
      by (auto simp: delete_post_def split: if_splits)
    then show ?thesis
      using post by cases (auto simp: delete_post_def changes_def ident_def map_remove_nth ident_update intro: exI [of _ "Remove i"] exI [of _ Keep])
  qed
qed

lemma changes_rename: "rename_post E w vid new pw r w' \<Longrightarrow> changes w w'"
proof -
  assume post: "rename_post E w vid new pw r w'"
  let ?n = "the (sanitize_arg (Some new))"
  show ?thesis
  proof (cases "find_index (\<lambda>v. v_id v = vid) (vaults w)")
    case None
    with post show ?thesis by (auto simp: rename_post_def ident_def intro!: changes_keep)
  next
    case (Some i)
    then have i: "i < length (vaults w)" "v_id (vaults w ! i) = vid" by (simp_all add: find_index_Some_iff)
    from post Some consider v where "validate_name (Some ?n) = ERR_OK" "?n \<notin> v_name ` set (vaults w)" "vaults w' = (vaults w)[i := v]" "v_id v = vid" "v_name v = ?n"
      | v where "vaults w' = (vaults w)[i := v]" "v_id v = vid" "v_name v = v_name (vaults w ! i)"
      by (auto simp: rename_post_def Let_def split: if_splits)
    then show ?thesis
    proof cases
      case 1
      then show ?thesis
        using post i by (auto simp: rename_post_def changes_def ident_def map_update image_image intro!: exI [of _ "Relabel i ?n"])
    next
      case 2
      then show ?thesis using post i by (auto simp: rename_post_def ident_def ident_update intro!: changes_keep)
    qed
  qed
qed

lemma changes_pres:
  assumes "\<And>x. preserves (\<lambda>w. ident w = x) m" and "run_state m w = (r, w')"
  shows "changes w w'"
  by (rule changes_keep, rule preserves_run [OF assms]) simp

lemma step_changes: "vault_step E w w' \<Longrightarrow> changes w w'"
  by (erule vault_stepE)
     (erule changes_create [OF wpD [OF wp_vault_create]] changes_delete [OF wpD [OF wp_vault_delete]]
        changes_rename [OF wpD [OF wp_vault_rename]] changes_pres [rotated], (rule pres_id)?)+

lemma changes_inv:
  "changes w w' \<Longrightarrow> catalog_inv w \<Longrightarrow> unat (c_next_id (g_catalog w)) < 4294967295 \<Longrightarrow> catalog_inv w'"
  by (auto simp: changes_def catalog_inv_ident ident_def intro!: change_inv)

lemma changes_next:
  "changes w w' \<Longrightarrow> unat (c_next_id (g_catalog w)) < 4294967295 \<Longrightarrow>
   unat (c_next_id (g_catalog w')) \<le> Suc (unat (c_next_id (g_catalog w)))"
proof -
  assume "changes w w'" and b: "unat (c_next_id (g_catalog w)) < 4294967295"
  then obtain c where c: "change_ok c (ident w)" "ident w' = apply_change c (ident w)" by (auto simp: changes_def)
  have "snd (ident w') = snd (ident w) \<or> snd (ident w') = snd (ident w) + 1"
    using c by (cases c; cases "ident w") auto
  with b show ?thesis by (auto simp: ident_def unat_plus_if')
qed

text \<open>C2: the catalog invariant: in every run of manager and monitor operations, with any arguments and
  any pattern of faults, vault identifiers and names stay unique, names stay valid and the vault array
  stays within its bound, as long as the 32-bit identifier counter does not wrap.\<close>
theorem catalog_invariant:
  assumes "catalog_inv w" and "(vault_step E ^^ n) w w'" and "unat (c_next_id (g_catalog w)) + n < 2 ^ 32"
  shows "catalog_inv w'"
proof -
  have "catalog_inv w' \<and> unat (c_next_id (g_catalog w')) \<le> unat (c_next_id (g_catalog w)) + n"
    using assms(2,3)
  proof (induction n arbitrary: w')
    case (Suc n)
    then obtain u where u: "(vault_step E ^^ n) w u" "vault_step E u w'" by auto
    with Suc have "catalog_inv u" "unat (c_next_id (g_catalog u)) \<le> unat (c_next_id (g_catalog w)) + n" by simp_all
    then show ?case
      using changes_inv [OF step_changes [OF u(2)]] changes_next [OF step_changes [OF u(2)]] Suc.prems(2) by simp
  qed (use assms(1) in simp)
  then show ?thesis ..
qed

section \<open>A locked vault\<close>

text \<open>The operations a holder of the right password could try.\<close>

definition manager_ops :: "env \<Rightarrow> 32 word \<Rightarrow> string option \<Rightarrow> string option \<Rightarrow> string \<Rightarrow> VaultErrorr vio list" where
  "manager_ops E vid pw pw' name = [vault_unlock E vid pw, vault_change_password E vid pw pw', vault_delete E vid pw,
     vault_rename E vid name pw, alert_resolve E vid pw]"

lemma auth_step_locked: "v_has_pass v \<Longrightarrow> v_status v = VAULT_STATUS_LOCKED \<Longrightarrow>
   auth_step E pw v = (if pw = None then ERR_INVALID_ARGS else ERR_VAULT_LOCKED, v)"
  by (simp add: auth_step_def split: option.splits)

lemma list_update_same: "i < length vs \<Longrightarrow> c\<lparr>c_vaults := (c_vaults c)[i := c_vaults c ! i]\<rparr> = c"
  by simp

lemma wp_auth_locked:
  assumes "i < length (vaults w)" "v_has_pass (vaults w ! i)" "v_status (vaults w ! i) = VAULT_STATUS_LOCKED"
  shows "wp (auth_verify_password E i pw) (\<lambda>r w'. r \<noteq> ERR_OK \<and> g_catalog w' = g_catalog w) w"
  by (rule wp_mono [OF wp_auth_verify [OF assms(1)]]) (use assms in \<open>auto simp: auth_step_locked\<close>)

text \<open>a locked vault stays locked: no operation offered to its owner, not even \<open>vault_unlock\<close>
  with the right password, returns success or changes anything of the catalog, because each asks
  \<open>auth_verify_password\<close> first, which refuses a locked vault before it looks at the password.\<close>
theorem locked_vault_cannot_be_unlocked:
  assumes "find_index (\<lambda>v. v_id v = vid) (vaults w) = Some i"
    and "v_type (vaults w ! i) = VAULT_TYPE_PROTECTED" and "v_has_pass (vaults w ! i)"
    and "v_status (vaults w ! i) = VAULT_STATUS_LOCKED" and "m \<in> set (manager_ops E vid pw pw' name)"
  shows "wp m (\<lambda>r w'. r \<noteq> ERR_OK \<and> g_catalog w' = g_catalog w) w"
proof -
  have i: "i < length (vaults w)" using assms(1) by (simp add: find_index_Some_iff)
  show ?thesis
    using assms(5) unfolding manager_ops_def
    by (auto simp: vault_unlock_def vault_change_password_def vault_delete_def vault_rename_def alert_resolve_def
        vault_find_by_id_def vault_find_by_name_def wp_bind wp_gets wp_get_vault wp_if wp_return wp_let Let_def assms(1-4) wp_case_option
        check_password_def intro!: wp_mono [OF wp_auth_locked [OF i assms(3,4)]])
qed

text \<open>an alert lifts the lock: \<open>alert_trigger\<close> writes \<open>VAULT_STATUS_ALERT\<close> over \<open>VAULT_STATUS_LOCKED\<close>,
  and the next attempt is compared with the stored hash again, however many have failed before.\<close>
theorem alert_lifts_lockout:
  assumes "i < length (vaults w)" and "v_has_pass (vaults w ! i)" and "v_status (vaults w ! i) = VAULT_STATUS_LOCKED"
    and "derive_key_for E (Some pw) (v_salt (vaults w ! i)) ''auth-verify'' = Inr key"
  shows "wp (do { alert_trigger E i reason; auth_verify_password E i (Some pw) })
     (\<lambda>r w'. r = (if key = v_pass_hash (vaults w ! i) then ERR_OK else ERR_AUTH_FAIL)) w"
  using assms
  by (auto simp: alert_trigger_def wp_simps auth_step_def key_matches_def intro!: wp_save wp_mono [OF wp_auth_verify])

section \<open>Contracts\<close>

lemma cbuf_cbuf [simp]: "cbuf n (cbuf n s) = cbuf n s"
  by (simp add: cbuf_def)

lemma map_update_same: "(map f vs)[i := f (vs ! i)] = map f vs"
  by (metis list_update_id map_update)

text \<open>C11: the contract of \<open>vault_create\<close>. Success means that the checks passed and exactly one vault was
  appended: unlocked, unmounted, with an empty file table, under the next identifier, with the
  sanitised or generated name. A failure leaves the vaults alone, except that the new vault stays in
  memory when only the final save failed. When the checks fail, nothing of the catalog changes.\<close>
theorem vault_create_contract:
  "wp (vault_create E name_arg vtype path_arg pw)
     (\<lambda>r w'. if create_ok w name_arg vtype path_arg pw
        then (r \<noteq> ERR_OK \<and> vaults w' = vaults w)
          \<or> (\<exists>v. vaults w' = vaults w @ [v] \<and> c_next_id (g_catalog w') = c_next_id (g_catalog w) + 1
              \<and> fresh_vault (c_next_id (g_catalog w)) (create_name w name_arg) vtype (create_path w name_arg path_arg)
                  (cipher_dir (g_catalog_path w) (c_next_id (g_catalog w))) v)
        else r \<noteq> ERR_OK \<and> g_catalog w' = g_catalog w) w"
proof (rule wp_mono [OF wp_vault_create])
  have "cbuf VAULT_PATH_MAX (create_path w name_arg path_arg) = create_path w name_arg path_arg"
    by (simp add: create_path_def)
  then show "create_post w name_arg vtype path_arg pw r w' \<Longrightarrow> if create_ok w name_arg vtype path_arg pw
        then (r \<noteq> ERR_OK \<and> vaults w' = vaults w)
          \<or> (\<exists>v. vaults w' = vaults w @ [v] \<and> c_next_id (g_catalog w') = c_next_id (g_catalog w) + 1
              \<and> fresh_vault (c_next_id (g_catalog w)) (create_name w name_arg) vtype (create_path w name_arg path_arg)
                  (cipher_dir (g_catalog_path w) (c_next_id (g_catalog w))) v)
        else r \<noteq> ERR_OK \<and> g_catalog w' = g_catalog w" for r w'
    by (auto simp: create_post_def build_post_def created_def create_ok_def cbuf_name)
qed

text \<open>C12: deletion removes exactly the vault that was asked for, and only for a caller with its password:
  afterwards the identifier is not found and every other vault is still there, unchanged and in order;
  a refused caller leaves every vault in place.\<close>
theorem vault_delete_contract:
  assumes "catalog_inv w" and "find_index (\<lambda>v. v_id v = vid) (vaults w) = Some i"
  shows "wp (vault_delete E vid pw)
     (\<lambda>r w'. if authorized E (vaults w ! i) pw = ERR_OK
        then vaults w' = take i (vaults w) @ drop (Suc i) (vaults w) \<and> vid \<notin> v_id ` set (vaults w')
        else r = authorized E (vaults w ! i) pw \<and> map v_id (vaults w') = map v_id (vaults w)) w"
proof -
  have i: "i < length (vaults w)" "v_id (vaults w ! i) = vid" using assms(2) by (simp_all add: find_index_Some_iff)
  have "distinct (map v_id (vaults w))" using assms(1) by (simp add: catalog_inv_def)
  then have "v_id ` set (remove_nth i (vaults w)) = v_id ` set (vaults w) - {vid}"
    using in_remove_nth [of "map v_id (vaults w)" i] i by (simp flip: map_remove_nth)
  then show ?thesis
    using i assms(2)
    by (intro wp_mono [OF wp_vault_delete]) (auto simp: delete_post_def remove_nth_def map_update map_update_same split: if_splits)
qed

section \<open>Examples\<close>

lemma ex_catalog_inv: "catalog_inv ex_world"
proof -
  have "validate_name (Some ''docs'') = ERR_OK" by code_simp
  then show ?thesis by (simp add: catalog_inv_def MAX_VAULTS_def)
qed

lemma catalog_invariant_witness: "catalog_inv (snd (run_state (vault_create ex_env (Some ''work'') VAULT_TYPE_NORMAL None None) ex_world))"
proof -
  obtain r w' where run: "run_state (vault_create ex_env (Some ''work'') VAULT_TYPE_NORMAL None None) ex_world = (r, w')" by fastforce
  then have "(vault_step ex_env ^^ 1) ex_world w'" by (auto intro: vault_step.create)
  from catalog_invariant [OF ex_catalog_inv this] run show ?thesis by simp
qed

text \<open>A protected vault that is locked.\<close>

definition locked_world :: world where
  "locked_world = upd_vaults (map (\<lambda>v. v\<lparr>v_type := VAULT_TYPE_PROTECTED, v_has_pass := True, v_status := VAULT_STATUS_LOCKED,
     v_failed := 3, v_pass_hash := pad 32 ''secret-pw''\<rparr>)) ex_world"

lemma locked_vault_cannot_be_unlocked_witness:
  "wp (vault_unlock ex_env 1 (Some ''secret-pw'')) (\<lambda>r w'. r \<noteq> ERR_OK \<and> g_catalog w' = g_catalog locked_world) locked_world
   \<and> derive_key_for ex_env (Some ''secret-pw'') (v_salt (vaults locked_world ! 0)) ''auth-verify'' = Inr (v_pass_hash (vaults locked_world ! 0))"
  using locked_vault_cannot_be_unlocked [of 1 locked_world 0 "vault_unlock ex_env 1 (Some ''secret-pw'')" ex_env "Some ''secret-pw''" None "[]"]
  by (simp add: locked_world_def manager_ops_def derive_key_for_def ex_env_def KEY_LEN_def pad_def)

lemma alert_lifts_lockout_witness:
  "wp (do { alert_trigger ex_env 0 ''File modified: a''; auth_verify_password ex_env 0 (Some ''secret-pw'') }) (\<lambda>r w'. r = ERR_OK) locked_world"
  using alert_lifts_lockout [of 0 locked_world ex_env "''secret-pw''" "pad 32 ''secret-pw''" "''File modified: a''"]
  by (simp add: locked_world_def derive_key_for_def ex_env_def KEY_LEN_def pad_def)

lemma vault_delete_contract_witness:
  "wp (vault_delete ex_env 1 None) (\<lambda>r w'. vaults w' = []) ex_world"
  using vault_delete_contract [OF ex_catalog_inv, of 1 0 ex_env None]
  by (auto simp: authorized_def ex_vault_def zero_vault_def elim!: wp_mono)

end
