(* ===== verification/Integrity_Scan.thy ===== *)
theory Integrity_Scan
  imports Vault_Steps
begin

text \<open>
  What the integrity scan of \<^verbatim>\<open>vault_monitor.c\<close> reports, exactly: on a directory without links, read by
  the superuser without faults, it raises an alert if and only if a tracked file has changed or is
  missing since the last scan and this was not reported before; every regular file is tracked with its
  current hash afterwards. The saves in between only touch the catalog file and its temporary file.
\<close>

section \<open>What a save does to the file system\<close>

definition save_frame :: "string \<Rightarrow> (string \<Rightarrow> inode option) \<Rightarrow> world \<Rightarrow> bool" where
  "save_frame file g w \<longleftrightarrow> g_catalog_file w = file \<and> not_link (o_fs w) (tmp_of file) \<and> keeps {file, tmp_of file} g w"

lemma fs_open_w_type:
  "fs_open E p W_FLAGS m f = (Inr q, g) \<Longrightarrow> not_link f p \<Longrightarrow> q = p \<and> (\<exists>n. fs_get g p = Some n \<and> i_type n = S_IFREG)"
  by (auto simp: fs_open_def open_target_def resolve_not_link not_link_def split: option.splits if_splits intro: ftype.exhaust)

lemma fs_chmod_other:
  "not_link f p \<Longrightarrow> q \<noteq> p \<Longrightarrow> fs_get (snd (fs_chmod E p m f)) q = fs_get f q"
  by (auto simp: fs_chmod_def resolve_not_link split: option.splits)

lemma fs_rename_reg:
  assumes "fs_get f a = Some n" "i_type n = S_IFREG" "a \<noteq> b"
  shows "fst (fs_rename E a b f) = Inr () \<Longrightarrow> snd (fs_rename E a b f) = fs_put b n (fs_del a f)"
    and "fst (fs_rename E a b f) = Inl e \<Longrightarrow> snd (fs_rename E a b f) = f"
  using assms by (auto simp: fs_rename_def move_node_def split: option.splits if_splits)

lemma save_frame_fs: "save_frame file g w \<Longrightarrow> not_link f (tmp_of file) \<Longrightarrow> (\<And>q. q \<noteq> file \<Longrightarrow> q \<noteq> tmp_of file \<Longrightarrow> fs_get f q = fs_get (o_fs w) q)
   \<Longrightarrow> save_frame file g (w\<lparr>o_tick := t, o_fs := f\<rparr>)"
  by (auto simp: save_frame_def keeps_def)

lemma save_frame_tick [simp]: "save_frame file g (w\<lparr>o_tick := t\<rparr>) = save_frame file g w"
  by (simp add: save_frame_def)

text \<open>From the renaming on.\<close>

lemma wp_save_tail:
  assumes "save_frame file g w" "fs_get (o_fs w) (tmp_of file) = Some n" "i_type n = S_IFREG" "file \<noteq> tmp_of file"
  shows "wp (do { r \<leftarrow> sys_rename E (tmp_of file) file;
       case r of Inl _ \<Rightarrow> do { _ \<leftarrow> sys_unlink E (tmp_of file); return ERR_IO }
       | Inr _ \<Rightarrow> do { _ \<leftarrow> sys_chmod E file MODE_0600; return ERR_OK } }) (\<lambda>_. save_frame file g) w"
proof -
  let ?tmp = "tmp_of file"
  have u: "not_link (snd (fs_unlink E ?tmp f)) ?tmp" if "not_link f ?tmp" for f
    using that by (auto simp: fs_unlink_def not_link_def split: option.splits)
  have put: "not_link (snd (fs_chmod E file m (fs_put file n (fs_del ?tmp f)))) ?tmp
      \<and> (q \<noteq> file \<longrightarrow> q \<noteq> ?tmp \<longrightarrow> fs_get (snd (fs_chmod E file m (fs_put file n (fs_del ?tmp f)))) q = fs_get f q)" for f m q
  proof -
    have "not_link (fs_put file n (fs_del ?tmp f)) file" using assms(3) by (simp add: not_link_def)
    from fs_chmod_other [OF this] show ?thesis using assms(4) by (simp add: not_link_def)
  qed
  have put0: "not_link (fs_put file n (fs_del ?tmp f)) ?tmp" for f using assms(4) by (simp add: not_link_def)
  show ?thesis
    using assms(1,4) fs_rename_reg [OF assms(2,3) assms(4) [symmetric], of E] u put put0
    by (auto simp: wp_simps fs_unlink_other save_frame_def keeps_def split: option.splits sum.splits)
qed

lemma pres_save_frame:
  assumes "length file < 508"
  shows "preserves (save_frame file g) (catalog_save E)"
proof (rule preservesI)
  fix w assume frame: "save_frame file g w"
  let ?tmp = "tmp_of file"
  have neq: "file \<noteq> ?tmp" using tmp_of_neq [OF assms] by simp
  have nl: "not_link (o_fs w) ?tmp" and gf: "g_catalog_file w = file" using frame by (simp_all add: save_frame_def)
  obtain r f where o: "fs_open E ?tmp W_FLAGS MODE_0666 (o_fs w) = (r, f)" by fastforce
  show "wp (catalog_save E) (\<lambda>_. save_frame file g) w"
  proof (cases r)
    case (Inl e)
    then have "f = o_fs w" using o nl by (auto simp: fs_open_def open_target_def resolve_not_link split: option.splits if_splits)
    then show ?thesis
      using frame gf o Inl nl by (auto simp: catalog_save_def tmp_of_def [symmetric] wp_simps Let_def save_frame_def keeps_def split: option.splits)
  next
    case (Inr q)
    from fs_open_w_type [OF o [unfolded Inr] nl] obtain n where n: "q = ?tmp" "fs_get f ?tmp = Some n" "i_type n = S_IFREG" by blast
    have tail: "wp (do { r \<leftarrow> sys_rename E ?tmp file;
       case r of Inl _ \<Rightarrow> do { _ \<leftarrow> sys_unlink E ?tmp; return ERR_IO }
       | Inr _ \<Rightarrow> do { _ \<leftarrow> sys_chmod E file MODE_0600; return ERR_OK } }) (\<lambda>_. save_frame file g)
        (w\<lparr>o_tick := t, o_fs := fold (fs_append ?tmp) bs f\<rparr>)" for t bs
    proof (rule wp_save_tail [OF _ _ _ neq, where n = "n\<lparr>i_data := i_data n @ concat bs\<rparr>"])
      show "save_frame file g (w\<lparr>o_tick := t, o_fs := fold (fs_append ?tmp) bs f\<rparr>)"
        by (rule save_frame_fs [OF frame])
           (use n fs_open_w_other [OF o nl] in \<open>auto simp: not_link_def fold_fs_append_same fold_fs_append_other\<close>)
    qed (use n in \<open>simp_all add: fold_fs_append_same\<close>)
    have "wp (write_chunks E ?tmp (catalog_chunks (g_catalog w)))
      (\<lambda>_. wp (do { r \<leftarrow> sys_rename E ?tmp file;
         case r of Inl _ \<Rightarrow> do { _ \<leftarrow> sys_unlink E ?tmp; return ERR_IO }
         | Inr _ \<Rightarrow> do { _ \<leftarrow> sys_chmod E file MODE_0600; return ERR_OK } }) (\<lambda>_. save_frame file g))
      (w\<lparr>o_tick := Suc (o_tick w), o_fs := f\<rparr>)"
      by (rule wp_mono [OF write_chunks_any]) (use tail in auto)
    then show ?thesis
      using frame gf o Inr n(1)
      by (simp add: catalog_save_def tmp_of_def [symmetric] wp_bind wp_gets wp_syscall wp_return wp_let wp_if Let_def
          split: option.splits)
  qed
qed

section \<open>One tracked entry\<close>

text \<open>The state between the steps of a scan: vault \<open>i\<close> at \<open>path\<close>, with file table \<open>L\<close> and status \<open>st\<close>,
  over the files \<open>g\<close>.\<close>

definition scanning :: "string \<Rightarrow> (string \<Rightarrow> inode option) \<Rightarrow> nat \<Rightarrow> string \<Rightarrow> (string \<Rightarrow> FileEntry option) \<Rightarrow> VaultStatus \<Rightarrow> world \<Rightarrow> bool" where
  "scanning file g i path L st w \<longleftrightarrow> save_frame file g w \<and> i < length (vaults w) \<and> v_path (vaults w ! i) = path
     \<and> hm_inv (v_map (vaults w ! i)) \<and> hm_lookup (v_map (vaults w ! i)) = L \<and> v_status (vaults w ! i) = st"

text \<open>Where the entries are: neither an assignment nor an alert moves them.\<close>

definition placed :: "nat \<Rightarrow> (string \<Rightarrow> entry_ptr option) \<Rightarrow> world \<Rightarrow> bool" where
  "placed i F w \<longleftrightarrow> hashmap_find (v_map (vaults w ! i)) = F"

lemma scanning_tick [simp]: "scanning file g i path L st (w\<lparr>o_tick := t\<rparr>) = scanning file g i path L st w"
  by (simp add: scanning_def)

lemma placed_tick [simp]: "placed i F (w\<lparr>o_tick := t\<rparr>) = placed i F w"
  by (simp add: placed_def)

lemma find_index_names:
  "map fe_name xs = map fe_name ys \<Longrightarrow> find_index (\<lambda>e. fe_name e = d) xs = find_index (\<lambda>e. fe_name e = d) ys"
  by (induction xs arbitrary: ys) auto

lemma hashmap_find_set_entry:
  assumes "\<And>x. fe_name (f x) = fe_name x"
  shows "hashmap_find (set_entry p f m) d = hashmap_find m d"
proof -
  have upd: "map fe_name (es[j := f (es ! j)]) = map fe_name es" for es j
    by (metis assms map_update map_update_same)
  have "map fe_name (hm_buckets (set_entry p f m) ! b) = map fe_name (hm_buckets m ! b)" for b
    by (cases "fst p = b"; cases "b < length (hm_buckets m)") (auto simp: set_entry_def entry_at_def upd linorder_not_less list_update_beyond)
  from find_index_names [OF this] show ?thesis by (simp add: hashmap_find_def Let_def)
qed

lemma entry_at_lookup: "hashmap_find m d = Some p \<Longrightarrow> hm_lookup m d = Some (entry_at m p)"
  by (simp add: hm_lookup_def)

lemma save_frame_upd [simp]: "save_frame file g (upd_vaults h w) = save_frame file g w"
  by (simp add: save_frame_def keeps_def)

lemma wp_set_file:
  assumes "scanning file g i path L st w" "placed i F w" "F d = Some p" "\<And>x. fe_name (f x) = fe_name x"
  shows "wp (set_file i p f) (\<lambda>_ w'. scanning file g i path (L(d := map_option f (L d))) st w' \<and> placed i F w') w"
proof -
  have len: "length (hm_buckets (v_map (vaults w ! i))) = HASHMAP_BUCKETS" using assms(1) by (simp add: scanning_def hm_inv_def)
  show ?thesis
    using assms set_entry_inv [of "v_map (vaults w ! i)" d p f] hm_lookup_set_entry [OF _ assms(4) len, of d p]
    by (auto simp: set_file_def wp_simps scanning_def placed_def hashmap_find_set_entry)
qed

lemma wp_alert:
  assumes "scanning file g i path L st w" "placed i F w" "length file < 508"
  shows "wp (alert_trigger E i reason) (\<lambda>_ w'. scanning file g i path L VAULT_STATUS_ALERT w' \<and> placed i F w') w"
proof -
  have path: "v_path (alert_mark t r v) = v_path v" for t r v by (simp add: alert_mark_def Let_def)
  have save: "wp (catalog_save E) (\<lambda>_ w'. scanning file g i path L VAULT_STATUS_ALERT w' \<and> placed i F w') w'"
    if "scanning file g i path L VAULT_STATUS_ALERT w'" "placed i F w'" for w'
    by (rule wp_mono [OF wp_conj [OF wp_catalog_save_globals preservesD [OF pres_save_frame [OF assms(3)]]]])
       (use that in \<open>auto simp: scanning_def placed_def\<close>)
  show ?thesis
    unfolding alert_trigger_def wp_bind wp_return wp_sys_time wp_mod_vault
    by (rule save) (use assms in \<open>simp_all add: scanning_def placed_def path\<close>)
qed

text \<open>A new entry.\<close>

lemma hashmap_insert_new:
  assumes "hm_inv m" "hm_lookup m d = None" "str_ok (NAME_MAX + 1) d"
  shows "\<exists>m' p. hashmap_insert True m d = (m', Some p) \<and> hm_inv m' \<and> hashmap_find m' d = Some p
     \<and> hm_lookup m' = (hm_lookup m)(d \<mapsto> calloc_entry\<lparr>fe_name := d\<rparr>)"
proof -
  let ?e = "calloc_entry\<lparr>fe_name := d\<rparr>"
  have none: "hashmap_find m d = None" using assms(2) by (simp add: hm_lookup_Some_bucket)
  have len: "length (hm_buckets m) = HASHMAP_BUCKETS" using assms(1) by (simp add: hm_inv_def)
  have "hashmap_insert True m d = (hm_put m d ?e, Some (hashmap_bucket d, 0))"
    using none assms(3) hm_put_new [OF none _ assms(3) len, of ?e] by (simp add: hashmap_insert_def Let_def)
  moreover have "hashmap_find (hm_put m d ?e) d = Some (hashmap_bucket d, 0)"
    using hm_put_new [OF none _ assms(3) len, of ?e] len by (simp add: hashmap_find_def Let_def)
  ultimately show ?thesis
    using ft.invar_put [OF assms(1) _ assms(3), of ?e] ft.lookup_put [OF assms(1) _ assms(3), of ?e] by auto
qed

section \<open>Scanning one file\<close>

lemma read_loop_no_err:
  "reliable E \<Longrightarrow> wp (read_loop E p blk f s) (\<lambda>r _. case r of Inl _ \<Rightarrow> True | Inr x \<Rightarrow> \<not> snd x) w"
  unfolding read_loop_def wp_bind wp_gets by (rule while_read_no_err)

lemma take_min_drop: "take (min (length c - off) n) (drop off c) = take n (drop off c)"
  by (simp add: min_def)

lemma wp_read_all:
  assumes "reliable E" "0 < blk"
  shows "wp (read_loop E p blk (\<lambda>off b acc. return (Inr (acc @ b) :: VaultErrorr + string)) [])
     (\<lambda>r w'. r = Inr (fs_content (o_fs w) p, False) \<and> (\<exists>t. w' = w\<lparr>o_tick := t\<rparr>)) (w :: world)"
proof -
  let ?c = "fs_content (o_fs w) p"
  let ?I = "\<lambda>n acc w'. acc = take n ?c \<and> (\<exists>t. w' = w\<lparr>o_tick := t\<rparr>)"
  have same: "\<exists>t. w = w\<lparr>o_tick := t\<rparr>" by (rule exI [of _ "o_tick w"]) simp
  have "wp (read_loop E p blk (\<lambda>off b acc. return (Inr (acc @ b) :: VaultErrorr + string)) [])
     (\<lambda>r w'. case r of Inl e \<Rightarrow> False | Inr (s', err) \<Rightarrow> \<exists>n \<le> length ?c. ?I n s' w' \<and> (\<not> err \<longrightarrow> n = length ?c)) w"
    by (rule read_loop_rule [where I = ?I and c = ?c])
       (use assms same in \<open>auto simp: wp_simps take_add take_min_drop\<close>)
  from wp_conj [OF this read_loop_no_err [OF assms(1)]] show ?thesis
    by (rule wp_mono) (auto split: sum.splits)
qed

definition digest :: "env \<Rightarrow> string \<Rightarrow> string" where
  "digest E c = hex_of (pad 32 (e_sha256 E c))"

lemma wp_sha256_root:
  assumes "reliable E" "e_euid E = 0" "file_at (o_fs w) p"
  shows "wp (sha256_file E p) (\<lambda>r w'. r = Inr (digest E (fs_content (o_fs w) p)) \<and> (\<exists>t. w' = w\<lparr>o_tick := t\<rparr>)) w"
  using assms
  by (auto simp: sha256_file_def wp_simps open_r_root digest_def intro!: wp_mono [OF wp_read_all])

text \<open>The effect of a scan on the entry of a file with hash \<open>h\<close>, and whether it is reported.\<close>

definition scan_entry :: "string \<Rightarrow> int \<Rightarrow> string \<Rightarrow> FileEntry option \<Rightarrow> FileEntry" where
  "scan_entry h now d old = (case old of
     None \<Rightarrow> \<lparr>fe_name = d, fe_hash = h, fe_last_seen = now, fe_modified = False\<rparr>
   | Some e \<Rightarrow> e\<lparr>fe_hash := h, fe_last_seen := now, fe_modified := (fe_hash e \<noteq> h)\<rparr>)"

definition changed :: "string \<Rightarrow> FileEntry option \<Rightarrow> bool" where
  "changed h old \<longleftrightarrow> (case old of None \<Rightarrow> False | Some e \<Rightarrow> fe_hash e \<noteq> h \<and> \<not> fe_modified e)"

definition scanned :: "(string \<Rightarrow> inode option) \<Rightarrow> string \<Rightarrow> string \<Rightarrow> bool" where
  "scanned g path d \<longleftrightarrow> \<not> hidden d \<and> (case g (path @ ''/'' @ d) of None \<Rightarrow> False | Some n \<Rightarrow> i_type n = S_IFREG)"

definition file_hash :: "env \<Rightarrow> (string \<Rightarrow> inode option) \<Rightarrow> string \<Rightarrow> string \<Rightarrow> string" where
  "file_hash E g path d = digest E (case g (path @ ''/'' @ d) of None \<Rightarrow> [] | Some n \<Rightarrow> i_data n)"

text \<open>A directory of plain names without links, apart from the catalog.\<close>

definition plain_name :: "string \<Rightarrow> (string \<Rightarrow> inode option) \<Rightarrow> string \<Rightarrow> string \<Rightarrow> bool" where
  "plain_name file g path d \<longleftrightarrow> str_ok (NAME_MAX + 1) d \<and> CHR ''/'' \<notin> set d \<and> length (path @ ''/'' @ d) < SCAN_BUF
     \<and> path @ ''/'' @ d \<noteq> file \<and> path @ ''/'' @ d \<noteq> tmp_of file
     \<and> (case g (path @ ''/'' @ d) of None \<Rightarrow> True | Some n \<Rightarrow> i_type n \<noteq> S_IFLNK)"

definition plain_dir :: "string \<Rightarrow> (string \<Rightarrow> inode option) \<Rightarrow> string \<Rightarrow> bool" where
  "plain_dir file g path \<longleftrightarrow> path \<noteq> [] \<and> path \<noteq> file \<and> path \<noteq> tmp_of file
     \<and> (case g path of None \<Rightarrow> False | Some n \<Rightarrow> i_type n = S_IFDIR)"

lemma parent_of_child: "path \<noteq> [] \<Longrightarrow> CHR ''/'' \<notin> set d \<Longrightarrow> parent_dir (path @ ''/'' @ d) = path"
proof -
  assume "path \<noteq> []" "CHR ''/'' \<notin> set d"
  then have "dropWhile (\<lambda>c. c \<noteq> CHR ''/'') (rev (path @ ''/'' @ d)) = CHR ''/'' # rev path"
    by (simp add: dropWhile_append)
  with \<open>path \<noteq> []\<close> show ?thesis by (simp add: parent_dir_def split: list.splits)
qed

lemma scan_target:
  assumes "save_frame file g w" "plain_dir file g path" "plain_name file g path d"
  shows "fs_get (o_fs w) (path @ ''/'' @ d) = g (path @ ''/'' @ d)" "dir_at (o_fs w) path"
    "parent_dir (path @ ''/'' @ d) = path" "not_link (o_fs w) (path @ ''/'' @ d)" "cbuf SCAN_BUF (path @ ''/'' @ d) = path @ ''/'' @ d"
  using assms by (auto simp: save_frame_def keeps_def plain_dir_def plain_name_def dir_at_def parent_of_child [simplified] not_link_def cbuf_def split: option.splits)

lemma wp_stat_root:
  assumes "reliable E" "e_euid E = 0" "not_link (o_fs w) p" "dir_at (o_fs w) (parent_dir p)"
  shows "wp (sys_stat E p) (\<lambda>r w'. r = (case fs_get (o_fs w) p of None \<Rightarrow> Inl ENOENT | Some n \<Rightarrow> Inr n) \<and> (\<exists>t. w' = w\<lparr>o_tick := t\<rparr>)) w"
  using assms dir_at_search [OF assms(4,2)]
  by (auto simp: wp_simps fs_stat_def fs_lstat_def resolve_not_link split: option.splits intro: ex_os_state)

text \<open>The steps on one entry, in the form in which they chain.\<close>

definition at_entry :: "string \<Rightarrow> (string \<Rightarrow> inode option) \<Rightarrow> nat \<Rightarrow> string \<Rightarrow> (string \<Rightarrow> entry_ptr option)
    \<Rightarrow> (string \<Rightarrow> FileEntry option) \<Rightarrow> VaultStatus \<Rightarrow> world \<Rightarrow> bool" where
  "at_entry file g i path F L st w \<longleftrightarrow> scanning file g i path L st w \<and> placed i F w"

lemma set_file_chain:
  assumes "at_entry file g i path F L st w" "F d = Some p" "\<And>x. fe_name (f x) = fe_name x"
    and "\<And>w'. at_entry file g i path F (L(d := map_option f (L d))) st w' \<Longrightarrow> Q () w'"
  shows "wp (set_file i p f) Q w"
  by (rule wp_mono [OF wp_set_file [where d = d and p = p and f = f and F = F]]) (use assms in \<open>auto simp: at_entry_def\<close>)

lemma alert_chain:
  assumes "at_entry file g i path F L st w" "length file < 508"
    and "\<And>w'. at_entry file g i path F L VAULT_STATUS_ALERT w' \<Longrightarrow> Q () w'"
  shows "wp (alert_trigger E i reason) Q w"
  by (rule wp_mono [OF wp_alert [where F = F]]) (use assms in \<open>auto simp: at_entry_def\<close>)

lemma at_entryD: "at_entry file g i path F L st w \<Longrightarrow> F d = Some p \<Longrightarrow> L d = Some (entry_at (v_map (vaults w ! i)) p)"
  by (auto simp: at_entry_def scanning_def placed_def entry_at_lookup)

lemma wp_scan_known:
  assumes "at_entry file g i path F L st w" "L d = Some e" "length file < 508" "F d = Some p"
  shows "wp (scan_known E i now d h p e) (\<lambda>_. at_entry file g i path F (L(d \<mapsto> scan_entry h now d (L d)))
     (if changed h (L d) then VAULT_STATUS_ALERT else st)) w"
proof -
  consider "fe_hash e \<noteq> h" "\<not> fe_modified e" | "fe_hash e \<noteq> h" "fe_modified e" | "fe_hash e = h" by blast
  then show ?thesis
  proof cases
    case 1
    show ?thesis
      unfolding scan_known_def wp_bind
      using 1 assms(2)
      apply (simp add: wp_simps scan_entry_def changed_def)
      apply (rule set_file_chain [OF assms(1,4)], simp)
      apply (rule alert_chain [OF _ assms(3)], assumption)
      apply (rule set_file_chain [where d = d and F = F, OF _ assms(4)], assumption, simp)
      apply (rule set_file_chain [where d = d and F = F, OF _ assms(4)], assumption, simp)
      apply (cases e, simp)
      done
  next
    case 2
    show ?thesis
      unfolding scan_known_def wp_bind
      using 2 assms(2)
      apply (simp add: wp_simps scan_entry_def changed_def)
      apply (rule set_file_chain [OF assms(1,4)], simp)
      apply (rule set_file_chain [where d = d and F = F, OF _ assms(4)], assumption, simp)
      apply (cases e, simp)
      done
  next
    case 3
    show ?thesis
      unfolding scan_known_def wp_bind
      using 3 assms(2)
      apply (simp add: wp_simps scan_entry_def changed_def)
      apply (rule set_file_chain [OF assms(1,4)], simp)
      apply (rule set_file_chain [where d = d and F = F, OF _ assms(4)], assumption, simp)
      apply (cases e, simp)
      done
  qed
qed

lemma wp_track_file:
  assumes "reliable E" "length file < 508" "str_ok (NAME_MAX + 1) d" and at: "scanning file g i path L st w"
  shows "wp (track_file E i now d h) (\<lambda>_. scanning file g i path (L(d \<mapsto> scan_entry h now d (L d)))
     (if changed h (L d) then VAULT_STATUS_ALERT else st)) w"
proof (cases "L d")
  case (Some e)
  then obtain p where p: "hashmap_find (v_map (vaults w ! i)) d = Some p"
    using at by (auto simp: scanning_def hm_lookup_def)
  let ?F = "hashmap_find (v_map (vaults w ! i))"
  have entry: "at_entry file g i path ?F L st w" using at by (simp add: at_entry_def placed_def)
  show ?thesis
    unfolding track_file_def wp_bind wp_get_vault p option.case
    by (rule wp_mono [OF wp_scan_known [OF entry at_entryD [OF entry p] assms(2) p]]) (simp add: at_entry_def)
next
  case None
  have inv: "hm_inv (v_map (vaults w ! i))" "hm_lookup (v_map (vaults w ! i)) d = None"
    using at None by (auto simp: scanning_def)
  from hashmap_insert_new [OF inv assms(3)] at obtain m p where m: "hashmap_insert True (v_map (vaults w ! i)) d = (m, Some p)"
    "hm_inv m" "hashmap_find m d = Some p" "hm_lookup m = L(d \<mapsto> calloc_entry\<lparr>fe_name := d\<rparr>)"
    by (auto simp: scanning_def)
  have none: "hashmap_find (v_map (vaults w ! i)) d = None" using inv(2) by (simp add: hm_lookup_Some_bucket)
  have entry: "at_entry file g i path (hashmap_find m) (L(d \<mapsto> calloc_entry\<lparr>fe_name := d\<rparr>)) st (upd_vaults (\<lambda>vs. vs[i := (vs ! i)\<lparr>v_map := m\<rparr>]) (w\<lparr>o_tick := t\<rparr>))" for t
    using at m by (auto simp: at_entry_def scanning_def placed_def)
  show ?thesis
    unfolding track_file_def wp_bind wp_get_vault none option.case wp_alloc_ok eqTrueI [OF reliableD(3) [OF assms(1)]] m(1) prod.case wp_mod_vault
    by (rule set_file_chain [OF entry m(3)]) (use None in \<open>simp_all add: at_entry_def scan_entry_def changed_def calloc_entry_def\<close>)
qed

lemma wp_scan_file:
  assumes "reliable E" "e_euid E = 0" "length file < 508" "plain_dir file g path" "\<not> hidden d \<Longrightarrow> plain_name file g path d"
    and "scanning file g i path L st w"
  shows "wp (scan_file E i now d) (\<lambda>_. scanning file g i path
      (if scanned g path d then L(d \<mapsto> scan_entry (file_hash E g path d) now d (L d)) else L)
      (if scanned g path d \<and> changed (file_hash E g path d) (L d) then VAULT_STATUS_ALERT else st)) w"
    (is "wp _ ?Q w")
proof (cases "hidden d")
  case True
  then show ?thesis using assms(6) by (simp add: scan_file_def wp_simps scanned_def)
next
  case False
  let ?p = "path @ ''/'' @ d"
  have plain: "plain_name file g path d" using assms(5) False by simp
  have frame: "save_frame file g w" and path: "v_path (vaults w ! i) = path" using assms(6) by (simp_all add: scanning_def)
  note target = scan_target [OF frame assms(4) plain]
  note stat = wp_stat_root [OF assms(1,2) target(4), unfolded target(3), OF target(2), unfolded target(1)]
  have name: "str_ok (NAME_MAX + 1) d" using plain by (simp add: plain_name_def)
  have body: "scan_file E i now d = do {
       v \<leftarrow> get_vault i;
       st \<leftarrow> sys_stat E (cbuf SCAN_BUF (v_path v @ ''/'' @ d));
       if (case st of Inl _ \<Rightarrow> True | Inr n \<Rightarrow> i_type n \<noteq> S_IFREG) then return ()
       else do {
         h \<leftarrow> sha256_file E (cbuf SCAN_BUF (v_path v @ ''/'' @ d));
         case h of Inl _ \<Rightarrow> return () | Inr new_hash \<Rightarrow> track_file E i now d new_hash } }"
    using False by (simp only: scan_file_def Let_def if_False)
  have hash: "wp (sha256_file E ?p) (\<lambda>h. wp (case h of Inl _ \<Rightarrow> return () | Inr new_hash \<Rightarrow> track_file E i now d new_hash) ?Q) (w\<lparr>o_tick := t\<rparr>)"
    if "g ?p = Some n" "i_type n = S_IFREG" for n t
  proof -
    have "file_at (o_fs (w\<lparr>o_tick := t\<rparr>)) ?p" using that target by (simp add: file_at_def)
    moreover have "scanned g path d" using that False by (simp add: scanned_def)
    moreover have "digest E (fs_content (o_fs w) ?p) = file_hash E g path d" using that target by (simp add: fs_content_def file_hash_def)
    ultimately show ?thesis
      using wp_track_file [OF assms(1,3) name, of g i path L st _ now "file_hash E g path d"] assms(6)
      by (intro wp_mono [OF wp_sha256_root [OF assms(1,2)]]) auto
  qed
  show ?thesis
    unfolding body wp_bind wp_get_vault path target(5)
    by (rule wp_mono [OF stat]) (use hash assms(6) in \<open>auto simp: wp_if wp_return wp_bind scanned_def split: option.splits\<close>)
qed

section \<open>The whole scan\<close>

lemma wp_scan_loop:
  assumes "reliable E" "e_euid E = 0" "length file < 508" "plain_dir file g path"
    and "\<And>d. d \<in> set xs \<Longrightarrow> \<not> hidden d \<Longrightarrow> plain_name file g path d" "distinct xs" "scanning file g i path L st w"
  shows "wp (for_each xs (scan_file E i now)) (\<lambda>_. scanning file g i path
      (\<lambda>d. if d \<in> set xs \<and> scanned g path d then Some (scan_entry (file_hash E g path d) now d (L d)) else L d)
      (if \<exists>d \<in> set xs. scanned g path d \<and> changed (file_hash E g path d) (L d) then VAULT_STATUS_ALERT else st)) w"
  using assms(5-)
proof (induction xs arbitrary: L st w)
  case Nil
  then show ?case by (simp add: wp_simps)
next
  case (Cons x xs)
  let ?L = "if scanned g path x then L(x \<mapsto> scan_entry (file_hash E g path x) now x (L x)) else L"
  let ?st = "if scanned g path x \<and> changed (file_hash E g path x) (L x) then VAULT_STATUS_ALERT else st"
  have L: "(\<lambda>d. if d \<in> set xs \<and> scanned g path d then Some (scan_entry (file_hash E g path d) now d (?L d)) else ?L d)
    = (\<lambda>d. if d \<in> set (x # xs) \<and> scanned g path d then Some (scan_entry (file_hash E g path d) now d (L d)) else L d)"
    using Cons.prems(2) by auto
  have st: "(if \<exists>d \<in> set xs. scanned g path d \<and> changed (file_hash E g path d) (?L d) then VAULT_STATUS_ALERT else ?st)
    = (if \<exists>d \<in> set (x # xs). scanned g path d \<and> changed (file_hash E g path d) (L d) then VAULT_STATUS_ALERT else st)"
    using Cons.prems(2) by (auto cong: bex_cong split: if_splits)
  have "wp (for_each xs (scan_file E i now)) (\<lambda>_. scanning file g i path
      (\<lambda>d. if d \<in> set (x # xs) \<and> scanned g path d then Some (scan_entry (file_hash E g path d) now d (L d)) else L d)
      (if \<exists>d \<in> set (x # xs). scanned g path d \<and> changed (file_hash E g path d) (L d) then VAULT_STATUS_ALERT else st)) w'"
    if "scanning file g i path ?L ?st w'" for w'
    using Cons.IH [OF _ _ that] Cons.prems(1,2) unfolding L st by simp
  then show ?case
    unfolding for_each.simps wp_bind
    by (intro wp_mono [OF wp_scan_file [OF assms(1-4) Cons.prems(1) Cons.prems(3)]]) auto
qed

definition missing :: "int \<Rightarrow> FileEntry option \<Rightarrow> bool" where
  "missing now old \<longleftrightarrow> (case old of None \<Rightarrow> False | Some e \<Rightarrow> fe_last_seen e < now \<and> \<not> fe_modified e)"

definition mark_missing :: "int \<Rightarrow> FileEntry option \<Rightarrow> FileEntry option" where
  "mark_missing now old = (if missing now old then map_option (\<lambda>e. e\<lparr>fe_modified := True\<rparr>) old else old)"

lemma wp_check_missing:
  assumes "at_entry file g i path F L st w" "length file < 508" "F d = Some p"
  shows "wp (check_missing E i now p) (\<lambda>_. at_entry file g i path F (L(d := mark_missing now (L d)))
     (if missing now (L d) then VAULT_STATUS_ALERT else st)) w"
proof (cases "missing now (L d)")
  case True
  then show ?thesis
    unfolding check_missing_def wp_bind wp_get_vault wp_let Let_def wp_if
    using at_entryD [OF assms(1,3)]
    apply (simp add: missing_def wp_bind)
    apply (rule set_file_chain [OF assms(1,3)], simp)
    apply (rule alert_chain [OF _ assms(2)], assumption)
    apply (simp add: mark_missing_def missing_def)
    done
next
  case False
  then show ?thesis
    unfolding check_missing_def wp_bind wp_get_vault wp_let Let_def wp_if
    using at_entryD [OF assms(1,3)] assms(1) by (auto simp: missing_def mark_missing_def wp_return fun_upd_idem)
qed

lemma wp_missing_loop:
  assumes "length file < 508" "list_all2 (\<lambda>d p. F d = Some p) ds ps" "distinct ds" "at_entry file g i path F L st w"
  shows "wp (for_each ps (check_missing E i now)) (\<lambda>_. scanning file g i path
     (\<lambda>d. if d \<in> set ds then mark_missing now (L d) else L d)
     (if \<exists>d \<in> set ds. missing now (L d) then VAULT_STATUS_ALERT else st)) w"
  using assms(2-)
proof (induction ds ps arbitrary: L st w rule: list_all2_induct)
  case Nil
  then show ?case by (simp add: wp_simps at_entry_def)
next
  case (Cons d ds p ps)
  let ?L = "L(d := mark_missing now (L d))" and ?st = "if missing now (L d) then VAULT_STATUS_ALERT else st"
  have L: "(\<lambda>x. if x \<in> set ds then mark_missing now (?L x) else ?L x)
    = (\<lambda>x. if x \<in> set (d # ds) then mark_missing now (L x) else L x)"
    using Cons.prems(1) by auto
  have st: "(if \<exists>x \<in> set ds. missing now (?L x) then VAULT_STATUS_ALERT else ?st)
    = (if \<exists>x \<in> set (d # ds). missing now (L x) then VAULT_STATUS_ALERT else st)"
    using Cons.prems(1) by (auto cong: bex_cong)
  have "wp (for_each ps (check_missing E i now)) (\<lambda>_. scanning file g i path
     (\<lambda>x. if x \<in> set (d # ds) then mark_missing now (L x) else L x)
     (if \<exists>x \<in> set (d # ds). missing now (L x) then VAULT_STATUS_ALERT else st)) w'"
    if "at_entry file g i path F ?L ?st w'" for w'
    using Cons.IH [OF _ that] Cons.prems(1) unfolding L st by simp
  then show ?case
    unfolding for_each.simps wp_bind
    by (intro wp_mono [OF wp_check_missing [OF Cons.prems(2) assms(1) Cons.hyps(1)]]) auto
qed

text \<open>The loop over the table visits every entry once.\<close>

lemma set_positions: "(b, j) \<in> set (positions m) \<longleftrightarrow> b < HASHMAP_BUCKETS \<and> j < length (hm_buckets m ! b)"
  by (simp add: positions_def image_iff)

lemma distinct_positions: "distinct (positions m)"
proof -
  have "distinct (concat (map (\<lambda>b. map (Pair b) [0..<len b]) bs))" if "distinct bs" for bs :: "nat list" and len
    using that by (induction bs) (auto simp: distinct_map inj_on_def)
  then show ?thesis by (simp add: positions_def)
qed

lemma find_index_distinct:
  "distinct (map f xs) \<Longrightarrow> j < length xs \<Longrightarrow> find_index (\<lambda>x. f x = f (xs ! j)) xs = Some j"
proof (induction xs arbitrary: j)
  case (Cons x xs)
  then show ?case by (cases j) (auto simp: nth_mem image_iff)
qed simp

lemma positions_find:
  assumes "hm_inv m" "p \<in> set (positions m)"
  shows "hashmap_find m (fe_name (entry_at m p)) = Some p"
proof -
  obtain b j where p: "p = (b, j)" by fastforce
  then have b: "b < HASHMAP_BUCKETS" and j: "j < length (hm_buckets m ! b)" using assms(2) by (auto simp: set_positions)
  have ok: "bucket_ok b (hm_buckets m ! b)" using hm_inv_bucket [OF assms(1) b] .
  then have "hashmap_bucket (fe_name (hm_buckets m ! b ! j)) = b" using j by (simp add: bucket_ok_def)
  with ok j p show ?thesis
    using find_index_distinct [of fe_name "hm_buckets m ! b" j] by (simp add: hashmap_find_def Let_def entry_at_def bucket_ok_def)
qed

lemma find_positions: "hashmap_find m d = Some p \<Longrightarrow> p \<in> set (positions m) \<and> fe_name (entry_at m p) = d"
  by (cases p) (auto simp: hashmap_find_def Let_def set_positions entry_at_def find_index_Some_iff)

lemma wp_missing_all:
  assumes "length file < 508" "scanning file g i path L st w"
  shows "wp (for_each (positions (v_map (vaults w ! i))) (check_missing E i now)) (\<lambda>_. scanning file g i path
     (\<lambda>d. mark_missing now (L d)) (if \<exists>d. missing now (L d) then VAULT_STATUS_ALERT else st)) w"
proof -
  let ?m = "v_map (vaults w ! i)"
  let ?ds = "map (\<lambda>p. fe_name (entry_at ?m p)) (positions ?m)"
  have inv: "hm_inv ?m" and L: "hm_lookup ?m = L" using assms(2) by (simp_all add: scanning_def)
  have find: "p \<in> set (positions ?m) \<Longrightarrow> hashmap_find ?m (fe_name (entry_at ?m p)) = Some p" for p
    by (rule positions_find [OF inv])
  have all: "list_all2 (\<lambda>d p. hashmap_find ?m d = Some p) ?ds (positions ?m)"
    using find by (simp add: list.rel_map list_all2_same)
  have "inj_on (\<lambda>p. fe_name (entry_at ?m p)) (set (positions ?m))"
    by (rule inj_onI) (metis find option.inject)
  then have dist: "distinct ?ds" by (simp add: distinct_map distinct_positions)
  have dom: "d \<in> set ?ds" if "L d = Some e" for d e
    using that find_positions [of ?m d] unfolding L [symmetric] hm_lookup_def by auto
  have "(\<lambda>d. if d \<in> set ?ds then mark_missing now (L d) else L d) = (\<lambda>d. mark_missing now (L d))"
    using dom by (auto simp: mark_missing_def missing_def split: option.splits)
  moreover have "missing now (L d) \<Longrightarrow> d \<in> set ?ds" for d
    using dom by (cases "L d") (auto simp: missing_def)
  then have "(\<exists>d \<in> set ?ds. missing now (L d)) \<longleftrightarrow> (\<exists>d. missing now (L d))" by blast
  moreover have "at_entry file g i path (hashmap_find ?m) L st w" using assms(2) by (simp add: at_entry_def placed_def)
  ultimately show ?thesis
    using wp_missing_loop [OF assms(1) all dist, of g i path L st w E now] by simp
qed

definition listing :: "fs \<Rightarrow> string \<Rightarrow> string list" where
  "listing f path = ''.'' # ''..'' # child_names f path"

lemma wp_opendir_root:
  assumes "reliable E" "e_euid E = 0" "not_link (o_fs w) path" "dir_at (o_fs w) path" "dir_at (o_fs w) (parent_dir path)"
  shows "wp (sys_opendir E path) (\<lambda>r w'. r = Inr (listing (o_fs w) path) \<and> (\<exists>t. w' = w\<lparr>o_tick := t\<rparr>)) w"
  using assms dir_at_search [OF assms(5,2)]
  by (auto simp: wp_simps fs_readdir_def resolve_not_link dir_at_def may_def listing_def split: option.splits intro: ex_os_state)

text \<open>A state in which the scan of vault \<open>i\<close> finds what it expects.\<close>

definition scannable :: "nat \<Rightarrow> world \<Rightarrow> bool" where
  "scannable i w \<longleftrightarrow> i < length (vaults w) \<and> v_status (vaults w ! i) \<noteq> VAULT_STATUS_DELETED \<and> hm_inv (v_map (vaults w ! i))
     \<and> length (g_catalog_file w) < 508 \<and> not_link (o_fs w) (tmp_of (g_catalog_file w))
     \<and> plain_dir (g_catalog_file w) (fs_get (o_fs w)) (v_path (vaults w ! i))
     \<and> dir_at (o_fs w) (parent_dir (v_path (vaults w ! i)))
     \<and> distinct (listing (o_fs w) (v_path (vaults w ! i)))
     \<and> list_all (\<lambda>d. hidden d \<or> plain_name (g_catalog_file w) (fs_get (o_fs w)) (v_path (vaults w ! i)) d)
         (child_names (o_fs w) (v_path (vaults w ! i)))"

text \<open>The hash of a regular file of the vault's directory that the scan looks at.\<close>

definition current_hash :: "env \<Rightarrow> world \<Rightarrow> nat \<Rightarrow> string \<Rightarrow> string option" where
  "current_hash E w i d = (let path = v_path (vaults w ! i); g = fs_get (o_fs w) in
     if d \<in> set (listing (o_fs w) path) \<and> scanned g path d then Some (file_hash E g path d) else None)"

definition tracked :: "world \<Rightarrow> nat \<Rightarrow> string \<Rightarrow> FileEntry option" where
  "tracked w i = hm_lookup (v_map (vaults w ! i))"

text \<open>What there is to report: a file that differs from its entry, or one that is gone, unless the entry
  is already marked.\<close>

definition suspicious :: "env \<Rightarrow> world \<Rightarrow> nat \<Rightarrow> string \<Rightarrow> bool" where
  "suspicious E w i d \<longleftrightarrow> (case current_hash E w i d of
     Some h \<Rightarrow> changed h (tracked w i d)
   | None \<Rightarrow> missing (e_time E (o_tick w)) (tracked w i d))"

text \<open>C4: the integrity scan reports exactly what happened: it puts the vault into alert if and only if
  a tracked file differs from its recorded hash or has disappeared and is not marked yet; otherwise the
  status stays. Afterwards every regular file of the vault is tracked under its current hash.\<close>
theorem scan_reports_exactly:
  assumes "reliable E" and "e_euid E = 0" and "scannable i w"
  shows "wp (monitor_scan_vault E i) (\<lambda>_ w'.
      v_status (vaults w' ! i) = (if \<exists>d. suspicious E w i d then VAULT_STATUS_ALERT else v_status (vaults w ! i))
      \<and> (\<forall>d h. current_hash E w i d = Some h \<longrightarrow> map_option fe_hash (tracked w' i d) = Some h)) w" (is "wp _ ?Q w")
proof -
  let ?file = "g_catalog_file w" and ?g = "fs_get (o_fs w)" and ?path = "v_path (vaults w ! i)" and ?L = "tracked w i"
  let ?st = "v_status (vaults w ! i)" and ?now = "e_time E (o_tick w)" and ?names = "listing (o_fs w) (v_path (vaults w ! i))"
  let ?seen = "\<lambda>d. d \<in> set ?names \<and> scanned ?g ?path d"
  let ?L1 = "\<lambda>d. if ?seen d then Some (scan_entry (file_hash E ?g ?path d) ?now d (?L d)) else ?L d"
  let ?st1 = "if \<exists>d \<in> set ?names. scanned ?g ?path d \<and> changed (file_hash E ?g ?path d) (?L d) then VAULT_STATUS_ALERT else ?st"
  have short: "length ?file < 508" and plain: "plain_dir ?file ?g ?path" and dist: "distinct ?names"
    using assms(3) by (simp_all add: scannable_def)
  have names: "d \<in> set ?names \<Longrightarrow> \<not> hidden d \<Longrightarrow> plain_name ?file ?g ?path d" for d
    using assms(3) by (auto simp: scannable_def list_all_iff listing_def hidden_def)
  have start: "scanning ?file ?g i ?path ?L ?st w"
    using assms(3) by (simp add: scanning_def scannable_def tracked_def save_frame_def keeps_refl)
  have dir: "not_link (o_fs w) ?path" "dir_at (o_fs w) ?path" "dir_at (o_fs w) (parent_dir ?path)"
    using assms(3) by (auto simp: scannable_def plain_dir_def not_link_def dir_at_def split: option.splits)
  have status: "(if \<exists>d. missing ?now (?L1 d) then VAULT_STATUS_ALERT else ?st1)
    = (if \<exists>d. suspicious E w i d then VAULT_STATUS_ALERT else ?st)"
  proof -
    have "suspicious E w i d \<longleftrightarrow> missing ?now (?L1 d) \<or> (d \<in> set ?names \<and> scanned ?g ?path d \<and> changed (file_hash E ?g ?path d) (?L d))" for d
      by (auto simp: suspicious_def current_hash_def Let_def missing_def scan_entry_def split: option.splits)
    then show ?thesis by auto
  qed
  have finish: "scanning ?file ?g i ?path (\<lambda>d. mark_missing ?now (?L1 d)) (if \<exists>d. missing ?now (?L1 d) then VAULT_STATUS_ALERT else ?st1) w'
     \<Longrightarrow> v_status (vaults w' ! i) = (if \<exists>d. suspicious E w i d then VAULT_STATUS_ALERT else ?st)
      \<and> (\<forall>d h. current_hash E w i d = Some h \<longrightarrow> map_option fe_hash (tracked w' i d) = Some h)" for w'
    unfolding status
    by (auto simp: scanning_def tracked_def [of w'] current_hash_def Let_def mark_missing_def missing_def scan_entry_def split: option.splits if_splits)
  have last: "wp (do { v \<leftarrow> get_vault i; for_each (positions (v_map v)) (check_missing E i ?now); now \<leftarrow> sys_time E;
        mod_vault i (\<lambda>v. v\<lparr>v_last_check := now\<rparr>) })
      (\<lambda>_. scanning ?file ?g i ?path (\<lambda>d. mark_missing ?now (?L1 d)) (if \<exists>d. missing ?now (?L1 d) then VAULT_STATUS_ALERT else ?st1)) w'"
    if "scanning ?file ?g i ?path ?L1 ?st1 w'" for w'
    unfolding wp_bind wp_get_vault
    by (rule wp_mono [OF wp_missing_all [OF short that]]) (auto simp: wp_simps scanning_def)
  have all: "wp (do { for_each ?names (scan_file E i ?now); v \<leftarrow> get_vault i; for_each (positions (v_map v)) (check_missing E i ?now);
        now \<leftarrow> sys_time E; mod_vault i (\<lambda>v. v\<lparr>v_last_check := now\<rparr>) })
      (\<lambda>_. scanning ?file ?g i ?path (\<lambda>d. mark_missing ?now (?L1 d)) (if \<exists>d. missing ?now (?L1 d) then VAULT_STATUS_ALERT else ?st1))
      (w\<lparr>o_tick := t\<rparr>)" for t
    unfolding wp_bind [of "for_each ?names _"]
    by (rule wp_mono [OF wp_scan_loop [OF assms(1,2) short plain names dist] last]) (use start in simp_all)
  have done': "wp (do { for_each ?names (scan_file E i ?now); v \<leftarrow> get_vault i; for_each (positions (v_map v)) (check_missing E i ?now);
        now \<leftarrow> sys_time E; mod_vault i (\<lambda>v. v\<lparr>v_last_check := now\<rparr>) }) ?Q (w\<lparr>o_tick := t\<rparr>)" for t
    by (rule wp_mono [OF all]) (erule finish)
  have active: "v_status (vaults w ! i) \<noteq> VAULT_STATUS_DELETED" using assms(3) by (simp add: scannable_def)
  have opened: "wp (sys_opendir E ?path) (\<lambda>r w'. r = Inr ?names \<and> (\<exists>t. w' = w\<lparr>o_tick := t\<rparr>)) (w\<lparr>o_tick := t\<rparr>)" for t
    using wp_opendir_root [OF assms(1,2), of "w\<lparr>o_tick := t\<rparr>" ?path] dir by simp
  show ?thesis
    unfolding monitor_scan_vault_def wp_bind [of "get_vault i"] wp_get_vault wp_if active [THEN eq_False [THEN iffD2]] if_False
      wp_bind [of "sys_time E"] wp_sys_time wp_bind [of "sys_opendir E _"]
    by (rule wp_mono [OF opened], elim conjE exE, simp only: sum.case, rule done')
qed

text \<open>A vault with one tracked file whose content has changed since.\<close>

definition stale_world :: world where
  "stale_world = upd_vaults (map (\<lambda>v. v\<lparr>v_map := hm_put empty_map ''a'' (calloc_entry\<lparr>fe_name := ''a''\<rparr>)\<rparr>)) ex_world"

lemma stale_table: "hm_inv (v_map (vaults stale_world ! 0))"
  "tracked stale_world 0 = [''a'' \<mapsto> calloc_entry\<lparr>fe_name := ''a''\<rparr>]"
  using ft.invar_put [OF ft.invar_empty, of "calloc_entry\<lparr>fe_name := ''a''\<rparr>" "''a''"]
    ft.lookup_put [OF ft.invar_empty, of "calloc_entry\<lparr>fe_name := ''a''\<rparr>" "''a''"]
  by (auto simp: stale_world_def str_ok_def NAME_MAX_def tracked_def hm_lookup_empty)

lemma stale_children: "child_names ex_fs ''/v/docs'' = [''a'']"
  by (simp add: child_names_def ex_fs_def is_child_def)

lemma stale_scannable: "scannable 0 stale_world"
proof -
  have "tmp_of ''/k/c'' = ''/k/c.tmp''" by (simp add: tmp_of_def cbuf_def)
  then show ?thesis
    using stale_table(1) stale_children
    by (simp add: scannable_def stale_world_def listing_def plain_dir_def plain_name_def not_link_def dir_at_def parent_dir_def
        ex_fs_def fs_get_def ex_dir_def ex_file_def str_ok_def NAME_MAX_def)
qed

lemma scan_reports_exactly_witness:
  "wp (monitor_scan_vault ex_env 0) (\<lambda>_ w'. v_status (vaults w' ! 0) = VAULT_STATUS_ALERT) stale_world"
proof -
  have "current_hash ex_env stale_world 0 ''a'' = Some (digest ex_env ''hello'')"
    using stale_children
    by (simp add: current_hash_def Let_def listing_def scanned_def hidden_def file_hash_def stale_world_def fs_get_def ex_fs_def ex_file_def)
  moreover have "char_of (54 :: nat) \<noteq> NUL" by code_simp
  then have "digest ex_env ''hello'' ! 0 \<noteq> NUL"
    by (simp add: digest_def hex_of_def ex_env_def pad_def hex_byte_def hex_digit_def)
  then have "digest ex_env ''hello'' \<noteq> replicate HASH_HEX_LEN NUL" by (auto simp: HASH_HEX_LEN_def)
  ultimately have "suspicious ex_env stale_world 0 ''a''"
    by (auto simp: suspicious_def changed_def stale_table(2) calloc_entry_def)
  then show ?thesis
    by (intro wp_mono [OF scan_reports_exactly [OF reliable_ex_env ex_env_root stale_scannable]]) auto
qed

end
