(* ===== verification/Alert_Rules.thy ===== *)
theory Alert_Rules
  imports Integrity_Scan
begin

text \<open>
  The remaining parts of \<^verbatim>\<open>vault_monitor.c\<close>: which rules raise an alert, how alerts escalate, what
  read-only enforcement leaves on disk, the bounds of the credit buckets, and which vault an event path
  is attributed to.
\<close>

section \<open>Rules\<close>

text \<open>A rule of the vault is broken: too many failures, or access outside the window.\<close>

definition violates :: "int \<Rightarrow> Vault \<Rightarrow> VaultRule \<Rightarrow> bool" where
  "violates hour v r \<longleftrightarrow> r_vault_id r = v_id v \<and>
     (0 < r_max_fails r \<and> r_max_fails r \<le> v_failed v
      \<or> 0 \<le> r_from r \<and> 0 \<le> r_to r \<and> 0 \<le> hour \<and> \<not> in_window hour r)"

lemma wp_alert_trigger:
  assumes "i < length (vaults w)"
  shows "wp (alert_trigger E i reason) (\<lambda>_ w'. \<exists>t. g_catalog w' = (g_catalog w)\<lparr>c_vaults := (vaults w)[i := alert_mark t reason (vaults w ! i)]\<rparr>) w"
  by (auto simp: alert_trigger_def wp_simps upd_vaults_def intro!: wp_save)

lemma wp_rule_loop:
  assumes "i < length (vaults w)"
  shows "wp (rule_loop E i hour rs) (\<lambda>_ w'. if \<exists>r \<in> set rs. violates hour (vaults w ! i) r
     then \<exists>t reason. g_catalog w' = (g_catalog w)\<lparr>c_vaults := (vaults w)[i := alert_mark t reason (vaults w ! i)]\<rparr>
     else w' = w) w"
  using assms
proof (induction rs)
  case Nil
  then show ?case by (simp add: wp_simps)
next
  case (Cons r rs)
  have fire: "wp (alert_trigger E i reason) (\<lambda>_ w'. \<exists>t reason. g_catalog w' = (g_catalog w)\<lparr>c_vaults := (vaults w)[i := alert_mark t reason (vaults w ! i)]\<rparr>) w" for reason
    by (rule wp_mono [OF wp_alert_trigger [OF Cons.prems]]) blast
  show ?case
  proof (cases "violates hour (vaults w ! i) r")
    case True
    then show ?thesis using fire by (auto simp: wp_simps violates_def)
  next
    case False
    then have "wp (rule_loop E i hour (r # rs)) Q w = wp (rule_loop E i hour rs) Q w" for Q
      by (auto simp: wp_simps violates_def)
    with False Cons show ?thesis by simp
  qed
qed

text \<open>The rule engine: the vault is put into alert if and only if one of the rules registered for it
  is broken at the current hour; otherwise nothing changes. Rules of other vaults have no effect.\<close>
theorem rules_alert_iff_broken:
  assumes "i < length (vaults w)"
  shows "wp (rule_evaluate E i) (\<lambda>_ w'.
     if \<exists>r \<in> set (g_rules w). violates (e_hour E (e_time E (o_tick w))) (vaults w ! i) r
     then v_status (vaults w' ! i) = VAULT_STATUS_ALERT else g_catalog w' = g_catalog w) w"
proof -
  have loop: "wp (rule_loop E i (e_hour E (e_time E (o_tick w))) (g_rules w)) (\<lambda>_ w'.
     if \<exists>r \<in> set (g_rules w). violates (e_hour E (e_time E (o_tick w))) (vaults w ! i) r
     then v_status (vaults w' ! i) = VAULT_STATUS_ALERT else g_catalog w' = g_catalog w) (w\<lparr>o_tick := t\<rparr>)" for t
    by (rule wp_mono [OF wp_rule_loop]) (use assms in \<open>auto split: if_splits\<close>)
  show ?thesis using loop by (simp add: rule_evaluate_def wp_simps)
qed

text \<open>a window that wraps around midnight: for hours of a day, the hour is in the window when, going
  forward from the start of the window, it comes no later than its end.\<close>
theorem in_window_circular:
  assumes "0 \<le> hour" and "hour < 24" and "0 \<le> r_from r" and "r_from r < 24" and "0 \<le> r_to r" and "r_to r < 24"
  shows "in_window hour r \<longleftrightarrow> (hour - r_from r) mod 24 \<le> (r_to r - r_from r) mod 24"
proof -
  have m: "(a - b) mod 24 = (if b \<le> a then a - b else a - b + 24)" if "0 \<le> a" "a < 24" "0 \<le> b" "b < 24" for a b :: int
    using that mod_pos_pos_trivial [of "a - b" 24] mod_pos_pos_trivial [of "a - b + 24" 24] by auto
  show ?thesis using m [of hour "r_from r"] m [of "r_to r" "r_from r"] assms by (auto simp: in_window_def)
qed

section \<open>Escalation\<close>

definition level_ok :: "Vault \<Rightarrow> bool" where
  "level_ok v \<longleftrightarrow> unat (al_idx (v_alert v)) < NUM_ALERT_INTERVALS"

lemma num_intervals: "NUM_ALERT_INTERVALS = 20"
  by (simp add: NUM_ALERT_INTERVALS_def ALERT_INTERVALS_def)

lemma intervals_increase: "a < b \<Longrightarrow> b < 20 \<Longrightarrow> ALERT_INTERVALS ! a < ALERT_INTERVALS ! b"
proof -
  have "sorted_wrt (<) ALERT_INTERVALS" by (simp add: ALERT_INTERVALS_def)
  then show "a < b \<Longrightarrow> b < 20 \<Longrightarrow> ALERT_INTERVALS ! a < ALERT_INTERVALS ! b"
    using num_intervals by (simp add: sorted_wrt_iff_nth_less NUM_ALERT_INTERVALS_def)
qed

definition escalated :: "int \<Rightarrow> Vault \<Rightarrow> Vault \<Rightarrow> bool" where
  "escalated now v v' \<longleftrightarrow> al_count (v_alert v') = al_count (v_alert v) + 1 \<and> al_last (v_alert v') = now
     \<and> v_status v' = VAULT_STATUS_ALERT \<and> (al_last (v_alert v) \<noteq> 0 \<longrightarrow>
        alert_interval (al_idx (v_alert v)) \<le> now - al_last (v_alert v) \<and> alert_interval (al_idx (v_alert v)) \<le> alert_interval (al_idx (v_alert v'))
        \<and> (unat (al_idx (v_alert v)) < 19 \<longrightarrow> al_idx (v_alert v') = al_idx (v_alert v) + 1))"

lemma next_level: "unat (x :: 64 word) < 19 \<Longrightarrow> unat (x + 1) = Suc (unat x)"
  by (simp add: unat_plus_if')

lemma alert_interval_less: "unat x < 20 \<Longrightarrow> alert_interval x = ALERT_INTERVALS ! unat x"
  by (simp add: alert_interval_def num_intervals)

text \<open>C38: escalation of alerts: the level never leaves the table of intervals; an alert is repeated only
  after the interval of its level has passed since the last one, each repetition counts, goes one level
  up until the last one and so never shortens the interval; a vault that is not in alert is left alone.\<close>
theorem escalation_bounds:
  assumes "i < length (vaults w)" and "level_ok (vaults w ! i)"
  shows "wp (alert_check_escalation E i) (\<lambda>_ w'. level_ok (vaults w' ! i)
     \<and> (vaults w' = vaults w
        \<or> v_status (vaults w ! i) = VAULT_STATUS_ALERT \<and> escalated (e_time E (o_tick w)) (vaults w ! i) (vaults w' ! i))) w"
proof -
  let ?a = "v_alert (vaults w ! i)"
  have lvl: "unat (al_idx ?a) < 20" using assms(2) by (simp add: level_ok_def num_intervals)
  have up: "unat (al_idx ?a) < 19 \<Longrightarrow> unat (al_idx ?a + 1) = Suc (unat (al_idx ?a))" by (rule next_level)
  have inc: "alert_interval (al_idx ?a) \<le> alert_interval (al_idx ?a + 1)" if "unat (al_idx ?a) < 19"
    using that up lvl intervals_increase [of "unat (al_idx ?a)" "Suc (unat (al_idx ?a))"] by (simp add: alert_interval_less)
  show ?thesis
    using assms up inc lvl
    by (auto simp: alert_check_escalation_def wp_simps Let_def escalated_def level_ok_def num_intervals split: option.splits)
qed

section \<open>Read-only enforcement\<close>

text \<open>The directory after a change of mode of the files \<open>ds\<close>: nothing but permission bits of regular,
  unhidden files has changed.\<close>

definition hits :: "string \<Rightarrow> string list \<Rightarrow> string \<Rightarrow> bool" where
  "hits path ds q \<longleftrightarrow> (\<exists>d \<in> set ds. \<not> hidden d \<and> q = path @ ''/'' @ d)"

definition with_mode :: "string \<Rightarrow> 32 word \<Rightarrow> string list \<Rightarrow> fs \<Rightarrow> string \<Rightarrow> inode option" where
  "with_mode path m ds f q = map_option (\<lambda>n. if i_type n = S_IFREG \<and> hits path ds q
     then n\<lparr>i_mode := m\<rparr> else n) (fs_get f q)"

lemma hits_single: "hits path [d] q \<longleftrightarrow> \<not> hidden d \<and> q = path @ ''/'' @ d"
  by (simp add: hits_def)

lemma hits_Cons: "hits path (d # ds) q \<longleftrightarrow> hits path [d] q \<or> hits path ds q"
  by (auto simp: hits_def)

lemma wp_chmod_file:
  assumes "reliable E" "e_euid E = 0" "dir_at (o_fs w) path" "path \<noteq> []" "\<not> hidden d \<Longrightarrow> CHR ''/'' \<notin> set d"
  shows "wp (chmod_file E path m d) (\<lambda>_ w'. g_catalog w' = g_catalog w \<and> dir_at (o_fs w') path
     \<and> fs_get (o_fs w') = with_mode path m [d] (o_fs w)) w"
proof (cases "hidden d")
  case True
  then show ?thesis using assms(3) by (auto simp: chmod_file_def wp_simps with_mode_def hits_def option.map_ident intro!: ext)
next
  case False
  let ?p = "path @ ''/'' @ d"
  have parent: "parent_dir ?p = path" using parent_of_child [OF assms(4)] assms(5) False by simp
  note dir = dir_at_search [OF assms(3,2)]
  have same: "fs_get (o_fs w) = with_mode path m [d] (o_fs w)" if "\<forall>n. fs_get (o_fs w) ?p = Some n \<longrightarrow> i_type n \<noteq> S_IFREG"
  proof
    show "fs_get (o_fs w) q = with_mode path m [d] (o_fs w) q" for q
      using that by (cases "fs_get (o_fs w) q") (auto simp: with_mode_def hits_single)
  qed
  have put: "fs_get (fs_put ?p (n\<lparr>i_mode := m\<rparr>) (o_fs w)) = with_mode path m [d] (o_fs w)" "dir_at (fs_put ?p (n\<lparr>i_mode := m\<rparr>) (o_fs w)) path"
    if "fs_get (o_fs w) ?p = Some n" "i_type n = S_IFREG" for n
  proof -
    show "fs_get (fs_put ?p (n\<lparr>i_mode := m\<rparr>) (o_fs w)) = with_mode path m [d] (o_fs w)"
      using that False by (auto simp: with_mode_def hits_single fs_get_put option.map_ident intro!: ext)
    show "dir_at (fs_put ?p (n\<lparr>i_mode := m\<rparr>) (o_fs w)) path"
      using assms(3) that by (auto simp: dir_at_def fs_get_put)
  qed
  have res: "i_type n = S_IFREG \<Longrightarrow> fs_get (o_fs w) ?p = Some n \<Longrightarrow> resolve SYMLOOP_MAX (o_fs w) ?p = Inr ?p" for n
    by (rule resolve_not_link) (simp add: not_link_def)
  show ?thesis
    using False assms parent dir same put res
    by (cases "fs_get (o_fs w) ?p") (auto simp: chmod_file_def wp_simps fs_lstat_def fs_chmod_def)
qed

lemma with_mode_Cons:
  assumes "fs_get f' = with_mode path m [d] f"
  shows "with_mode path m ds f' = with_mode path m (d # ds) f"
proof
  show "with_mode path m ds f' q = with_mode path m (d # ds) f q" for q
    using fun_cong [OF assms, of q] hits_Cons [of path d ds q]
    by (cases "fs_get f q") (auto simp: with_mode_def)
qed

lemma wp_chmod_loop:
  assumes "reliable E" "e_euid E = 0" "path \<noteq> []" "\<And>d. d \<in> set ds \<Longrightarrow> \<not> hidden d \<Longrightarrow> CHR ''/'' \<notin> set d"
    and "dir_at (o_fs w) path"
  shows "wp (for_each ds (chmod_file E path m)) (\<lambda>_ w'. g_catalog w' = g_catalog w
     \<and> fs_get (o_fs w') = with_mode path m ds (o_fs w)) w"
  using assms(4-)
proof (induction ds arbitrary: w)
  case Nil
  then show ?case by (auto simp: wp_simps with_mode_def hits_def option.map_ident intro!: ext)
next
  case (Cons d ds)
  show ?case
    unfolding for_each.simps wp_bind
    by (rule wp_mono [OF wp_chmod_file [OF assms(1,2) Cons.prems(2) assms(3)]])
       (use Cons.prems in \<open>auto simp: with_mode_Cons intro!: wp_mono [OF Cons.IH]\<close>)
qed

lemma readonly_is_write_mode: "vault_enforce_readonly E i = vault_set_write_mode E i False"
  by (simp add: vault_enforce_readonly_def vault_set_write_mode_def)

text \<open>write protection: switching it on makes every regular, unhidden file of the vault's directory
  read-only for its owner and inaccessible to others, switching it off makes it writable for the owner;
  no content, no directory and no file elsewhere changes, and the vault remembers the mode.
  \<open>vault_enforce_readonly\<close> is the first of the two.\<close>
theorem write_mode_sets_permissions:
  assumes "reliable E" and "e_euid E = 0" and "scannable i w"
  shows "wp (vault_set_write_mode E i enable) (\<lambda>_ w'.
      fs_get (o_fs w') = with_mode (v_path (vaults w ! i)) (if enable then MODE_0600 else MODE_0400)
        (child_names (o_fs w) (v_path (vaults w ! i))) (o_fs w)
      \<and> v_write_mode (vaults w' ! i) = enable) w
    \<and> vault_enforce_readonly E i = vault_set_write_mode E i False"
proof
  let ?path = "v_path (vaults w ! i)" and ?m = "if enable then MODE_0600 else MODE_0400"
  let ?names = "listing (o_fs w) ?path"
  have i: "i < length (vaults w)" and path: "?path \<noteq> []" and active: "v_status (vaults w ! i) \<noteq> VAULT_STATUS_DELETED"
    using assms(3) by (simp_all add: scannable_def plain_dir_def)
  have names: "d \<in> set ?names \<Longrightarrow> \<not> hidden d \<Longrightarrow> CHR ''/'' \<notin> set d" for d
    using assms(3) by (auto simp: scannable_def list_all_iff listing_def hidden_def plain_name_def)
  have dir: "not_link (o_fs w) ?path" "dir_at (o_fs w) ?path" "dir_at (o_fs w) (parent_dir ?path)"
    using assms(3) by (auto simp: scannable_def plain_dir_def not_link_def dir_at_def split: option.splits)
  have dots: "with_mode ?path ?m ?names (o_fs w) = with_mode ?path ?m (child_names (o_fs w) ?path) (o_fs w)"
    by (auto simp: with_mode_def hits_def listing_def hidden_def intro!: ext)
  have loop: "wp (for_each ?names (chmod_file E ?path ?m)) (\<lambda>_ w'. g_catalog w' = g_catalog w
     \<and> fs_get (o_fs w') = with_mode ?path ?m (child_names (o_fs w) ?path) (o_fs w)) (w\<lparr>o_tick := t\<rparr>)" for t
    using wp_chmod_loop [OF assms(1,2) path names, of ?names "w\<lparr>o_tick := t\<rparr>" ?m] dir(2) unfolding dots [symmetric] by simp
  show "wp (vault_set_write_mode E i enable) (\<lambda>_ w'.
      fs_get (o_fs w') = with_mode ?path ?m (child_names (o_fs w) ?path) (o_fs w) \<and> v_write_mode (vaults w' ! i) = enable) w"
    unfolding vault_set_write_mode_def wp_bind [of "get_vault i"] wp_get_vault wp_if active [THEN eq_False [THEN iffD2]] if_False
      wp_bind [of "sys_opendir E _"]
    by (rule wp_mono [OF wp_opendir_root [OF assms(1,2) dir]], elim conjE exE, simp only: sum.case wp_bind, rule wp_mono [OF loop])
       (use i in \<open>simp add: wp_simps\<close>)
qed (rule readonly_is_write_mode)

section \<open>Credit buckets\<close>

definition bucket_wf :: "FileBucket \<Rightarrow> bool" where
  "bucket_wf b \<longleftrightarrow> 0 \<le> fb_credits b \<and> fb_credits b \<le> 600 \<and> 0 \<le> fb_flash b"

text \<open>the credit buckets stay within 0 and 15 credits under refilling (with time not running
  backwards) and the flash reduction; a refill is never a loss and, after the first
  one, adds at most one fortieth of a credit per second (the comment in the source says 0.1).\<close>
theorem bucket_bounds:
  assumes "bucket_wf b" and "fb_last_update b \<le> now"
  shows "bucket_wf (replenish_file_bucket_if_needed b now) \<and> bucket_wf (flash_credit_reduce b)
    \<and> fb_credits b \<le> fb_credits (replenish_file_bucket_if_needed b now)
    \<and> fb_credits (flash_credit_reduce b) \<le> fb_credits b
    \<and> (fb_last_update b = 0 \<or> fb_credits (replenish_file_bucket_if_needed b now) \<le> fb_credits b + (now - fb_last_update b))"
  using assms by (auto simp: bucket_wf_def replenish_file_bucket_if_needed_def flash_credit_reduce_def Let_def)

section \<open>Event paths\<close>

text \<open>an event in the cipher directory of vault 10 is attributed to vault 1 when that comes first:
  \<^verbatim>\<open>monitor_vault_by_path\<close> compares a string prefix without a separator, and \<open>cipher_1\<close> is a prefix of
  \<open>cipher_10\<close>.\<close>
theorem event_path_misattributed:
  assumes "i < j" and "j < length (vaults w)" and "v_status (vaults w ! i) \<noteq> VAULT_STATUS_DELETED"
    and "v_cipher (vaults w ! i) = cipher_dir base 1" and "v_cipher (vaults w ! j) = cipher_dir base 10" and "length base < 400"
  shows "wp (monitor_vault_by_path (cipher_dir base 10 @ ''/'' @ name)) (\<lambda>r w'. r \<noteq> Some j \<and> r \<noteq> None) w"
proof -
  have ten: "dec_digits 10 = ''10''" "dec_digits 1 = ''1''"
    by (code_simp)+
  have c: "cipher_dir base 1 = base @ ''/cipher_1''" "cipher_dir base 10 = base @ ''/cipher_10''"
    using assms(6) ten by (simp_all add: cipher_dir_def cbuf_def VAULT_PATH_MAX_def)
  let ?P = "\<lambda>v. v_status v \<noteq> VAULT_STATUS_DELETED \<and> 0 < length (v_cipher v)
      \<and> take (length (v_cipher v)) (cipher_dir base 10 @ ''/'' @ name) = v_cipher v"
  have hit: "?P (vaults w ! i)" using assms(3,4) c by simp
  then have "find_index ?P (vaults w) \<noteq> Some j" using assms(1) by (auto simp: find_index_Some_iff)
  moreover have "find_index ?P (vaults w) \<noteq> None" using hit assms(1,2) by (auto simp: find_index_None)
  ultimately show ?thesis by (simp add: monitor_vault_by_path_def wp_simps)
qed

text \<open>every access to a file costs one credit of its bucket; the vault goes into alert and is write
  protected exactly when the access uses up the last credit, and the credits never become negative.\<close>
theorem deduct_alerts_when_exhausted:
  assumes "i < length (vaults w)" and "j < length (v_fbuckets (vaults w ! i))"
  shows "wp (deduct_credit_and_maybe_alert E i (Some j) name) (\<lambda>_ w'.
      let c = fb_credits (v_fbuckets (vaults w ! i) ! j) in
      fb_credits (v_fbuckets (vaults w' ! i) ! j) = max 0 (c - 40)
      \<and> v_status (vaults w' ! i) = (if c \<le> 40 then VAULT_STATUS_ALERT else v_status (vaults w ! i))) w"
proof -
  have ro: "wp (vault_enforce_readonly E i) (\<lambda>_ w'. fb_credits (v_fbuckets (vaults w' ! i) ! j) = c \<and> v_status (vaults w' ! i) = st) w'"
    if "i < length (vaults w')" "fb_credits (v_fbuckets (vaults w' ! i) ! j) = c" "v_status (vaults w' ! i) = st" for w' c st
    by (rule wp_mono [OF wp_readonly]) (use that in auto)
  have marks: "v_fbuckets (alert_mark t r v) = v_fbuckets v" for t r v by (simp add: alert_mark_def Let_def)
  have alert: "wp (alert_trigger E i reason) (\<lambda>_. wp (vault_enforce_readonly E i)
      (\<lambda>_ w'. fb_credits (v_fbuckets (vaults w' ! i) ! j) = c \<and> v_status (vaults w' ! i) = VAULT_STATUS_ALERT)) w'"
    if "i < length (vaults w')" "fb_credits (v_fbuckets (vaults w' ! i) ! j) = c" for w' c reason
    by (rule wp_mono [OF wp_alert_trigger [OF that(1)]]) (use that in \<open>auto simp: marks intro!: ro\<close>)
  show ?thesis
    unfolding deduct_credit_and_maybe_alert_def option.case Let_def
    using assms by (auto simp: set_bucket_def wp_simps intro!: alert)
qed

section \<open>Examples\<close>

definition rule_world :: world where
  "rule_world = ex_world\<lparr>g_rules := [\<lparr>r_vault_id = 1, r_max_fails = 3, r_from = 22, r_to = 6\<rparr>]\<rparr>"

lemma rules_alert_iff_broken_witness:
  "wp (rule_evaluate ex_env 0) (\<lambda>_ w'. v_status (vaults w' ! 0) = VAULT_STATUS_ALERT) rule_world"
  using rules_alert_iff_broken [of 0 rule_world ex_env]
  by (simp add: rule_world_def violates_def in_window_def ex_env_def)

lemma in_window_circular_witness:
  "in_window 23 \<lparr>r_vault_id = 1, r_max_fails = 0, r_from = 22, r_to = 6\<rparr> \<and> \<not> in_window 12 \<lparr>r_vault_id = 1, r_max_fails = 0, r_from = 22, r_to = 6\<rparr>"
  using in_window_circular [of 23 "\<lparr>r_vault_id = 1, r_max_fails = 0, r_from = 22, r_to = 6\<rparr>"]
    in_window_circular [of 12 "\<lparr>r_vault_id = 1, r_max_fails = 0, r_from = 22, r_to = 6\<rparr>"] by simp

lemma escalation_bounds_witness:
  "wp (alert_check_escalation ex_env 0) (\<lambda>_ w'. level_ok (vaults w' ! 0)) ex_world"
  by (rule wp_mono [OF escalation_bounds]) (simp_all add: level_ok_def num_intervals ex_vault_def zero_vault_def zero_alert_def)

lemma write_mode_sets_permissions_witness:
  "wp (vault_enforce_readonly ex_env 0) (\<lambda>_ w'. map_option i_mode (fs_get (o_fs w') ''/v/docs/a'') = Some MODE_0400) stale_world"
proof -
  have "with_mode ''/v/docs'' MODE_0400 [''a''] ex_fs ''/v/docs/a'' = Some ((ex_file ''hello'')\<lparr>i_mode := MODE_0400\<rparr>)"
    by (simp add: with_mode_def hits_def hidden_def ex_fs_def fs_get_def ex_file_def)
  then show ?thesis
    using write_mode_sets_permissions [OF reliable_ex_env ex_env_root stale_scannable, of False] stale_children
    by (auto simp: stale_world_def elim!: wp_mono)
qed

lemma bucket_bounds_witness:
  "fb_credits (replenish_file_bucket_if_needed \<lparr>fb_path = ''a'', fb_credits = 100, fb_last_update = 50, fb_time_esgoted = 0, fb_flash = 0\<rparr> 60) = 110
   \<and> bucket_wf (replenish_file_bucket_if_needed \<lparr>fb_path = ''a'', fb_credits = 100, fb_last_update = 50, fb_time_esgoted = 0, fb_flash = 0\<rparr> 60)"
  using bucket_bounds [of "\<lparr>fb_path = ''a'', fb_credits = 100, fb_last_update = 50, fb_time_esgoted = 0, fb_flash = 0\<rparr>" 60]
  by (simp add: bucket_wf_def replenish_file_bucket_if_needed_def)

definition ten_world :: world where
  "ten_world = upd_vaults (\<lambda>_. [ex_vault\<lparr>v_cipher := cipher_dir ''/k'' 1\<rparr>, ex_vault\<lparr>v_id := 10, v_name := ''ten'', v_cipher := cipher_dir ''/k'' 10\<rparr>]) ex_world"

lemma event_path_misattributed_witness:
  "wp (monitor_vault_by_path (cipher_dir ''/k'' 10 @ ''/'' @ ''f'')) (\<lambda>r w'. r \<noteq> Some 1 \<and> r \<noteq> None) ten_world"
  using event_path_misattributed [of 0 1 ten_world "''/k''" "''f''"] by (simp add: ten_world_def)

definition bucket_world :: world where
  "bucket_world = upd_vaults (map (\<lambda>v. v\<lparr>v_fbuckets := [\<lparr>fb_path = ''a'', fb_credits = 40, fb_last_update = 5, fb_time_esgoted = 0, fb_flash = 0\<rparr>]\<rparr>)) ex_world"

lemma deduct_alerts_when_exhausted_witness:
  "wp (deduct_credit_and_maybe_alert ex_env 0 (Some 0) ''a'') (\<lambda>_ w'. fb_credits (v_fbuckets (vaults w' ! 0) ! 0) = 0
     \<and> v_status (vaults w' ! 0) = VAULT_STATUS_ALERT) bucket_world"
  using deduct_alerts_when_exhausted [of 0 bucket_world 0 ex_env "''a''"] by (simp add: bucket_world_def)

end
