(* ===== verification/Engine.thy ===== *)
theory Engine
  imports Vault_Monitor
begin

text \<open>
  The decoy labyrinth of \<^verbatim>\<open>c_src/vault/vault_engine.c\<close>: \<open>engine_apply\<close> builds a tree of directories, each with
  26 decoy files, \<open>engine_validate\<close> looks for missing ones and raises an alert.

  A vault is an index into the array. The two counters the recursions pass by reference are the pair they return.
  The content of a text decoy is smaller than the buffer of a stream, so it is written at once, by \<^verbatim>\<open>fflush\<close>.
  \<^verbatim>\<open>rm -rf\<close> (a child process) either removes the tree or fails without effect. Log output is left out.
\<close>

section \<open>Constants\<close>

definition ENGINE_LEVEL_MIN :: int where "ENGINE_LEVEL_MIN = 0"
definition ENGINE_LEVEL_MAX :: int where "ENGINE_LEVEL_MAX = 5"
definition ENGINE_DECOY_DIR :: string where "ENGINE_DECOY_DIR = ''.engine_decoy''"
definition ENGINE_REAL_DIR :: string where "ENGINE_REAL_DIR = ''.engine_real''"
definition ENGINE_TREE_DEPTH :: "nat list" where "ENGINE_TREE_DEPTH = [0, 1, 2, 3, 4, 5]"
definition ENGINE_TREE_BRANCH :: "nat list" where "ENGINE_TREE_BRANCH = [0, 1, 2, 2, 3, 3]"
definition ENGINE_MAX_DECOY_NODES :: nat where "ENGINE_MAX_DECOY_NODES = 5000"

definition text_lines :: "string list \<Rightarrow> string" where
  "text_lines ls = concat (map (\<lambda>l. l @ [NL]) ls)"

definition DECOY_TEMPLATES :: "string list" where
  "DECOY_TEMPLATES = map text_lines [
   [''Project Status Report'', ''======================'', ''Quarter: Q3'', ''Department: Operations'', ''Prepared by: Systems Audit'', [],
    ''Executive Summary:'', ''This document outlines the current operational status and key performance'',
    ''indicators for the reporting period. Infrastructure metrics remain within'',
    ''acceptable thresholds. Detailed breakdowns are available upon request.'', [],
    ''Key Findings:'', ''  - Uptime: 99.94%%'', ''  - Incidents resolved: 14'', ''  - Pending tasks: 3'', ''  - Budget variance: -2.1%%'', [],
    ''Next review scheduled: end of quarter.''],
   [''Internal Memo'', ''=============='', ''To: All Staff'', ''From: Management'', ''Subject: Updated Access Policies'', [],
    ''Effective immediately, all personnel must comply with the revised data'',
    ''handling protocols described in policy document SEC-2024-11.'', ''Violations will be subject to disciplinary review.'', [],
    ''Please acknowledge receipt by logging into the HR portal.''],
   [''Financial Summary'', ''=================='', ''Period: January - June'', ''Entity: Nuk4sd Holdings'', [],
    ''Revenue:         $4,820,310.00'', ''Operating Costs: $3,104,820.50'', ''Net Income:      $1,715,489.50'', ''EBITDA Margin:   35.6%%'', [],
    ''Notes:'', ''Figures are preliminary and subject to audit confirmation.'', ''See Appendix B for detailed line-item breakdown.''],
   [''System Configuration Backup'', ''============================'', ''Host: vault-node-04'', ''OS: Ubuntu 22.04 LTS'',
    ''Kernel: 5.15.0-91-generic'', ''Generated: automated'', [], ''[network]'', ''interface=eth0'', ''ip=10.0.1.44'', ''gateway=10.0.1.1'',
    ''dns=8.8.8.8,1.1.1.1'', [], ''[storage]'', ''mount=/data'', ''type=ext4'', ''capacity=2TB'', ''used=847GB'', [],
    ''[backup]'', ''schedule=daily'', ''retention=30d'', ''last_run=success''],
   [''Employee Records - Confidential'', ''================================'', ''Record ID: EMP-00847'', ''Name: [REDACTED]'', ''Department: Engineering'',
    ''Start Date: 2019-03-12'', ''Level: Senior'', [], ''Performance Review (Latest):'', ''  Rating: Exceeds Expectations'', ''  Score: 4.7 / 5.0'',
    ''  Reviewer: [REDACTED]'', [], ''Compensation: see HR system.'', ''Access Level: 3'', ''Clearance: Standard'']]"

definition LOREM :: string where
  "LOREM = ''Lorem ipsum dolor sit amet, consectetur adipiscing elit. Sed do eiusmod '' @
     ''tempor incididunt ut labore et dolore magna aliqua. Ut enim ad minim veniam, '' @
     ''quis nostrud exercitation ullamco laboris nisi ut aliquip ex ea commodo. '' @
     ''Duis aute irure dolor in reprehenderit in voluptate velit esse cillum dolore '' @
     ''eu fugiat nulla pariatur. Excepteur sint occaecat cupidatat non proident.'' @ [NL]"

definition REAL_MAGIC :: "string list" where
  "REAL_MAGIC = [[CHR 0x25, CHR 0x50, CHR 0x44, CHR 0x46], [CHR 0x50, CHR 0x4B, CHR 0x03, CHR 0x04],
     [CHR 0xFF, CHR 0xD8, CHR 0xFF, CHR 0xE0], [CHR 0x89, CHR 0x50, CHR 0x4E, CHR 0x47], [CHR 0x52, CHR 0x49, CHR 0x46, CHR 0x46]]"

definition TEXT_EXT_POOL :: "string list" where
  "TEXT_EXT_POOL = [''txt'', ''log'', ''cfg'', ''md'', ''csv'', ''conf'', ''json'', ''yaml'', ''ini'', ''bak'']"

definition BINARY_EXT_POOL :: "string list" where
  "BINARY_EXT_POOL = [''enc'', ''dat'', ''bin'', ''db'', ''cache'', ''idx'', ''tmp'', ''old'', ''dump'', ''img'']"

definition ext_pool :: "bool \<Rightarrow> string list" where
  "ext_pool binary = (if binary then BINARY_EXT_POOL else TEXT_EXT_POOL)"

definition letters :: string where "letters = ''abcdefghijklmnopqrstuvwxyz''"

section \<open>Paths\<close>

definition engine_mkdir :: "env \<Rightarrow> string \<Rightarrow> VaultErrorr vio" where
  "engine_mkdir E path =
    (if path = [] then return ERR_INVALID_ARGS
     else do {
       st \<leftarrow> sys_stat E path;
       (case st of
          Inr n \<Rightarrow> return (if i_type n \<noteq> S_IFDIR then ERR_IO else ERR_OK)
        | Inl _ \<Rightarrow> do {
            res \<leftarrow> sys_mkdir E path MODE_0700;
            (case res of
               Inl _ \<Rightarrow> return ERR_IO
             | Inr _ \<Rightarrow> do {
                 st \<leftarrow> sys_stat E path;
                 return (case st of Inl _ \<Rightarrow> ERR_IO | Inr n \<Rightarrow> if i_type n \<noteq> S_IFDIR then ERR_IO else ERR_OK) }) }) })"

text \<open>\<^verbatim>\<open>strncmp(p, d, strlen(d)) == 0\<close> and the next character of \<open>p\<close> is a separator or the end.\<close>

definition path_below :: "string \<Rightarrow> string \<Rightarrow> bool" where
  "path_below d p \<longleftrightarrow> take (length d) p = d \<and> (length p = length d \<or> p ! length d = CHR ''/'')"

definition engine_validate_inside_vault :: "env \<Rightarrow> Vault \<Rightarrow> string \<Rightarrow> VaultErrorr vio" where
  "engine_validate_inside_vault E v path = do {
     f \<leftarrow> gets o_fs;
     case e_realpath E f (v_path v) of
       None \<Rightarrow> return ERR_PATH_INVALID
     | Some vault_resolved \<Rightarrow>
         let tmp = cbuf PATH_MAX path in
         if CHR ''/'' \<notin> set tmp then return ERR_PATH_INVALID
         else (case e_realpath E f (rev (drop 1 (dropWhile (\<lambda>c. c \<noteq> CHR ''/'') (rev tmp)))) of
             None \<Rightarrow> return ERR_PATH_INVALID
           | Some resolved \<Rightarrow> return (if path_below vault_resolved resolved then ERR_OK else ERR_PERM_DENIED)) }"

fun fnv_loop :: "32 word \<Rightarrow> string \<Rightarrow> 32 word" where
  "fnv_loop h [] = h"
| "fnv_loop h (c # s) = fnv_loop ((h XOR of_nat (of_char c)) * 16777619) s"

definition engine_hash_str :: "string \<Rightarrow> 32 word" where
  "engine_hash_str s = fnv_loop 2166136261 s"

definition engine_pick_extension :: "32 word \<Rightarrow> bool \<Rightarrow> string \<Rightarrow> char \<Rightarrow> string" where
  "engine_pick_extension seed binary layer_path letter =
    (let h = engine_hash_str layer_path XOR of_nat (of_char letter) XOR seed
     in if binary then BINARY_EXT_POOL ! unat (h mod of_nat (length BINARY_EXT_POOL))
        else TEXT_EXT_POOL ! unat (h mod of_nat (length TEXT_EXT_POOL)))"

section \<open>Decoy files\<close>

definition letter_index :: "char \<Rightarrow> nat" where "letter_index c = of_char c - 97"

definition pick :: "32 word \<Rightarrow> char \<Rightarrow> nat \<Rightarrow> nat" where
  "pick seed letter n = unat ((of_nat (letter_index letter) + seed) mod of_nat n)"

definition DECOY_FLAGS :: "32 word" where "DECOY_FLAGS = O_CREAT OR O_WRONLY OR O_TRUNC OR O_NOFOLLOW"

definition text_decoy :: "32 word \<Rightarrow> char \<Rightarrow> string" where
  "text_decoy seed letter = DECOY_TEMPLATES ! pick seed letter (length DECOY_TEMPLATES) @
     concat (replicate (2 + letter_index letter mod 5) LOREM)"

definition engine_write_text_decoy :: "env \<Rightarrow> string \<Rightarrow> char \<Rightarrow> VaultErrorr vio" where
  "engine_write_text_decoy E filepath letter = do {
     fd \<leftarrow> sys_open E filepath DECOY_FLAGS MODE_0600;
     (case fd of
        Inl _ \<Rightarrow> return ERR_IO
      | Inr f \<Rightarrow> do {
          strm \<leftarrow> alloc_ok E;
          if \<not> strm then return ERR_IO
          else do {
            seed \<leftarrow> gets g_seed;
            let b = text_decoy seed letter;
            n \<leftarrow> sys_fwrite E f b;
            if n \<noteq> length b then return ERR_IO
            else do {
              st \<leftarrow> sys_stat E filepath;
              return (case st of Inl _ \<Rightarrow> ERR_IO | Inr n \<Rightarrow> if i_type n \<noteq> S_IFREG then ERR_IO else ERR_OK) } } }) }"

definition engine_write_binary_decoy :: "env \<Rightarrow> string \<Rightarrow> char \<Rightarrow> VaultErrorr vio" where
  "engine_write_binary_decoy E filepath letter = do {
     rnd \<leftarrow> sys_rand E 512;
     (case rnd of
        None \<Rightarrow> return ERR_IO
      | Some buf \<Rightarrow> do {
          seed \<leftarrow> gets g_seed;
          let b = REAL_MAGIC ! pick seed letter (length REAL_MAGIC) @ drop 4 buf;
          fd \<leftarrow> sys_open E filepath DECOY_FLAGS MODE_0600;
          (case fd of
             Inl _ \<Rightarrow> return ERR_IO
           | Inr f \<Rightarrow> do {
               strm \<leftarrow> alloc_ok E;
               if \<not> strm then return ERR_IO
               else do {
                 n \<leftarrow> sys_fwrite E f b;
                 if n \<noteq> length b then return ERR_IO
                 else do {
                   st \<leftarrow> sys_stat E filepath;
                   return (case st of Inl _ \<Rightarrow> ERR_IO | Inr n \<Rightarrow> if length (i_data n) \<noteq> 512 then ERR_IO else ERR_OK) } } }) }) }"

text \<open>Loops that count: the sum of what the rounds return.\<close>

fun tally :: "'a list \<Rightarrow> ('a \<Rightarrow> ('s, nat \<times> nat) state) \<Rightarrow> ('s, nat \<times> nat) state" where
  "tally [] f = return (0, 0)"
| "tally (x # xs) f = do {
     (a, b) \<leftarrow> f x;
     (c, d) \<leftarrow> tally xs f;
     return (a + c, b + d) }"

definition decoy_file :: "string \<Rightarrow> char \<Rightarrow> string \<Rightarrow> string" where
  "decoy_file layer_path c ext = layer_path @ ''/'' @ [c] @ ''.'' @ ext"

definition engine_populate_layer :: "env \<Rightarrow> string \<Rightarrow> bool \<Rightarrow> VaultErrorr vio" where
  "engine_populate_layer E layer_path binary = do {
     (created, errors) \<leftarrow> tally letters (\<lambda>c. do {
         seed \<leftarrow> gets g_seed;
         let filepath = cbuf PATH_MAX (decoy_file layer_path c (engine_pick_extension seed binary layer_path c));
         err \<leftarrow> (if binary then engine_write_binary_decoy E filepath c else engine_write_text_decoy E filepath c);
         if err \<noteq> ERR_OK then return (0, 1)
         else do {
           _ \<leftarrow> sys_chmod E filepath MODE_0400;
           return (1, 0) } });
     return (if errors > 0 then ERR_IO else ERR_OK) }"

definition fs_remove_tree :: "string \<Rightarrow> fs \<Rightarrow> fs" where
  "fs_remove_tree d f = filter (\<lambda>(p, _). p \<noteq> d \<and> \<not> prefix (d @ ''/'') p) f"

definition engine_cleanup_decoy :: "env \<Rightarrow> string \<Rightarrow> unit vio" where
  "engine_cleanup_decoy E decoy_root =
    (if decoy_root = [] then return ()
     else do {
       forked \<leftarrow> lib_ok E;
       if \<not> forked then return ()
       else do {
         rm \<leftarrow> lib_ok E;
         if rm then modify (\<lambda>w. w\<lparr>o_fs := fs_remove_tree decoy_root (o_fs w)\<rparr>) else return () } })"

section \<open>The tree\<close>

fun estimate_loop :: "nat \<Rightarrow> nat \<Rightarrow> nat \<Rightarrow> nat \<Rightarrow> nat" where
  "estimate_loop 0 branch acc level_nodes = acc"
| "estimate_loop (Suc i) branch acc level_nodes = estimate_loop i branch (acc + level_nodes) (level_nodes * branch)"

definition engine_estimate_nodes :: "nat \<Rightarrow> nat \<Rightarrow> nat" where
  "engine_estimate_nodes branch depth = estimate_loop depth branch 0 branch"

text \<open>\<^verbatim>\<open>%02d\<close>\<close>

definition two_digits :: "nat \<Rightarrow> string" where
  "two_digits n = (if n < 10 then ''0'' @ dec_digits n else dec_digits n)"

definition engine_child_dirname :: "nat \<Rightarrow> nat \<Rightarrow> string" where
  "engine_child_dirname depth idx = cbuf 64 (''layer_'' @ two_digits depth @ ''_'' @ two_digits idx)"

function engine_build_subtree :: "env \<Rightarrow> Vault \<Rightarrow> string \<Rightarrow> nat \<Rightarrow> nat \<Rightarrow> nat \<Rightarrow> bool \<Rightarrow> (nat \<times> nat) vio" where
  "engine_build_subtree E v parent_path depth max_depth branch binary =
    (if depth > max_depth then return (0, 0)
     else tally [0..<branch] (\<lambda>idx.
       let node_path = parent_path @ ''/'' @ engine_child_dirname depth idx in
       if length node_path \<ge> PATH_MAX then return (0, 1)
       else do {
         err \<leftarrow> engine_validate_inside_vault E v node_path;
         if err \<noteq> ERR_OK then return (0, 1)
         else do {
           err \<leftarrow> engine_mkdir E node_path;
           if err \<noteq> ERR_OK then return (0, 1)
           else do {
             err \<leftarrow> engine_populate_layer E node_path binary;
             if err \<noteq> ERR_OK then return (0, 1)
             else do {
               (ok, failed) \<leftarrow> engine_build_subtree E v node_path (Suc depth) max_depth branch binary;
               return (Suc ok, failed) } } } }))"
  by pat_completeness auto
termination by (relation "measure (\<lambda>(E, v, parent, depth, max_depth, branch, binary). Suc max_depth - depth)") auto

declare engine_build_subtree.simps [simp del]

definition engine_apply :: "env \<Rightarrow> nat option \<Rightarrow> VaultErrorr vio" where
  "engine_apply E vp = (case vp of None \<Rightarrow> return ERR_INVALID_ARGS
     | Some i \<Rightarrow> do {
         v \<leftarrow> get_vault i;
         if v_status v = VAULT_STATUS_DELETED then return ERR_INVALID_ARGS
         else if v_status v = VAULT_STATUS_LOCKED then return ERR_VAULT_LOCKED
         else if v_engine v < ENGINE_LEVEL_MIN \<or> v_engine v > ENGINE_LEVEL_MAX then return ERR_INVALID_ARGS
         else if v_engine v = 0 then return ERR_OK
         else do {
           s1 \<leftarrow> sys_rand E 4;
           seed \<leftarrow> (case s1 of Some b \<Rightarrow> return (dec32 b)
                   | None \<Rightarrow> do { s2 \<leftarrow> sys_rand E 4; return (case s2 of Some b \<Rightarrow> dec32 b | None \<Rightarrow> 0) });
           modify (\<lambda>w. w\<lparr>g_seed := seed\<rparr>);
           let decoy_root = cbuf PATH_MAX (v_path v @ ''/'' @ ENGINE_DECOY_DIR);
           err \<leftarrow> engine_mkdir E decoy_root;
           if err \<noteq> ERR_OK then return err
           else do {
             let real_dir = cbuf PATH_MAX (v_path v @ ''/'' @ ENGINE_REAL_DIR);
             err \<leftarrow> engine_mkdir E real_dir;
             if err \<noteq> ERR_OK then return err
             else do {
               _ \<leftarrow> sys_chmod E real_dir MODE_0700;
               let max_depth = ENGINE_TREE_DEPTH ! nat (v_engine v);
               let branch = ENGINE_TREE_BRANCH ! nat (v_engine v);
               let binary = (v_engine v \<ge> 4);
               if engine_estimate_nodes branch max_depth > ENGINE_MAX_DECOY_NODES then return ERR_INVALID_ARGS
               else do {
                 (layers_ok, layers_failed) \<leftarrow> engine_build_subtree E v decoy_root 1 max_depth branch binary;
                 if layers_failed > 0 then do {
                   engine_cleanup_decoy E decoy_root;
                   return ERR_IO }
                 else return ERR_OK } } } } })"

section \<open>Validation\<close>

text \<open>Does the directory entry stand for a letter of the alphabet?\<close>

definition names_letter :: "bool \<Rightarrow> char \<Rightarrow> string \<Rightarrow> bool" where
  "names_letter binary c name \<longleftrightarrow> (case name of l # d # ext \<Rightarrow> l = c \<and> d = CHR ''.'' \<and> ext \<noteq> [] \<and> ext \<in> set (ext_pool binary) | _ \<Rightarrow> False)"

definition engine_check_layer_files :: "env \<Rightarrow> string \<Rightarrow> bool \<Rightarrow> nat vio" where
  "engine_check_layer_files E layer_path binary = do {
     d \<leftarrow> sys_opendir E layer_path;
     return (case d of
        Inl _ \<Rightarrow> 26
      | Inr names \<Rightarrow> length (filter (\<lambda>c. \<not> list_ex (names_letter binary c) names) letters)) }"

function engine_validate_subtree :: "env \<Rightarrow> string \<Rightarrow> nat \<Rightarrow> nat \<Rightarrow> nat \<Rightarrow> bool \<Rightarrow> (nat \<times> nat) vio" where
  "engine_validate_subtree E parent_path depth max_depth branch binary =
    (if depth > max_depth then return (0, 0)
     else tally [0..<branch] (\<lambda>idx. do {
       let node_path = cbuf PATH_MAX (parent_path @ ''/'' @ engine_child_dirname depth idx);
       st \<leftarrow> sys_stat E node_path;
       (case st of
          Inl _ \<Rightarrow> return (1, 0)
        | Inr n \<Rightarrow>
            if i_type n \<noteq> S_IFDIR then return (1, 0)
            else do {
              missing_here \<leftarrow> engine_check_layer_files E node_path binary;
              (layers, files) \<leftarrow> engine_validate_subtree E node_path (Suc depth) max_depth branch binary;
              return (layers, missing_here + files) }) }))"
  by pat_completeness auto
termination by (relation "measure (\<lambda>(E, parent, depth, max_depth, branch, binary). Suc max_depth - depth)") auto

declare engine_validate_subtree.simps [simp del]

definition engine_validate :: "env \<Rightarrow> nat option \<Rightarrow> VaultErrorr vio" where
  "engine_validate E vp = (case vp of None \<Rightarrow> return ERR_INVALID_ARGS
     | Some i \<Rightarrow> do {
         v \<leftarrow> get_vault i;
         if v_engine v = 0 then return ERR_OK
         else if v_engine v < ENGINE_LEVEL_MIN \<or> v_engine v > ENGINE_LEVEL_MAX then return ERR_INVALID_ARGS
         else do {
           let decoy_root = cbuf PATH_MAX (v_path v @ ''/'' @ ENGINE_DECOY_DIR);
           st \<leftarrow> sys_stat E decoy_root;
           if (case st of Inl _ \<Rightarrow> True | Inr n \<Rightarrow> i_type n \<noteq> S_IFDIR) then return ERR_INTEGRITY
           else do {
             let real_dir = cbuf PATH_MAX (v_path v @ ''/'' @ ENGINE_REAL_DIR);
             st \<leftarrow> sys_stat E real_dir;
             if (case st of Inl _ \<Rightarrow> True | Inr n \<Rightarrow> i_type n \<noteq> S_IFDIR) then return ERR_INTEGRITY
             else do {
               let max_depth = ENGINE_TREE_DEPTH ! nat (v_engine v);
               let branch = ENGINE_TREE_BRANCH ! nat (v_engine v);
               (missing_layers, missing_files) \<leftarrow> engine_validate_subtree E decoy_root 1 max_depth branch (v_engine v \<ge> 4);
               if missing_layers > 0 \<or> missing_files > 0 then do {
                 alert_trigger E i (cbuf 256 (''Engine '' @ dec_digits (nat (v_engine v)) @ '' compromised: '' @ dec_digits missing_layers @
                   '' nodes, '' @ dec_digits missing_files @ '' files removed''));
                 return ERR_INTEGRITY }
               else return ERR_OK } } } })"

definition engine_is_decoy_path_v :: "env \<Rightarrow> fs \<Rightarrow> Vault option \<Rightarrow> string option \<Rightarrow> bool" where
  "engine_is_decoy_path_v E f vo po = (case (vo, po) of
     (Some v, Some path) \<Rightarrow>
       (case e_realpath E f (cbuf PATH_MAX (v_path v @ ''/'' @ ENGINE_DECOY_DIR)) of
          None \<Rightarrow> False
        | Some decoy_resolved \<Rightarrow>
            (case e_realpath E f path of
               None \<Rightarrow> False
             | Some path_resolved \<Rightarrow> path_below decoy_resolved path_resolved))
   | _ \<Rightarrow> False)"

end
