(* ===== verification/Vault_Fuse.thy ===== *)
theory Vault_Fuse
  imports Alert_Rules
begin

text \<open>
  \<^verbatim>\<open>c_src/vault/vault_fuse.c\<close>: the FUSE handlers of a mounted vault, the write-once flags that guard
  them, the transparent encryption of protected vaults, and mounting and unmounting.

  A handler is a function of the index of the vault that was passed to \<^verbatim>\<open>fuse_new\<close> as private data,
  the path below the mount point, and its other arguments; a negative error number is \<open>Inl\<close>. The
  operating system parts of mounting (\<^verbatim>\<open>fuse_new\<close>, \<^verbatim>\<open>fuse_mount\<close>, \<^verbatim>\<open>pthread_create\<close>, \<^verbatim>\<open>fusermount\<close>) are
  calls that may fail. What a read of \<^verbatim>\<open>/proc/mounts\<close> gives at each attempt is an argument.
\<close>

section \<open>The key stream\<close>

definition xor_char :: "char \<Rightarrow> char \<Rightarrow> char" where
  "xor_char a b = char_of ((of_char a :: nat) XOR of_char b)"

definition xor_bytes :: "string \<Rightarrow> string \<Rightarrow> string" where
  "xor_bytes = map2 xor_char"

text \<open>The loop that advances the counter block: \<open>k\<close> bytes are left, the last one at index \<open>7 + k\<close>.\<close>

fun iv_loop :: "nat \<Rightarrow> string \<Rightarrow> 64 word \<Rightarrow> string" where
  "iv_loop 0 iv block_idx = iv"
| "iv_loop (Suc k) iv block_idx =
     (if block_idx = 0 then iv
      else let i = 8 + k;
               sum = of_nat (of_char (iv ! i)) + (block_idx AND 0xFF)
           in iv_loop k (iv[i := char_of (unat (sum AND 0xFF))]) (drop_bit 8 block_idx + drop_bit 8 sum))"

definition advance_iv :: "string \<Rightarrow> nat \<Rightarrow> string" where
  "advance_iv iv offset = iv_loop 8 iv (word_of_nat (offset div 16))"

definition FUSE_PASSWORD :: string where "FUSE_PASSWORD = ''fuse-encryption-key''"

definition path_iv :: "env \<Rightarrow> bool \<Rightarrow> string \<Rightarrow> string \<Rightarrow> string" where
  "path_iv E mem salt path = (if mem then take 16 (pad 32 (e_sha256 E (take SALT_LEN salt @ path))) else replicate 16 NUL)"

definition fuse_crypt_stream :: "env \<Rightarrow> Vault \<Rightarrow> string \<Rightarrow> nat \<Rightarrow> string \<Rightarrow> string option vio" where
  "fuse_crypt_stream E v path offset data =
    (if data = [] then return (Some [])
     else (case derive_key_for E (Some FUSE_PASSWORD) (v_salt v) ''file-encryption'' of
        Inl _ \<Rightarrow> return None
      | Inr key \<Rightarrow> do {
          mem \<leftarrow> alloc_ok E;
          let iv = advance_iv (path_iv E mem (v_salt v) path) offset;
          ctx \<leftarrow> alloc_ok E;
          if \<not> ctx then return None
          else do {
            init \<leftarrow> lib_ok E;
            if \<not> init then return None
            else do {
              upd \<leftarrow> lib_ok E;
              let align = offset mod 16;
              if \<not> upd then return None
              else return (Some (xor_bytes data (drop align (pad (align + length data) (e_ctr E key iv (align + length data))))))}}}))"

section \<open>The handlers\<close>

definition get_cipher_path :: "Vault \<Rightarrow> string \<Rightarrow> string" where
  "get_cipher_path v path = cbuf VAULT_PATH_MAX (v_cipher v @ path)"

definition WRITE_BITS :: "32 word" where "WRITE_BITS = 0x92"

definition vfuse_getattr :: "env \<Rightarrow> nat \<Rightarrow> string \<Rightarrow> (errno + inode) vio" where
  "vfuse_getattr E i path = do {
     v \<leftarrow> get_vault i;
     res \<leftarrow> sys_lstat E (get_cipher_path v path);
     case res of
       Inl e \<Rightarrow> return (Inl e)
     | Inr st \<Rightarrow> return (Inr (if v_worm v AND WORM_PROTECT_SCAN \<noteq> 0 then st\<lparr>i_mode := i_mode st AND NOT WRITE_BITS\<rparr> else st)) }"

definition vfuse_readdir :: "env \<Rightarrow> nat \<Rightarrow> string \<Rightarrow> (errno + string list) vio" where
  "vfuse_readdir E i path = do {
     v \<leftarrow> get_vault i;
     sys_opendir E (get_cipher_path v path) }"

definition vfuse_open :: "env \<Rightarrow> nat \<Rightarrow> string \<Rightarrow> 32 word \<Rightarrow> (errno + unit) vio" where
  "vfuse_open E i path flags = do {
     v \<leftarrow> get_vault i;
     if worm_check (Some v) WORM_PROTECT_WRITE \<and> flags AND (O_WRONLY OR O_RDWR OR O_TRUNC OR O_APPEND) \<noteq> 0
     then return (Inl EPERM)
     else do {
       res \<leftarrow> sys_open E (get_cipher_path v path) flags 0;
       return (case res of Inl e \<Rightarrow> Inl e | Inr _ \<Rightarrow> Inr ()) } }"

definition vfuse_read :: "env \<Rightarrow> nat \<Rightarrow> string \<Rightarrow> nat \<Rightarrow> nat \<Rightarrow> (errno + string) vio" where
  "vfuse_read E i path n offset = do {
     v \<leftarrow> get_vault i;
     if worm_check (Some v) WORM_PROTECT_READ then return (Inl EPERM)
     else do {
       fd \<leftarrow> sys_open E (get_cipher_path v path) 0 0;
       case fd of
         Inl e \<Rightarrow> return (Inl e)
       | Inr fd \<Rightarrow> do {
           res \<leftarrow> sys_pread E fd offset n;
           (case res of
              Inl e \<Rightarrow> return (Inl e)
            | Inr buf \<Rightarrow>
                if buf \<noteq> [] \<and> v_type v = VAULT_TYPE_PROTECTED then do {
                  out \<leftarrow> fuse_crypt_stream E v path offset buf;
                  return (Inr (case out of None \<Rightarrow> buf | Some b \<Rightarrow> b)) }
                else return (Inr buf)) } } }"

text \<open>From the open descriptor on: \<^verbatim>\<open>enc_buf\<close> is used when it could be allocated and filled.\<close>

definition write_fd :: "env \<Rightarrow> Vault \<Rightarrow> string \<Rightarrow> string \<Rightarrow> string \<Rightarrow> nat \<Rightarrow> (errno + nat) vio" where
  "write_fd E v path fd buf offset = do {
     data \<leftarrow> (if v_type v = VAULT_TYPE_PROTECTED \<and> buf \<noteq> [] then do {
                mem \<leftarrow> alloc_ok E;
                (if mem then do {
                   enc \<leftarrow> fuse_crypt_stream E v path offset buf;
                   return (case enc of None \<Rightarrow> buf | Some b \<Rightarrow> b) }
                 else return buf) }
              else return buf);
     sys_pwrite E fd offset data }"

definition vfuse_write :: "env \<Rightarrow> nat \<Rightarrow> string \<Rightarrow> string \<Rightarrow> nat \<Rightarrow> (errno + nat) vio" where
  "vfuse_write E i path buf offset = do {
     v \<leftarrow> get_vault i;
     if worm_check (Some v) WORM_PROTECT_WRITE then do {
       fd \<leftarrow> sys_open E (get_cipher_path v path) (O_WRONLY OR O_CREAT OR O_EXCL) MODE_0600;
       (case fd of
          Inl e \<Rightarrow> return (Inl (if e = EEXIST then EPERM else e))
        | Inr fd \<Rightarrow> write_fd E v path fd buf offset) }
     else do {
       fd \<leftarrow> sys_open E (get_cipher_path v path) (O_WRONLY OR O_CREAT) MODE_0600;
       (case fd of
          Inl e \<Rightarrow> return (Inl e)
        | Inr fd \<Rightarrow> write_fd E v path fd buf offset) } }"

definition vfuse_mkdir :: "env \<Rightarrow> nat \<Rightarrow> string \<Rightarrow> 32 word \<Rightarrow> (errno + unit) vio" where
  "vfuse_mkdir E i path mode = do {
     v \<leftarrow> get_vault i;
     if v_worm v AND WORM_PROTECT_SCAN \<noteq> 0 then return (Inl EPERM)
     else sys_mkdir E (get_cipher_path v path) mode }"

definition vfuse_unlink :: "env \<Rightarrow> nat \<Rightarrow> string \<Rightarrow> (errno + unit) vio" where
  "vfuse_unlink E i path = do {
     v \<leftarrow> get_vault i;
     if worm_check (Some v) WORM_PROTECT_DELETE then return (Inl EPERM)
     else sys_unlink E (get_cipher_path v path) }"

definition vfuse_rmdir :: "env \<Rightarrow> nat \<Rightarrow> string \<Rightarrow> (errno + unit) vio" where
  "vfuse_rmdir E i path = do {
     v \<leftarrow> get_vault i;
     if worm_check (Some v) WORM_PROTECT_DELETE then return (Inl EPERM)
     else sys_rmdir E (get_cipher_path v path) }"

definition vfuse_rename :: "env \<Rightarrow> nat \<Rightarrow> string \<Rightarrow> string \<Rightarrow> (errno + unit) vio" where
  "vfuse_rename E i from to = do {
     v \<leftarrow> get_vault i;
     let full_from = get_cipher_path v from;
     let full_to = get_cipher_path v to;
     if worm_check (Some v) WORM_PROTECT_RENAME then return (Inl EPERM)
     else do {
       denied \<leftarrow> (if worm_check (Some v) WORM_PROTECT_DELETE \<or> worm_check (Some v) WORM_PROTECT_WRITE then do {
                    st \<leftarrow> sys_lstat E full_to;
                    return (case st of Inl _ \<Rightarrow> False | Inr _ \<Rightarrow> True) }
                  else return False);
       if denied then return (Inl EPERM)
       else sys_rename E full_from full_to } }"

definition vfuse_create :: "env \<Rightarrow> nat \<Rightarrow> string \<Rightarrow> 32 word \<Rightarrow> 32 word \<Rightarrow> (errno + unit) vio" where
  "vfuse_create E i path mode flags = do {
     v \<leftarrow> get_vault i;
     if v_worm v AND WORM_PROTECT_SCAN \<noteq> 0 then return (Inl EPERM)
     else do {
       res \<leftarrow> sys_open E (get_cipher_path v path) (flags OR O_CREAT) mode;
       return (case res of Inl e \<Rightarrow> Inl e | Inr _ \<Rightarrow> Inr ()) } }"

section \<open>Flags\<close>

definition vault_worm_is_scan_locked :: "Vault option \<Rightarrow> bool" where
  "vault_worm_is_scan_locked vo = (case vo of None \<Rightarrow> False | Some v \<Rightarrow> v_worm v AND WORM_PROTECT_SCAN \<noteq> 0)"

definition vault_worm_set_flags :: "env \<Rightarrow> nat option \<Rightarrow> 32 word \<Rightarrow> VaultErrorr vio" where
  "vault_worm_set_flags E vp flags = (case vp of None \<Rightarrow> return ERR_INVALID_ARGS
     | Some i \<Rightarrow>
         if flags AND WORM_PROTECT_SCAN \<noteq> 0 then return ERR_INVALID_ARGS
         else do {
           mod_vault i (\<lambda>v. v\<lparr>v_worm := v_worm v OR (flags AND WORM_PROTECT_ALL)\<rparr>);
           catalog_save E })"

definition vault_worm_clear_flags :: "env \<Rightarrow> nat option \<Rightarrow> 32 word \<Rightarrow> VaultErrorr vio" where
  "vault_worm_clear_flags E vp flags = (case vp of None \<Rightarrow> return ERR_INVALID_ARGS
     | Some i \<Rightarrow> do {
         v \<leftarrow> get_vault i;
         if v_worm v AND WORM_PROTECT_SCAN \<noteq> 0 then return ERR_PERM_DENIED
         else do {
           let flags = flags AND NOT WORM_PROTECT_SCAN;
           mod_vault i (\<lambda>v. v\<lparr>v_worm := v_worm v AND NOT flags\<rparr>);
           catalog_save E } })"

definition vault_worm_set_scan :: "env \<Rightarrow> nat option \<Rightarrow> VaultErrorr vio" where
  "vault_worm_set_scan E vp = (case vp of None \<Rightarrow> return ERR_INVALID_ARGS
     | Some i \<Rightarrow> do {
         mod_vault i (\<lambda>v. v\<lparr>v_worm := v_worm v OR (WORM_PROTECT_SCAN OR WORM_PROTECT_ALL)\<rparr>);
         catalog_save E })"

section \<open>Mounting\<close>

text \<open>The thread: before and after \<^verbatim>\<open>fuse_loop_mt\<close>. The AppArmor profile it loads and removes is state of
  the kernel; its result is only logged.\<close>

definition fuse_loop_enter :: "env \<Rightarrow> nat \<Rightarrow> unit vio" where
  "fuse_loop_enter E i = do {
     v \<leftarrow> get_vault i;
     _ \<leftarrow> sys_chmod E (v_cipher v) MODE_0700;
     return () }"

definition fuse_loop_exit :: "env \<Rightarrow> nat \<Rightarrow> unit vio" where
  "fuse_loop_exit E i = do {
     v \<leftarrow> get_vault i;
     _ \<leftarrow> sys_chmod E (v_cipher v) MODE_0000;
     mod_vault i (\<lambda>v. v\<lparr>v_mounted := False\<rparr>) }"

text \<open>\<^verbatim>\<open>sscanf(line, "%127s %511s", dev, mp) == 2 && strcmp(mp, v->path) == 0\<close>\<close>

definition scan_space :: "char \<Rightarrow> bool" where
  "scan_space c \<longleftrightarrow> is_space c \<or> c = CHR 0x0B \<or> c = CHR 0x0C"

definition scan_word :: "nat \<Rightarrow> string \<Rightarrow> string \<times> string" where
  "scan_word n s = (let t = dropWhile scan_space s; w = take n (takeWhile (\<lambda>c. \<not> scan_space c) t) in (w, drop (length w) t))"

definition mount_line_is :: "string \<Rightarrow> string \<Rightarrow> bool" where
  "mount_line_is path line = (let (dev, rest) = scan_word 127 line; (mp, _) = scan_word 511 rest
     in dev \<noteq> [] \<and> mp \<noteq> [] \<and> mp = path)"

text \<open>\<open>mounts a\<close> are the lines \<^verbatim>\<open>fgets\<close> yields at attempt \<open>a\<close>.\<close>

definition mount_confirmed :: "(nat \<Rightarrow> string list option) \<Rightarrow> string \<Rightarrow> bool" where
  "mount_confirmed mounts path \<longleftrightarrow> list_ex (\<lambda>a. case mounts a of None \<Rightarrow> False | Some ls \<Rightarrow> list_ex (mount_line_is path) ls) [0..<20]"

definition vault_fuse_mount :: "env \<Rightarrow> (nat \<Rightarrow> string list option) \<Rightarrow> nat \<Rightarrow> VaultErrorr vio" where
  "vault_fuse_mount E mounts i = do {
     v \<leftarrow> get_vault i;
     if v_mounted v then return ERR_OK
     else do {
       f \<leftarrow> lib_ok E;
       if \<not> f then return ERR_IO
       else do {
         m \<leftarrow> lib_ok E;
         if \<not> m then return ERR_IO
         else do {
           td \<leftarrow> alloc_ok E;
           if \<not> td then return ERR_NO_MEMORY
           else do {
             mod_vault i (\<lambda>v. v\<lparr>v_mounted := True\<rparr>);
             thread \<leftarrow> lib_ok E;
             if \<not> thread then do {
               mod_vault i (\<lambda>v. v\<lparr>v_mounted := False\<rparr>);
               return ERR_IO }
             else do {
               fuse_loop_enter E i;
               if \<not> mount_confirmed mounts (v_path v) then do {
                 fuse_loop_exit E i;
                 _ \<leftarrow> sys_chmod E (v_cipher v) MODE_0000;
                 mod_vault i (\<lambda>v. v\<lparr>v_mounted := False\<rparr>);
                 return ERR_IO }
               else return ERR_OK } } } } } }"

text \<open>\<^verbatim>\<open>fusermount -u\<close>; the thread then leaves its loop (\<open>fuse_loop_exit\<close>) on its own.\<close>

definition vault_fuse_unmount :: "env \<Rightarrow> nat \<Rightarrow> VaultErrorr vio" where
  "vault_fuse_unmount E i = do {
     v \<leftarrow> get_vault i;
     if \<not> v_mounted v then return ERR_OK
     else if v_worm v AND WORM_PROTECT_SCAN \<noteq> 0 then return ERR_PERM_DENIED
     else do {
       forked \<leftarrow> lib_ok E;
       if \<not> forked then return ERR_IO
       else do {
         exited \<leftarrow> lib_ok E;
         if \<not> exited then return ERR_IO else return ERR_OK } } }"

definition seal_vault :: "env \<Rightarrow> nat \<Rightarrow> unit vio" where
  "seal_vault E i = do {
     v \<leftarrow> get_vault i;
     if v_cipher v = [] then return ()
     else do {
       st \<leftarrow> sys_stat E (v_cipher v);
       (case st of
          Inl _ \<Rightarrow> return ()
        | Inr n \<Rightarrow> if i_mode n AND MODE_0777 \<noteq> 0 then do { _ \<leftarrow> sys_chmod E (v_cipher v) MODE_0000; return () } else return ());
       mod_vault i (\<lambda>v. v\<lparr>v_mounted := False\<rparr>) } }"

definition vault_fuse_seal_all_on_exit :: "env \<Rightarrow> unit vio" where
  "vault_fuse_seal_all_on_exit E = do {
     n \<leftarrow> gets (\<lambda>w. length (vaults w));
     for_each [0..<n] (seal_vault E) }"

end
