(* ===== verification/Worm_Guard.thy ===== *)
theory Worm_Guard
  imports Vault_Fuse
begin

text \<open>
  What the write-once flags promise and keep: PROTECTED-SCAN cannot be taken back by any operation of
  the vault subsystem, and under the flags no sequence of file system requests through the mount
  changes, removes or renames a file that existed before.
\<close>

section \<open>The flags of a vault over its lifetime\<close>

inductive flag_step :: "env \<Rightarrow> world \<Rightarrow> world \<Rightarrow> bool" for E where
  vault: "vault_step E w w' \<Longrightarrow> flag_step E w w'"
| set_flags: "run_state (vault_worm_set_flags E vp flags) w = (r, w') \<Longrightarrow> flag_step E w w'"
| clear_flags: "run_state (vault_worm_clear_flags E vp flags) w = (r, w') \<Longrightarrow> flag_step E w w'"
| set_scan: "run_state (vault_worm_set_scan E vp) w = (r, w') \<Longrightarrow> flag_step E w w'"

inductive_cases flag_stepE: "flag_step E w w'"

definition scan_on :: "Vault \<Rightarrow> bool" where
  "scan_on v \<longleftrightarrow> v_worm v AND WORM_PROTECT_SCAN \<noteq> 0"

abbreviation id_worm :: "Vault \<Rightarrow> 32 word \<times> 32 word" where
  "id_worm v \<equiv> (v_id v, v_worm v)"

interpretation idw: kept_part id_worm
  by unfold_locales simp_all

text \<open>Every vault after the step has its flags from a vault of the same identifier before, or is new.\<close>

definition flags_from :: "world \<Rightarrow> world \<Rightarrow> bool" where
  "flags_from w w' \<longleftrightarrow> (\<forall>v' \<in> set (vaults w'). v_id v' = c_next_id (g_catalog w) \<or> id_worm v' \<in> id_worm ` set (vaults w))"

lemma flags_from_map: "map id_worm (vaults w') = map id_worm (vaults w) \<Longrightarrow> flags_from w w'"
proof -
  assume "map id_worm (vaults w') = map id_worm (vaults w)"
  from arg_cong [OF this, of set] have "id_worm ` set (vaults w') = id_worm ` set (vaults w)" by simp
  then show ?thesis unfolding flags_from_def by blast
qed

lemma flags_from_subset: "set (vaults w') \<subseteq> set (vaults w) \<Longrightarrow> flags_from w w'"
  by (auto simp: flags_from_def)

lemma flags_from_update:
  "vaults w' = (vaults w)[i := v] \<Longrightarrow> i < length (vaults w) \<Longrightarrow> id_worm v = id_worm (vaults w ! i) \<Longrightarrow> flags_from w w'"
  by (rule flags_from_map) (simp only: map_update map_update_same [of id_worm])

lemma flags_from_pres:
  assumes "\<And>x. preserves (\<lambda>w. idw.kept w = x) m" and "run_state m w = (r, w')"
  shows "flags_from w w'"
proof -
  have "idw.kept w' = idw.kept w" by (rule preserves_run [OF assms]) simp
  then show ?thesis by (intro flags_from_map) (simp add: idw.kept_def)
qed

lemma flags_from_create: "create_post w name_arg vtype path_arg pw r w' \<Longrightarrow> flags_from w w'"
  by (auto simp: create_post_def build_post_def created_def fresh_vault_def flags_from_def)

lemma flags_from_remove: "vaults w' = remove_nth i (vaults w) \<Longrightarrow> flags_from w w'"
  using set_remove_nth [of i "vaults w"] by (intro flags_from_subset) simp

lemma flags_from_delete: "delete_post E w vid pw r w' \<Longrightarrow> flags_from w w'"
  by (auto simp: delete_post_def find_index_Some_iff split: option.splits if_splits intro: flags_from_subset flags_from_remove flags_from_update)

lemma flags_from_rename: "rename_post E w vid new pw r w' \<Longrightarrow> flags_from w w'"
  by (auto simp: rename_post_def Let_def find_index_Some_iff split: option.splits if_splits intro: flags_from_subset flags_from_update)

lemma vault_step_flags: "vault_step E w w' \<Longrightarrow> flags_from w w'"
  by (erule vault_stepE)
     (erule flags_from_create [OF wpD [OF wp_vault_create]] flags_from_delete [OF wpD [OF wp_vault_delete]]
        flags_from_rename [OF wpD [OF wp_vault_rename]] flags_from_pres [rotated], (rule idw.pres_ops)?)+

text \<open>The flag operations change the flags of one vault, and never take PROTECTED-SCAN away.\<close>

definition keeps_scan :: "world \<Rightarrow> world \<Rightarrow> bool" where
  "keeps_scan w w' \<longleftrightarrow> ident w' = ident w \<and> list_all2 (\<lambda>v v'. v_id v' = v_id v \<and> (scan_on v \<longrightarrow> scan_on v')) (vaults w) (vaults w')"

lemma keeps_scan_refl: "keeps_scan w w"
  by (simp add: keeps_scan_def list_all2_same)

lemma keeps_scan_upd:
  assumes "g_catalog w' = g_catalog (upd_vaults (\<lambda>vs. vs[i := (vs ! i)\<lparr>v_worm := f (v_worm (vs ! i))\<rparr>]) w)"
    "scan_on (vaults w ! i) \<Longrightarrow> f (v_worm (vaults w ! i)) AND WORM_PROTECT_SCAN \<noteq> 0"
  shows "keeps_scan w w'"
proof -
  let ?v = "(vaults w ! i)\<lparr>v_worm := f (v_worm (vaults w ! i))\<rparr>"
  have vs: "vaults w' = (vaults w)[i := ?v]" and n: "c_next_id (g_catalog w') = c_next_id (g_catalog w)"
    using assms(1) by simp_all
  then have "ident w' = ident w" using ident_update [of ?v "vaults w" i] by (simp add: ident_def)
  then show ?thesis
    using assms(2) vs by (cases "i < length (vaults w)")
      (auto simp: keeps_scan_def list_all2_conv_all_nth nth_list_update scan_on_def split: if_splits)
qed

lemma scan_bit: "x AND WORM_PROTECT_SCAN = 0 \<longleftrightarrow> \<not> bit x 3" for x :: "32 word"
  using and_exp_eq_0_iff_not_bit [of x 3] by (simp add: WORM_PROTECT_SCAN_def)

lemma scan_or_all: "bit (x OR (WORM_PROTECT_SCAN OR WORM_PROTECT_ALL)) 3" for x :: "32 word"
  by (simp add: bit_or_iff worm_flags)

lemma wp_worm_set: "wp (vault_worm_set_flags E vp flags) (\<lambda>_. keeps_scan w) w"
  by (auto simp: vault_worm_set_flags_def wp_simps keeps_scan_refl scan_on_def scan_bit bit_or_iff split: option.splits
      intro!: wp_save keeps_scan_upd [where f = "\<lambda>x. x OR (flags AND WORM_PROTECT_ALL)"])

lemma wp_worm_clear: "wp (vault_worm_clear_flags E vp flags) (\<lambda>_. keeps_scan w) w"
  by (auto simp: vault_worm_clear_flags_def wp_simps Let_def keeps_scan_refl scan_on_def scan_bit split: option.splits
      intro!: wp_save keeps_scan_upd [where f = "\<lambda>x. x AND NOT (flags AND NOT WORM_PROTECT_SCAN)"])

lemma wp_worm_scan: "wp (vault_worm_set_scan E vp) (\<lambda>_. keeps_scan w) w"
  by (auto simp: vault_worm_set_scan_def wp_simps keeps_scan_refl scan_or_all scan_bit split: option.splits
      intro!: wp_save keeps_scan_upd [where f = "\<lambda>x. x OR (WORM_PROTECT_SCAN OR WORM_PROTECT_ALL)"])

definition frozen :: "32 word \<Rightarrow> world \<Rightarrow> bool" where
  "frozen k w \<longleftrightarrow> k < c_next_id (g_catalog w) \<and> (\<forall>v \<in> set (vaults w). v_id v = k \<longrightarrow> scan_on v)"

lemma frozen_flags_from:
  assumes "flags_from w w'" "changes w w'" "unat (c_next_id (g_catalog w)) < 4294967295" "frozen k w"
  shows "frozen k w'"
proof -
  have "c_next_id (g_catalog w') = c_next_id (g_catalog w) \<or> c_next_id (g_catalog w') = c_next_id (g_catalog w) + 1"
  proof -
    obtain c where "ident w' = apply_change c (ident w)" using assms(2) by (auto simp: changes_def)
    then show ?thesis by (cases c) (auto simp: ident_def)
  qed
  then have "k < c_next_id (g_catalog w')" using assms(3,4) word_less_Suc [of "c_next_id (g_catalog w)" k] by (auto simp: frozen_def)
  then show ?thesis
    using assms(1,4) by (force simp: frozen_def flags_from_def scan_on_def)
qed

lemma frozen_keeps_scan: "keeps_scan w w' \<Longrightarrow> frozen k w \<Longrightarrow> frozen k w'"
  by (auto simp: keeps_scan_def frozen_def ident_def list_all2_conv_all_nth all_set_conv_all_nth)

lemma flag_step_frozen:
  assumes "flag_step E w w'" "unat (c_next_id (g_catalog w)) < 4294967295" "frozen k w"
  shows "frozen k w' \<and> unat (c_next_id (g_catalog w')) \<le> Suc (unat (c_next_id (g_catalog w)))"
proof -
  have scan: "frozen k w' \<and> unat (c_next_id (g_catalog w')) \<le> Suc (unat (c_next_id (g_catalog w)))" if "keeps_scan w w'"
    using that frozen_keeps_scan [OF that assms(3)] by (simp add: keeps_scan_def ident_def)
  show ?thesis
    using assms(1)
  proof (cases rule: flag_step.cases)
    case vault
    then show ?thesis
      using frozen_flags_from [OF vault_step_flags step_changes assms(2,3)] changes_next [OF step_changes assms(2)] by blast
  qed (erule scan [OF wpD [OF wp_worm_set]] scan [OF wpD [OF wp_worm_clear]] scan [OF wpD [OF wp_worm_scan]])+
qed

text \<open>C19: PROTECTED-SCAN is for ever: once the flag is set on a vault, no sequence of operations of the
  manager, the monitor and the flag interface leaves a vault of this identifier without it.\<close>
theorem scan_is_permanent:
  assumes "k < c_next_id (g_catalog w)" and "\<forall>v \<in> set (vaults w). v_id v = k \<longrightarrow> scan_on v"
    and "(flag_step E ^^ n) w w'" and "unat (c_next_id (g_catalog w)) + n < 2 ^ 32"
  shows "\<forall>v \<in> set (vaults w'). v_id v = k \<longrightarrow> scan_on v"
proof -
  have "frozen k w' \<and> unat (c_next_id (g_catalog w')) \<le> unat (c_next_id (g_catalog w)) + n"
    using assms(3,4)
  proof (induction n arbitrary: w')
    case (Suc n)
    then obtain u where u: "(flag_step E ^^ n) w u" "flag_step E u w'" by auto
    with Suc have "frozen k u" "unat (c_next_id (g_catalog u)) \<le> unat (c_next_id (g_catalog w)) + n" by simp_all
    then show ?case using flag_step_frozen [OF u(2), of k] Suc.prems(2) by simp
  qed (use assms(1,2) in \<open>simp add: frozen_def\<close>)
  then show ?thesis by (simp add: frozen_def)
qed

section \<open>Files under protection\<close>

datatype fuse_op = Getattr string | Readdir string | Open string "32 word" | Read string nat nat | Write string string nat
  | Mkdir string "32 word" | Unlink string | Rmdir string | Rename string string | Create string "32 word" "32 word"

text \<open>A request; what it returns does not matter here.\<close>

definition forget :: "'a vio \<Rightarrow> unit vio" where
  "forget m = do { _ \<leftarrow> m; return () }"

fun fuse_request :: "env \<Rightarrow> nat \<Rightarrow> fuse_op \<Rightarrow> unit vio" where
  "fuse_request E i (Getattr p) = forget (vfuse_getattr E i p)"
| "fuse_request E i (Readdir p) = forget (vfuse_readdir E i p)"
| "fuse_request E i (Open p flags) = forget (vfuse_open E i p flags)"
| "fuse_request E i (Read p n off) = forget (vfuse_read E i p n off)"
| "fuse_request E i (Write p b off) = forget (vfuse_write E i p b off)"
| "fuse_request E i (Mkdir p m) = forget (vfuse_mkdir E i p m)"
| "fuse_request E i (Unlink p) = forget (vfuse_unlink E i p)"
| "fuse_request E i (Rmdir p) = forget (vfuse_rmdir E i p)"
| "fuse_request E i (Rename a b) = forget (vfuse_rename E i a b)"
| "fuse_request E i (Create p m flags) = forget (vfuse_create E i p m flags)"

text \<open>The state: vault \<open>i\<close> has the flags \<open>fl\<close>, and all the files of \<open>g\<close> are still there, unchanged.\<close>

definition guarded :: "nat \<Rightarrow> 32 word \<Rightarrow> fs \<Rightarrow> world \<Rightarrow> bool" where
  "guarded i fl g w \<longleftrightarrow> v_worm (vaults w ! i) = fl \<and> (\<forall>q n. fs_get g q = Some n \<longrightarrow> fs_get (o_fs w) q = Some n)"

lemma guarded_tick [simp]: "guarded i fl g (w\<lparr>o_tick := t\<rparr>) = guarded i fl g w"
  by (simp add: guarded_def)

lemma guarded_fs: "guarded i fl g w \<Longrightarrow> (\<And>q n. fs_get g q = Some n \<Longrightarrow> fs_get f q = Some n) \<Longrightarrow> guarded i fl g (w\<lparr>o_tick := t, o_fs := f\<rparr>)"
  by (simp add: guarded_def)

text \<open>Calls that only add.\<close>

definition adds :: "'a call \<Rightarrow> bool" where
  "adds c \<longleftrightarrow> (\<forall>f q n. fs_get f q = Some n \<longrightarrow> fs_get (snd (c f)) q = Some n)"

lemma adds_read_only: "read_only c \<Longrightarrow> adds c"
  by (simp add: adds_def read_only_def)

lemma adds_mkdir: "adds (fs_mkdir E p m)"
  by (auto simp: adds_def fs_mkdir_def fs_get_put split: option.splits)

lemma adds_open: "\<not> flag_set fl O_TRUNC \<Longrightarrow> adds (fs_open E p fl m)"
  by (auto simp: adds_def fs_open_def fs_get_put split: sum.splits option.splits)

lemma pres_guarded_syscall: "adds c \<Longrightarrow> preserves (guarded i fl g) (syscall E c)"
  by (rule preservesI) (auto simp: wp_simps adds_def split: option.splits intro!: guarded_fs, auto simp: guarded_def)

lemma pres_guarded_os:
  "preserves (guarded i fl g) (lib_ok E)" "preserves (guarded i fl g) (alloc_ok E)" "preserves (guarded i fl g) (sys_pread E p off n)"
  by (simp_all add: preserves_wp wp_simps sys_pread_def Let_def)

lemma pres_guarded_crypt: "preserves (guarded i fl g) (fuse_crypt_stream E v path off b)"
  by (auto simp: fuse_crypt_stream_def Let_def intro!: pres pres_guarded_os)

lemma pwrite_new:
  assumes "guarded i fl g w" "fs_get g p = None"
  shows "wp (sys_pwrite E p off b) (\<lambda>_. guarded i fl g) w"
proof -
  have "fs_get g q = Some n \<Longrightarrow> fs_get (fs_write_at p off b' (o_fs w)) q = Some n" for q n b'
    using assms by (cases "q = p") (auto simp: guarded_def fs_write_at_def split: option.splits)
  then show ?thesis
    using assms by (auto simp: sys_pwrite_def wp_simps Let_def guarded_def split: option.splits)
qed

text \<open>What is written goes to a file that was not there.\<close>

lemma wp_write_fd:
  assumes "guarded i fl g w" "fs_get g p = None"
  shows "wp (write_fd E v path p buf off) (\<lambda>_. guarded i fl g) w"
proof -
  have "preserves (guarded i fl g) (if v_type v = VAULT_TYPE_PROTECTED \<and> buf \<noteq> [] then do {
                mem \<leftarrow> alloc_ok E;
                (if mem then do {
                   enc \<leftarrow> fuse_crypt_stream E v path off buf;
                   return (case enc of None \<Rightarrow> buf | Some b \<Rightarrow> b) }
                 else return buf) }
              else return buf)"
    by (auto intro!: pres pres_guarded_os pres_guarded_crypt)
  from preservesD [OF this assms(1)] show ?thesis
    unfolding write_fd_def wp_bind by (rule wp_mono) (rule pwrite_new [OF _ assms(2)])
qed

lemma fs_open_excl:
  "fs_open E p fl m f = (Inr q, f') \<Longrightarrow> flag_set fl O_CREAT \<Longrightarrow> flag_set fl O_EXCL \<Longrightarrow> q = p \<and> fs_get f p = None \<and> (\<forall>x. x \<noteq> p \<longrightarrow> fs_get f' x = fs_get f x)"
  "fs_open E p fl m f = (Inl e, f') \<Longrightarrow> f' = f"
  by (auto simp: fs_open_def open_target_def split: option.splits if_splits sum.splits)

lemma worm_check_flags: "v_worm v = fl \<Longrightarrow> worm_check (Some v) b \<longleftrightarrow> worm_check (Some (zero_vault\<lparr>v_worm := fl\<rparr>)) b"
  by (simp add: worm_check_def)

lemma guardedD: "guarded i fl g w \<Longrightarrow> v_worm (vaults w ! i) = fl"
  "guarded i fl g w \<Longrightarrow> fs_get (o_fs w) q = None \<Longrightarrow> fs_get g q = None"
  by (auto simp: guarded_def) (metis option.distinct(1) option.exhaust)

lemma pres_forget [pres]: "preserves I m \<Longrightarrow> preserves I (forget m)"
  by (simp add: forget_def pres)

lemma no_trunc:
  "flags AND (O_WRONLY OR O_RDWR OR O_TRUNC OR O_APPEND) = 0 \<Longrightarrow> \<not> flag_set flags O_TRUNC"
  "\<not> flag_set flags O_TRUNC \<Longrightarrow> \<not> flag_set (flags OR O_CREAT) O_TRUNC"
proof -
  assume none: "flags AND (O_WRONLY OR O_RDWR OR O_TRUNC OR O_APPEND) = 0"
  have "flags AND O_TRUNC = (flags AND (O_WRONLY OR O_RDWR OR O_TRUNC OR O_APPEND)) AND O_TRUNC"
    by (simp add: o_flags and.assoc)
  then show "\<not> flag_set flags O_TRUNC" unfolding none by (simp add: flag_set_def)
qed (simp add: flag_set_def bit.conj_disj_distrib2 o_flags)

lemma pres_guarded_write:
  assumes "worm_check (Some (zero_vault\<lparr>v_worm := fl\<rparr>)) WORM_PROTECT_WRITE"
  shows "preserves (guarded i fl g) (vfuse_write E i p b off)"
proof (rule preservesI)
  fix w assume g: "guarded i fl g w"
  let ?p = "get_cipher_path (vaults w ! i) p" and ?fl = "O_WRONLY OR O_CREAT OR O_EXCL"
  have chk: "worm_check (Some (vaults w ! i)) WORM_PROTECT_WRITE" using assms worm_check_flags [OF guardedD(1) [OF g]] by simp
  have flags: "flag_set ?fl O_CREAT" "flag_set ?fl O_EXCL" "\<not> flag_set ?fl O_TRUNC" by (simp_all add: flag_set_def o_flags)
  obtain r f where o: "fs_open E ?p ?fl MODE_0600 (o_fs w) = (r, f)" by fastforce
  have add: "fs_get (o_fs w) q = Some n \<Longrightarrow> fs_get f q = Some n" for q n
    using adds_open [OF flags(3), of E ?p MODE_0600, unfolded adds_def, rule_format, of "o_fs w" q n] o by simp
  have g': "guarded i fl g (w\<lparr>o_tick := t, o_fs := f\<rparr>)" for t
    by (rule guarded_fs [OF g]) (use g add in \<open>simp add: guarded_def\<close>)
  have new: "fs_get g q = None \<and> q = ?p" if "r = Inr q" for q
    using fs_open_excl(1) [OF o [unfolded that] flags(1,2)] guardedD(2) [OF g, of ?p] by simp
  show "wp (vfuse_write E i p b off) (\<lambda>_. guarded i fl g) w"
    using g g' new o chk
    by (auto simp: vfuse_write_def wp_simps split: option.splits sum.splits intro!: wp_write_fd)
qed

definition no_truncation :: "32 word \<Rightarrow> fuse_op \<Rightarrow> bool" where
  "no_truncation fl op \<longleftrightarrow> (case op of Create p m flags \<Rightarrow> fl AND WORM_PROTECT_SCAN \<noteq> 0 \<or> \<not> flag_set flags O_TRUNC | _ \<Rightarrow> True)"

lemma pres_request:
  assumes "list_all (worm_check (Some (zero_vault\<lparr>v_worm := fl\<rparr>))) [WORM_PROTECT_WRITE, WORM_PROTECT_DELETE, WORM_PROTECT_RENAME]"
    and "no_truncation fl op"
  shows "preserves (guarded i fl g) (fuse_request E i op)"
proof -
  have chk: "worm_check (Some v) WORM_PROTECT_WRITE" "worm_check (Some v) WORM_PROTECT_DELETE" "worm_check (Some v) WORM_PROTECT_RENAME"
    if "v_worm v = fl" for v
    using assms(1) worm_check_flags [OF that] by simp_all
  have vault: "preserves (guarded i fl g) (do { v \<leftarrow> get_vault i; m v })" if "\<And>v. v_worm v = fl \<Longrightarrow> preserves (guarded i fl g) (m v)" for m
    by (rule preservesI) (auto simp: wp_simps intro!: preservesD [OF that] dest: guardedD(1))
  note rules = pres pres_guarded_os pres_guarded_crypt pres_guarded_syscall adds_read_only adds_mkdir adds_open vault
  show ?thesis
  proof (cases op)
    case (Open p flags)
    then show ?thesis by (auto simp: vfuse_open_def chk intro!: rules no_trunc)
  next
    case (Read p n off)
    have "\<not> flag_set 0 O_TRUNC" by simp
    with Read show ?thesis by (auto simp: vfuse_read_def intro!: rules)
  next
    case (Write p b off)
    then show ?thesis using assms(1) by (auto intro!: pres_forget pres_guarded_write)
  next
    case (Create p m flags)
    then show ?thesis using assms(2) by (auto simp: vfuse_create_def no_truncation_def intro!: rules no_trunc)
  qed (auto simp: vfuse_getattr_def vfuse_readdir_def vfuse_mkdir_def vfuse_unlink_def vfuse_rmdir_def vfuse_rename_def Let_def chk intro!: rules)
qed

text \<open>C20: write-once protection: on a vault with the write, delete and rename flags, or with PROTECTED-SCAN,
  no sequence of requests through the mount, with any faults of the system, changes the content,
  the permissions or the name of anything that existed, or removes it. Creation with truncation is the one
  exception when PROTECTED-SCAN is off (\<open>create_truncates_protected_file\<close>).\<close>
theorem worm_protects_existing:
  assumes "list_all (worm_check (Some (vaults w ! i))) [WORM_PROTECT_WRITE, WORM_PROTECT_DELETE, WORM_PROTECT_RENAME]"
    and "list_all (no_truncation (v_worm (vaults w ! i))) ops" and "fs_get (o_fs w) q = Some n"
  shows "wp (for_each ops (fuse_request E i)) (\<lambda>_ w'. fs_get (o_fs w') q = Some n) w"
proof -
  let ?fl = "v_worm (vaults w ! i)"
  have chk: "list_all (worm_check (Some (zero_vault\<lparr>v_worm := ?fl\<rparr>))) [WORM_PROTECT_WRITE, WORM_PROTECT_DELETE, WORM_PROTECT_RENAME]"
    using assms(1) worm_check_flags [OF refl] by simp
  have "preserves (guarded i ?fl (o_fs w)) (for_each ops (fuse_request E i))"
    using assms(2) by (induction ops) (auto intro!: pres pres_request [OF chk])
  from preservesD [OF this, of w] show ?thesis
    by (rule wp_mono) (use assms(3) in \<open>auto simp: guarded_def\<close>)
qed

lemma fs_open_exists:
  assumes "fs_open E p fl m f = (Inr q, f')" "flag_set fl O_CREAT"
  shows "fs_get f' p \<noteq> None"
proof -
  have "q = p \<or> fs_get f p \<noteq> None" if "open_target f p fl = Inr q"
    using that by (auto simp: open_target_def SYMLOOP_MAX_def numeral_eq_Suc split: if_splits option.splits)
  with assms show ?thesis by (auto simp: fs_open_def fs_get_put split: sum.splits option.splits if_splits)
qed

text \<open>Under the write flag a file made through the mount stays empty: the write that follows a successful
  creation is always refused, since the file then exists, although the flag is meant to let new files
  be filled.\<close>
theorem created_file_cannot_be_filled:
  assumes "worm_check (Some (vaults w ! i)) WORM_PROTECT_WRITE"
  shows "wp (do { c \<leftarrow> vfuse_create E i p m fl; r \<leftarrow> vfuse_write E i p b off; return (c, r) })
     (\<lambda>(c, r) _. c = Inr () \<longrightarrow> r \<in> range Inl) w"
proof -
  have [simp]: "flag_set (fl OR O_CREAT) O_CREAT" "flag_set (O_WRONLY OR O_CREAT OR O_EXCL) O_CREAT"
    "flag_set (O_WRONLY OR O_CREAT OR O_EXCL) O_EXCL"
    by (auto simp: flag_set_def o_flags bit_and_iff bit_or_iff intro!: exI [of _ 6] bit_eqI dest: arg_cong [where f = "\<lambda>x. bit x 6"])
  have refused: "wp (vfuse_write E i p b off) (\<lambda>r _. r \<in> range Inl) u"
    if "worm_check (Some (vaults u ! i)) WORM_PROTECT_WRITE" "fs_get (o_fs u) (get_cipher_path (vaults u ! i) p) \<noteq> None" for u
    using that fs_open_excl(1) [of E "get_cipher_path (vaults u ! i) p" "O_WRONLY OR O_CREAT OR O_EXCL" MODE_0600 "o_fs u"]
    by (cases "fs_open E (get_cipher_path (vaults u ! i) p) (O_WRONLY OR O_CREAT OR O_EXCL) MODE_0600 (o_fs u)"; cases "fst (fs_open E (get_cipher_path (vaults u ! i) p) (O_WRONLY OR O_CREAT OR O_EXCL) MODE_0600 (o_fs u))")
       (auto simp: vfuse_write_def wp_simps split: option.splits)
  let ?p = "get_cipher_path (vaults w ! i) p"
  have "wp (vfuse_create E i p m fl) (\<lambda>c u. g_catalog u = g_catalog w \<and> (c = Inr () \<longrightarrow> fs_get (o_fs u) ?p \<noteq> None)) w"
    using fs_open_exists [of E ?p "fl OR O_CREAT" m "o_fs w"]
    by (cases "fs_open E ?p (fl OR O_CREAT) m (o_fs w)")
       (auto simp: vfuse_create_def wp_simps split: option.splits sum.splits)
  then show ?thesis
    unfolding wp_bind
  proof (rule wp_mono)
    fix c and u :: world assume h: "g_catalog u = g_catalog w \<and> (c = Inr () \<longrightarrow> fs_get (o_fs u) ?p \<noteq> None)"
    show "wp (vfuse_write E i p b off) (\<lambda>r. wp (return (c, r)) (\<lambda>(c, r) _. c = Inr () \<longrightarrow> r \<in> range Inl)) u"
    proof (cases "c = Inr ()")
      case True
      with refused [of u] h assms show ?thesis by (simp add: wp_return)
    qed (simp add: wp_return)
  qed
qed


text \<open>Creation does not look at the write flag: a creation request with truncation that reaches an existing
  file empties it, also on a vault with the delete, rename and write flags (only PROTECTED-SCAN stops it).\<close>
theorem create_truncates_protected_file:
  fixes w :: world
  assumes "v_worm (vaults w ! i) = WORM_PROTECT_ALL" and "reliable E" "e_euid E = 0"
    and "get_cipher_path (vaults w ! i) p = q" "search_err E (o_fs w) (parent_dir q) = None"
    and "fs_get (o_fs w) q = Some n" "i_type n = S_IFREG"
  shows "wp (vfuse_create E i p m (O_WRONLY OR O_TRUNC)) (\<lambda>r w'. r = Inr () \<and> fs_get (o_fs w') q = Some (n\<lparr>i_data := []\<rparr>)) w"
proof -
  have "resolve SYMLOOP_MAX (o_fs w) q = Inr q"
    using assms(6,7) by (simp add: SYMLOOP_MAX_def numeral_eq_Suc)
  then have "open_target (o_fs w) q (O_WRONLY OR O_TRUNC OR O_CREAT) = Inr q"
    by (simp add: open_target_def flag_set_def o_flags)
  moreover have "(O_WRONLY OR O_TRUNC) OR O_CREAT = O_WRONLY OR O_TRUNC OR O_CREAT" by (simp add: or.assoc)
  ultimately show ?thesis
    using assms by (simp add: vfuse_create_def wp_simps worm_flags fs_open_def may_def flag_set_def wants_read_def o_flags)
qed

section \<open>Examples\<close>

definition worm_world :: "32 word \<Rightarrow> world" where
  "worm_world fl = upd_vaults (\<lambda>vs. vs[0 := (vs ! 0)\<lparr>v_worm := fl\<rparr>]) ex_world"

lemma worm_world_simps [simp]: "vaults (worm_world fl) = [ex_vault\<lparr>v_worm := fl\<rparr>]" "o_fs (worm_world fl) = ex_fs"
  "c_next_id (g_catalog (worm_world fl)) = 2"
  by (simp_all add: worm_world_def)

lemma ex_cipher_path: "get_cipher_path (ex_vault\<lparr>v_worm := fl\<rparr>) ''/a'' = ''/k/docs/a''"
  by (simp add: get_cipher_path_def cbuf_def sizes)

lemma ex_fs_a: "fs_get ex_fs ''/k/docs/a'' = Some (ex_file ''hello'')" "search_err ex_env ex_fs (parent_dir ''/k/docs/a'') = None"
  by (simp_all add: fs_get_def ex_fs_def search_err_def parent_dir_def may_def ex_env_def ex_dir_def)

lemma scan_is_permanent_witness:
  "scan_on (hd (vaults (snd (run_state (vault_worm_clear_flags ex_env (Some 0) 15) (worm_world WORM_PROTECT_SCAN)))))"
proof -
  let ?w = "worm_world WORM_PROTECT_SCAN" and ?m = "vault_worm_clear_flags ex_env (Some 0) 15"
  have step: "flag_step ex_env ?w (snd (run_state ?m ?w))" by (rule flag_step.clear_flags) (rule prod.collapse [symmetric])
  have "keeps_scan ?w (snd (run_state ?m ?w))" by (rule wpD [OF wp_worm_clear]) (rule prod.collapse [symmetric])
  then obtain v where v: "vaults (snd (run_state ?m ?w)) = [v]" "v_id v = 1"
    by (auto simp: keeps_scan_def list_all2_Cons1)
  then show ?thesis
    using scan_is_permanent [where k = 1 and w = ?w and E = ex_env and n = 1 and w' = "snd (run_state ?m ?w)"] step by (simp add: scan_on_def worm_flags eq_OO)
qed

lemma worm_protects_existing_witness:
  "wp (for_each [Unlink ''/a'', Write ''/a'' ''x'' 0, Rename ''/a'' ''/b''] (fuse_request ex_env 0))
     (\<lambda>_ w'. fs_get (o_fs w') ''/k/docs/a'' = Some (ex_file ''hello'')) (worm_world WORM_PROTECT_ALL)"
  by (rule worm_protects_existing) (simp_all add: ex_fs_a worm_check_def worm_flags no_truncation_def)

lemma created_file_cannot_be_filled_witness:
  "wp (do { c \<leftarrow> vfuse_create ex_env 0 ''/n'' MODE_0600 O_WRONLY; r \<leftarrow> vfuse_write ex_env 0 ''/n'' ''x'' 0; return (c, r) })
     (\<lambda>(c, r) _. c = Inr () \<and> r \<in> range Inl) (worm_world WORM_PROTECT_ALL)"
proof -
  let ?w = "worm_world WORM_PROTECT_ALL"
  have [simp]: "get_cipher_path (ex_vault\<lparr>v_worm := fl\<rparr>) ''/n'' = ''/k/docs/n''" for fl
    by (simp add: get_cipher_path_def cbuf_def sizes)
  have "wp (do { c \<leftarrow> vfuse_create ex_env 0 ''/n'' MODE_0600 O_WRONLY; r \<leftarrow> vfuse_write ex_env 0 ''/n'' ''x'' 0; return (c, r) })
     (\<lambda>(c, r) _. c = Inr ()) ?w"
    by (simp add: vfuse_create_def wp_simps worm_flags fs_open_def open_target_def flag_set_def o_flags SYMLOOP_MAX_def
        numeral_eq_Suc) (simp add: fs_get_def flag_set_def o_flags ex_fs_def search_err_def write_err_def parent_dir_def may_def ex_env_def ex_dir_def)
  moreover have "worm_check (Some (vaults ?w ! 0)) WORM_PROTECT_WRITE" by (simp add: worm_check_def worm_flags)
  ultimately show ?thesis
    by (rule wp_mono [OF wp_conj [OF _ created_file_cannot_be_filled]]) auto
qed

lemma create_truncates_protected_file_witness:
  "wp (vfuse_create ex_env 0 ''/a'' MODE_0600 (O_WRONLY OR O_TRUNC))
     (\<lambda>r w'. r = Inr () \<and> fs_get (o_fs w') ''/k/docs/a'' = Some (ex_file []))
     (worm_world WORM_PROTECT_ALL)"
  using create_truncates_protected_file [of "worm_world WORM_PROTECT_ALL" 0 ex_env "''/a''" "''/k/docs/a''" "ex_file ''hello''"]
  by (simp add: ex_cipher_path ex_fs_a) (simp add: ex_file_def)

end
