(* ===== verification/Fuse_Stream.thy ===== *)
theory Fuse_Stream
  imports Worm_Guard
begin

text \<open>
  The transparent encryption of the mount: the counter block, random access into the stream of a file,
  what is read back after a write and after a rename. Then the life of a mount: failures, the exit
  handler, and paths that can never be confirmed.
\<close>

section \<open>Exclusive or\<close>

lemma xor_char_cancel [simp]: "xor_char (xor_char a b) b = a"
proof -
  have "take_bit 8 (of_char a XOR of_char b) = (of_char a XOR of_char b :: nat)"
    using of_char_lt_256 [of a] of_char_lt_256 [of b] by (simp add: take_bit_nat_eq_self)
  then have "(of_char (xor_char a b) :: nat) = of_char a XOR of_char b"
    by (simp add: xor_char_def take_bit_eq_mod)
  then show ?thesis by (simp add: xor_char_def xor.assoc)
qed

lemma length_xor_bytes [simp]: "length (xor_bytes a b) = min (length a) (length b)"
  by (simp add: xor_bytes_def)

lemma xor_bytes_cancel: "length a \<le> length k \<Longrightarrow> xor_bytes (xor_bytes a k) k = a"
  by (auto simp: xor_bytes_def intro!: nth_equalityI)

lemma xor_char_inj: "xor_char a b = xor_char a c \<longleftrightarrow> b = c"
proof -
  have "xor_char x y = xor_char y x" for x y by (simp add: xor_char_def xor.commute)
  then show ?thesis by (metis xor_char_cancel)
qed

lemma xor_bytes_eq_iff:
  assumes "length a \<le> length k" "length a \<le> length l"
  shows "xor_bytes (xor_bytes a k) l = a \<longleftrightarrow> take (length a) k = take (length a) l"
proof -
  have "xor_char (xor_char x y) z = x \<longleftrightarrow> y = z" for x y z
    using xor_char_cancel [of x y] xor_char_inj [of "xor_char x y" z y] by metis
  with assms show ?thesis by (auto simp: xor_bytes_def list_eq_iff_nth_eq)
qed

section \<open>The counter block\<close>

definition be_val :: "string \<Rightarrow> nat" where "be_val b = le_val (rev b)"
definition be_bytes :: "nat \<Rightarrow> nat \<Rightarrow> string" where "be_bytes n x = rev (le_bytes n x)"

lemma drop_bit_8_unat: "unat (drop_bit 8 (x :: 64 word)) = unat x div 256"
  by (simp add: drop_bit_eq_div unat_div)

lemma and_FF_unat: "unat (x AND 0xFF :: 64 word) = unat x mod 256"
proof -
  have "x AND 0xFF = take_bit 8 x" using take_bit_eq_mask [of 8 x] by (simp add: mask_eq_exp_minus_1)
  then show ?thesis by (simp add: take_bit_eq_mod unat_mod)
qed

lemma le_bytes_le_val: "length b = n \<Longrightarrow> le_bytes n (le_val b) = b"
  using of_char_lt_256 by (induction b arbitrary: n) auto

lemma be_bytes_be_val: "length b = n \<Longrightarrow> be_bytes n (be_val b) = b"
  by (simp add: be_bytes_def be_val_def le_bytes_le_val)

lemma carry_split_16: "(c + u) div 16 = c div 16 + (c mod 16 + u) div 16" for c u :: nat
proof -
  have "c + u = (c mod 16 + u) + 16 * (c div 16)" by simp
  then show ?thesis by (metis add.commute div_mult_self2 zero_neq_numeral)
qed

lemma carry_split: "(c + u) div 256 = u div 256 + (c + u mod 256) div 256" for c u :: nat
proof -
  have "c + u = (c + u mod 256) + 256 * (u div 256)" by simp
  then show ?thesis by (metis add.commute div_mult_self2 zero_neq_numeral)
qed

text \<open>One round adds the counter to the byte and leaves the carry.\<close>

lemma iv_round:
  fixes x :: "64 word" and c :: char
  defines "t \<equiv> of_nat (of_char c) + (x AND 0xFF)"
  shows "unat (t AND 0xFF) = (of_char c + unat x) mod 256"
    and "unat (drop_bit 8 x + drop_bit 8 t) = (of_char c + unat x) div 256"
proof -
  have c: "unat (of_nat (of_char c) :: 64 word) = of_char c"
    by (subst unat_of_nat) (simp add: less_trans [OF of_char_lt_256])
  have lt: "(of_char c :: nat) + unat x mod 256 < 512"
    using add_strict_mono [OF of_char_lt_256 [of c] mod_less_divisor [of 256 "unat x"]] by simp
  then have s: "unat t = of_char c + unat x mod 256"
    using c by (simp add: t_def unat_word_ariths and_FF_unat)
  then show "unat (t AND 0xFF) = (of_char c + unat x) mod 256"
    by (simp add: and_FF_unat s mod_add_right_eq)
  have "unat x div 256 < 2 ^ 56" using unat_lt_64 [of x] by simp
  then have "unat x div 256 + (of_char c + unat x mod 256) div 256 < 2 ^ 64"
    using lt by simp
  then have "unat (drop_bit 8 x + drop_bit 8 t) = unat x div 256 + (of_char c + unat x mod 256) div 256"
    by (simp add: unat_word_ariths drop_bit_8_unat s)
  then show "unat (drop_bit 8 x + drop_bit 8 t) = (of_char c + unat x) div 256"
    by (simp only: carry_split [of "of_char c" "unat x"])
qed

lemma iv_loop_adds:
  "8 + k \<le> length iv \<Longrightarrow>
   iv_loop k iv x = take 8 iv @ be_bytes k (be_val (take k (drop 8 iv)) + unat x) @ drop (8 + k) iv"
proof (induction k arbitrary: iv x)
  case 0
  then show ?case by (simp add: be_bytes_def)
next
  case (Suc k)
  let ?c = "iv ! (8 + k)" and ?V = "be_val (take k (drop 8 iv))"
  have last: "take (Suc k) (drop 8 iv) = take k (drop 8 iv) @ [?c]"
    using Suc.prems by (simp add: take_Suc_conv_app_nth)
  then have val: "be_val (take (Suc k) (drop 8 iv)) = of_char ?c + 256 * ?V"
    by (simp add: be_val_def)
  have bytes: "be_bytes (Suc k) (of_char ?c + 256 * ?V + unat x) =
      be_bytes k (?V + (of_char ?c + unat x) div 256) @ [char_of ((of_char ?c + unat x) mod 256)]"
  proof -
    have "of_char ?c + 256 * ?V + unat x = (of_char ?c + unat x) + 256 * ?V" by simp
    then show ?thesis by (simp only: be_bytes_def le_bytes.simps) (simp add: add.commute)
  qed
  show ?case
  proof (cases "x = 0")
    case True
    have "take 8 iv @ take (Suc k) (drop 8 iv) @ drop (8 + Suc k) iv = iv"
      by (metis append_take_drop_id drop_drop add.commute)
    with True Suc.prems be_bytes_be_val [of "take (Suc k) (drop 8 iv)" "Suc k"] show ?thesis by simp
  next
    case False
    let ?iv = "iv[8 + k := char_of ((of_char ?c + unat x) mod 256)]"
    let ?x = "drop_bit 8 x + drop_bit 8 (of_nat (of_char ?c) + (x AND 0xFF))"
    have "iv_loop (Suc k) iv x = iv_loop k ?iv ?x"
      using False iv_round(1) [where x = x and c = ?c] by (simp add: Let_def)
    also have "\<dots> = take 8 ?iv @ be_bytes k (be_val (take k (drop 8 ?iv)) + unat ?x) @ drop (8 + k) ?iv"
      using Suc.prems by (intro Suc.IH) simp
    also have "\<dots> = take 8 iv @ be_bytes k (?V + (of_char ?c + unat x) div 256) @ [char_of ((of_char ?c + unat x) mod 256)] @ drop (Suc (8 + k)) iv"
      using Suc.prems iv_round(2) [where x = x and c = ?c] by (simp add: drop_update_swap upd_conv_take_nth_drop take_drop)
    finally show ?thesis using val bytes by simp
  qed
qed


lemma be_val_bytes: "be_val (be_bytes n x) = x mod 256 ^ n"
  by (simp add: be_val_def be_bytes_def le_val_le_bytes)

lemma length_be_bytes [simp]: "length (be_bytes n x) = n"
  by (simp add: be_bytes_def)

lemma le_bytes_mod: "le_bytes n (x mod 256 ^ n) = le_bytes n x"
  by (metis le_bytes_le_val le_val_le_bytes length_le_bytes)

lemma be_bytes_mod: "be_bytes n (x mod 256 ^ n) = be_bytes n x"
  by (simp add: be_bytes_def le_bytes_mod)

lemma le_bytes_append: "le_bytes (m + n) x = le_bytes m x @ le_bytes n (x div 256 ^ m)"
  by (induction m arbitrary: x) (simp_all add: div_mult2_eq)

lemma le_val_append: "le_val (a @ b) = le_val a + 256 ^ length a * le_val b"
  by (induction a) (simp_all add: algebra_simps)

text \<open>The counter block after \<^verbatim>\<open>offset / 16\<close> blocks: its upper half stays, the lower half is
  added to modulo \<open>2 ^ 64\<close>.\<close>

lemma advance_iv_low:
  assumes "length iv = 16"
  shows "advance_iv iv off = take 8 iv @ be_bytes 8 (be_val (drop 8 iv) + off div 16)"
proof -
  have "be_bytes 8 (V + unat (word_of_nat n :: 64 word)) = be_bytes 8 (V + n)" for V n
    using be_bytes_mod [of 8 "V + unat (word_of_nat n :: 64 word)"] be_bytes_mod [of 8 "V + n"]
    by (simp add: unat_of_nat mod_add_right_eq)
  then show ?thesis using assms iv_loop_adds [of 8 iv] by (simp add: advance_iv_def)
qed

lemma be_val_split: "length iv = 16 \<Longrightarrow> be_val iv = 256 ^ 8 * be_val (take 8 iv) + be_val (drop 8 iv)"
  using le_val_append [of "rev (drop 8 iv)" "rev (take 8 iv)"] by (simp add: be_val_def flip: rev_append)

lemma be_val_lt: "be_val b < 256 ^ length b"
  using be_bytes_be_val [of b "length b"] be_val_bytes [of "length b" "be_val b"]
  by (metis mod_less_divisor zero_less_numeral zero_less_power)

lemma eq_be_bytes: "length b = n \<Longrightarrow> b = be_bytes n y \<longleftrightarrow> be_val b = y mod 256 ^ n"
  by (metis be_bytes_be_val be_bytes_mod be_val_bytes)

lemma be_bytes_16: "be_bytes 16 x = be_bytes 8 (x div 256 ^ 8) @ be_bytes 8 x"
  using le_bytes_append [of 8 8 x] by (simp add: be_bytes_def)

lemma counter_halves:
  assumes "length iv = 16"
  shows "be_bytes 16 (be_val iv + n) =
    be_bytes 8 (be_val (take 8 iv) + (be_val (drop 8 iv) + n) div 256 ^ 8) @ be_bytes 8 (be_val (drop 8 iv) + n)"
proof -
  let ?H = "be_val (take 8 iv)" and ?t = "be_val (drop 8 iv) + n"
  have split: "be_val iv + n = ?t + 256 ^ 8 * ?H" using be_val_split [OF assms] by simp
  then have "(be_val iv + n) div 256 ^ 8 = ?H + ?t div 256 ^ 8" by (simp only: div_mult_self2) simp
  moreover have "be_bytes 8 (be_val iv + n) = be_bytes 8 ?t"
    using be_bytes_mod [of 8 "?t + 256 ^ 8 * ?H"] be_bytes_mod [of 8 ?t] split by (simp only: mod_mult_self2)
  ultimately show ?thesis by (simp add: be_bytes_16)
qed

text \<open>Moving to an offset adds its block number to the 128-bit big-endian counter of AES-CTR exactly if the
  lower 64 bits do not overflow: their carry is dropped.\<close>
theorem advance_iv_is_addition_iff:
  assumes "length iv = 16" and "off < 2 ^ 63"
  shows "advance_iv iv off = be_bytes 16 (be_val iv + off div 16) \<longleftrightarrow> be_val (drop 8 iv) + off div 16 < 2 ^ 64"
proof -
  let ?H = "be_val (take 8 iv)" and ?t = "be_val (drop 8 iv) + off div 16"
  have H: "?H < 256 ^ 8" "be_val (drop 8 iv) < 256 ^ 8"
    using be_val_lt [of "take 8 iv"] be_val_lt [of "drop 8 iv"] assms(1) by simp_all
  have "advance_iv iv off = be_bytes 16 (be_val iv + off div 16) \<longleftrightarrow> take 8 iv = be_bytes 8 (?H + ?t div 256 ^ 8)"
    using assms(1) by (simp add: advance_iv_low counter_halves)
  also have "\<dots> \<longleftrightarrow> ?H = (?H + ?t div 256 ^ 8) mod 256 ^ 8"
    using assms(1) by (intro eq_be_bytes) simp
  also have "\<dots> \<longleftrightarrow> ?t div 256 ^ 8 = 0"
  proof -
    have "?t div 256 ^ 8 \<le> 1" using H assms(2) by simp
    then consider "?t div 256 ^ 8 = 0" | "?t div 256 ^ 8 = 1" by linarith
    then show ?thesis
    proof cases
      case 2
      then show ?thesis using H by (cases "?H = 256 ^ 8 - 1") simp_all
    qed (use H in simp)
  qed
  finally show ?thesis by (simp add: div_eq_0_iff)
qed

lemma advance_iv_is_addition_iff_witness:
  "(advance_iv (replicate 16 CHR 0xFF) 16 = be_bytes 16 (be_val (replicate 16 CHR 0xFF) + 1))
     = (be_val (replicate 8 CHR 0xFF) + 1 < 2 ^ 64)"
  using advance_iv_is_addition_iff [of "replicate 16 CHR 0xFF" 16] by simp


section \<open>Random access\<close>

text \<open>AES-CTR, as documented: the stream is the concatenation of the encryptions of successive counters.\<close>

definition ctr_law :: "(string \<Rightarrow> string \<Rightarrow> string) \<Rightarrow> env \<Rightarrow> bool" where
  "ctr_law blk E \<longleftrightarrow> (\<forall>key c. length (blk key c) = 16) \<and>
     (\<forall>key iv n. length iv = 16 \<longrightarrow> e_ctr E key iv n = take n (concat (map (\<lambda>j. blk key (be_bytes 16 (be_val iv + j))) [0..<n])))"

lemma length_concat_blocks: "(\<And>j. length (g j) = k) \<Longrightarrow> length (concat (map g [0..<n])) = k * n"
  by (induction n) simp_all

lemma nth_concat_blocks:
  assumes "\<And>j. length (g j) = k" "m < k * n"
  shows "concat (map g [0..<n]) ! m = g (m div k) ! (m mod k)"
  using assms(2)
proof (induction n)
  case (Suc n)
  show ?case
  proof (cases "m < k * n")
    case True
    then show ?thesis using Suc by (simp add: nth_append length_concat_blocks [OF assms(1)])
  next
    case False
    then have "m div k = n" using Suc.prems by (intro div_nat_eqI) (simp_all add: algebra_simps)
    moreover then have "m mod k = m - k * n" using minus_mult_div_eq_mod [of m k] by simp
    ultimately
    show ?thesis using False Suc.prems by (simp add: nth_append length_concat_blocks [OF assms(1)])
  qed
qed simp

lemma ctr_length: "ctr_law blk E \<Longrightarrow> length iv = 16 \<Longrightarrow> length (e_ctr E key iv n) = n"
  by (simp add: ctr_law_def length_concat_blocks [where k = 16])

lemma ctr_nth:
  "ctr_law blk E \<Longrightarrow> length iv = 16 \<Longrightarrow> i < n \<Longrightarrow>
   e_ctr E key iv n ! i = blk key (be_bytes 16 (be_val iv + i div 16)) ! (i mod 16)"
  by (simp add: ctr_law_def nth_concat_blocks [where k = 16])

definition no_carry :: "string \<Rightarrow> nat \<Rightarrow> bool" where
  "no_carry iv n \<longleftrightarrow> be_val (drop 8 iv) + n div 16 < 2 ^ 64"

lemma advance_iv_exact:
  assumes "length iv = 16" "no_carry iv off"
  shows "advance_iv iv off = be_bytes 16 (be_val iv + off div 16)"
  using assms be_bytes_be_val [of "take 8 iv" 8] by (simp add: advance_iv_low counter_halves no_carry_def)

text \<open>The stream the code uses at an offset is the stream of the file from this offset on.\<close>

definition stream_at :: "env \<Rightarrow> string \<Rightarrow> string \<Rightarrow> nat \<Rightarrow> nat \<Rightarrow> string" where
  "stream_at E key iv off n = drop (off mod 16) (pad (off mod 16 + n) (e_ctr E key (advance_iv iv off) (off mod 16 + n)))"

lemma length_stream_at [simp]: "length (stream_at E key iv off n) = n"
  by (simp add: stream_at_def)

lemma stream_at_nth:
  assumes "ctr_law blk E" "length iv = 16" "no_carry iv off" "i < n"
  shows "stream_at E key iv off n ! i = blk key (be_bytes 16 (be_val iv + (off + i) div 16)) ! ((off + i) mod 16)"
proof -
  have blocks: "off div 16 + (off mod 16 + i) div 16 = (off + i) div 16" by (rule carry_split_16 [symmetric])
  have "be_bytes 16 (be_val (be_bytes 16 x) + j) = be_bytes 16 (x + j)" for x j
    using be_bytes_mod [of 16 "be_val (be_bytes 16 x) + j"] be_bytes_mod [of 16 "x + j"] by (simp add: be_val_bytes mod_add_left_eq)
  then show ?thesis
    using assms blocks ctr_nth [OF assms(1), of "advance_iv iv off" "off mod 16 + i" "off mod 16 + n" key]
    by (simp add: stream_at_def pad_short ctr_length [OF assms(1)] advance_iv_exact [OF assms(2,3)] add.assoc mod_add_left_eq)
qed

lemma stream_at_part:
  assumes "ctr_law blk E" "length iv = 16" "no_carry iv (off + k)" "k + n \<le> m"
  shows "stream_at E key iv (off + k) n = take n (drop k (stream_at E key iv off m))"
proof -
  have "off div 16 \<le> (off + k) div 16" by (rule div_le_mono) simp
  then have "no_carry iv off" using assms(3) by (simp add: no_carry_def)
  with assms show ?thesis
    by (intro nth_equalityI) (simp_all add: stream_at_nth [OF assms(1,2)] add.assoc)
qed

lemma wp_crypt_reliable:
  assumes "reliable E" "derive_key_for E (Some FUSE_PASSWORD) (v_salt v) ''file-encryption'' = Inr key"
    "\<And>t. Q (Some (xor_bytes data (stream_at E key (path_iv E True (v_salt v) path) off (length data)))) (w\<lparr>o_tick := t\<rparr>)"
  shows "wp (fuse_crypt_stream E v path off data) Q w"
proof (cases "data = []")
  case True
  then show ?thesis using assms(3) [of "o_tick w"] by (simp add: fuse_crypt_stream_def wp_simps xor_bytes_def)
next
  case False
  then show ?thesis using assms by (simp add: fuse_crypt_stream_def wp_simps Let_def stream_at_def)
qed

lemma length_path_iv [simp]: "length (path_iv E mem salt path) = 16"
  by (simp add: path_iv_def)


section \<open>Reading back\<close>

lemma no_carry_mono: "no_carry iv n \<Longrightarrow> m \<le> n \<Longrightarrow> no_carry iv m"
  using div_le_mono [of m n 16] by (simp add: no_carry_def)

text \<open>Vault \<open>i\<close> is protected, carries no write-once flag, and its file \<open>p\<close> is stored at \<open>q\<close>: a regular file, or
  no file yet.\<close>

definition serves :: "env \<Rightarrow> nat \<Rightarrow> string \<Rightarrow> string \<Rightarrow> string \<Rightarrow> world \<Rightarrow> bool" where
  "serves E i p q key w \<longleftrightarrow> v_type (vaults w ! i) = VAULT_TYPE_PROTECTED \<and> v_worm (vaults w ! i) = 0 \<and>
     derive_key_for E (Some FUSE_PASSWORD) (v_salt (vaults w ! i)) ''file-encryption'' = Inr key \<and>
     get_cipher_path (vaults w ! i) p = q \<and> search_err E (o_fs w) (parent_dir q) = None \<and>
     (case fs_get (o_fs w) q of None \<Rightarrow> True | Some n \<Rightarrow> i_type n = S_IFREG)"

definition stored :: "string \<Rightarrow> string \<Rightarrow> fs \<Rightarrow> bool" where
  "stored q b f \<longleftrightarrow> (case fs_get f q of None \<Rightarrow> False | Some n \<Rightarrow> i_type n = S_IFREG \<and> i_data n = b)"

lemma resolve_plain:
  assumes "case fs_get f q of None \<Rightarrow> True | Some n \<Rightarrow> i_type n = S_IFREG"
  shows "resolve SYMLOOP_MAX f q = Inr q"
proof -
  obtain k where k: "SYMLOOP_MAX = Suc k" by (rule that [of 39]) (simp add: SYMLOOP_MAX_def)
  show ?thesis unfolding k using assms by (auto split: option.splits)
qed

lemma not_own_parent:
  "search_err E f (parent_dir q) = None \<Longrightarrow> (case fs_get f q of None \<Rightarrow> True | Some n \<Rightarrow> i_type n = S_IFREG) \<Longrightarrow> parent_dir q \<noteq> q"
  by (auto simp: search_err_def split: option.splits if_splits)

lemma open_for_writing:
  assumes "e_euid E = 0" "search_err E f (parent_dir q) = None" "case fs_get f q of None \<Rightarrow> True | Some n \<Rightarrow> i_type n = S_IFREG"
  shows "\<exists>n. fs_open E q (O_WRONLY OR O_CREAT) m f = (Inr q, fs_put q n f) \<and> i_type n = S_IFREG"
proof -
  have "write_err E f (parent_dir q) = None"
    using assms(1,2) by (auto simp: search_err_def write_err_def may_def split: option.splits if_splits)
  then show ?thesis
    using assms resolve_plain [OF assms(3)]
    by (auto simp: fs_open_def open_target_def flag_set_def o_flags may_def wants_write_def wants_read_def split: option.splits) (metis fs_put_same)
qed

lemma content_write_at: "fs_get f q \<noteq> None \<Longrightarrow> fs_content (fs_write_at q off b f) q = splice off b (fs_content f q)"
  by (auto simp: fs_content_def fs_write_at_def)

lemma search_put: "q \<noteq> d \<Longrightarrow> search_err E (fs_put q n f) d = search_err E f d"
  by (simp add: search_err_def)

lemma wp_pwrite_reliable:
  "reliable E \<Longrightarrow> Q (Inr (length b)) (w\<lparr>o_tick := Suc (o_tick w), o_fs := fs_write_at q off b (o_fs w)\<rparr>) \<Longrightarrow> wp (sys_pwrite E q off b) Q w"
  by (simp add: sys_pwrite_def wp_simps Let_def)

lemma wp_pread_reliable:
  "reliable E \<Longrightarrow> Q (Inr (take n (drop off (fs_content (o_fs w) q)))) (w\<lparr>o_tick := Suc (o_tick w)\<rparr>) \<Longrightarrow> wp (sys_pread E q off n) Q w"
  by (simp add: sys_pread_def wp_simps Let_def)

lemma wp_alloc_reliable: "reliable E \<Longrightarrow> Q True (w\<lparr>o_tick := Suc (o_tick w)\<rparr>) \<Longrightarrow> wp (alloc_ok E) Q w"
  by (simp add: wp_simps)

abbreviation file_stream :: "env \<Rightarrow> string \<Rightarrow> string \<Rightarrow> string \<Rightarrow> nat \<Rightarrow> nat \<Rightarrow> string" where
  "file_stream E key salt p \<equiv> stream_at E key (path_iv E True salt p)"

text \<open>What a write leaves in the cipher directory, and what a read makes of a stored file.\<close>

lemma write_stores:
  assumes "reliable E" "e_euid E = 0" "serves E i p q key w"
  shows "wp (vfuse_write E i p b off) (\<lambda>r u. r = Inr (length b) \<and> g_catalog u = g_catalog w \<and> serves E i p q key u \<and>
     take (length b) (drop off (fs_content (o_fs u) q)) = xor_bytes b (file_stream E key (v_salt (vaults w ! i)) p off (length b))) w"
proof -
  let ?v = "vaults w ! i"
  let ?enc = "xor_bytes b (file_stream E key (v_salt ?v) p off (length b))"
  have v: "v_type ?v = VAULT_TYPE_PROTECTED" "v_worm ?v = 0" "get_cipher_path ?v p = q"
      "derive_key_for E (Some FUSE_PASSWORD) (v_salt ?v) ''file-encryption'' = Inr key"
    and f: "search_err E (o_fs w) (parent_dir q) = None" "case fs_get (o_fs w) q of None \<Rightarrow> True | Some n \<Rightarrow> i_type n = S_IFREG"
    using assms(3) by (simp_all add: serves_def)
  obtain n where n: "fs_open E q (O_WRONLY OR O_CREAT) MODE_0600 (o_fs w) = (Inr q, fs_put q n (o_fs w))" "i_type n = S_IFREG"
    using open_for_writing [OF assms(2) f] by blast
  have nil: "xor_bytes [] c = []" for c by (simp add: xor_bytes_def)
  have part: "take (length b) (drop off (splice off ?enc d)) = ?enc" for d by (simp add: splice_def)
  have post: "serves E i p q key (w\<lparr>o_tick := t, o_fs := fs_write_at q off ?enc (fs_put q n (o_fs w))\<rparr>)" for t
    using assms(3) n(2) not_own_parent [OF f] by (simp add: serves_def fs_write_at_def search_put)
  have opened: "wp (sys_open E q (O_WRONLY OR O_CREAT) MODE_0600) (\<lambda>r u. r = Inr q \<and> (\<exists>t. u = w\<lparr>o_tick := t, o_fs := fs_put q n (o_fs w)\<rparr>)) w"
    using assms(1) n(1) by (auto simp: wp_syscall)
  have written: "wp (write_fd E ?v p q b off) (\<lambda>r u. r = Inr (length b) \<and> (\<exists>t. u = w\<lparr>o_tick := t, o_fs := fs_write_at q off ?enc (fs_put q n (o_fs w))\<rparr>))
      (w\<lparr>o_tick := t, o_fs := fs_put q n (o_fs w)\<rparr>)" for t
    using assms(1) v
    by (cases "b = []", auto simp: write_fd_def wp_bind wp_return nil
        intro!: wp_pwrite_reliable wp_alloc_reliable wp_crypt_reliable [where key = key]) (rule exI, rule refl)+
  show ?thesis
    unfolding vfuse_write_def wp_bind wp_get_vault v(3)
    using v(2) by (auto simp: worm_check_def wp_bind post content_write_at part intro!: wp_mono [OF opened] wp_mono [OF written])
qed

lemma read_decrypts:
  assumes "reliable E" "e_euid E = 0" "serves E i p q key w" "fs_get (o_fs w) q \<noteq> None"
  shows "wp (vfuse_read E i p n off) (\<lambda>r u. g_catalog u = g_catalog w \<and> o_fs u = o_fs w \<and> (let c = take n (drop off (fs_content (o_fs w) q)) in
     r = Inr (xor_bytes c (file_stream E key (v_salt (vaults w ! i)) p off (length c))))) w"
proof -
  let ?v = "vaults w ! i"
  have v: "v_type ?v = VAULT_TYPE_PROTECTED" "v_worm ?v = 0" "get_cipher_path ?v p = q"
      "derive_key_for E (Some FUSE_PASSWORD) (v_salt ?v) ''file-encryption'' = Inr key"
    and f: "search_err E (o_fs w) (parent_dir q) = None" "case fs_get (o_fs w) q of None \<Rightarrow> True | Some n \<Rightarrow> i_type n = S_IFREG"
    using assms(3) by (simp_all add: serves_def)
  have "fs_open E q 0 0 (o_fs w) = (Inr q, o_fs w)"
    using assms(2,4) f resolve_plain [OF f(2)]
    by (auto simp: fs_open_def open_target_def flag_set_def may_def wants_write_def wants_read_def split: option.splits)
  then show ?thesis
    unfolding vfuse_read_def wp_bind wp_get_vault
    using assms(1) v
    by (auto simp: worm_check_def wp_syscall wp_bind wp_return Let_def xor_bytes_def intro!: wp_pread_reliable wp_crypt_reliable)
qed

text \<open>C22: Through the mount of a protected vault, what was written at an offset is read back, also in part and
  from the middle, as long as the counter of the file does not overflow its lower half.\<close>
theorem written_bytes_read_back:
  assumes "reliable E" "e_euid E = 0" "ctr_law blk E" "serves E i p q key w"
    and "no_carry (path_iv E True (v_salt (vaults w ! i)) p) (off + length b)" and "k + n \<le> length b" "b \<noteq> []"
  shows "wp (do { _ \<leftarrow> vfuse_write E i p b off; vfuse_read E i p n (off + k) }) (\<lambda>r _. r = Inr (take n (drop k b))) w"
proof -
  let ?s = "file_stream E key (v_salt (vaults w ! i)) p"
  have n: "n \<le> length b - k" using assms(6) by simp
  have nc: "no_carry (path_iv E True (v_salt (vaults w ! i)) p) (off + k)" using no_carry_mono [OF assms(5)] assms(6) by simp
  show ?thesis
    unfolding wp_bind
  proof (rule wp_mono [OF write_stores [OF assms(1,2,4)]], elim conjE)
    fix u :: world assume u: "g_catalog u = g_catalog w" "serves E i p q key u"
      "take (length b) (drop off (fs_content (o_fs u) q)) = xor_bytes b (?s off (length b))"
    from u(3) have "take n (drop k (take (length b) (drop off (fs_content (o_fs u) q)))) = take n (drop k (xor_bytes b (?s off (length b))))" by simp
    then have c: "take n (drop (off + k) (fs_content (o_fs u) q)) = take n (drop k (xor_bytes b (?s off (length b))))"
      using n by (simp add: drop_take add.commute min_absorb1)
    have len: "length (take n (drop k (xor_bytes b (?s off (length b))))) = n" using assms(6) by simp
    have ex: "fs_get (o_fs u) q \<noteq> None" using arg_cong [OF u(3), of length] assms(7) by (auto simp: fs_content_def split: option.splits)
    have x: "xor_bytes (take n (drop k (xor_bytes b (?s off (length b))))) (?s (off + k) n) = take n (drop k b)"
      using stream_at_part [OF assms(3) _ nc assms(6)] assms(6)
      by (simp add: xor_bytes_def list_eq_iff_nth_eq)
    show "wp (vfuse_read E i p n (off + k)) (\<lambda>r _. r = Inr (take n (drop k b))) u"
      by (rule wp_mono [OF read_decrypts [OF assms(1,2) u(2) ex]], elim conjE, simp only: Let_def c len u(1) x)
  qed
qed

end
