(* ===== verification/Mount_Life.thy ===== *)
theory Mount_Life
  imports Fuse_Stream
begin

text \<open>
  The life of a mount: what a rename does to an encrypted file, what mounting reports against what it
  leaves behind, paths that can never be confirmed, and the exit handler that seals every cipher directory.
\<close>

section \<open>Renaming an encrypted file\<close>

lemma rename_moves:
  assumes "e_euid E = 0" "search_err E f (parent_dir qa) = None" "search_err E f (parent_dir qb) = None"
    "fs_get f qa = Some n" "i_type n = S_IFREG" "case fs_get f qb of None \<Rightarrow> True | Some m \<Rightarrow> i_type m = S_IFREG" "qa \<noteq> qb"
  shows "fs_rename E qa qb f = (Inr (), fs_put qb n (fs_del qa f))"
proof -
  have "write_err E f (parent_dir q) = None" if "search_err E f (parent_dir q) = None" for q
    using that assms(1) by (auto simp: search_err_def write_err_def may_def split: option.splits if_splits)
  then show ?thesis using assms by (auto simp: fs_rename_def move_node_def split: option.splits)
qed

text \<open>The counter of a file comes from its path, so a rename through the mount of a protected vault leaves the
  stored bytes under a key stream they were not encrypted with: the file reads back as it was only if the streams of
  the two paths agree on its whole length.\<close>
theorem rename_garbles_content:
  assumes "reliable E" "e_euid E = 0" "serves E i a qa key w" "serves E i b qb key w" "qa \<noteq> qb"
    and "stored qa (xor_bytes d (file_stream E key (v_salt (vaults w ! i)) a 0 (length d))) (o_fs w)"
  shows "wp (do { _ \<leftarrow> vfuse_rename E i a b; vfuse_read E i b (length d) 0 }) (\<lambda>r _. r = Inr d \<longleftrightarrow>
     file_stream E key (v_salt (vaults w ! i)) a 0 (length d) = file_stream E key (v_salt (vaults w ! i)) b 0 (length d)) w"
proof -
  let ?v = "vaults w ! i" and ?sa = "file_stream E key (v_salt (vaults w ! i)) a 0 (length d)"
    and ?sb = "file_stream E key (v_salt (vaults w ! i)) b 0 (length d)"
  obtain n where n: "fs_get (o_fs w) qa = Some n" "i_type n = S_IFREG" "i_data n = xor_bytes d ?sa"
    using assms(6) by (auto simp: stored_def split: option.splits)
  have v: "v_worm ?v = 0" "get_cipher_path ?v a = qa" "get_cipher_path ?v b = qb"
    and fa: "search_err E (o_fs w) (parent_dir qa) = None" and fb: "search_err E (o_fs w) (parent_dir qb) = None"
      "case fs_get (o_fs w) qb of None \<Rightarrow> True | Some m \<Rightarrow> i_type m = S_IFREG"
    using assms(3,4) by (simp_all add: serves_def)
  let ?f = "fs_put qb n (fs_del qa (o_fs w))"
  have "parent_dir qb \<noteq> qa" using fb(1) n(1,2) by (auto simp: search_err_def)
  then have post: "serves E i b qb key (w\<lparr>o_tick := t, o_fs := ?f\<rparr>)" for t
    using assms(4) n(2) not_own_parent [OF fb] by (simp add: serves_def search_err_def fs_get_put fs_get_del)
  show ?thesis
    unfolding wp_bind
  proof (rule wp_mono)
    show "wp (vfuse_rename E i a b) (\<lambda>_ u. \<exists>t. u = w\<lparr>o_tick := t, o_fs := ?f\<rparr>) w"
      using assms(1) v rename_moves [OF assms(2) fa fb(1) n(1,2) fb(2) assms(5)]
      by (auto simp: vfuse_rename_def wp_bind wp_get_vault Let_def worm_check_def wp_return wp_syscall)
  next
    fix u :: world assume "\<exists>t. u = w\<lparr>o_tick := t, o_fs := ?f\<rparr>"
    then obtain t where u: "u = w\<lparr>o_tick := t, o_fs := ?f\<rparr>" by blast
    have c: "take (length d) (drop 0 (fs_content (o_fs u) qb)) = xor_bytes d ?sa" "fs_get (o_fs u) qb \<noteq> None" "vaults u = vaults w"
      using n(3) by (simp_all add: u fs_content_def xor_bytes_def)
    have len: "length (xor_bytes d ?sa) = length d" by simp
    have iff: "xor_bytes (xor_bytes d ?sa) ?sb = d \<longleftrightarrow> ?sa = ?sb"
      using xor_bytes_eq_iff [of d ?sa ?sb] by simp
    show "wp (vfuse_read E i b (length d) 0) (\<lambda>r _. r = Inr d \<longleftrightarrow> ?sa = ?sb) u"
      by (rule wp_mono [OF read_decrypts [OF assms(1,2) post [of t, folded u] c(2)]], elim conjE)
         (simp only: Let_def c(1,3) len sum.inject iff)
  qed
qed

section \<open>When the encryption fails\<close>

text \<open>C21: When the key cannot be derived, a write to a protected vault stores the bytes unencrypted in the cipher
  directory and reports success.\<close>
theorem failed_encryption_stores_plaintext:
  assumes "reliable E" "e_euid E = 0" "v_worm (vaults w ! i) = 0" "get_cipher_path (vaults w ! i) p = q"
    and "derive_key_for E (Some FUSE_PASSWORD) (v_salt (vaults w ! i)) ''file-encryption'' = Inl err"
    and "search_err E (o_fs w) (parent_dir q) = None" "fs_get (o_fs w) q = None"
  shows "wp (vfuse_write E i p b 0) (\<lambda>r u. r = Inr (length b) \<and> stored q b (o_fs u)) w"
proof -
  obtain n where n: "fs_open E q (O_WRONLY OR O_CREAT) MODE_0600 (o_fs w) = (Inr q, fs_put q n (o_fs w))" "i_type n = S_IFREG" "i_data n = []"
    using assms(2,6,7) resolve_plain [of "o_fs w" q]
    by (auto simp: fs_open_def open_target_def flag_set_def o_flags search_err_def write_err_def may_def split: option.splits if_splits)
  have opened: "wp (sys_open E q (O_WRONLY OR O_CREAT) MODE_0600) (\<lambda>r u. r = Inr q \<and> (\<exists>t. u = w\<lparr>o_tick := t, o_fs := fs_put q n (o_fs w)\<rparr>)) w"
    using assms(1) n(1) by (auto simp: wp_syscall)
  have written: "wp (write_fd E (vaults w ! i) p q b 0) (\<lambda>r u. r = Inr (length b) \<and> stored q b (o_fs u))
      (w\<lparr>o_tick := t, o_fs := fs_put q n (o_fs w)\<rparr>)" for t
    using assms(1,5) n(2,3)
    by (cases "b = []", auto simp: write_fd_def wp_bind wp_return fuse_crypt_stream_def stored_def fs_write_at_def splice_def
        intro!: wp_pwrite_reliable wp_alloc_reliable)
  show ?thesis
    unfolding vfuse_write_def wp_bind wp_get_vault assms(4)
    using assms(3) by (auto simp: worm_check_def wp_bind intro!: wp_mono [OF opened] wp_mono [OF written])
qed

section \<open>Mounting\<close>

lemma wp_loop_enter: "wp (fuse_loop_enter E i) (\<lambda>_ u. vaults u = vaults w) w"
  by (simp add: fuse_loop_enter_def wp_simps split: option.splits)

lemma wp_loop_exit: "wp (fuse_loop_exit E i) (\<lambda>_ u. vaults u = (vaults w)[i := (vaults w ! i)\<lparr>v_mounted := False\<rparr>]) w"
  by (simp add: fuse_loop_exit_def wp_simps split: option.splits)

lemma wp_chmod_vaults: "wp (sys_chmod E p m) (\<lambda>_ u. vaults u = vaults w) w"
  by (simp add: wp_simps split: option.splits)

text \<open>From the running thread on.\<close>

lemma wp_mount_check:
  assumes "i < length (vaults w)" "v_mounted (vaults w ! i)"
  shows "wp (do { fuse_loop_enter E i;
               if \<not> ok then do { fuse_loop_exit E i; _ \<leftarrow> sys_chmod E p MODE_0000; mod_vault i (\<lambda>v. v\<lparr>v_mounted := False\<rparr>); return ERR_IO }
               else return ERR_OK }) (\<lambda>r u. v_mounted (vaults u ! i) = (r = ERR_OK) \<and> (r \<noteq> ERR_OK \<or> ok)) w"
  unfolding wp_bind
proof (rule wp_mono [OF wp_loop_enter])
  fix s :: world assume s: "vaults s = vaults w"
  show "wp (if \<not> ok then do { fuse_loop_exit E i; _ \<leftarrow> sys_chmod E p MODE_0000; mod_vault i (\<lambda>v. v\<lparr>v_mounted := False\<rparr>); return ERR_IO }
               else return ERR_OK) (\<lambda>r u. v_mounted (vaults u ! i) = (r = ERR_OK) \<and> (r \<noteq> ERR_OK \<or> ok)) s"
  proof (cases ok)
    case False
    then show ?thesis
      using s assms by (auto simp: wp_bind wp_mod_vault wp_return intro!: wp_mono [OF wp_loop_exit] wp_mono [OF wp_chmod_vaults])
  qed (use s assms in \<open>simp add: wp_return\<close>)
qed

text \<open>Whatever fails on the way, mounting leaves the mounted mark set exactly if it reports success, and it
  reports success only for a vault that was mounted before or whose path was found in the mount table.\<close>
theorem mount_flag_iff_success:
  assumes "i < length (vaults w)"
  shows "wp (vault_fuse_mount E mounts i) (\<lambda>r u. v_mounted (vaults u ! i) = (r = ERR_OK) \<and>
     (r \<noteq> ERR_OK \<or> v_mounted (vaults w ! i) \<or> mount_confirmed mounts (v_path (vaults w ! i)))) w"
proof -
  let ?v = "vaults w ! i" and ?ok = "mount_confirmed mounts (v_path (vaults w ! i))"
  have tail: "wp (do { fuse_loop_enter E i;
               if \<not> ?ok then do { fuse_loop_exit E i; _ \<leftarrow> sys_chmod E (v_cipher ?v) MODE_0000; mod_vault i (\<lambda>v. v\<lparr>v_mounted := False\<rparr>); return ERR_IO }
               else return ERR_OK }) (\<lambda>r u. v_mounted (vaults u ! i) = (r = ERR_OK) \<and> (r \<noteq> ERR_OK \<or> v_mounted ?v \<or> ?ok)) s"
    if "i < length (vaults s)" "v_mounted (vaults s ! i)" for s
    by (rule wp_mono [OF wp_mount_check [OF that]]) blast
  show ?thesis
    using assms unfolding vault_fuse_mount_def wp_bind wp_get_vault wp_if wp_lib_ok wp_alloc_ok wp_return wp_mod_vault
    by (simp add: tail [unfolded wp_bind wp_if wp_return wp_mod_vault])
qed

lemma mount_line_no_space:
  assumes "mount_line_is path line" "c \<in> set path"
  shows "\<not> scan_space c"
proof -
  obtain t n where "path = take n (takeWhile (\<lambda>c. \<not> scan_space c) t)"
    using assms(1) by (auto simp: mount_line_is_def scan_word_def Let_def)
  then show ?thesis using assms(2) by (auto dest: in_set_takeD set_takeWhileD)
qed

text \<open>A vault whose path contains white space can never be mounted: the line of the mount table is split at
  white space, so the path is never recognised and the mount is undone.\<close>
theorem spaced_path_never_mounts:
  assumes "c \<in> set (v_path (vaults w ! i))" "scan_space c" "\<not> v_mounted (vaults w ! i)"
  shows "wp (vault_fuse_mount E mounts i) (\<lambda>r _. r \<noteq> ERR_OK) w"
proof -
  have "\<not> mount_confirmed mounts (v_path (vaults w ! i))"
    using mount_line_no_space [OF _ assms(1)] assms(2) by (auto simp: mount_confirmed_def list_ex_iff split: option.splits)
  then show ?thesis
    using assms(3) by (auto simp: vault_fuse_mount_def fuse_loop_enter_def fuse_loop_exit_def wp_simps split: option.splits)
qed

section \<open>The exit handler\<close>

text \<open>Every inode is what it was, or has lost all its permissions.\<close>

definition sealed_from :: "inode option \<Rightarrow> inode option \<Rightarrow> bool" where
  "sealed_from x y \<longleftrightarrow> y = x \<or> (\<exists>n. x = Some n \<and> y = Some (n\<lparr>i_mode := MODE_0000\<rparr>))"

definition resealed :: "fs \<Rightarrow> fs \<Rightarrow> bool" where
  "resealed f g \<longleftrightarrow> (\<forall>p. sealed_from (fs_get f p) (fs_get g p))"

definition is_sealed :: "inode option \<Rightarrow> bool" where
  "is_sealed x \<longleftrightarrow> (case x of None \<Rightarrow> True | Some n \<Rightarrow> i_type n = S_IFLNK \<or> i_mode n AND MODE_0777 = 0)"

lemma resealed_refl [simp]: "resealed f f"
  by (simp add: resealed_def sealed_from_def)

lemma resealed_put: "resealed f g \<Longrightarrow> fs_get g p = Some n \<Longrightarrow> resealed f (fs_put p (n\<lparr>i_mode := MODE_0000\<rparr>) g)"
proof -
  assume r: "resealed f g" and n: "fs_get g p = Some n"
  from r have "sealed_from (fs_get f p) (Some n)" by (metis n resealed_def)
  then have "sealed_from (fs_get f p) (Some (n\<lparr>i_mode := MODE_0000\<rparr>))"
    by (cases "fs_get f p") (auto simp: sealed_from_def)
  with r show ?thesis by (simp add: resealed_def fs_get_put)
qed

lemma sealed_kept: "sealed_from x y \<Longrightarrow> is_sealed x \<Longrightarrow> is_sealed y"
  by (auto simp: sealed_from_def is_sealed_def MODE_0000_def split: option.splits)


lemma resealed_search:
  assumes "resealed f g" "e_euid E = 0"
  shows "search_err E g d = search_err E f d"
proof -
  have "sealed_from (fs_get f d) (fs_get g d)" using assms(1) by (simp add: resealed_def)
  with assms(2) show ?thesis by (cases "fs_get f d"; cases "fs_get g d") (auto simp: sealed_from_def search_err_def may_def)
qed

lemma resealed_resolve_regular: "fs_get f q = Some n \<Longrightarrow> i_type n \<noteq> S_IFLNK \<Longrightarrow> resolve SYMLOOP_MAX f q = Inr q"
proof -
  obtain k where k: "SYMLOOP_MAX = Suc k" by (rule that [of 39]) (simp add: SYMLOOP_MAX_def)
  show "fs_get f q = Some n \<Longrightarrow> i_type n \<noteq> S_IFLNK \<Longrightarrow> resolve SYMLOOP_MAX f q = Inr q" unfolding k by simp
qed

text \<open>\<^verbatim>\<open>stat\<close> and \<^verbatim>\<open>chmod\<close> on a path: both reach the same inode, or both fail.\<close>

lemma chmod_0000:
  assumes "resealed f g"
  shows "resealed f (snd (fs_chmod E p MODE_0000 g))"
  using assms by (auto simp: fs_chmod_def resealed_put split: sum.splits option.splits)

lemma chmod_seals:
  assumes "e_euid E = 0" "search_err E g (parent_dir p) = None" "\<not> is_sealed (fs_get g p)"
  shows "is_sealed (fs_get (snd (fs_chmod E p MODE_0000 g)) p)"
proof -
  obtain n where n: "fs_get g p = Some n" "i_type n \<noteq> S_IFLNK" using assms(3) by (auto simp: is_sealed_def split: option.splits)
  show ?thesis using assms(1,2) n resealed_resolve_regular [OF n] by (simp add: fs_chmod_def is_sealed_def MODE_0000_def)
qed

lemma stat_open:
  assumes "search_err E g (parent_dir p) = None" "\<not> is_sealed (fs_get g p)"
  shows "\<exists>n. fs_stat E p g = (Inr n, g) \<and> i_mode n AND MODE_0777 \<noteq> 0"
proof -
  obtain n where n: "fs_get g p = Some n" "i_type n \<noteq> S_IFLNK" "i_mode n AND MODE_0777 \<noteq> 0"
    using assms(2) by (auto simp: is_sealed_def split: option.splits)
  then show ?thesis using assms(1) resealed_resolve_regular [OF n(1,2)] by (simp add: fs_stat_def fs_lstat_def)
qed

lemma wp_seal_vault:
  assumes "reliable E" "e_euid E = 0" "resealed f (o_fs w)"
    and "v_cipher (vaults w ! k) \<noteq> []" "search_err E f (parent_dir (v_cipher (vaults w ! k))) = None"
  shows "wp (seal_vault E k) (\<lambda>_ u. resealed f (o_fs u) \<and> resealed (o_fs w) (o_fs u) \<and> is_sealed (fs_get (o_fs u) (v_cipher (vaults w ! k)))
     \<and> vaults u = (vaults w)[k := (vaults w ! k)\<lparr>v_mounted := False\<rparr>]) w"
proof -
  let ?p = "v_cipher (vaults w ! k)"
  have s: "search_err E (o_fs w) (parent_dir ?p) = None" using resealed_search [OF assms(3,2)] assms(5) by simp
  have ro: "snd (fs_stat E ?p (o_fs w)) = o_fs w" using read_only_stat [of E ?p] by (simp add: read_only_def)
  have seal: "is_sealed (fs_get (snd (fs_chmod E ?p MODE_0000 (o_fs w))) ?p)"
    using chmod_seals [OF assms(2) s] sealed_kept chmod_0000 [OF resealed_refl, where f = "o_fs w" and E = E and p = ?p] by (auto simp: resealed_def)
  show ?thesis
  proof (cases "is_sealed (fs_get (o_fs w) ?p)")
    case True
    then show ?thesis
      using assms(1,3,4) seal chmod_0000 [OF assms(3)] chmod_0000 [OF resealed_refl]
      by (auto simp: seal_vault_def wp_simps ro split: sum.splits)
  next
    case False
    with stat_open [OF s] obtain n where "fs_stat E ?p (o_fs w) = (Inr n, o_fs w)" "i_mode n AND MODE_0777 \<noteq> 0" by blast
    then show ?thesis
      using assms(1,3,4) seal chmod_0000 [OF assms(3)] chmod_0000 [OF resealed_refl] by (simp add: seal_vault_def wp_simps)
  qed
qed

text \<open>C23: When the process ends, the exit handler leaves no vault mounted and no cipher directory accessible:
  every one that exists has lost all its permission bits.\<close>
theorem exit_seals_every_vault:
  assumes "reliable E" "e_euid E = 0"
    and "\<forall>v \<in> set (vaults w). v_cipher v \<noteq> [] \<and> search_err E (o_fs w) (parent_dir (v_cipher v)) = None"
  shows "wp (vault_fuse_seal_all_on_exit E) (\<lambda>_ u. length (vaults u) = length (vaults w) \<and>
     list_all (\<lambda>v. \<not> v_mounted v \<and> is_sealed (fs_get (o_fs u) (v_cipher v))) (vaults u)) w"
proof -
  let ?n = "length (vaults w)"
  define I where "I k u \<longleftrightarrow> resealed (o_fs w) (o_fs u) \<and> length (vaults u) = ?n \<and> (\<forall>j < ?n. v_cipher (vaults u ! j) = v_cipher (vaults w ! j))
     \<and> (\<forall>j < k. \<not> v_mounted (vaults u ! j) \<and> is_sealed (fs_get (o_fs u) (v_cipher (vaults u ! j))))" for k and u :: world
  have step: "wp (seal_vault E k) (\<lambda>_. I (Suc k)) t" if "k < ?n" "I k t" for k t
  proof -
    have c: "v_cipher (vaults t ! k) = v_cipher (vaults w ! k)" "resealed (o_fs w) (o_fs t)" using that by (simp_all add: I_def)
    have "vaults w ! k \<in> set (vaults w)" using that(1) by simp
    with assms(3) have "v_cipher (vaults w ! k) \<noteq> []" "search_err E (o_fs w) (parent_dir (v_cipher (vaults w ! k))) = None" by blast+
    then have post: "wp (seal_vault E k) (\<lambda>_ u. resealed (o_fs w) (o_fs u) \<and> resealed (o_fs t) (o_fs u) \<and> is_sealed (fs_get (o_fs u) (v_cipher (vaults t ! k)))
       \<and> vaults u = (vaults t)[k := (vaults t ! k)\<lparr>v_mounted := False\<rparr>]) t"
      using c by (intro wp_seal_vault [OF assms(1,2) c(2)]) simp_all
    show ?thesis
    proof (rule wp_mono [OF post], elim conjE)
      fix u :: world assume u: "resealed (o_fs w) (o_fs u)" "resealed (o_fs t) (o_fs u)" "is_sealed (fs_get (o_fs u) (v_cipher (vaults t ! k)))"
        "vaults u = (vaults t)[k := (vaults t ! k)\<lparr>v_mounted := False\<rparr>]"
      have "is_sealed (fs_get (o_fs u) p)" if "is_sealed (fs_get (o_fs t) p)" for p
        using sealed_kept [OF _ that] u(2) by (simp add: resealed_def)
      then show "I (Suc k) u"
        using u(1,3,4) that by (auto simp: I_def nth_list_update less_Suc_eq)
    qed
  qed
  have "I 0 w" by (simp add: I_def)
  from wp_for_each_upt [where I = I, OF step this] have "wp (for_each [0..<?n] (seal_vault E)) (\<lambda>_. I ?n) w" .
  then show ?thesis
    unfolding vault_fuse_seal_all_on_exit_def wp_bind wp_gets
    by (rule wp_mono) (auto simp: I_def list_all_length)
qed


section \<open>Examples\<close>

text \<open>A counter mode whose block cipher is the identity, and a digest that starts with the end of its input.\<close>

definition ctr_env :: env where
  "ctr_env = ex_env\<lparr>e_ctr := \<lambda>key iv n. take n (concat (map (\<lambda>j. be_bytes 16 (be_val iv + j)) [0..<n])), e_sha256 := \<lambda>d. pad 32 (rev d)\<rparr>"

definition ctr_world :: world where
  "ctr_world = (upd_vaults (\<lambda>vs. vs[0 := (vs ! 0)\<lparr>v_type := VAULT_TYPE_PROTECTED\<rparr>]) ex_world)
     \<lparr>o_fs := fs_put ''/k/docs/a'' (ex_file (xor_bytes ''x'' (file_stream ctr_env (pad 32 FUSE_PASSWORD) (replicate 32 NUL) ''/a'' 0 1))) ex_fs\<rparr>"


lemma ctr_env_facts: "reliable ctr_env" "e_euid ctr_env = 0" "ctr_law (\<lambda>key c. pad 16 c) ctr_env"
  by (simp_all add: ctr_env_def reliable_def ex_env_def ctr_law_def pad_short)

lemma ctr_key: "derive_key_for ctr_env (Some pw) salt s = Inr (pad 32 pw)"
  by (simp add: derive_key_for_def ctr_env_def ex_env_def sizes pad_short [of "pad 32 pw"])

lemma ctr_world_simps [simp]: "vaults ctr_world = [ex_vault\<lparr>v_type := VAULT_TYPE_PROTECTED\<rparr>]"
  by (simp add: ctr_world_def)

lemma ctr_salt: "v_salt ex_vault = replicate 32 NUL"
  by (simp add: ex_vault_def zero_vault_def SALT_LEN_def)

lemma ctr_serves:
  "serves ctr_env 0 ''/a'' ''/k/docs/a'' (pad 32 FUSE_PASSWORD) ctr_world"
  "serves ctr_env 0 ''/b'' ''/k/docs/b'' (pad 32 FUSE_PASSWORD) ctr_world"
  by (simp_all add: serves_def ctr_key get_cipher_path_def cbuf_def sizes)
     (simp_all add: ctr_world_def search_err_def parent_dir_def fs_get_put may_def ctr_env_facts(2) ex_fs_def fs_get_def ex_file_def ex_dir_def
       fs_put_def)

lemma ctr_iv: "path_iv ctr_env True (replicate 32 NUL) [CHR ''/'', c] = c # CHR ''/'' # replicate 14 NUL"
  by (simp add: path_iv_def ctr_env_def pad_def sizes)

lemma le_val_zeros: "le_val (replicate n NUL) = 0"
  by (induction n) simp_all

lemma ctr_no_carry: "n < 16 \<Longrightarrow> no_carry (path_iv ctr_env True (replicate 32 NUL) [CHR ''/'', c]) n"
  by (simp add: ctr_iv no_carry_def be_val_def le_val_zeros)

lemma ctr_streams: "file_stream ctr_env key (replicate 32 NUL) [CHR ''/'', c] 0 1 = [c]"
proof -
  let ?iv = "path_iv ctr_env True (replicate 32 NUL) [CHR ''/'', c]"
  from stream_at_nth [OF ctr_env_facts(3) length_path_iv ctr_no_carry [of 0 c], of 0 1 key]
  have "file_stream ctr_env key (replicate 32 NUL) [CHR ''/'', c] 0 1 ! 0 = pad 16 (be_bytes 16 (be_val ?iv)) ! 0" by simp
  also have "\<dots> = c"
    using be_bytes_be_val [of ?iv 16] ctr_iv [of c] by (simp add: pad_def)
  finally show ?thesis by (intro nth_equalityI) simp_all
qed

lemma written_bytes_read_back_witness:
  "wp (do { _ \<leftarrow> vfuse_write ctr_env 0 ''/a'' ''secret'' 9; vfuse_read ctr_env 0 ''/a'' 3 11 }) (\<lambda>r _. r = Inr ''cre'') ctr_world"
  using written_bytes_read_back [OF ctr_env_facts ctr_serves(1), of 9 "''secret''" 2 3]
  by (simp add: ctr_salt ctr_no_carry)

lemma rename_garbles_content_witness:
  "wp (do { _ \<leftarrow> vfuse_rename ctr_env 0 ''/a'' ''/b''; vfuse_read ctr_env 0 ''/b'' 1 0 }) (\<lambda>r _. r \<noteq> Inr ''x'') ctr_world"
proof -
  have "stored ''/k/docs/a'' (xor_bytes ''x'' (file_stream ctr_env (pad 32 FUSE_PASSWORD) (v_salt (vaults ctr_world ! 0)) ''/a'' 0 (length ''x''))) (o_fs ctr_world)"
    by (simp add: stored_def ctr_world_def ex_file_def ctr_salt)
  from rename_garbles_content [OF ctr_env_facts(1,2) ctr_serves _ this] show ?thesis
    by (simp add: ctr_salt ctr_streams [unfolded One_nat_def])
qed

lemma mount_flag_iff_success_witness:
  "wp (vault_fuse_mount ex_env (\<lambda>_. None) 0) (\<lambda>r u. v_mounted (vaults u ! 0) = (r = ERR_OK) \<and> r \<noteq> ERR_OK) ex_world"
  by (rule wp_mono [OF mount_flag_iff_success]) (simp_all add: mount_confirmed_def list_ex_iff)

lemma spaced_path_never_mounts_witness:
  "wp (vault_fuse_mount ex_env (\<lambda>_. Some [''fuse /v/my docs fuse rw'']) 0) (\<lambda>r _. r \<noteq> ERR_OK)
     (upd_vaults (\<lambda>vs. vs[0 := (vs ! 0)\<lparr>v_path := ''/v/my docs''\<rparr>]) ex_world)"
  by (rule spaced_path_never_mounts [of "CHR '' ''"]) (simp_all add: scan_space_def is_space_def)

lemma exit_seals_every_vault_witness:
  "wp (vault_fuse_seal_all_on_exit ex_env) (\<lambda>_ u. length (vaults u) = 1 \<and>
     list_all (\<lambda>v. \<not> v_mounted v \<and> is_sealed (fs_get (o_fs u) (v_cipher v))) (vaults u)) ex_world"
  using exit_seals_every_vault [of ex_env ex_world]
  by (simp add: search_err_def parent_dir_def ex_fs_def fs_get_def ex_dir_def may_def)

lemma root_search: "e_euid E = 0 \<Longrightarrow> fs_get f d = Some ex_dir \<Longrightarrow> search_err E f d = None"
  by (simp add: search_err_def may_def ex_dir_def)

lemma failed_encryption_stores_plaintext_witness:
  "wp (vfuse_write (ctr_env\<lparr>e_pbkdf2 := \<lambda>_ _ _. None\<rparr>) 0 ''/b'' ''secret'' 0) (\<lambda>r u. r = Inr 6 \<and> stored ''/k/docs/b'' ''secret'' (o_fs u)) ctr_world"
proof -
  let ?E = "ctr_env\<lparr>e_pbkdf2 := \<lambda>_ _ _. None\<rparr>"
  have "parent_dir ''/k/docs/b'' = ''/k/docs''" by (simp add: parent_dir_def)
  then have "fs_get (o_fs ctr_world) (parent_dir ''/k/docs/b'') = Some ex_dir" "fs_get (o_fs ctr_world) ''/k/docs/b'' = None"
    by (simp_all add: ctr_world_def fs_get_put) (simp_all add: ex_fs_def fs_get_def)
  moreover have "reliable ?E" "e_euid ?E = 0"
    by (simp_all add: reliable_def ctr_env_def ex_env_def)
  moreover have "derive_key_for ?E (Some FUSE_PASSWORD) salt s = Inl ERR_CRYPTO" for salt s by (simp add: derive_key_for_def Let_def)
  moreover have "get_cipher_path (vaults ctr_world ! 0) ''/b'' = ''/k/docs/b''" by (simp add: get_cipher_path_def cbuf_def sizes)
  ultimately show ?thesis
    using failed_encryption_stores_plaintext [of ?E ctr_world 0 "''/b''" "''/k/docs/b''" ERR_CRYPTO "''secret''", OF _ _ _ _ _ root_search]
    by (simp add: eval_nat_numeral)
qed

end
