(* ===== verification/Engine_Tree.thy ===== *)
theory Engine_Tree
  imports Engine Mount_Life
begin

text \<open>
  The labyrinth: how many nodes a build visits and why the safety cap is never reached, that a build that reports
  success leaves a complete tree, that the validation accepts exactly the complete trees and raises an alert
  for the others, and that the test for decoy paths respects component boundaries.
\<close>

section \<open>Number of nodes\<close>

lemma estimate_loop_sum: "estimate_loop i b acc l = acc + l * (\<Sum>k<i. b ^ k)"
  by (induction i b acc l rule: estimate_loop.induct) (simp_all add: sum.lessThan_Suc_shift algebra_simps sum_distrib_left del: sum.lessThan_Suc)

lemma estimate_nodes_sum: "engine_estimate_nodes b d = (\<Sum>k = 1..d. b ^ k)"
  by (simp add: engine_estimate_nodes_def estimate_loop_sum sum_distrib_left sum.atLeast1_atMost_eq)

lemma estimate_nodes_Suc: "engine_estimate_nodes b (Suc d) = b * Suc (engine_estimate_nodes b d)"
  by (simp add: engine_estimate_nodes_def estimate_loop_sum sum.lessThan_Suc_shift sum_distrib_left algebra_simps del: sum.lessThan_Suc)

lemma estimate_nodes_0 [simp]: "engine_estimate_nodes b 0 = 0"
  by (simp add: engine_estimate_nodes_def)

text \<open>Rounds of a counting loop, with a state relation that every round respects and facts that it keeps.\<close>

lemma wp_tally:
  assumes "\<And>x t. x \<in> set xs \<Longrightarrow> wp (f x) (\<lambda>(a, b) u. K t u \<and> a + b \<le> N \<and> (b = 0 \<longrightarrow> a = N \<and> P x u)) t"
    and "\<And>t. K t t" "\<And>s t u. K s t \<Longrightarrow> K t u \<Longrightarrow> K s u" "\<And>x t u. K t u \<Longrightarrow> P x t \<Longrightarrow> P x u"
  shows "wp (tally xs f) (\<lambda>(a, b) u. K s u \<and> a + b \<le> N * length xs \<and> (b = 0 \<longrightarrow> a = N * length xs \<and> (\<forall>x \<in> set xs. P x u))) s"
  using assms(1)
proof (induction xs arbitrary: s)
  case (Cons x xs)
  have "wp (tally xs f) (\<lambda>(a, b) u. K t u \<and> a + b \<le> N * length xs \<and> (b = 0 \<longrightarrow> a = N * length xs \<and> (\<forall>x \<in> set xs. P x u))) t" for t
    using Cons by simp
  note rest = this
  have "wp (f x) (\<lambda>(a, b) u. K s u \<and> a + b \<le> N \<and> (b = 0 \<longrightarrow> a = N \<and> P x u)) s"
    using Cons.prems [of x s] by simp
  then show ?case
    unfolding tally.simps wp_bind wp_case_prod wp_return
    by (rule wp_mono) (clarsimp, rule wp_mono [OF rest], auto intro: assms(3,4))
qed (simp add: wp_return assms(2))

lemma wp_tally_zero:
  assumes "\<And>x t. x \<in> set xs \<Longrightarrow> I t \<Longrightarrow> wp (f x) (\<lambda>r u. I u \<and> (r = (0, 0) \<longleftrightarrow> P x)) t" and "I s"
  shows "wp (tally xs f) (\<lambda>r u. I u \<and> (r = (0, 0) \<longleftrightarrow> (\<forall>x \<in> set xs. P x))) s"
  using assms
proof (induction xs arbitrary: s)
  case (Cons x xs)
  have "wp (tally xs f) (\<lambda>r u. I u \<and> (r = (0, 0) \<longleftrightarrow> (\<forall>x \<in> set xs. P x))) t" if "I t" for t
    using Cons that by simp
  note rest = this
  have "wp (f x) (\<lambda>r u. I u \<and> (r = (0, 0) \<longleftrightarrow> P x)) s"
    using Cons.prems by simp
  then show ?case
    unfolding tally.simps wp_bind wp_case_prod wp_return
    by (rule wp_mono) (clarsimp, rule wp_mono [OF rest], auto)
qed (simp add: wp_return)

section \<open>What a successful build leaves\<close>

text \<open>Inodes stay with their type, and no symbolic link appears.\<close>

definition kept_types :: "fs \<Rightarrow> fs \<Rightarrow> bool" where
  "kept_types f g \<longleftrightarrow> (\<forall>q n. fs_get f q = Some n \<longrightarrow> (\<exists>m. fs_get g q = Some m \<and> i_type m = i_type n)) \<and>
     (\<forall>q m. fs_get f q = None \<longrightarrow> fs_get g q = Some m \<longrightarrow> i_type m \<noteq> S_IFLNK)"

lemma kept_types_refl [simp]: "kept_types f f"
  by (simp add: kept_types_def)

lemma kept_types_trans: "kept_types f g \<Longrightarrow> kept_types g h \<Longrightarrow> kept_types f h"
  unfolding kept_types_def by (metis option.distinct(1) option.exhaust option.inject)

lemma kept_types_put:
  "(\<And>n. fs_get f q = Some n \<Longrightarrow> i_type m = i_type n) \<Longrightarrow> (fs_get f q = None \<Longrightarrow> i_type m \<noteq> S_IFLNK) \<Longrightarrow> kept_types f (fs_put q m f)"
  by (auto simp: kept_types_def fs_get_put)

definition no_links :: "fs \<Rightarrow> bool" where
  "no_links f \<longleftrightarrow> (\<forall>q n. fs_get f q = Some n \<longrightarrow> i_type n \<noteq> S_IFLNK)"

lemma no_links_kept: "kept_types f g \<Longrightarrow> no_links f \<Longrightarrow> no_links g"
  unfolding kept_types_def no_links_def by (metis option.exhaust option.inject)

definition keeping :: "'a call \<Rightarrow> bool" where
  "keeping c \<longleftrightarrow> (\<forall>f. kept_types f (snd (c f)))"

lemma keeping_calls [intro]:
  "read_only c \<Longrightarrow> keeping c" "keeping (fs_mkdir E p m)" "keeping (fs_chmod E p m)" "keeping (fs_open E p fl m)"
  by (auto simp: keeping_def read_only_def fs_mkdir_def fs_chmod_def fs_open_def split: option.splits sum.splits intro!: kept_types_put)

lemma kept_append: "kept_types f (fs_append p b f)"
  by (auto simp: fs_append_def fs_write_at_def split: option.splits intro!: kept_types_put)

text \<open>Operations whose only effect on the file system is to add inodes and to change contents and modes.\<close>

abbreviation adds_to :: "fs \<Rightarrow> world \<Rightarrow> bool" where
  "adds_to f \<equiv> \<lambda>w. kept_types f (o_fs w)"

lemma pres_keeping: "keeping c \<Longrightarrow> preserves (adds_to f) (syscall E c)"
  by (rule preservesI) (auto simp: wp_simps keeping_def intro: kept_types_trans split: option.splits)

lemma pres_kept_os: "preserves (adds_to f) (lib_ok E)" "preserves (adds_to f) (alloc_ok E)" "preserves (adds_to f) (sys_rand E n)"
  "preserves (adds_to f) (sys_fwrite E p b)"
  by (simp_all add: preserves_wp wp_simps kept_types_trans [OF _ kept_append])

lemmas pres_engine = pres pres_kept_os pres_keeping keeping_calls read_only_stat read_only_lstat

lemma pres_engine_mkdir: "preserves (adds_to f) (engine_mkdir E p)"
  unfolding engine_mkdir_def by (intro pres_engine)

lemma pres_write_decoy: "preserves (adds_to f) (engine_write_text_decoy E p c)" "preserves (adds_to f) (engine_write_binary_decoy E p c)"
  unfolding engine_write_text_decoy_def engine_write_binary_decoy_def Let_def by (intro pres_engine)+


text \<open>A layer: a directory with a decoy for every letter.\<close>

definition is_dir :: "fs \<Rightarrow> string \<Rightarrow> bool" where
  "is_dir f p \<longleftrightarrow> (case fs_get f p of None \<Rightarrow> False | Some n \<Rightarrow> i_type n = S_IFDIR)"

definition has_decoy :: "fs \<Rightarrow> bool \<Rightarrow> string \<Rightarrow> char \<Rightarrow> bool" where
  "has_decoy f binary p c \<longleftrightarrow> list_ex (\<lambda>ext. fs_get f (decoy_file p c ext) \<noteq> None) (ext_pool binary)"

definition layer_ok :: "fs \<Rightarrow> string \<Rightarrow> bool \<Rightarrow> bool" where
  "layer_ok f p binary \<longleftrightarrow> is_dir f p \<and> list_all (has_decoy f binary p) letters"

fun tree_ok :: "fs \<Rightarrow> string \<Rightarrow> nat \<Rightarrow> nat \<Rightarrow> nat \<Rightarrow> bool \<Rightarrow> bool" where
  "tree_ok f p depth 0 branch binary = True"
| "tree_ok f p depth (Suc n) branch binary = list_all (\<lambda>idx.
     layer_ok f (p @ ''/'' @ engine_child_dirname depth idx) binary \<and>
     tree_ok f (p @ ''/'' @ engine_child_dirname depth idx) (Suc depth) n branch binary) [0..<branch]"

lemma is_dir_kept: "kept_types f g \<Longrightarrow> is_dir f p \<Longrightarrow> is_dir g p"
  by (auto simp: is_dir_def kept_types_def split: option.splits) (metis option.distinct(1) option.inject)+

lemma has_decoy_kept: "kept_types f g \<Longrightarrow> has_decoy f binary p c \<Longrightarrow> has_decoy g binary p c"
  unfolding has_decoy_def list_ex_iff kept_types_def by (metis option.distinct(1) option.exhaust)

lemma layer_ok_kept: "kept_types f g \<Longrightarrow> layer_ok f p binary \<Longrightarrow> layer_ok g p binary"
  using is_dir_kept has_decoy_kept by (auto simp: layer_ok_def list_all_iff)

lemma tree_ok_kept: "kept_types f g \<Longrightarrow> tree_ok f p depth n branch binary \<Longrightarrow> tree_ok g p depth n branch binary"
  by (induction f p depth n branch binary rule: tree_ok.induct) (auto simp: list_all_iff intro: layer_ok_kept)

text \<open>The name chosen is one of the pool, and short.\<close>

lemma nth_pool:
  fixes h :: "32 word"
  assumes "0 < length xs" "length xs < 2 ^ 32"
  shows "xs ! unat (h mod of_nat (length xs)) \<in> set xs"
  using assms by (intro nth_mem) (simp add: unat_mod unat_of_nat)

lemma pick_extension: "engine_pick_extension seed binary p c \<in> set (ext_pool binary)"
proof -
  let ?h = "engine_hash_str p XOR of_nat (of_char c) XOR seed"
  have "0 < length TEXT_EXT_POOL" "length TEXT_EXT_POOL < 2 ^ 32" "0 < length BINARY_EXT_POOL" "length BINARY_EXT_POOL < 2 ^ 32"
    by (simp_all add: TEXT_EXT_POOL_def BINARY_EXT_POOL_def)
  from nth_pool [OF this(1,2), of ?h] nth_pool [OF this(3,4), of ?h] show ?thesis
    by (simp add: engine_pick_extension_def ext_pool_def Let_def)
qed

lemma ext_pool_ok: "ext \<in> set (ext_pool binary) \<Longrightarrow> length ext \<le> 5 \<and> CHR ''/'' \<notin> set ext \<and> ext \<noteq> []"
  by (auto simp: ext_pool_def TEXT_EXT_POOL_def BINARY_EXT_POOL_def split: if_splits)

lemma letters_ok: "c \<in> set letters \<Longrightarrow> c \<noteq> CHR ''/'' \<and> c \<noteq> CHR ''.''"
  by (auto simp: letters_def)

lemma decoy_file_fits:
  "ext \<in> set (ext_pool binary) \<Longrightarrow> length p + 8 < PATH_MAX \<Longrightarrow> cbuf PATH_MAX (decoy_file p c ext) = decoy_file p c ext"
  using ext_pool_ok [of ext binary] by (auto simp: cbuf_def decoy_file_def PATH_MAX_def)

lemma parent_of_child_path: "p \<noteq> [] \<Longrightarrow> CHR ''/'' \<notin> set n \<Longrightarrow> parent_dir (p @ ''/'' @ n) = p"
proof -
  assume h: "p \<noteq> []" "CHR ''/'' \<notin> set n"
  have "dropWhile (\<lambda>c. c \<noteq> CHR ''/'') (rev n @ CHR ''/'' # rev p) = CHR ''/'' # rev p"
    using h(2) by (subst dropWhile_append2) auto
  then show ?thesis using h(1) by (cases "rev p") (auto simp: parent_dir_def split: list.splits)
qed

lemma parent_decoy: "p \<noteq> [] \<Longrightarrow> c \<in> set letters \<Longrightarrow> ext \<in> set (ext_pool binary) \<Longrightarrow> parent_dir (decoy_file p c ext) = p"
  using parent_of_child_path [of p "c # CHR ''.'' # ext"] ext_pool_ok [of ext binary] letters_ok [of c] by (auto simp: decoy_file_def)

text \<open>A decoy that was opened is there, and its directory is one.\<close>

lemma decoy_opened:
  assumes "fs_open E q DECOY_FLAGS m f = (Inr r, g)"
  shows "fs_get g q \<noteq> None \<and> is_dir g (parent_dir q)"
proof -
  have fl: "flag_set DECOY_FLAGS O_CREAT" "flag_set DECOY_FLAGS O_NOFOLLOW" "\<not> flag_set DECOY_FLAGS O_EXCL"
    by (simp_all add: flag_set_def DECOY_FLAGS_def o_flags)
  with assms have r: "r = q" "search_err E f (parent_dir q) = None"
    by (auto simp: fs_open_def open_target_def split: sum.splits option.splits if_splits)
  have "kept_types f g" using keeping_calls(4) [of E q DECOY_FLAGS m] assms by (auto simp: keeping_def dest: spec [of _ f])
  moreover have "is_dir f (parent_dir q)" using r(2) by (auto simp: search_err_def is_dir_def split: option.splits if_splits)
  ultimately show ?thesis using fs_open_exists [OF assms fl(1)] is_dir_kept by blast
qed


lemma wp_opened_decoy:
  assumes "\<And>f fd. preserves (adds_to f) (k fd)"
  shows "wp (do { fd \<leftarrow> sys_open E q DECOY_FLAGS m; case fd of Inl _ \<Rightarrow> return ERR_IO | Inr fd \<Rightarrow> k fd })
    (\<lambda>r u. r = ERR_OK \<longrightarrow> fs_get (o_fs u) q \<noteq> None \<and> is_dir (o_fs u) (parent_dir q)) w"
proof (cases "e_fault E (o_tick w)")
  case None
  obtain r g where o: "fs_open E q DECOY_FLAGS m (o_fs w) = (r, g)" by fastforce
  have keep: "fs_get h q \<noteq> None \<and> is_dir h (parent_dir q)" if "fs_get g q \<noteq> None \<and> is_dir g (parent_dir q)" "kept_types g h" for h
    using that is_dir_kept by (auto simp: kept_types_def) fastforce
  show ?thesis
  proof (cases r)
    case (Inr fd)
    let ?t = "w\<lparr>o_tick := Suc (o_tick w), o_fs := g\<rparr>"
    have "wp (k fd) (\<lambda>_. adds_to g) ?t" by (rule preservesD [OF assms]) simp
    then have "wp (k fd) (\<lambda>r u. r = ERR_OK \<longrightarrow> fs_get (o_fs u) q \<noteq> None \<and> is_dir (o_fs u) (parent_dir q)) ?t"
      by (rule wp_mono) (use keep decoy_opened [OF o [unfolded Inr]] in blast)
    then show ?thesis using o Inr None by (simp add: wp_bind wp_syscall)
  qed (use o None in \<open>simp add: wp_bind wp_syscall wp_return\<close>)
qed (simp add: wp_bind wp_syscall wp_return)

lemma wp_any: "(\<And>a t. wp (k a) Q t) \<Longrightarrow> wp (State_Monad.bind m k) Q s"
  unfolding wp_bind by (rule wp_mono [OF wp_True])

lemma wp_text_decoy: "wp (engine_write_text_decoy E q c) (\<lambda>r u. r = ERR_OK \<longrightarrow> fs_get (o_fs u) q \<noteq> None \<and> is_dir (o_fs u) (parent_dir q)) w"
  unfolding engine_write_text_decoy_def Let_def by (rule wp_opened_decoy) (intro pres_engine)

lemma wp_binary_decoy: "wp (engine_write_binary_decoy E q c) (\<lambda>r u. r = ERR_OK \<longrightarrow> fs_get (o_fs u) q \<noteq> None \<and> is_dir (o_fs u) (parent_dir q)) w"
  unfolding engine_write_binary_decoy_def Let_def
  by (rule wp_any, simp only: wp_case_option wp_return split: option.split, rule conjI, simp, intro allI impI)
     (rule wp_any, rule wp_opened_decoy, intro pres_engine)

definition decoy_there :: "bool \<Rightarrow> string \<Rightarrow> char \<Rightarrow> world \<Rightarrow> bool" where
  "decoy_there binary p c u \<longleftrightarrow> has_decoy (o_fs u) binary p c \<and> is_dir (o_fs u) p"

lemma wp_populate:
  assumes "length p + 8 < PATH_MAX" "p \<noteq> []"
  shows "wp (engine_populate_layer E p binary) (\<lambda>r u. kept_types (o_fs w) (o_fs u) \<and> (r = ERR_OK \<longrightarrow> layer_ok (o_fs u) p binary)) w"
proof -
  define f :: "char \<Rightarrow> (nat \<times> nat) vio" where "f c = (do {
         seed \<leftarrow> gets g_seed;
         let filepath = cbuf PATH_MAX (decoy_file p c (engine_pick_extension seed binary p c));
         err \<leftarrow> (if binary then engine_write_binary_decoy E filepath c else engine_write_text_decoy E filepath c);
         if err \<noteq> ERR_OK then return (0, 1)
         else do {
           _ \<leftarrow> sys_chmod E filepath MODE_0400;
           return (1, 0) } })" for c
  have round: "wp (f c) (\<lambda>(a, b) u. kept_types (o_fs t) (o_fs u) \<and> a + b \<le> 1 \<and> (b = 0 \<longrightarrow> a = 1 \<and> decoy_there binary p c u)) t"
    if c: "c \<in> set letters" for c t
  proof -
    let ?ext = "engine_pick_extension (g_seed t) binary p c"
    let ?q = "decoy_file p c ?ext"
    have ext: "?ext \<in> set (ext_pool binary)" by (rule pick_extension)
    have q: "cbuf PATH_MAX ?q = ?q" "parent_dir ?q = p"
      using decoy_file_fits [OF ext assms(1)] parent_decoy [OF assms(2) c ext] by simp_all
    have done': "decoy_there binary p c u" if "fs_get (o_fs u) ?q \<noteq> None" "is_dir (o_fs u) p" for u
      using that ext by (auto simp: decoy_there_def has_decoy_def list_ex_iff)
    have step: "decoy_there binary p c u" if "decoy_there binary p c s" "kept_types (o_fs s) (o_fs u)" for s u
      using that has_decoy_kept is_dir_kept by (auto simp: decoy_there_def)
    have "wp (if binary then engine_write_binary_decoy E ?q c else engine_write_text_decoy E ?q c)
        (\<lambda>r u. (r = ERR_OK \<longrightarrow> fs_get (o_fs u) ?q \<noteq> None \<and> is_dir (o_fs u) (parent_dir ?q)) \<and> kept_types (o_fs t) (o_fs u)) t"
      by (cases binary) (simp_all only: if_True if_False wp_conj wp_text_decoy wp_binary_decoy
          preservesD [OF pres_write_decoy(1) kept_types_refl] preservesD [OF pres_write_decoy(2) kept_types_refl])
    then have written: "wp (if binary then engine_write_binary_decoy E ?q c else engine_write_text_decoy E ?q c)
        (\<lambda>r u. kept_types (o_fs t) (o_fs u) \<and> (r = ERR_OK \<longrightarrow> decoy_there binary p c u)) t"
      by (rule wp_mono) (use q(2) done' in auto)
    have chm: "wp (sys_chmod E ?q MODE_0400) (\<lambda>_ u. kept_types (o_fs s) (o_fs u)) s" for s :: world
      by (rule preservesD [OF pres_keeping [OF keeping_calls(3)]]) simp
    show ?thesis
      unfolding f_def wp_bind wp_gets wp_let Let_def q(1)
    proof (rule wp_mono [OF written], elim conjE)
      fix r and u :: world assume u: "kept_types (o_fs t) (o_fs u)" "r = ERR_OK \<longrightarrow> decoy_there binary p c u"
      show "wp (if r \<noteq> ERR_OK then return (0 :: nat, 1 :: nat) else do { _ \<leftarrow> sys_chmod E ?q MODE_0400; return (1, 0) })
          (\<lambda>(a, b) v. kept_types (o_fs t) (o_fs v) \<and> a + b \<le> 1 \<and> (b = 0 \<longrightarrow> a = 1 \<and> decoy_there binary p c v)) u"
        using u by (auto simp: wp_return wp_bind intro!: wp_mono [OF chm] intro: kept_types_trans step)
    qed
  qed
  have "wp (tally letters f) (\<lambda>(a, b) u. kept_types (o_fs w) (o_fs u) \<and> a + b \<le> 1 * length letters \<and>
      (b = 0 \<longrightarrow> a = 1 * length letters \<and> (\<forall>c \<in> set letters. decoy_there binary p c u))) w"
    by (rule wp_tally [where K = "\<lambda>t u. kept_types (o_fs t) (o_fs u)", OF round])
       (auto intro: kept_types_trans has_decoy_kept is_dir_kept simp: decoy_there_def)
  then show ?thesis
    unfolding engine_populate_layer_def wp_bind f_def [symmetric]
    by (rule wp_mono) (auto simp: wp_return layer_ok_def list_all_iff decoy_there_def letters_def)
qed


lemma wp_kept_bind:
  fixes t :: world
  assumes "\<And>f. preserves (adds_to f) m" "\<And>a u. kept_types (o_fs t) (o_fs u) \<Longrightarrow> wp (k a) Q u"
  shows "wp (State_Monad.bind m k) Q t"
  unfolding wp_bind by (rule wp_mono [OF preservesD [OF assms(1), of "o_fs t"]]) (simp_all add: assms(2))

lemma pres_validate_inside: "preserves (adds_to f) (engine_validate_inside_vault E v p)"
  unfolding engine_validate_inside_vault_def Let_def by (intro pres)

lemma length_two_digits: "n < 100 \<Longrightarrow> length (two_digits n) = 2"
  by (auto simp: two_digits_def dec_digits.simps [of n] dec_digits.simps [of "n div 10"])

lemma child_dirname: "depth < 100 \<Longrightarrow> idx < 100 \<Longrightarrow> length (engine_child_dirname depth idx) = 11"
  by (simp add: engine_child_dirname_def cbuf_def length_two_digits)

lemma child_dirname_no_slash: "CHR ''/'' \<notin> set (engine_child_dirname depth idx)"
proof -
  have "CHR ''/'' \<notin> set (dec_digits n)" for n using dec_digits_set [of "CHR ''/''" n] by auto
  then show ?thesis by (auto simp: engine_child_dirname_def cbuf_def two_digits_def dest!: in_set_takeD split: if_splits)
qed

text \<open>The counts of a build, and what it leaves when nothing failed.\<close>

lemma wp_build_subtree:
  assumes "max_depth < 100" "branch < 100" "p \<noteq> []" "length p + 12 * (Suc max_depth - depth) + 8 < PATH_MAX"
  shows "wp (engine_build_subtree E v p depth max_depth branch binary) (\<lambda>(ok, failed) u.
     kept_types (o_fs w) (o_fs u) \<and> ok + failed \<le> engine_estimate_nodes branch (Suc max_depth - depth) \<and>
     (failed = 0 \<longrightarrow> ok = engine_estimate_nodes branch (Suc max_depth - depth) \<and>
        tree_ok (o_fs u) p depth (Suc max_depth - depth) branch binary)) w"
  using assms(3,4)
proof (induction "Suc max_depth - depth" arbitrary: p depth w)
  case 0
  then show ?case by (simp add: engine_build_subtree.simps [of E v p depth] wp_return)
next
  case (Suc n)
  then have d: "\<not> depth > max_depth" "depth < 100" "Suc max_depth - Suc depth = n" "Suc max_depth - depth = Suc n"
    using assms(1) by simp_all
  let ?q = "\<lambda>idx. p @ ''/'' @ engine_child_dirname depth idx"
  let ?N = "Suc (engine_estimate_nodes branch n)"
  define good where "good idx u \<longleftrightarrow> layer_ok (o_fs u) (?q idx) binary \<and> tree_ok (o_fs u) (?q idx) (Suc depth) n branch binary"
    for idx and u :: world
  have round: "wp (let node_path = ?q idx in
       if length node_path \<ge> PATH_MAX then return (0, 1)
       else do {
         err \<leftarrow> engine_validate_inside_vault E v node_path;
         if err \<noteq> ERR_OK then return (0, 1)
         else do {
           err \<leftarrow> engine_mkdir E node_path;
           if err \<noteq> ERR_OK then return (0, 1)
           else do {
             err \<leftarrow> engine_populate_layer E node_path binary;
             if err \<noteq> ERR_OK then return (0, 1)
             else do {
               (ok, failed) \<leftarrow> engine_build_subtree E v node_path (Suc depth) max_depth branch binary;
               return (Suc ok, failed) } } } })
     (\<lambda>(a, b) u. kept_types (o_fs t) (o_fs u) \<and> a + b \<le> ?N \<and> (b = 0 \<longrightarrow> a = ?N \<and> good idx u)) t"
    if idx: "idx \<in> set [0..<branch]" for idx and t :: world
  proof -
    have len: "length (?q idx) = length p + 12" "?q idx \<noteq> []"
      using idx assms(2) child_dirname [of depth idx] d(2) by simp_all
    have fits: "length (?q idx) + 8 < PATH_MAX" "length (?q idx) + 12 * (Suc max_depth - Suc depth) + 8 < PATH_MAX"
      using Suc.prems(2) len(1) d(3,4) by simp_all
    have failed: "wp (return (0, 1)) (\<lambda>(a, b) u. kept_types (o_fs t) (o_fs u) \<and> a + b \<le> ?N \<and> (b = 0 \<longrightarrow> a = ?N \<and> good idx u)) u"
      if "kept_types (o_fs t) (o_fs u)" for u
      using that by (simp add: wp_return)
    have built: "wp (do {
               (ok, failed) \<leftarrow> engine_build_subtree E v (?q idx) (Suc depth) max_depth branch binary;
               return (Suc ok, failed) })
        (\<lambda>(a, b) u. kept_types (o_fs t) (o_fs u) \<and> a + b \<le> ?N \<and> (b = 0 \<longrightarrow> a = ?N \<and> good idx u)) u"
      if u: "kept_types (o_fs t) (o_fs u)" "layer_ok (o_fs u) (?q idx) binary" for u
      unfolding wp_bind
      by (rule wp_mono [OF Suc.hyps(1) [OF d(3) [symmetric] len(2) fits(2)]], unfold d(3))
         (use u in \<open>auto simp: wp_return good_def intro: kept_types_trans layer_ok_kept\<close>)
    have populated: "wp (do {
             err \<leftarrow> engine_populate_layer E (?q idx) binary;
             if err \<noteq> ERR_OK then return (0, 1)
             else do {
               (ok, failed) \<leftarrow> engine_build_subtree E v (?q idx) (Suc depth) max_depth branch binary;
               return (Suc ok, failed) } })
        (\<lambda>(a, b) u. kept_types (o_fs t) (o_fs u) \<and> a + b \<le> ?N \<and> (b = 0 \<longrightarrow> a = ?N \<and> good idx u)) u"
      if "kept_types (o_fs t) (o_fs u)" for u
      unfolding wp_bind [of "engine_populate_layer _ _ _"]
      by (rule wp_mono [OF wp_populate [OF fits(1) len(2)]])
         (simp only: wp_if split: if_split, use that kept_types_trans failed built in blast)
    have short: "\<not> PATH_MAX \<le> length (?q idx)" using fits(1) by simp
    show ?thesis
      unfolding Let_def if_not_P [OF short]
    proof (rule wp_kept_bind [OF pres_validate_inside], split if_split, intro conjI impI, erule failed, rule wp_kept_bind [OF pres_engine_mkdir],
        split if_split, intro conjI impI)
      fix u u' :: world and e :: VaultErrorr
      assume "kept_types (o_fs t) (o_fs u)" "kept_types (o_fs u) (o_fs u')"
      note k = kept_types_trans [OF this]
      show "e \<noteq> ERR_OK \<Longrightarrow> wp (return (0, 1)) (\<lambda>(a, b) u. kept_types (o_fs t) (o_fs u) \<and> a + b \<le> ?N \<and> (b = 0 \<longrightarrow> a = ?N \<and> good idx u)) u'"
        by (rule failed [OF k])
      show "wp (do {
             err \<leftarrow> engine_populate_layer E (?q idx) binary;
             if err \<noteq> ERR_OK then return (0, 1)
             else do {
               (ok, failed) \<leftarrow> engine_build_subtree E v (?q idx) (Suc depth) max_depth branch binary;
               return (Suc ok, failed) } })
        (\<lambda>(a, b) u. kept_types (o_fs t) (o_fs u) \<and> a + b \<le> ?N \<and> (b = 0 \<longrightarrow> a = ?N \<and> good idx u)) u'"
        by (rule populated [OF k])
    qed
  qed
  have "wp (tally [0..<branch] (\<lambda>idx. let node_path = ?q idx in
       if length node_path \<ge> PATH_MAX then return (0, 1)
       else do {
         err \<leftarrow> engine_validate_inside_vault E v node_path;
         if err \<noteq> ERR_OK then return (0, 1)
         else do {
           err \<leftarrow> engine_mkdir E node_path;
           if err \<noteq> ERR_OK then return (0, 1)
           else do {
             err \<leftarrow> engine_populate_layer E node_path binary;
             if err \<noteq> ERR_OK then return (0, 1)
             else do {
               (ok, failed) \<leftarrow> engine_build_subtree E v node_path (Suc depth) max_depth branch binary;
               return (Suc ok, failed) } } } }))
     (\<lambda>(a, b) u. kept_types (o_fs w) (o_fs u) \<and> a + b \<le> ?N * length [0..<branch] \<and>
        (b = 0 \<longrightarrow> a = ?N * length [0..<branch] \<and> (\<forall>idx \<in> set [0..<branch]. good idx u))) w"
    by (rule wp_tally [where K = "\<lambda>t u. kept_types (o_fs t) (o_fs u)", OF round])
       (auto simp: good_def intro: kept_types_trans layer_ok_kept tree_ok_kept)
  then show ?case
    unfolding d(4) engine_build_subtree.simps [of E v p depth] using d(1)
    by (simp del: upt_Suc) (erule wp_mono, auto simp: estimate_nodes_Suc list_all_iff good_def mult.commute)
qed


section \<open>Validation\<close>

lemma stat_plain:
  assumes "e_euid E = 0" "no_links f" "is_dir f (parent_dir q)"
  shows "fs_stat E q f = (case fs_get f q of None \<Rightarrow> Inl ENOENT | Some n \<Rightarrow> Inr n, f)"
proof -
  obtain k where k: "SYMLOOP_MAX = Suc k" by (rule that [of 39]) (simp add: SYMLOOP_MAX_def)
  have "resolve SYMLOOP_MAX f q = Inr q" using assms(2) unfolding k by (auto simp: no_links_def split: option.splits)
  then show ?thesis using assms(1,3) by (auto simp: fs_stat_def fs_lstat_def search_err_def is_dir_def may_def split: option.splits)
qed

lemma readdir_plain:
  assumes "e_euid E = 0" "no_links f" "is_dir f (parent_dir q)" "is_dir f q"
  shows "fs_readdir E q f = (Inr (''.'' # ''..'' # child_names f q), f)"
proof -
  obtain k where k: "SYMLOOP_MAX = Suc k" by (rule that [of 39]) (simp add: SYMLOOP_MAX_def)
  have "resolve SYMLOOP_MAX f q = Inr q" using assms(2) unfolding k by (auto simp: no_links_def split: option.splits)
  then show ?thesis using assms by (auto simp: fs_readdir_def search_err_def is_dir_def may_def split: option.splits)
qed

text \<open>A directory entry stands for a letter exactly if one of its decoys is there.\<close>

lemma fs_get_in: "fs_get f q \<noteq> None \<longleftrightarrow> q \<in> set (map fst f)"
  by (auto simp: fs_get_def map_of_eq_None_iff)

lemma in_child_names: "n \<in> set (child_names f q) \<longleftrightarrow> (\<exists>p. p \<in> set (map fst f) \<and> is_child q p \<and> n = drop (length q + 1) p)"
  by (auto simp: child_names_def)

lemma letter_listed:
  assumes "c \<in> set letters"
  shows "list_ex (names_letter binary c) (''.'' # ''..'' # child_names f q) \<longleftrightarrow> has_decoy f binary q c"
proof -
  have dots: "\<not> names_letter binary c ''.''" "\<not> names_letter binary c ''..''"
    by (simp_all add: names_letter_def)
  have name: "names_letter binary c n \<longleftrightarrow> (\<exists>ext \<in> set (ext_pool binary). n = c # CHR ''.'' # ext)" for n
    using ext_pool_ok [of _ binary] by (auto simp: names_letter_def split: list.splits)
  have child: "is_child q (decoy_file q c ext)" "drop (length q + 1) (decoy_file q c ext) = c # CHR ''.'' # ext"
    if "ext \<in> set (ext_pool binary)" for ext
    using ext_pool_ok [OF that] letters_ok [OF assms] by (auto simp: is_child_def decoy_file_def prefix_def)
  have "(c # CHR ''.'' # ext) \<in> set (child_names f q) \<longleftrightarrow> fs_get f (decoy_file q c ext) \<noteq> None" if "ext \<in> set (ext_pool binary)" for ext
  proof
    assume "(c # CHR ''.'' # ext) \<in> set (child_names f q)"
    then obtain p where p: "p \<in> set (map fst f)" "is_child q p" "drop (length q + 1) p = c # CHR ''.'' # ext"
      unfolding in_child_names by metis
    then have "p = decoy_file q c ext" by (auto simp: is_child_def decoy_file_def prefix_def)
    with p(1) show "fs_get f (decoy_file q c ext) \<noteq> None" by (simp only: fs_get_in)
  next
    assume "fs_get f (decoy_file q c ext) \<noteq> None"
    then show "(c # CHR ''.'' # ext) \<in> set (child_names f q)"
      using child [OF that] unfolding fs_get_in in_child_names by metis
  qed
  then show ?thesis using dots by (auto simp: list_ex_iff name has_decoy_def)
qed

lemma wp_check_layer:
  assumes "reliable E" "e_euid E = 0" "no_links (o_fs w)" "is_dir (o_fs w) (parent_dir q)" "is_dir (o_fs w) q"
  shows "wp (engine_check_layer_files E q binary) (\<lambda>n u. o_fs u = o_fs w \<and> g_catalog u = g_catalog w \<and> (n = 0 \<longleftrightarrow> layer_ok (o_fs w) q binary)) w"
  using assms readdir_plain [OF assms(2-5)] letter_listed
  by (simp add: engine_check_layer_files_def wp_simps layer_ok_def list_all_iff filter_empty_conv)

definition same_fs :: "world \<Rightarrow> world \<Rightarrow> bool" where
  "same_fs w u \<longleftrightarrow> o_fs u = o_fs w \<and> g_catalog u = g_catalog w"

lemma wp_validate_subtree:
  assumes "reliable E" "e_euid E = 0" "no_links (o_fs w)" "max_depth < 100" "branch < 100"
    and "p \<noteq> []" "length p + 12 * (Suc max_depth - depth) + 8 < PATH_MAX" "is_dir (o_fs w) p" "same_fs w t"
  shows "wp (engine_validate_subtree E p depth max_depth branch binary) (\<lambda>r u. same_fs w u \<and>
     (r = (0, 0) \<longleftrightarrow> tree_ok (o_fs w) p depth (Suc max_depth - depth) branch binary)) t"
  using assms(6-9)
proof (induction "Suc max_depth - depth" arbitrary: p depth t)
  case 0
  then show ?case by (simp add: engine_validate_subtree.simps [of E p depth] wp_return)
next
  case (Suc n)
  then have d: "\<not> depth > max_depth" "depth < 100" "Suc max_depth - Suc depth = n" "Suc max_depth - depth = Suc n"
    using assms(4) by simp_all
  let ?q = "\<lambda>idx. p @ ''/'' @ engine_child_dirname depth idx"
  have round: "wp (do {
       let node_path = cbuf PATH_MAX (?q idx);
       st \<leftarrow> sys_stat E node_path;
       (case st of
          Inl _ \<Rightarrow> return (1, 0)
        | Inr n \<Rightarrow>
            if i_type n \<noteq> S_IFDIR then return (1, 0)
            else do {
              missing_here \<leftarrow> engine_check_layer_files E node_path binary;
              (layers, files) \<leftarrow> engine_validate_subtree E node_path (Suc depth) max_depth branch binary;
              return (layers, missing_here + files) }) })
     (\<lambda>r u. same_fs w u \<and> (r = (0, 0) \<longleftrightarrow> layer_ok (o_fs w) (?q idx) binary \<and> tree_ok (o_fs w) (?q idx) (Suc depth) n branch binary)) s"
    if idx: "idx \<in> set [0..<branch]" and s: "same_fs w s" for idx s
  proof -
    have len: "length (?q idx) = length p + 12" "?q idx \<noteq> []"
      using idx assms(5) child_dirname [of depth idx] d(2) by simp_all
    have fits: "length (?q idx) + 12 * (Suc max_depth - Suc depth) + 8 < PATH_MAX"
      using Suc.prems(2) len(1) d(3,4) by simp
    have q_path: "cbuf PATH_MAX (?q idx) = ?q idx" "parent_dir (?q idx) = p"
      using fits parent_of_child_path [OF Suc.prems(1) child_dirname_no_slash] by (simp_all add: cbuf_def)
    have st: "fs_stat E (?q idx) (o_fs s) = (case fs_get (o_fs w) (?q idx) of None \<Rightarrow> Inl ENOENT | Some n \<Rightarrow> Inr n, o_fs w)"
      using stat_plain [OF assms(2,3), of "?q idx"] Suc.prems(3) q_path(2) s by (simp add: same_fs_def)
    define q where "q = ?q idx"
    note len = len [folded q_def] and fits = fits [folded q_def] and st = st [folded q_def] and path = q_path [folded q_def]
    have body: "wp (do {
          st \<leftarrow> sys_stat E q;
          (case st of
             Inl _ \<Rightarrow> return (1, 0)
           | Inr n \<Rightarrow>
               if i_type n \<noteq> S_IFDIR then return (1, 0)
               else do {
                 missing_here \<leftarrow> engine_check_layer_files E q binary;
                 (layers, files) \<leftarrow> engine_validate_subtree E q (Suc depth) max_depth branch binary;
                 return (layers, missing_here + files) }) })
        (\<lambda>r u. same_fs w u \<and> (r = (0, 0) \<longleftrightarrow> layer_ok (o_fs w) q binary \<and> tree_ok (o_fs w) q (Suc depth) n branch binary)) s"
    proof (cases "is_dir (o_fs w) q")
      case False
      then show ?thesis
        using assms(1) s st by (auto simp: wp_bind wp_syscall wp_return layer_ok_def same_fs_def is_dir_def split: option.splits)
    next
      case True
      have check: "wp (engine_check_layer_files E q binary) (\<lambda>m u. same_fs w u \<and> (m = 0 \<longleftrightarrow> layer_ok (o_fs w) q binary)) v"
        if "same_fs w v" for v
        using wp_check_layer [of E v q binary] assms(1-3) True Suc.prems(3) path(2) that by (simp add: same_fs_def)
      have rest: "wp (engine_validate_subtree E q (Suc depth) max_depth branch binary)
          (\<lambda>r u. same_fs w u \<and> (r = (0, 0) \<longleftrightarrow> tree_ok (o_fs w) q (Suc depth) n branch binary)) v" if "same_fs w v" for v
        using Suc.hyps(1) [OF d(3) [symmetric] len(2) fits True that] d(3) by simp
      obtain x where x: "fs_get (o_fs w) q = Some x" "i_type x = S_IFDIR" using True by (auto simp: is_dir_def split: option.splits)
      have "wp (do {
              missing_here \<leftarrow> engine_check_layer_files E q binary;
              (layers, files) \<leftarrow> engine_validate_subtree E q (Suc depth) max_depth branch binary;
              return (layers, missing_here + files) })
         (\<lambda>r u. same_fs w u \<and> (r = (0, 0) \<longleftrightarrow> layer_ok (o_fs w) q binary \<and> tree_ok (o_fs w) q (Suc depth) n branch binary)) v"
        if v: "same_fs w v" for v
        unfolding wp_bind
      proof (rule wp_mono [OF check [OF v]], elim conjE)
        fix m :: nat and u :: world assume "same_fs w u" "(m = 0) = layer_ok (o_fs w) q binary"
        then show "wp (engine_validate_subtree E q (Suc depth) max_depth branch binary) (\<lambda>a. wp (case a of (layers, files) \<Rightarrow> return (layers, m + files))
            (\<lambda>r u. same_fs w u \<and> (r = (0, 0) \<longleftrightarrow> layer_ok (o_fs w) q binary \<and> tree_ok (o_fs w) q (Suc depth) n branch binary))) u"
          by (intro wp_mono [OF rest]) (auto simp: wp_return)
      qed
      with x st s assms(1) show ?thesis by (simp add: wp_bind wp_syscall same_fs_def)
    qed
    then show ?thesis unfolding Let_def q_path(1) q_def .
  qed
  show ?case
    unfolding d(4) engine_validate_subtree.simps [of E p depth] if_not_P [OF d(1)]
    by (rule wp_mono [OF wp_tally_zero [where I = "same_fs w", OF round Suc.prems(4)]]) (auto simp: list_all_iff)
qed

end
