(* ===== verification/Engine_Check.thy ===== *)
theory Engine_Check
  imports Engine_Tree
begin

text \<open>
  The entry points of the engine over the tree lemmas: size, completeness of what \<open>engine_apply\<close> builds,
  the verdict of \<open>engine_validate\<close>, and the decoy test; with examples.
\<close>

section \<open>The catalog during a build\<close>

lemma pres_tally: "(\<And>x. preserves I (f x)) \<Longrightarrow> preserves I (tally xs f)"
  by (induction xs) (auto intro!: pres)

lemma pres_seed: "(\<And>w. I w \<Longrightarrow> I (w\<lparr>g_seed := s\<rparr>)) \<Longrightarrow> preserves I (modify (\<lambda>w :: world. w\<lparr>g_seed := s\<rparr>))"
  by (rule pres_modify)

lemmas pres_build_rules = pres pres_os pres_tally

lemma pres_engine_dir: "os_indep I \<Longrightarrow> preserves I (engine_mkdir E p)"
  unfolding engine_mkdir_def by (intro pres_build_rules)

lemma pres_decoy: "os_indep I \<Longrightarrow> preserves I (engine_write_text_decoy E p c)" "os_indep I \<Longrightarrow> preserves I (engine_write_binary_decoy E p c)"
  unfolding engine_write_text_decoy_def engine_write_binary_decoy_def Let_def by (intro pres_build_rules; assumption)+

lemma pres_populate: "os_indep I \<Longrightarrow> preserves I (engine_populate_layer E p binary)"
  unfolding engine_populate_layer_def Let_def by (intro pres_build_rules pres_decoy)

lemma pres_validate: "preserves I (engine_validate_inside_vault E v p)"
  unfolding engine_validate_inside_vault_def Let_def by (intro pres)

lemma pres_build:
  assumes os: "os_indep I"
  shows "preserves I (engine_build_subtree E v p depth max_depth branch binary)"
proof (induction "Suc max_depth - depth" arbitrary: p depth)
  case 0
  then show ?case by (simp add: engine_build_subtree.simps [of E v p depth] pres)
next
  case (Suc n)
  then have IH: "preserves I (engine_build_subtree E v q (Suc depth) max_depth branch binary)" for q by simp
  show ?case
    unfolding engine_build_subtree.simps [of E v p depth] Let_def
    by (intro pres_build_rules pres_validate pres_engine_dir pres_populate IH os)
qed

lemma pres_validate_subtree:
  assumes os: "os_indep I"
  shows "preserves I (engine_validate_subtree E p depth max_depth branch binary)"
proof (induction "Suc max_depth - depth" arbitrary: p depth)
  case 0
  then show ?case by (simp add: engine_validate_subtree.simps [of E p depth] pres)
next
  case (Suc n)
  then have IH: "preserves I (engine_validate_subtree E q (Suc depth) max_depth branch binary)" for q by simp
  show ?case
    unfolding engine_validate_subtree.simps [of E p depth] Let_def engine_check_layer_files_def
    by (intro pres_build_rules IH os)
qed

text \<open>What does not look at the file system, the clock or the seed is kept by a build.\<close>

lemma pres_cleanup: "os_indep I \<Longrightarrow> preserves I (engine_cleanup_decoy E p)"
  unfolding engine_cleanup_decoy_def by (intro pres_build_rules pres_modify) simp_all

lemma pres_engine_apply:
  assumes os: "os_indep I" and seed: "\<And>w s. I w \<Longrightarrow> I (w\<lparr>g_seed := s\<rparr>)"
  shows "preserves I (engine_apply E vp)"
  unfolding engine_apply_def Let_def
  by (intro pres_build_rules pres_get_vault pres_seed seed pres_cleanup pres_engine_dir pres_build os)

section \<open>Size\<close>

text \<open>C25: At every level a build visits at most the nodes of the full tree, and all of them when none fails; this
  number is the sum of the powers of the branching factor and far below the cap, which therefore never refuses.\<close>
theorem labyrinth_size:
  assumes "l < 6" "p \<noteq> []" "length p < 4000"
  shows "wp (engine_build_subtree E v p 1 (ENGINE_TREE_DEPTH ! l) (ENGINE_TREE_BRANCH ! l) binary) (\<lambda>(ok, failed) _.
      ok + failed \<le> (\<Sum>k = 1..ENGINE_TREE_DEPTH ! l. (ENGINE_TREE_BRANCH ! l) ^ k) \<and>
      (failed = 0 \<longrightarrow> ok = (\<Sum>k = 1..ENGINE_TREE_DEPTH ! l. (ENGINE_TREE_BRANCH ! l) ^ k))) w
    \<and> engine_estimate_nodes (ENGINE_TREE_BRANCH ! l) (ENGINE_TREE_DEPTH ! l) \<le> 363 \<and> 363 \<le> ENGINE_MAX_DECOY_NODES"
proof -
  have "l = 0 \<or> l = 1 \<or> l = 2 \<or> l = 3 \<or> l = 4 \<or> l = 5" using assms(1) by arith
  then have small: "ENGINE_TREE_DEPTH ! l \<le> 5" "ENGINE_TREE_BRANCH ! l \<le> 3"
    and cap: "engine_estimate_nodes (ENGINE_TREE_BRANCH ! l) (ENGINE_TREE_DEPTH ! l) \<le> 363"
    by (auto simp: ENGINE_TREE_DEPTH_def ENGINE_TREE_BRANCH_def engine_estimate_nodes_def numeral_eq_Suc)
  have "length p + 12 * (Suc (ENGINE_TREE_DEPTH ! l) - 1) + 8 < PATH_MAX"
    using small(1) assms(3) by (simp add: PATH_MAX_def)
  from wp_build_subtree [OF _ _ assms(2) this, of "ENGINE_TREE_BRANCH ! l" E v binary w] small
  have "wp (engine_build_subtree E v p 1 (ENGINE_TREE_DEPTH ! l) (ENGINE_TREE_BRANCH ! l) binary) (\<lambda>(ok, failed) _.
      ok + failed \<le> engine_estimate_nodes (ENGINE_TREE_BRANCH ! l) (ENGINE_TREE_DEPTH ! l) \<and>
      (failed = 0 \<longrightarrow> ok = engine_estimate_nodes (ENGINE_TREE_BRANCH ! l) (ENGINE_TREE_DEPTH ! l))) w"
    by simp (erule wp_mono, auto)
  then show ?thesis using cap by (simp add: estimate_nodes_sum ENGINE_MAX_DECOY_NODES_def)
qed

section \<open>Building and validating\<close>

definition decoy_root :: "Vault \<Rightarrow> string" where "decoy_root v = v_path v @ ''/'' @ ENGINE_DECOY_DIR"
definition real_dir :: "Vault \<Rightarrow> string" where "real_dir v = v_path v @ ''/'' @ ENGINE_REAL_DIR"

definition labyrinth_tree :: "fs \<Rightarrow> Vault \<Rightarrow> bool" where
  "labyrinth_tree f v \<longleftrightarrow> tree_ok f (decoy_root v) 1 (ENGINE_TREE_DEPTH ! nat (v_engine v)) (ENGINE_TREE_BRANCH ! nat (v_engine v)) (v_engine v \<ge> 4)"

definition labyrinth_dirs :: "fs \<Rightarrow> Vault \<Rightarrow> bool" where
  "labyrinth_dirs f v \<longleftrightarrow> is_dir f (decoy_root v) \<and> is_dir f (real_dir v)"

text \<open>A vault with an engine, in a directory of its own.\<close>

definition engine_vault :: "fs \<Rightarrow> Vault \<Rightarrow> bool" where
  "engine_vault f v \<longleftrightarrow> 1 \<le> v_engine v \<and> v_engine v \<le> 5 \<and> str_ok VAULT_PATH_MAX (v_path v) \<and> v_path v \<noteq> [] \<and> is_dir f (v_path v)"

lemma engine_paths:
  assumes "engine_vault f v"
  shows "cbuf PATH_MAX (v_path v @ ''/'' @ ENGINE_DECOY_DIR) = decoy_root v" "cbuf PATH_MAX (v_path v @ ''/'' @ ENGINE_REAL_DIR) = real_dir v"
    "decoy_root v \<noteq> []" "real_dir v \<noteq> []" "length (decoy_root v) < 600" "parent_dir (decoy_root v) = v_path v" "parent_dir (real_dir v) = v_path v"
  using assms parent_of_child_path [of "v_path v" ENGINE_DECOY_DIR] parent_of_child_path [of "v_path v" ENGINE_REAL_DIR]
  by (auto simp: engine_vault_def decoy_root_def real_dir_def cbuf_def str_ok_def sizes ENGINE_DECOY_DIR_def ENGINE_REAL_DIR_def)

lemma engine_level:
  assumes "1 \<le> e" "e \<le> 5"
  shows "ENGINE_TREE_DEPTH ! nat e \<le> 5" "ENGINE_TREE_BRANCH ! nat e \<le> 3"
    "\<not> engine_estimate_nodes (ENGINE_TREE_BRANCH ! nat e) (ENGINE_TREE_DEPTH ! nat e) > ENGINE_MAX_DECOY_NODES"
proof -
  have "e = 1 \<or> e = 2 \<or> e = 3 \<or> e = 4 \<or> e = 5" using assms by arith
  then show "ENGINE_TREE_DEPTH ! nat e \<le> 5" "ENGINE_TREE_BRANCH ! nat e \<le> 3"
    "\<not> engine_estimate_nodes (ENGINE_TREE_BRANCH ! nat e) (ENGINE_TREE_DEPTH ! nat e) > ENGINE_MAX_DECOY_NODES"
    by (auto simp: ENGINE_TREE_DEPTH_def ENGINE_TREE_BRANCH_def engine_estimate_nodes_def ENGINE_MAX_DECOY_NODES_def numeral_eq_Suc)
qed


lemma wp_stat_nolinks:
  fixes t :: world
  assumes "no_links (o_fs t)"
  shows "wp (sys_stat E p) (\<lambda>r u. o_fs u = o_fs t \<and> (\<forall>n. r = Inr n \<longrightarrow> fs_get (o_fs t) p = Some n)) t"
proof -
  obtain k where k: "SYMLOOP_MAX = Suc k" by (rule that [of 39]) (simp add: SYMLOOP_MAX_def)
  have "resolve SYMLOOP_MAX (o_fs t) p = Inr p" using assms unfolding k by (auto simp: no_links_def split: option.splits)
  then show ?thesis by (auto simp: wp_syscall fs_stat_def fs_lstat_def split: option.splits)
qed

lemma wp_mkdir_nolinks:
  fixes t :: world
  assumes "no_links (o_fs t)"
  shows "wp (engine_mkdir E p) (\<lambda>r u. kept_types (o_fs t) (o_fs u) \<and> (r = ERR_OK \<longrightarrow> is_dir (o_fs u) p)) t"
proof -
  have checked: "wp (do { st \<leftarrow> sys_stat E p; return (case st of Inl _ \<Rightarrow> ERR_IO | Inr n \<Rightarrow> if i_type n \<noteq> S_IFDIR then ERR_IO else ERR_OK) })
      (\<lambda>r u. r = ERR_OK \<longrightarrow> is_dir (o_fs u) p) u" if "kept_types (o_fs t) (o_fs u)" for u :: world
    unfolding wp_bind
    by (rule wp_mono [OF wp_stat_nolinks [OF no_links_kept [OF that assms]]]) (auto simp: wp_return is_dir_def split: sum.splits)
  have "wp (engine_mkdir E p) (\<lambda>r u. r = ERR_OK \<longrightarrow> is_dir (o_fs u) p) t"
    unfolding engine_mkdir_def
  proof (split if_split, intro conjI impI)
    show "wp (return ERR_INVALID_ARGS) (\<lambda>r u. r = ERR_OK \<longrightarrow> is_dir (o_fs u) p) t" by (simp add: wp_return)
    show "wp (do { st \<leftarrow> sys_stat E p;
       (case st of
          Inr n \<Rightarrow> return (if i_type n \<noteq> S_IFDIR then ERR_IO else ERR_OK)
        | Inl _ \<Rightarrow> do {
            res \<leftarrow> sys_mkdir E p MODE_0700;
            (case res of
               Inl _ \<Rightarrow> return ERR_IO
             | Inr _ \<Rightarrow> do {
                 st \<leftarrow> sys_stat E p;
                 return (case st of Inl _ \<Rightarrow> ERR_IO | Inr n \<Rightarrow> if i_type n \<noteq> S_IFDIR then ERR_IO else ERR_OK) }) }) })
        (\<lambda>r u. r = ERR_OK \<longrightarrow> is_dir (o_fs u) p) t"
      unfolding wp_bind [of "sys_stat E p" "\<lambda>st. case st of Inl e \<Rightarrow> _ e | Inr n \<Rightarrow> _ n"]
    proof (rule wp_mono [OF wp_stat_nolinks [OF assms]], elim conjE)
      fix r and u :: world assume u: "o_fs u = o_fs t" "\<forall>n. r = Inr n \<longrightarrow> fs_get (o_fs t) p = Some n"
      have made: "wp (do { res \<leftarrow> sys_mkdir E p MODE_0700;
            (case res of
               Inl _ \<Rightarrow> return ERR_IO
             | Inr _ \<Rightarrow> do {
                 st \<leftarrow> sys_stat E p;
                 return (case st of Inl _ \<Rightarrow> ERR_IO | Inr n \<Rightarrow> if i_type n \<noteq> S_IFDIR then ERR_IO else ERR_OK) }) })
          (\<lambda>r u. r = ERR_OK \<longrightarrow> is_dir (o_fs u) p) u"
        by (rule wp_kept_bind [OF pres_keeping [OF keeping_calls(2)]])
           (use u(1) checked in \<open>auto simp: wp_return split: sum.splits\<close>)
      show "wp (case r of
          Inr n \<Rightarrow> return (if i_type n \<noteq> S_IFDIR then ERR_IO else ERR_OK)
        | Inl _ \<Rightarrow> do {
            res \<leftarrow> sys_mkdir E p MODE_0700;
            (case res of
               Inl _ \<Rightarrow> return ERR_IO
             | Inr _ \<Rightarrow> do {
                 st \<leftarrow> sys_stat E p;
                 return (case st of Inl _ \<Rightarrow> ERR_IO | Inr n \<Rightarrow> if i_type n \<noteq> S_IFDIR then ERR_IO else ERR_OK) }) })
        (\<lambda>r u. r = ERR_OK \<longrightarrow> is_dir (o_fs u) p) u"
        using u made by (cases r) (auto simp: wp_return is_dir_def)
    qed
  qed
  from wp_conj [OF preservesD [OF pres_engine_mkdir kept_types_refl] this] show ?thesis .
qed


lemma pres_kept_seed: "preserves (adds_to f) (modify (\<lambda>w. w\<lparr>g_seed := s\<rparr>))"
  by (simp add: pres_modify)

text \<open>From the directories on: the tree is complete when the build reports success.\<close>

lemma wp_apply_tree:
  assumes "engine_vault f v" "is_dir (o_fs t) (decoy_root v)" "is_dir (o_fs t) (real_dir v)"
  shows "wp (do {
       _ \<leftarrow> sys_chmod E (real_dir v) MODE_0700;
       let max_depth = ENGINE_TREE_DEPTH ! nat (v_engine v);
       let branch = ENGINE_TREE_BRANCH ! nat (v_engine v);
       let binary = (v_engine v \<ge> 4);
       if engine_estimate_nodes branch max_depth > ENGINE_MAX_DECOY_NODES then return ERR_INVALID_ARGS
       else do {
         (layers_ok, layers_failed) \<leftarrow> engine_build_subtree E v (decoy_root v) 1 max_depth branch binary;
         if layers_failed > 0 then do { engine_cleanup_decoy E (decoy_root v); return ERR_IO }
         else return ERR_OK } })
     (\<lambda>r u. r = ERR_OK \<longrightarrow> kept_types (o_fs t) (o_fs u) \<and> labyrinth_dirs (o_fs u) v \<and> labyrinth_tree (o_fs u) v) t"
proof -
  let ?d = "ENGINE_TREE_DEPTH ! nat (v_engine v)" and ?b = "ENGINE_TREE_BRANCH ! nat (v_engine v)"
  have lv: "?d \<le> 5" "?b \<le> 3" "\<not> engine_estimate_nodes ?b ?d > ENGINE_MAX_DECOY_NODES"
    using assms(1) engine_level by (auto simp: engine_vault_def)
  have len: "length (decoy_root v) + 12 * (Suc ?d - 1) + 8 < PATH_MAX"
    using engine_paths(5) [OF assms(1)] lv(1) by (simp add: PATH_MAX_def)
  have failed: "wp (do { engine_cleanup_decoy E (decoy_root v); return ERR_IO })
      (\<lambda>r u. r = ERR_OK \<longrightarrow> kept_types (o_fs t) (o_fs u) \<and> labyrinth_dirs (o_fs u) v \<and> labyrinth_tree (o_fs u) v) u" for u
    by (rule wp_any) (simp add: wp_return)
  have "wp (engine_build_subtree E v (decoy_root v) 1 ?d ?b (v_engine v \<ge> 4)) (\<lambda>(ok, fl) u'. kept_types (o_fs u) (o_fs u') \<and>
      (fl = 0 \<longrightarrow> labyrinth_tree (o_fs u') v)) u" for u
    by (rule wp_mono [OF wp_build_subtree [OF _ _ engine_paths(3) [OF assms(1)] len]]) (use lv in \<open>auto simp: labyrinth_tree_def\<close>)
  note built = this
  show ?thesis
    unfolding Let_def if_not_P [OF lv(3)]
  proof (rule wp_kept_bind [OF pres_keeping [OF keeping_calls(3)]])
    fix r and u :: world assume u: "kept_types (o_fs t) (o_fs u)"
    show "wp (do {
         (layers_ok, layers_failed) \<leftarrow> engine_build_subtree E v (decoy_root v) 1 ?d ?b (v_engine v \<ge> 4);
         if layers_failed > 0 then do { engine_cleanup_decoy E (decoy_root v); return ERR_IO }
         else return ERR_OK })
       (\<lambda>r u. r = ERR_OK \<longrightarrow> kept_types (o_fs t) (o_fs u) \<and> labyrinth_dirs (o_fs u) v \<and> labyrinth_tree (o_fs u) v) u"
      unfolding wp_bind [of "engine_build_subtree _ _ _ _ _ _ _"]
      by (rule wp_mono [OF built], clarsimp, intro conjI impI)
         (use u assms(2,3) failed in \<open>auto simp: wp_return labyrinth_dirs_def intro: kept_types_trans is_dir_kept\<close>)
  qed
qed


lemma wp_engine_apply:
  assumes "engine_vault (o_fs w) (vaults w ! i)" "no_links (o_fs w)"
  shows "wp (engine_apply E (Some i)) (\<lambda>r u. r = ERR_OK \<longrightarrow> kept_types (o_fs w) (o_fs u) \<and>
     labyrinth_dirs (o_fs u) (vaults w ! i) \<and> labyrinth_tree (o_fs u) (vaults w ! i)) w"
proof -
  let ?v = "vaults w ! i"
  define Q where "Q r u \<longleftrightarrow> r = ERR_OK \<longrightarrow> kept_types (o_fs w) (o_fs u) \<and> labyrinth_dirs (o_fs u) ?v \<and> labyrinth_tree (o_fs u) ?v"
    for r and u :: world
  have err: "wp (return e) Q u" if "e \<noteq> ERR_OK" for e u using that by (simp add: Q_def wp_return)
  define tree where "tree = (do {
       _ \<leftarrow> sys_chmod E (real_dir ?v) MODE_0700;
       let max_depth = ENGINE_TREE_DEPTH ! nat (v_engine ?v);
       let branch = ENGINE_TREE_BRANCH ! nat (v_engine ?v);
       let binary = (v_engine ?v \<ge> 4);
       if engine_estimate_nodes branch max_depth > ENGINE_MAX_DECOY_NODES then return ERR_INVALID_ARGS
       else do {
         (layers_ok, layers_failed) \<leftarrow> engine_build_subtree E ?v (decoy_root ?v) 1 max_depth branch binary;
         if layers_failed > 0 then do { engine_cleanup_decoy E (decoy_root ?v); return ERR_IO }
         else return ERR_OK } })"
  have t3: "wp tree Q u" if "kept_types (o_fs w) (o_fs u)" "is_dir (o_fs u) (decoy_root ?v)" "is_dir (o_fs u) (real_dir ?v)" for u :: world
    unfolding tree_def
    by (rule wp_mono [OF wp_apply_tree [OF assms(1) that(2,3)]]) (use that(1) in \<open>auto simp: Q_def intro: kept_types_trans\<close>)
  have t2: "wp (do { err \<leftarrow> engine_mkdir E (real_dir ?v); if err \<noteq> ERR_OK then return err else tree }) Q u"
    if u: "kept_types (o_fs w) (o_fs u)" "is_dir (o_fs u) (decoy_root ?v)" for u :: world
    unfolding wp_bind [of "engine_mkdir _ _"]
    by (rule wp_mono [OF wp_mkdir_nolinks [OF no_links_kept [OF u(1) assms(2)]]])
       (use u err t3 in \<open>auto intro: kept_types_trans is_dir_kept\<close>)
  have t1: "wp (do { err \<leftarrow> engine_mkdir E (decoy_root ?v); if err \<noteq> ERR_OK then return err
        else do { err \<leftarrow> engine_mkdir E (real_dir ?v); if err \<noteq> ERR_OK then return err else tree } }) Q u"
    if u: "kept_types (o_fs w) (o_fs u)" for u :: world
    unfolding wp_bind [of "engine_mkdir _ (decoy_root _)"]
    by (rule wp_mono [OF wp_mkdir_nolinks [OF no_links_kept [OF u assms(2)]]])
       (use u err t2 in \<open>auto intro: kept_types_trans\<close>)
  have t0: "wp (do { s1 \<leftarrow> sys_rand E 4;
           seed \<leftarrow> (case s1 of Some b \<Rightarrow> return (dec32 b)
                   | None \<Rightarrow> do { s2 \<leftarrow> sys_rand E 4; return (case s2 of Some b \<Rightarrow> dec32 b | None \<Rightarrow> 0) });
           modify (\<lambda>w. w\<lparr>g_seed := seed\<rparr>);
           err \<leftarrow> engine_mkdir E (decoy_root ?v); if err \<noteq> ERR_OK then return err
           else do { err \<leftarrow> engine_mkdir E (real_dir ?v); if err \<noteq> ERR_OK then return err else tree } }) Q w"
    by (intro wp_kept_bind pres_engine pres_kept_seed t1) (auto intro: kept_types_trans)
  note lv = assms(1) [unfolded engine_vault_def]
  have range: "\<not> (v_engine ?v < ENGINE_LEVEL_MIN \<or> v_engine ?v > ENGINE_LEVEL_MAX)" "v_engine ?v \<noteq> 0"
    using lv by (simp_all add: ENGINE_LEVEL_MIN_def ENGINE_LEVEL_MAX_def)
  show ?thesis
    unfolding engine_apply_def option.case wp_bind [of "get_vault i"] wp_get_vault Let_def engine_paths(1,2) [OF assms(1)]
      if_not_P [OF range(1)] if_not_P [OF range(2)] Q_def [symmetric] tree_def [unfolded Let_def, symmetric]
    by (auto intro: err t0)
qed

lemma apply_keeps_catalog: "preserves (\<lambda>w. g_catalog w = c) (engine_apply E vp)"
  by (rule pres_engine_apply) simp_all

text \<open>The validation accepts exactly the complete labyrinths: it reports success if both directories, every node
  and every decoy are there, and an integrity error otherwise; it raises an alert exactly if the directories are there
  and something inside is missing.\<close>
theorem validate_iff_complete:
  assumes "reliable E" "e_euid E = 0" "no_links (o_fs w)" "i < length (vaults w)" "engine_vault (o_fs w) (vaults w ! i)"
  shows "wp (engine_validate E (Some i)) (\<lambda>r u.
     r = (if labyrinth_dirs (o_fs w) (vaults w ! i) \<and> labyrinth_tree (o_fs w) (vaults w ! i) then ERR_OK else ERR_INTEGRITY) \<and>
     v_status (vaults u ! i) = (if labyrinth_dirs (o_fs w) (vaults w ! i) \<and> \<not> labyrinth_tree (o_fs w) (vaults w ! i)
       then VAULT_STATUS_ALERT else v_status (vaults w ! i))) w"
proof -
  let ?v = "vaults w ! i" and ?f = "o_fs w"
  let ?d = "ENGINE_TREE_DEPTH ! nat (v_engine ?v)" and ?b = "ENGINE_TREE_BRANCH ! nat (v_engine ?v)"
  define Q where "Q r u \<longleftrightarrow> r = (if labyrinth_dirs ?f ?v \<and> labyrinth_tree ?f ?v then ERR_OK else ERR_INTEGRITY) \<and>
     v_status (vaults u ! i) = (if labyrinth_dirs ?f ?v \<and> \<not> labyrinth_tree ?f ?v then VAULT_STATUS_ALERT else v_status ?v)"
    for r and u :: world
  note lv = assms(5) [unfolded engine_vault_def]
  have range: "\<not> (v_engine ?v < ENGINE_LEVEL_MIN \<or> v_engine ?v > ENGINE_LEVEL_MAX)" "v_engine ?v \<noteq> 0"
    using lv by (simp_all add: ENGINE_LEVEL_MIN_def ENGINE_LEVEL_MAX_def)
  have small: "?d \<le> 5" "?b \<le> 3" using engine_level lv by auto
  have len: "length (decoy_root ?v) + 12 * (Suc ?d - 1) + 8 < PATH_MAX"
    using engine_paths(5) [OF assms(5)] small(1) by (simp add: PATH_MAX_def)
  have stat: "wp (sys_stat E p) (\<lambda>r u. same_fs w u \<and> ((case r of Inl _ \<Rightarrow> True | Inr n \<Rightarrow> i_type n \<noteq> S_IFDIR) \<longleftrightarrow> \<not> is_dir ?f p)) u"
    if "parent_dir p = v_path ?v" "same_fs w u" for p u
    using assms(1) stat_plain [OF assms(2,3), of p] lv that by (auto simp: wp_syscall same_fs_def is_dir_def split: option.splits)
  have alert: "wp (do { alert_trigger E i reason; return ERR_INTEGRITY }) (\<lambda>r u. r = ERR_INTEGRITY \<and> v_status (vaults u ! i) = VAULT_STATUS_ALERT) u"
    if "same_fs w u" for u reason
    unfolding wp_bind
    by (rule wp_mono [OF wp_alert_trigger]) (use that assms(4) in \<open>auto simp: same_fs_def wp_return alert_mark_def Let_def\<close>)
  have tree: "wp (do {
               (missing_layers, missing_files) \<leftarrow> engine_validate_subtree E (decoy_root ?v) 1 ?d ?b (v_engine ?v \<ge> 4);
               if missing_layers > 0 \<or> missing_files > 0 then do {
                 alert_trigger E i (cbuf 256 (''Engine '' @ dec_digits (nat (v_engine ?v)) @ '' compromised: '' @ dec_digits missing_layers @
                   '' nodes, '' @ dec_digits missing_files @ '' files removed''));
                 return ERR_INTEGRITY }
               else return ERR_OK }) Q u"
    if u: "same_fs w u" "labyrinth_dirs ?f ?v" for u
  proof -
    have "is_dir ?f (decoy_root ?v)" using u(2) by (simp add: labyrinth_dirs_def)
    note sub = wp_validate_subtree [OF assms(1-3) _ _ engine_paths(3) [OF assms(5)] len this u(1), where branch = ?b and binary = "v_engine ?v \<ge> 4"]
    show ?thesis
      unfolding wp_bind [of "engine_validate_subtree _ _ _ _ _ _"]
    proof (rule wp_mono [OF sub], goal_cases)
      case (3 r t)
      obtain a b where r: "r = (a, b)" by fastforce
      have t: "same_fs w t" "a = 0 \<and> b = 0 \<longleftrightarrow> labyrinth_tree ?f ?v" using 3 u(1) r by (auto simp: same_fs_def labyrinth_tree_def)
      show ?case
      proof (cases "labyrinth_tree ?f ?v")
        case True
        then show ?thesis using t u(2) r by (simp add: wp_return Q_def same_fs_def)
      next
        case False
        then have "a > 0 \<or> b > 0" using t(2) by auto
        then have "wp (if a > 0 \<or> b > 0 then do { alert_trigger E i reason; return ERR_INTEGRITY } else return ERR_OK) Q t" for reason
          using False u(2) by (simp only: if_True) (rule wp_mono [OF alert [OF t(1)]], simp add: Q_def)
        then show ?thesis unfolding r prod.case .
      qed
    qed (use small in auto)
  qed
  have none: "wp (return ERR_INTEGRITY) Q u" if "same_fs w u" "\<not> labyrinth_dirs ?f ?v" for u
    using that by (simp add: wp_return Q_def same_fs_def)
  have start: "same_fs w w" by (simp add: same_fs_def)
  show ?thesis
    unfolding engine_validate_def option.case wp_bind [of "get_vault i"] wp_get_vault Let_def engine_paths(1,2) [OF assms(5)]
      if_not_P [OF range(1)] if_not_P [OF range(2)] Q_def [symmetric] wp_bind [of "sys_stat _ (decoy_root _)"]
  proof (rule wp_mono [OF stat [OF engine_paths(6) [OF assms(5)] start]], elim conjE, split if_split, intro conjI impI)
    fix st and s :: world
    assume s: "same_fs w s" and d: "(case st of Inl _ \<Rightarrow> True | Inr n \<Rightarrow> i_type n \<noteq> S_IFDIR) \<longleftrightarrow> \<not> is_dir ?f (decoy_root ?v)"
    show "wp (return ERR_INTEGRITY) Q s" if "case st of Inl _ \<Rightarrow> True | Inr n \<Rightarrow> i_type n \<noteq> S_IFDIR"
      using that d none [OF s] by (simp add: labyrinth_dirs_def)
    assume "\<not> (case st of Inl _ \<Rightarrow> True | Inr n \<Rightarrow> i_type n \<noteq> S_IFDIR)"
    then have "is_dir ?f (decoy_root ?v)" using d by simp
    then show "wp (do { st \<leftarrow> sys_stat E (real_dir ?v);
             if (case st of Inl _ \<Rightarrow> True | Inr n \<Rightarrow> i_type n \<noteq> S_IFDIR) then return ERR_INTEGRITY
             else do {
               (missing_layers, missing_files) \<leftarrow> engine_validate_subtree E (decoy_root ?v) 1 ?d ?b (v_engine ?v \<ge> 4);
               if missing_layers > 0 \<or> missing_files > 0 then do {
                 alert_trigger E i (cbuf 256 (''Engine '' @ dec_digits (nat (v_engine ?v)) @ '' compromised: '' @ dec_digits missing_layers @
                   '' nodes, '' @ dec_digits missing_files @ '' files removed''));
                 return ERR_INTEGRITY }
               else return ERR_OK } }) Q s"
      unfolding wp_bind [of "sys_stat _ _"]
      by (intro wp_mono [OF stat [OF engine_paths(7) [OF assms(5)] s]], elim conjE)
         (auto intro!: tree none simp: labyrinth_dirs_def simp del: One_nat_def)
  qed
qed


section \<open>A build without faults\<close>

text \<open>Nothing but regular files where the decoys go.\<close>

definition decoys_free :: "fs \<Rightarrow> string \<Rightarrow> bool" where
  "decoys_free f p \<longleftrightarrow> (\<forall>q. parent_dir q = p \<longrightarrow> (case fs_get f q of None \<Rightarrow> True | Some n \<Rightarrow> i_type n = S_IFREG))"

lemma decoy_open:
  assumes "e_euid E = 0" "is_dir f (parent_dir q)" "case fs_get f q of None \<Rightarrow> True | Some n \<Rightarrow> i_type n = S_IFREG"
  shows "\<exists>n. fs_open E q DECOY_FLAGS m f = (Inr q, fs_put q n f) \<and> i_type n = S_IFREG"
proof -
  have s: "search_err E f (parent_dir q) = None" "write_err E f (parent_dir q) = None"
    using assms(1,2) by (auto simp: is_dir_def search_err_def write_err_def may_def split: option.splits)
  have fl: "flag_set DECOY_FLAGS O_CREAT" "flag_set DECOY_FLAGS O_NOFOLLOW" "\<not> flag_set DECOY_FLAGS O_EXCL" "flag_set DECOY_FLAGS O_TRUNC"
    by (simp_all add: flag_set_def DECOY_FLAGS_def o_flags)
  show ?thesis using assms(1,3) s fl by (auto simp: fs_open_def open_target_def may_def split: option.splits)
qed

lemma text_decoy_ok:
  assumes "reliable E" "e_euid E = 0" "is_dir (o_fs w) (parent_dir q)" "parent_dir q \<noteq> q"
    "case fs_get (o_fs w) q of None \<Rightarrow> True | Some n \<Rightarrow> i_type n = S_IFREG"
  shows "wp (engine_write_text_decoy E q c) (\<lambda>r u. r = ERR_OK \<and> (\<exists>n. i_type n = S_IFREG \<and> o_fs u = fs_put q n (o_fs w))) w"
proof -
  obtain n where n: "fs_open E q DECOY_FLAGS MODE_0600 (o_fs w) = (Inr q, fs_put q n (o_fs w))" "i_type n = S_IFREG"
    using decoy_open [OF assms(2,3,5)] by blast
  have st: "fs_stat E q (fs_put q m (o_fs w)) = (Inr m, fs_put q m (o_fs w))" if "i_type m = S_IFREG" for m
  proof -
    have "search_err E (fs_put q m (o_fs w)) (parent_dir q) = None"
      using assms(2,3,4) by (auto simp: search_err_def is_dir_def may_def fs_get_put split: option.splits)
    then show ?thesis using resolve_plain [of "fs_put q m (o_fs w)" q] that by (simp add: fs_stat_def fs_lstat_def)
  qed
  show ?thesis
    using assms(1) n st by (auto simp: engine_write_text_decoy_def wp_simps Let_def fs_append_put)
       (rule exI [of _ "n\<lparr>i_data := i_data n @ text_decoy (g_seed w) c\<rparr>"], simp)
qed

lemma populate_ok:
  assumes "reliable E" "e_euid E = 0" "is_dir (o_fs w) p" "decoys_free (o_fs w) p" "length p + 8 < PATH_MAX" "p \<noteq> []"
  shows "wp (engine_populate_layer E p False) (\<lambda>r _. r = ERR_OK) w"
proof -
  define f :: "char \<Rightarrow> (nat \<times> nat) vio" where "f c = (do {
         seed \<leftarrow> gets g_seed;
         let filepath = cbuf PATH_MAX (decoy_file p c (engine_pick_extension seed False p c));
         err \<leftarrow> (if False then engine_write_binary_decoy E filepath c else engine_write_text_decoy E filepath c);
         if err \<noteq> ERR_OK then return (0, 1)
         else do {
           _ \<leftarrow> sys_chmod E filepath MODE_0400;
           return (1, 0) } })" for c
  define I :: "world \<Rightarrow> bool" where "I u \<longleftrightarrow> is_dir (o_fs u) p \<and> decoys_free (o_fs u) p" for u
  have put: "is_dir (fs_put q n g) p \<and> decoys_free (fs_put q n g) p" if "is_dir g p" "decoys_free g p" "parent_dir q = p" "q \<noteq> p" "i_type n = S_IFREG" for g q n
    using that by (auto simp: is_dir_def decoys_free_def fs_get_put)
  have round: "wp (f c) (\<lambda>(a, b) u. I u \<and> b = 0) t" if c: "c \<in> set letters" and t: "I t" for c t
  proof -
    let ?ext = "engine_pick_extension (g_seed t) False p c"
    let ?q = "decoy_file p c ?ext"
    have ext: "?ext \<in> set (ext_pool False)" by (rule pick_extension)
    have q: "cbuf PATH_MAX ?q = ?q" "parent_dir ?q = p" "?q \<noteq> p"
      using decoy_file_fits [OF ext assms(5)] parent_decoy [OF assms(6) c ext] by (auto simp: decoy_file_def)
    have chm: "wp (sys_chmod E ?q MODE_0400) (\<lambda>_. I) u" if "I u" for u
      using that by (auto simp: wp_syscall fs_chmod_def I_def is_dir_def decoys_free_def fs_get_put split: option.splits sum.splits)
    have "wp (engine_write_text_decoy E ?q c) (\<lambda>r u. r = ERR_OK \<and> (\<exists>n. i_type n = S_IFREG \<and> o_fs u = fs_put ?q n (o_fs t))) t"
      using t q by (intro text_decoy_ok [OF assms(1,2)]) (auto simp: I_def decoys_free_def)
    then have "wp (engine_write_text_decoy E ?q c) (\<lambda>r u. r = ERR_OK \<and> I u) t"
      by (rule wp_mono) (use put [OF _ _ q(2,3)] t in \<open>auto simp: I_def\<close>)
    then show ?thesis
      unfolding f_def wp_bind wp_gets wp_let Let_def q(1) if_False
      by (rule wp_mono) (auto simp: wp_bind wp_return intro!: wp_mono [OF chm])
  qed
  have "wp (tally xs f) (\<lambda>(a, b) _. b = 0) t" if "set xs \<subseteq> set letters" "I t" for xs t
    using that
  proof (induction xs arbitrary: t)
    case (Cons x xs)
    then have "wp (f x) (\<lambda>(a, b) u. I u \<and> b = 0) t" using round by simp
    then show ?case
      unfolding tally.simps wp_bind wp_case_prod wp_return
      by (rule wp_mono) (use Cons in \<open>auto intro!: wp_mono [OF Cons.IH]\<close>)
  qed (simp add: wp_return)
  from this [of letters w] have "wp (tally letters f) (\<lambda>(a, b) _. b = 0) w" using assms(3,4) by (simp add: I_def)
  then show ?thesis
    unfolding engine_populate_layer_def wp_bind f_def [symmetric] by (rule wp_mono) (auto simp: wp_return)
qed


text \<open>C24: What \<open>engine_apply\<close> reports as built, \<open>engine_validate\<close> accepts.\<close>
theorem applied_engine_validates:
  assumes "reliable E" "e_euid E = 0" "no_links (o_fs w)" "i < length (vaults w)" "engine_vault (o_fs w) (vaults w ! i)"
  shows "wp (do { a \<leftarrow> engine_apply E (Some i); v \<leftarrow> engine_validate E (Some i); return (a, v) })
     (\<lambda>(a, v) _. a = ERR_OK \<longrightarrow> v = ERR_OK) w"
proof -
  let ?v = "vaults w ! i"
  have "wp (engine_apply E (Some i)) (\<lambda>a u. g_catalog u = g_catalog w \<and> (a = ERR_OK \<longrightarrow> kept_types (o_fs w) (o_fs u) \<and>
     labyrinth_dirs (o_fs u) ?v \<and> labyrinth_tree (o_fs u) ?v)) w"
    by (rule wp_conj [OF preservesD [OF apply_keeps_catalog refl] wp_engine_apply [OF assms(5,3)]])
  then show ?thesis
    unfolding wp_bind
  proof (rule wp_mono, elim conjE)
    fix a and u :: world
    assume c: "g_catalog u = g_catalog w" and post: "a = ERR_OK \<longrightarrow> kept_types (o_fs w) (o_fs u) \<and> labyrinth_dirs (o_fs u) ?v \<and> labyrinth_tree (o_fs u) ?v"
    show "wp (engine_validate E (Some i)) (\<lambda>v. wp (return (a, v)) (\<lambda>(a, v) _. a = ERR_OK \<longrightarrow> v = ERR_OK)) u"
    proof (cases "a = ERR_OK")
      case True
      with post have p: "kept_types (o_fs w) (o_fs u)" "labyrinth_dirs (o_fs u) ?v" "labyrinth_tree (o_fs u) ?v" by simp_all
      have "engine_vault (o_fs u) (vaults u ! i)" using assms(5) is_dir_kept [OF p(1)] c by (simp add: engine_vault_def)
      moreover have "no_links (o_fs u)" by (rule no_links_kept [OF p(1) assms(3)])
      moreover have "i < length (vaults u)" using assms(4) c by simp
      ultimately show ?thesis
        using p(2,3) c by (auto simp: wp_return intro!: wp_mono [OF validate_iff_complete [OF assms(1,2)]])
    qed (simp add: wp_return)
  qed
qed

text \<open>A path is taken for a decoy exactly if it resolves to the decoy directory of the vault or to something below
  it; a sibling whose name merely starts like it is not.\<close>
theorem decoy_path_iff:
  "engine_is_decoy_path_v E f (Some v) (Some path) \<longleftrightarrow>
     (\<exists>d p. e_realpath E f (cbuf PATH_MAX (decoy_root v)) = Some d \<and> e_realpath E f path = Some p \<and> (p = d \<or> prefix (d @ ''/'') p))"
proof -
  have "path_below d p \<longleftrightarrow> p = d \<or> prefix (d @ ''/'') p" for d p
  proof (cases "take (length d) p = d")
    case True
    then obtain r where "p = d @ r" by (metis append_take_drop_id)
    then show ?thesis by (cases r) (auto simp: path_below_def)
  qed (auto simp: path_below_def prefix_def)
  then show ?thesis by (auto simp: engine_is_decoy_path_v_def decoy_root_def split: option.splits)
qed


section \<open>Examples\<close>

definition engine_world :: world where
  "engine_world = (upd_vaults (\<lambda>vs. vs[0 := (vs ! 0)\<lparr>v_engine := 1\<rparr>]) ex_world)"

lemma engine_world_simps [simp]: "vaults engine_world = [ex_vault\<lparr>v_engine := 1\<rparr>]" "o_fs engine_world = ex_fs" "o_tick engine_world = 0"
  by (simp_all add: engine_world_def)

lemma engine_world_ok: "no_links (o_fs engine_world)" "engine_vault (o_fs engine_world) (vaults engine_world ! 0)"
  by (auto simp: no_links_def ex_fs_def fs_get_def ex_dir_def ex_file_def split: if_splits)
     (simp add: engine_vault_def str_ok_def sizes is_dir_def fs_get_def ex_fs_def ex_dir_def)

lemma labyrinth_size_witness:
  "wp (engine_build_subtree ex_env ex_vault ''/v/docs/.engine_decoy'' 1 3 2 False) (\<lambda>(ok, failed) _.
      ok + failed \<le> 14 \<and> (failed = 0 \<longrightarrow> ok = 14)) engine_world"
  using labyrinth_size [of 3 "''/v/docs/.engine_decoy''" ex_env ex_vault False engine_world]
  by (simp add: ENGINE_TREE_DEPTH_def ENGINE_TREE_BRANCH_def numeral_eq_Suc)

lemma validate_iff_complete_witness:
  "wp (engine_validate ex_env (Some 0)) (\<lambda>r u. r = ERR_INTEGRITY \<and> v_status (vaults u ! 0) = VAULT_STATUS_OK) engine_world"
proof -
  have "\<not> labyrinth_dirs (o_fs engine_world) (vaults engine_world ! 0)"
    by (simp add: labyrinth_dirs_def is_dir_def decoy_root_def ENGINE_DECOY_DIR_def fs_get_def ex_fs_def)
  then show ?thesis
    using validate_iff_complete [of ex_env engine_world 0] engine_world_ok by simp
qed

lemma ex_mkdir:
  fixes w :: world
  assumes "is_dir (o_fs w) (parent_dir p)" "parent_dir p \<noteq> p" "p \<noteq> []" "fs_get (o_fs w) p = None"
  shows "wp (engine_mkdir ex_env p) (\<lambda>r u. r = ERR_OK \<and> o_fs u = fs_put p ex_dir (o_fs w)) w"
proof -
  have s: "search_err ex_env (o_fs w) (parent_dir p) = None" "write_err ex_env (o_fs w) (parent_dir p) = None"
    "search_err ex_env (fs_put p n (o_fs w)) (parent_dir p) = None" for n
    using assms(1,2) by (auto simp: is_dir_def search_err_def write_err_def may_def fs_get_put split: option.splits)
  obtain k where k: "SYMLOOP_MAX = Suc k" by (rule that [of 39]) (simp add: SYMLOOP_MAX_def)
  have "MODE_0700 AND NOT MODE_0022 = MODE_0700" by (simp add: modes)
  then show ?thesis
    using assms(3,4) s
    by (simp add: engine_mkdir_def wp_simps fs_stat_def fs_lstat_def fs_mkdir_def k ex_dir_def) (simp add: ex_env_def ex_dir_def)
qed

definition ex_root :: string where "ex_root = ''/v/docs/.engine_decoy''"
definition ex_node :: string where "ex_node = ''/v/docs/.engine_decoy/layer_01_00''"
definition ex_real :: string where "ex_real = ''/v/docs/.engine_real''"

lemma ex_child: "engine_child_dirname 1 0 = ''layer_01_00''"
  by code_simp

lemma ex_node_path: "ex_root @ ''/'' @ engine_child_dirname 1 0 = ex_node" "decoy_root (ex_vault\<lparr>v_engine := 1\<rparr>) = ex_root" "real_dir (ex_vault\<lparr>v_engine := 1\<rparr>) = ex_real"
  "parent_dir ex_node = ex_root" "parent_dir ex_root = ''/v/docs''" "parent_dir ex_real = ''/v/docs''" "ex_root \<noteq> []" "ex_node \<noteq> []" "ex_real \<noteq> []"
  by (simp_all add: ex_root_def ex_node_def ex_real_def ex_child [unfolded One_nat_def] decoy_root_def real_dir_def ENGINE_DECOY_DIR_def ENGINE_REAL_DIR_def parent_dir_def)

definition ex_dirs :: fs where "ex_dirs = fs_put ex_real ex_dir (fs_put ex_root ex_dir ex_fs)"

lemma ex_dirs_facts:
  "is_dir ex_fs ''/v/docs''" "fs_get ex_fs ex_root = None" "fs_get (fs_put ex_root ex_dir ex_fs) ex_real = None" "is_dir (fs_put ex_root ex_dir ex_fs) ''/v/docs''"
  "is_dir ex_dirs ex_root" "is_dir ex_dirs ex_real" "is_dir ex_dirs ''/v/docs''" "fs_get ex_dirs ex_node = None"
  "fs_get (fs_put q n ex_dirs) q' = (if q' = q then Some n else fs_get ex_dirs q')"
  by (simp_all add: ex_dirs_def is_dir_def fs_get_put)
     (simp_all add: ex_root_def ex_real_def ex_node_def is_dir_def fs_get_def ex_fs_def ex_dir_def)

lemma ex_decoys_free: "decoys_free (fs_put ex_node ex_dir ex_dirs) ex_node"
proof -
  have keys: "list_all (\<lambda>q. parent_dir q \<noteq> ex_node) (map fst (fs_put ex_node ex_dir ex_dirs))" by code_simp
  have "parent_dir q \<noteq> ex_node" if "fs_get (fs_put ex_node ex_dir ex_dirs) q \<noteq> None" for q
    using bspec [OF keys [unfolded list_all_iff] that [unfolded fs_get_in]] .
  then show ?thesis by (auto simp: decoys_free_def split: option.splits)
qed

lemma ex_build:
  assumes "o_fs w = fs_put ex_node ex_dir ex_dirs"
  shows "wp (engine_populate_layer ex_env ex_node False) (\<lambda>r _. r = ERR_OK) w"
  using ex_decoys_free assms by (intro populate_ok) (simp_all add: ex_node_def PATH_MAX_def is_dir_def ex_dir_def)


lemma ex_subtree:
  assumes "o_fs w = ex_dirs"
  shows "wp (engine_build_subtree ex_env (ex_vault\<lparr>v_engine := 1\<rparr>) ex_root 1 1 1 False) (\<lambda>(ok, failed) _. failed = 0) w"
proof -
  have deeper: "engine_build_subtree ex_env v p (Suc 1) 1 1 False = return (0, 0)" for v p
    by (simp add: engine_build_subtree.simps)
  have short: "\<not> PATH_MAX \<le> length ex_node" by (simp add: ex_node_def PATH_MAX_def)
  have inside: "wp (engine_validate_inside_vault ex_env (ex_vault\<lparr>v_engine := 1\<rparr>) ex_node) (\<lambda>r u. r = ERR_OK \<and> u = w) w"
  proof -
    obtain a b where d: "fs_get ex_dirs ''/v/docs'' = Some a" "fs_get ex_dirs ex_root = Some b"
      using ex_dirs_facts(5,7) by (auto simp: is_dir_def split: option.splits)
    have r: "rev (drop 1 (dropWhile (\<lambda>c. c \<noteq> CHR ''/'') (rev (cbuf PATH_MAX ex_node)))) = ex_root" "CHR ''/'' \<in> set (cbuf PATH_MAX ex_node)"
      by (simp_all add: ex_node_def ex_root_def cbuf_def PATH_MAX_def)
    have "path_below ''/v/docs'' ex_root" by (simp add: path_below_def ex_root_def)
    with d r assms show ?thesis
      by (simp add: engine_validate_inside_vault_def wp_simps Let_def) (simp add: ex_env_def wp_return)
  qed
  have "wp (do { err \<leftarrow> engine_validate_inside_vault ex_env (ex_vault\<lparr>v_engine := 1\<rparr>) ex_node;
         if err \<noteq> ERR_OK then return (0, 1)
         else do {
           err \<leftarrow> engine_mkdir ex_env ex_node;
           if err \<noteq> ERR_OK then return (0, 1)
           else do {
             err \<leftarrow> engine_populate_layer ex_env ex_node False;
             if err \<noteq> ERR_OK then return (0, 1)
             else do { (ok, failed) \<leftarrow> return (0, 0); return (Suc ok, failed) } } } }) (\<lambda>(ok, failed) _. failed = 0) w"
  proof -
    have "wp (engine_mkdir ex_env ex_node) (\<lambda>r u. r = ERR_OK \<and> o_fs u = fs_put ex_node ex_dir ex_dirs) w"
      using ex_mkdir [of w ex_node] assms ex_dirs_facts ex_node_path by (auto simp: ex_node_def ex_root_def)
    then show ?thesis
      unfolding wp_bind
      by (intro wp_mono [OF inside]) (auto simp: wp_bind wp_return intro!: wp_mono [OF ex_build] elim!: wp_mono)
  qed
  then have round: "wp (let node_path = ex_root @ ''/'' @ engine_child_dirname 1 0 in
       if length node_path \<ge> PATH_MAX then return (0, 1)
       else do {
         err \<leftarrow> engine_validate_inside_vault ex_env (ex_vault\<lparr>v_engine := 1\<rparr>) node_path;
         if err \<noteq> ERR_OK then return (0, 1)
         else do {
           err \<leftarrow> engine_mkdir ex_env node_path;
           if err \<noteq> ERR_OK then return (0, 1)
           else do {
             err \<leftarrow> engine_populate_layer ex_env node_path False;
             if err \<noteq> ERR_OK then return (0, 1)
             else do {
               (ok, failed) \<leftarrow> engine_build_subtree ex_env (ex_vault\<lparr>v_engine := 1\<rparr>) node_path (Suc 1) 1 1 False;
               return (Suc ok, failed) } } } }) (\<lambda>(ok, failed) _. failed = 0) w"
    unfolding Let_def ex_node_path(1) deeper if_not_P [OF short] .
  have upt: "[0..<1] = [0 :: nat]" "\<not> (1 :: nat) > 1" by simp_all
  show ?thesis
    unfolding engine_build_subtree.simps [of ex_env "ex_vault\<lparr>v_engine := 1\<rparr>" ex_root 1] if_not_P [OF upt(2)] upt(1) tally.simps wp_bind [of _ "\<lambda>(a, b). _ a b"]
    by (rule wp_mono [OF round]) (auto simp: wp_simps)
qed

lemma ex_apply: "wp (engine_apply ex_env (Some 0)) (\<lambda>a _. a = ERR_OK) engine_world"
proof -
  let ?v = "ex_vault\<lparr>v_engine := 1\<rparr>"
  have lv: "ENGINE_TREE_DEPTH ! nat (v_engine ?v) = 1" "ENGINE_TREE_BRANCH ! nat (v_engine ?v) = 1" "(4 \<le> v_engine ?v) = False"
    "\<not> engine_estimate_nodes 1 1 > ENGINE_MAX_DECOY_NODES" "\<not> (v_engine ?v < ENGINE_LEVEL_MIN \<or> v_engine ?v > ENGINE_LEVEL_MAX)" "v_engine ?v \<noteq> 0"
    by (simp_all add: ENGINE_TREE_DEPTH_def ENGINE_TREE_BRANCH_def engine_estimate_nodes_def ENGINE_MAX_DECOY_NODES_def ENGINE_LEVEL_MIN_def ENGINE_LEVEL_MAX_def)
  have st: "v_status ?v \<noteq> VAULT_STATUS_DELETED" "v_status ?v \<noteq> VAULT_STATUS_LOCKED" by simp_all
  have paths: "cbuf PATH_MAX (v_path ?v @ ''/'' @ ENGINE_DECOY_DIR) = ex_root" "cbuf PATH_MAX (v_path ?v @ ''/'' @ ENGINE_REAL_DIR) = ex_real"
    using engine_paths(1,2) [OF engine_world_ok(2)] ex_node_path by simp_all
  have chm: "wp (sys_chmod ex_env ex_real MODE_0700) (\<lambda>_ u. o_fs u = ex_dirs) u" if u: "o_fs u = ex_dirs" for u :: world
  proof -
    have "fs_get ex_dirs ex_real = Some ex_dir" by (simp add: ex_dirs_def)
    then show ?thesis
      using u by (auto simp: wp_syscall fs_chmod_def ex_dir_def split: option.splits sum.splits)
        (auto simp: SYMLOOP_MAX_def numeral_eq_Suc ex_dirs_def ex_dir_def)
  qed
  have build: "wp (do { (layers_ok, layers_failed) \<leftarrow> engine_build_subtree ex_env ?v ex_root 1 1 1 False;
         if layers_failed > 0 then do { engine_cleanup_decoy ex_env ex_root; return ERR_IO } else return ERR_OK }) (\<lambda>a _. a = ERR_OK) u"
    if "o_fs u = ex_dirs" for u
    unfolding wp_bind by (rule wp_mono [OF ex_subtree [OF that]]) (auto simp: wp_return)
  have real: "wp (engine_mkdir ex_env ex_real) (\<lambda>r u. r = ERR_OK \<and> o_fs u = ex_dirs) u" if "o_fs u = fs_put ex_root ex_dir ex_fs" for u :: world
    using ex_mkdir [of u ex_real] that ex_dirs_facts(3,4) ex_node_path by (auto simp: ex_dirs_def ex_real_def)
  have root: "wp (engine_mkdir ex_env ex_root) (\<lambda>r u. r = ERR_OK \<and> o_fs u = fs_put ex_root ex_dir ex_fs) u" if "o_fs u = ex_fs" for u :: world
    using ex_mkdir [of u ex_root] that ex_dirs_facts(1,2) ex_node_path by (auto simp: ex_root_def)
  have dirs: "wp (do { err \<leftarrow> engine_mkdir ex_env ex_root;
           if err \<noteq> ERR_OK then return err
           else do {
             err \<leftarrow> engine_mkdir ex_env ex_real;
             if err \<noteq> ERR_OK then return err
             else do {
               _ \<leftarrow> sys_chmod ex_env ex_real MODE_0700;
               (layers_ok, layers_failed) \<leftarrow> engine_build_subtree ex_env ?v ex_root 1 1 1 False;
               if layers_failed > 0 then do { engine_cleanup_decoy ex_env ex_root; return ERR_IO } else return ERR_OK } } })
      (\<lambda>a _. a = ERR_OK) u" if "o_fs u = ex_fs" for u :: world
    unfolding wp_bind [of "engine_mkdir _ _"] wp_bind [of "sys_chmod _ _ _"] wp_if
    by (rule wp_mono [OF root [OF that]]) (auto intro!: wp_mono [OF real] wp_mono [OF chm] build simp del: One_nat_def)
  have rnd: "e_rand ex_env t n = Some (replicate n (char_of t))" for t n by (simp add: ex_env_def)
  have v: "vaults engine_world ! 0 = ?v" by simp
  show ?thesis
    unfolding engine_apply_def option.case wp_bind [of "get_vault 0"] wp_get_vault v Let_def paths lv(1,2,3) if_not_P [OF lv(4)]
      if_not_P [OF lv(5)] if_not_P [OF lv(6)] if_not_P [OF st(1)] if_not_P [OF st(2)]
    by (simp add: wp_bind [of "sys_rand _ _"] wp_sys_rand rnd wp_bind [of "modify _"] wp_modify wp_bind [of "return _"] wp_return
        dirs [unfolded wp_bind [of "engine_mkdir _ _"]] wp_bind [of "engine_mkdir _ _"] del: One_nat_def)
qed

lemma applied_engine_validates_witness:
  "wp (do { a \<leftarrow> engine_apply ex_env (Some 0); v \<leftarrow> engine_validate ex_env (Some 0); return (a, v) })
     (\<lambda>(a, v) _. a = ERR_OK \<and> v = ERR_OK) engine_world"
proof -
  have ok: "wp (do { a \<leftarrow> engine_apply ex_env (Some 0); v \<leftarrow> engine_validate ex_env (Some 0); return (a, v) }) (\<lambda>(a, v) _. a = ERR_OK) engine_world"
    unfolding wp_bind by (rule wp_mono [OF ex_apply]) (simp add: wp_return)
  show ?thesis
    by (rule wp_mono [OF wp_conj [OF ok applied_engine_validates]]) (use engine_world_ok in auto)
qed

end
