(* ===== verification/Vault_Ffi.thy ===== *)
theory Vault_Ffi
  imports Engine_Check
begin

text \<open>
  \<^verbatim>\<open>c_src/vault/vault_ffi.c\<close>: the entry points the Rust side calls. Each takes \<^verbatim>\<open>g_monitor.lock\<close>, finds the
  vault, checks what it has to check and runs an operation of the other components; every early return
  releases the lock itself (\<open>unlock_return\<close>). A result is the C \<^verbatim>\<open>int\<close>; text written through an output
  pointer is a second result. A null pointer is \<open>None\<close>.

  \<^verbatim>\<open>rust_vault_copy_file\<close>, which the C code calls back, is translated from \<^verbatim>\<open>rust/ffi.rs\<close>. The thread that
  \<^verbatim>\<open>vault_ffi_init\<close> starts runs \<open>monitor_start\<close> and then \<open>monitor_round\<close> again and again. Not modelled:
  \<^verbatim>\<open>vault_list_ffi\<close>, \<^verbatim>\<open>vault_info_ffi\<close>, \<^verbatim>\<open>vault_files_ffi\<close> (they print), \<^verbatim>\<open>vault_sandbox_ffi\<close> and
  \<^verbatim>\<open>vault_isolate_path_ffi\<close> (they start the jail).
\<close>

section \<open>The lock\<close>

text \<open>\<^verbatim>\<open>pthread_mutex_lock\<close> and \<^verbatim>\<open>pthread_mutex_unlock\<close> of a default mutex, as one thread sees them: taking it
  twice (the thread waits for itself) and releasing it when it is free are misuse.\<close>

definition mutex_lock :: "unit vio" where
  "mutex_lock = modify (\<lambda>w. w\<lparr>g_mutex := if g_mutex w = MUTEX_FREE then MUTEX_HELD else MUTEX_MISUSED\<rparr>)"

definition mutex_unlock :: "unit vio" where
  "mutex_unlock = modify (\<lambda>w. w\<lparr>g_mutex := if g_mutex w = MUTEX_HELD then MUTEX_FREE else MUTEX_MISUSED\<rparr>)"

definition mutex_destroy :: "unit vio" where
  "mutex_destroy = modify (\<lambda>w. w\<lparr>g_mutex := if g_mutex w = MUTEX_FREE then MUTEX_DESTROYED else MUTEX_MISUSED\<rparr>)"

definition unlock_return :: "'a \<Rightarrow> 'a vio" where
  "unlock_return r = do { mutex_unlock; return r }"

section \<open>Calls with the manager's operations\<close>

definition vault_create_ffi :: "env \<Rightarrow> string option \<Rightarrow> int \<Rightarrow> string option \<Rightarrow> string option \<Rightarrow> int vio" where
  "vault_create_ffi E name vault_type path password = do {
     let vt = (if vault_type = 1 then VAULT_TYPE_PROTECTED else VAULT_TYPE_NORMAL);
     mutex_lock;
     err \<leftarrow> vault_create E name vt path password;
     unlock_return (err_code err) }"

definition vault_delete_ffi :: "env \<Rightarrow> 32 word \<Rightarrow> string option \<Rightarrow> int vio" where
  "vault_delete_ffi E vid password = do {
     mutex_lock;
     err \<leftarrow> vault_delete E vid password;
     unlock_return (err_code err) }"

definition vault_rename_ffi :: "env \<Rightarrow> 32 word \<Rightarrow> string option \<Rightarrow> string option \<Rightarrow> int vio" where
  "vault_rename_ffi E vid new_name password =
    (if \<not> given new_name then return (err_code ERR_INVALID_ARGS)
     else do {
       mutex_lock;
       err \<leftarrow> vault_rename E vid (the new_name) password;
       unlock_return (err_code err) })"

definition vault_unlock_ffi :: "env \<Rightarrow> 32 word \<Rightarrow> string option \<Rightarrow> int vio" where
  "vault_unlock_ffi E vid password =
    (if \<not> given password then return (err_code ERR_PASS_REQUIRED)
     else do {
       mutex_lock;
       err \<leftarrow> vault_unlock E vid password;
       unlock_return (err_code err) })"

definition vault_change_password_ffi :: "env \<Rightarrow> 32 word \<Rightarrow> string option \<Rightarrow> string option \<Rightarrow> int vio" where
  "vault_change_password_ffi E vid old_pass new_pass =
    (if old_pass = None \<or> new_pass = None then return (err_code ERR_INVALID_ARGS)
     else do {
       mutex_lock;
       err \<leftarrow> vault_change_password E vid old_pass new_pass;
       unlock_return (err_code err) })"

definition vault_resolve_ffi :: "env \<Rightarrow> 32 word \<Rightarrow> string option \<Rightarrow> int vio" where
  "vault_resolve_ffi E vid password = do {
     mutex_lock;
     err \<leftarrow> alert_resolve E vid password;
     unlock_return (err_code err) }"

section \<open>Encrypting and decrypting the files of a vault\<close>

definition ENC_SUFFIX :: string where "ENC_SUFFIX = ''.enc''"

abbreviation ENC_IN_BUF :: nat where "ENC_IN_BUF \<equiv> 512 + 255 + 2"
abbreviation ENC_OUT_BUF :: nat where "ENC_OUT_BUF \<equiv> 512 + 255 + 10"

definition not_regular :: "errno + inode \<Rightarrow> bool" where
  "not_regular st = (case st of Inl _ \<Rightarrow> True | Inr n \<Rightarrow> i_type n \<noteq> S_IFREG)"

definition encrypt_entry :: "env \<Rightarrow> string \<Rightarrow> string \<Rightarrow> string \<Rightarrow> unit vio" where
  "encrypt_entry E path key d =
    (if hidden d then return ()
     else if ends_with d ENC_SUFFIX then return ()
     else do {
       let inpath = cbuf ENC_IN_BUF (path @ ''/'' @ d);
       let outpath = cbuf ENC_OUT_BUF (path @ ''/'' @ d @ ENC_SUFFIX);
       st \<leftarrow> sys_stat E inpath;
       if not_regular st then return ()
       else do {
         r \<leftarrow> encrypt_file E inpath outpath key;
         if r = ERR_OK then do { _ \<leftarrow> sys_unlink E inpath; return () }
         else return () } })"

definition vault_encrypt_ffi :: "env \<Rightarrow> 32 word \<Rightarrow> string option \<Rightarrow> int vio" where
  "vault_encrypt_ffi E vid password =
    (if \<not> given password then return (err_code ERR_PASS_REQUIRED)
     else do {
       mutex_lock;
       p \<leftarrow> vault_find_by_id vid;
       case p of
         None \<Rightarrow> unlock_return (err_code ERR_VAULT_NOT_FOUND)
       | Some i \<Rightarrow> do {
           v \<leftarrow> get_vault i;
           if \<not> v_has_pass v then unlock_return (err_code ERR_PASS_REQUIRED)
           else do {
             auth_err \<leftarrow> auth_verify_password E i password;
             if auth_err \<noteq> ERR_OK then unlock_return (err_code auth_err)
             else (case derive_key_for E password (v_salt v) ''file-encryption'' of
                 Inl key_err \<Rightarrow> unlock_return (err_code key_err)
               | Inr key \<Rightarrow> do {
                   vault_set_write_mode E i True;
                   dir \<leftarrow> sys_opendir E (v_path v);
                   (case dir of
                      Inl _ \<Rightarrow> unlock_return (err_code ERR_IO)
                    | Inr names \<Rightarrow> do {
                        for_each names (encrypt_entry E (v_path v) key);
                        vault_set_write_mode E i False;
                        unlock_return (err_code ERR_OK) }) }) } } })"

definition decrypt_entry :: "env \<Rightarrow> string \<Rightarrow> string \<Rightarrow> string \<Rightarrow> unit vio" where
  "decrypt_entry E path key d =
    (if \<not> ends_with d ENC_SUFFIX then return ()
     else do {
       let inpath = cbuf ENC_IN_BUF (path @ ''/'' @ d);
       let outpath = cbuf ENC_IN_BUF (path @ ''/'' @ take (length d - 4) d);
       st \<leftarrow> sys_stat E inpath;
       if not_regular st then return ()
       else do {
         r \<leftarrow> decrypt_file E inpath outpath key;
         if r = ERR_OK then do { _ \<leftarrow> sys_unlink E inpath; return () }
         else return () } })"

definition worm_blocks_decrypt :: "Vault \<Rightarrow> bool" where
  "worm_blocks_decrypt v \<longleftrightarrow> worm_check (Some v) WORM_PROTECT_WRITE \<or> worm_check (Some v) WORM_PROTECT_DELETE
     \<or> v_worm v AND WORM_PROTECT_SCAN \<noteq> 0"

definition vault_decrypt_ffi :: "env \<Rightarrow> 32 word \<Rightarrow> string option \<Rightarrow> int vio" where
  "vault_decrypt_ffi E vid password =
    (if \<not> given password then return (err_code ERR_PASS_REQUIRED)
     else do {
       mutex_lock;
       p \<leftarrow> vault_find_by_id vid;
       case p of
         None \<Rightarrow> unlock_return (err_code ERR_VAULT_NOT_FOUND)
       | Some i \<Rightarrow> do {
           v \<leftarrow> get_vault i;
           if \<not> v_has_pass v then unlock_return (err_code ERR_PASS_REQUIRED)
           else do {
             auth_err \<leftarrow> auth_verify_password E i password;
             if auth_err \<noteq> ERR_OK then unlock_return (err_code auth_err)
             else if worm_blocks_decrypt v then unlock_return (err_code ERR_PERM_DENIED)
             else (case derive_key_for E password (v_salt v) ''file-encryption'' of
                 Inl key_err \<Rightarrow> unlock_return (err_code key_err)
               | Inr key \<Rightarrow> do {
                   vault_set_write_mode E i True;
                   dir \<leftarrow> sys_opendir E (v_path v);
                   (case dir of
                      Inl _ \<Rightarrow> unlock_return (err_code ERR_IO)
                    | Inr names \<Rightarrow> do {
                        for_each names (decrypt_entry E (v_path v) key);
                        vault_set_write_mode E i False;
                        unlock_return (err_code ERR_OK) }) }) } } })"

section \<open>Scanning\<close>

definition vault_scan_ffi :: "env \<Rightarrow> 32 word \<Rightarrow> int vio" where
  "vault_scan_ffi E vid = do {
     mutex_lock;
     p \<leftarrow> vault_find_by_id vid;
     case p of
       None \<Rightarrow> unlock_return (err_code ERR_VAULT_NOT_FOUND)
     | Some i \<Rightarrow> do {
         monitor_scan_vault E i;
         _ \<leftarrow> catalog_save E;
         unlock_return (err_code ERR_OK) } }"

text \<open>The report: \<open>n\<close> is \<^verbatim>\<open>out_len\<close>, \<open>buf\<close> the text so far, so \<^verbatim>\<open>pos\<close> is its length.\<close>

abbreviation NEWLINE :: char where "NEWLINE \<equiv> CHR 0x0A"

definition report_line :: "nat \<Rightarrow> string \<Rightarrow> nat \<times> string \<Rightarrow> nat \<times> string" where
  "report_line n name st = (fst st + 1,
     if length (snd st) < n - 1 then take (n - 1) (snd st @ name @ [NEWLINE]) else snd st)"

fun report_chain :: "nat \<Rightarrow> FileEntry list \<Rightarrow> nat \<times> string \<Rightarrow> nat \<times> string" where
  "report_chain n [] st = st"
| "report_chain n (e # es) st =
    (if \<not> fe_modified e then report_chain n es st
     else let st' = report_line n (fe_name e) st
          in if length (snd st) < n - 1 \<and> n - 1 \<le> length (snd st') then st' else report_chain n es st')"

fun report_buckets :: "nat \<Rightarrow> FileEntry list list \<Rightarrow> nat \<times> string \<Rightarrow> nat \<times> string" where
  "report_buckets n [] st = st"
| "report_buckets n (b # bs) st =
    (let st' = report_chain n b st in if n - 1 \<le> length (snd st') then st' else report_buckets n bs st')"

definition scan_report :: "nat \<Rightarrow> FileHashMap \<Rightarrow> nat \<times> string" where
  "scan_report n m = (let (issues, buf) = report_buckets n (hm_buckets m) (0, [])
     in (issues, if issues = 0 then cbuf n (''No issues found'' @ [NEWLINE]) else buf))"

definition vault_scan_report_ffi :: "env \<Rightarrow> 32 word \<Rightarrow> nat option \<Rightarrow> (int \<times> string option) vio" where
  "vault_scan_report_ffi E vid out = do {
     mutex_lock;
     if out = None \<or> out = Some 0 then unlock_return (err_code ERR_INVALID_ARGS, None)
     else do {
       p \<leftarrow> vault_find_by_id vid;
       case p of
         None \<Rightarrow> unlock_return (err_code ERR_VAULT_NOT_FOUND, None)
       | Some i \<Rightarrow> do {
           monitor_scan_vault E i;
           _ \<leftarrow> catalog_save E;
           v \<leftarrow> get_vault i;
           let (issues, buf) = scan_report (the out) (v_map v);
           unlock_return (int issues, Some buf) } } }"

section \<open>Small queries\<close>

definition vault_rule_ffi :: "32 word \<Rightarrow> int \<Rightarrow> int \<Rightarrow> int \<Rightarrow> int vio" where
  "vault_rule_ffi vault_id max_fails hour_from hour_to = do {
     n \<leftarrow> gets (\<lambda>w. length (g_rules w));
     if MAX_RULES \<le> n then return (err_code ERR_SYSTEM)
     else do {
       rule_add vault_id max_fails hour_from hour_to;
       return (err_code ERR_OK) } }"

definition vault_get_status_ffi :: "32 word \<Rightarrow> int vio" where
  "vault_get_status_ffi vid = do {
     mutex_lock;
     p \<leftarrow> vault_find_by_id vid;
     case p of
       None \<Rightarrow> unlock_return (err_code ERR_VAULT_NOT_FOUND)
     | Some i \<Rightarrow> do {
         v \<leftarrow> get_vault i;
         unlock_return (sint (status_code (v_status v))) } }"

definition vault_is_protected_ffi :: "32 word \<Rightarrow> int vio" where
  "vault_is_protected_ffi vid = do {
     mutex_lock;
     p \<leftarrow> vault_find_by_id vid;
     ret \<leftarrow> (case p of
        None \<Rightarrow> return 0
      | Some i \<Rightarrow> do {
          v \<leftarrow> get_vault i;
          return (if v_type v = VAULT_TYPE_PROTECTED then 1 else 0) });
     unlock_return ret }"

definition vault_count_ffi :: "32 word vio" where
  "vault_count_ffi = gets (\<lambda>w. word_of_nat (length (vaults w)))"

definition engine_real_path :: "Vault \<Rightarrow> string" where
  "engine_real_path v = cbuf (VAULT_PATH_MAX + 32) (v_path v @ ''/.engine_real'')"

text \<open>The directory the files of a vault are in, for a buffer of \<open>n\<close> bytes.\<close>

definition real_path :: "env \<Rightarrow> nat \<Rightarrow> Vault \<Rightarrow> string vio" where
  "real_path E n v = do {
     st \<leftarrow> sys_stat E (engine_real_path v);
     return (cbuf n (case st of
        Inl _ \<Rightarrow> v_path v
      | Inr x \<Rightarrow> if i_type x = S_IFDIR then engine_real_path v else v_path v)) }"

definition vault_get_real_path_ffi :: "env \<Rightarrow> 32 word \<Rightarrow> nat option \<Rightarrow> (int \<times> string option) vio" where
  "vault_get_real_path_ffi E vid out =
    (if out = None \<or> out = Some 0 then return (err_code ERR_INVALID_ARGS, None)
     else do {
       mutex_lock;
       p \<leftarrow> vault_find_by_id vid;
       case p of
         None \<Rightarrow> unlock_return (err_code ERR_VAULT_NOT_FOUND, None)
       | Some i \<Rightarrow> do {
           v \<leftarrow> get_vault i;
           path \<leftarrow> real_path E (the out) v;
           unlock_return (err_code ERR_OK, Some path) } })"

definition vault_get_cipher_path_ffi :: "32 word \<Rightarrow> nat option \<Rightarrow> (int \<times> string option) vio" where
  "vault_get_cipher_path_ffi vid out =
    (if out = None \<or> out = Some 0 then return (err_code ERR_INVALID_ARGS, None)
     else do {
       mutex_lock;
       p \<leftarrow> vault_find_by_id vid;
       case p of
         None \<Rightarrow> unlock_return (err_code ERR_VAULT_NOT_FOUND, None)
       | Some i \<Rightarrow> do {
           v \<leftarrow> get_vault i;
           unlock_return (err_code ERR_OK, Some (cbuf (the out) (v_cipher v))) } })"

text \<open>\<^verbatim>\<open>VaultIdPath\<close> entries; \<open>out\<close> is \<^verbatim>\<open>out_cap\<close>, or \<open>None\<close> when one of the two output pointers is null.\<close>

fun list_ids_loop :: "env \<Rightarrow> nat \<Rightarrow> Vault list \<Rightarrow> (32 word \<times> string) list vio" where
  "list_ids_loop E 0 vs = return []"
| "list_ids_loop E (Suc room) [] = return []"
| "list_ids_loop E (Suc room) (v # vs) = do {
     path \<leftarrow> real_path E VAULT_PATH_MAX v;
     rest \<leftarrow> list_ids_loop E room vs;
     return ((v_id v, path) # rest) }"

definition vault_list_ids_ffi :: "env \<Rightarrow> 32 word option \<Rightarrow> (int \<times> (32 word \<times> string) list) vio" where
  "vault_list_ids_ffi E out =
    (if out = None \<or> out = Some 0 then return (err_code ERR_INVALID_ARGS, [])
     else do {
       mutex_lock;
       vs \<leftarrow> gets vaults;
       ids \<leftarrow> list_ids_loop E (unat (the out)) vs;
       unlock_return (err_code ERR_OK, ids) })"

definition vault_set_cipher_lock_ffi :: "env \<Rightarrow> 32 word \<Rightarrow> int \<Rightarrow> int vio" where
  "vault_set_cipher_lock_ffi E vid locked = do {
     mutex_lock;
     p \<leftarrow> vault_find_by_id vid;
     case p of
       None \<Rightarrow> unlock_return (err_code ERR_VAULT_NOT_FOUND)
     | Some i \<Rightarrow> do {
         v \<leftarrow> get_vault i;
         r \<leftarrow> sys_chmod E (v_cipher v) (if locked \<noteq> 0 then MODE_0000 else MODE_0700);
         (case r of
            Inl _ \<Rightarrow> unlock_return (err_code ERR_IO)
          | Inr _ \<Rightarrow> unlock_return (err_code ERR_OK)) } }"


section \<open>Engine, mount and write-once flags\<close>

definition vault_apply_engine_ffi :: "env \<Rightarrow> string option \<Rightarrow> int \<Rightarrow> int vio" where
  "vault_apply_engine_ffi E name engine_level =
    (if \<not> given name then return (err_code ERR_INVALID_ARGS)
     else if engine_level < 1 \<or> engine_level > ENGINE_LEVEL_MAX then return (err_code ERR_INVALID_ARGS)
     else do {
       mutex_lock;
       p \<leftarrow> vault_find_by_name (the name);
       case p of
         None \<Rightarrow> unlock_return (err_code ERR_VAULT_NOT_FOUND)
       | Some i \<Rightarrow> do {
           mod_vault i (\<lambda>v. v\<lparr>v_engine := engine_level\<rparr>);
           err \<leftarrow> engine_apply E (Some i);
           err \<leftarrow> (if err = ERR_OK then catalog_save E else return err);
           unlock_return (err_code err) } })"

definition vault_validate_engine_ffi :: "env \<Rightarrow> 32 word \<Rightarrow> int vio" where
  "vault_validate_engine_ffi E vid = do {
     mutex_lock;
     p \<leftarrow> vault_find_by_id vid;
     case p of
       None \<Rightarrow> unlock_return (err_code ERR_VAULT_NOT_FOUND)
     | Some i \<Rightarrow> do {
         err \<leftarrow> engine_validate E (Some i);
         unlock_return (err_code err) } }"

definition vault_mount_ffi :: "env \<Rightarrow> (nat \<Rightarrow> string list option) \<Rightarrow> 32 word \<Rightarrow> string option \<Rightarrow> int vio" where
  "vault_mount_ffi E mounts vid password = do {
     mutex_lock;
     p \<leftarrow> vault_find_by_id vid;
     case p of
       None \<Rightarrow> unlock_return (err_code ERR_VAULT_NOT_FOUND)
     | Some i \<Rightarrow> do {
         auth_err \<leftarrow> check_password E i password;
         if auth_err \<noteq> ERR_OK then unlock_return (err_code auth_err)
         else do {
           err \<leftarrow> vault_fuse_mount E mounts i;
           unlock_return (err_code err) } } }"

definition vault_unmount_ffi :: "env \<Rightarrow> 32 word \<Rightarrow> int vio" where
  "vault_unmount_ffi E vid = do {
     mutex_lock;
     p \<leftarrow> vault_find_by_id vid;
     case p of
       None \<Rightarrow> unlock_return (err_code ERR_VAULT_NOT_FOUND)
     | Some i \<Rightarrow> do {
         err \<leftarrow> vault_fuse_unmount E i;
         unlock_return (err_code err) } }"

definition vault_worm_set_flags_ffi :: "env \<Rightarrow> 32 word \<Rightarrow> 32 word \<Rightarrow> int vio" where
  "vault_worm_set_flags_ffi E vid flags = do {
     mutex_lock;
     p \<leftarrow> vault_find_by_id vid;
     case p of
       None \<Rightarrow> unlock_return (err_code ERR_VAULT_NOT_FOUND)
     | Some i \<Rightarrow> do {
         err \<leftarrow> vault_worm_set_flags E (Some i) flags;
         unlock_return (err_code err) } }"

definition vault_worm_clear_flags_ffi :: "env \<Rightarrow> 32 word \<Rightarrow> 32 word \<Rightarrow> int vio" where
  "vault_worm_clear_flags_ffi E vid flags = do {
     mutex_lock;
     p \<leftarrow> vault_find_by_id vid;
     case p of
       None \<Rightarrow> unlock_return (err_code ERR_VAULT_NOT_FOUND)
     | Some i \<Rightarrow> do {
         err \<leftarrow> vault_worm_clear_flags E (Some i) flags;
         unlock_return (err_code err) } }"

definition vault_worm_set_scan_ffi :: "env \<Rightarrow> 32 word \<Rightarrow> int vio" where
  "vault_worm_set_scan_ffi E vid = do {
     mutex_lock;
     p \<leftarrow> vault_find_by_id vid;
     case p of
       None \<Rightarrow> unlock_return (err_code ERR_VAULT_NOT_FOUND)
     | Some i \<Rightarrow> do {
         err \<leftarrow> vault_worm_set_scan E (Some i);
         unlock_return (err_code err) } }"

definition vault_worm_get_flags_ffi :: "32 word \<Rightarrow> 32 word vio" where
  "vault_worm_get_flags_ffi vid = do {
     mutex_lock;
     p \<leftarrow> vault_find_by_id vid;
     flags \<leftarrow> (case p of
        None \<Rightarrow> return 0
      | Some i \<Rightarrow> do { v \<leftarrow> get_vault i; return (v_worm v) });
     unlock_return flags }"

section \<open>Exporting\<close>

text \<open>\<^verbatim>\<open>CStr::to_str\<close>: well-formed UTF-8.\<close>

definition utf8_tail :: "nat \<Rightarrow> bool" where
  "utf8_tail b \<longleftrightarrow> 0x80 \<le> b \<and> b \<le> 0xBF"

fun utf8_seq :: "nat list \<Rightarrow> nat option" where
  "utf8_seq [] = None"
| "utf8_seq (a # bs) =
    (if a < 0x80 then Some 0
     else if 0xC2 \<le> a \<and> a \<le> 0xDF then Some 1
     else if 0xE0 \<le> a \<and> a \<le> 0xEF then
       (case bs of [] \<Rightarrow> None
        | b # _ \<Rightarrow> if (a = 0xE0 \<longrightarrow> 0xA0 \<le> b) \<and> (a = 0xED \<longrightarrow> b \<le> 0x9F) then Some 2 else None)
     else if 0xF0 \<le> a \<and> a \<le> 0xF4 then
       (case bs of [] \<Rightarrow> None
        | b # _ \<Rightarrow> if (a = 0xF0 \<longrightarrow> 0x90 \<le> b) \<and> (a = 0xF4 \<longrightarrow> b \<le> 0x8F) then Some 3 else None)
     else None)"

function utf8_ok :: "nat list \<Rightarrow> bool" where
  "utf8_ok [] = True"
| "utf8_ok (a # bs) = (case utf8_seq (a # bs) of None \<Rightarrow> False
     | Some n \<Rightarrow> n \<le> length bs \<and> list_all utf8_tail (take n bs) \<and> utf8_ok (drop n bs))"
  by pat_completeness auto
termination by (relation "measure length") auto

text \<open>\<^verbatim>\<open>std::fs::copy\<close>: the source must be a regular file; the target is created or emptied, gets the
  permissions of the source and then its bytes. Whatever was moved before an error stays.\<close>

definition fs_copy :: "env \<Rightarrow> string \<Rightarrow> string \<Rightarrow> bool vio" where
  "fs_copy E src dst = do {
     reader \<leftarrow> sys_fopen_r E src;
     case reader of
       Inl _ \<Rightarrow> return False
     | Inr fi \<Rightarrow> do {
         st \<leftarrow> sys_lstat E fi;
         if not_regular st then return False
         else do {
           let mode = (case st of Inl _ \<Rightarrow> 0 | Inr n \<Rightarrow> i_mode n);
           writer \<leftarrow> sys_open E dst (O_WRONLY OR O_CREAT OR O_TRUNC) mode;
           (case writer of
              Inl _ \<Rightarrow> return False
            | Inr fo \<Rightarrow> do {
                perm \<leftarrow> sys_chmod E fo mode;
                (case perm of
                   Inl _ \<Rightarrow> return False
                 | Inr _ \<Rightarrow> do {
                     f \<leftarrow> gets o_fs;
                     (data, err) \<leftarrow> sys_fread E fi 0 (length (fs_content f fi));
                     n \<leftarrow> sys_fwrite E fo data;
                     return (\<not> err \<and> n = length data) }) }) } } }"

definition rust_vault_copy_file :: "env \<Rightarrow> string \<Rightarrow> string \<Rightarrow> int vio" where
  "rust_vault_copy_file E src dst =
    (if \<not> utf8_ok (map of_char src) then return (-1)
     else if \<not> utf8_ok (map of_char dst) then return (-1)
     else do {
       ok \<leftarrow> fs_copy E src dst;
       return (if ok then 0 else -1) })"

definition vault_export_file_ffi :: "env \<Rightarrow> 32 word \<Rightarrow> string option \<Rightarrow> string option \<Rightarrow> int vio" where
  "vault_export_file_ffi E vid filename dst_path =
    (if filename = None \<or> dst_path = None then return (err_code ERR_INVALID_ARGS)
     else do {
       mutex_lock;
       p \<leftarrow> vault_find_by_id vid;
       case p of
         None \<Rightarrow> unlock_return (err_code ERR_VAULT_NOT_FOUND)
       | Some i \<Rightarrow> do {
           v \<leftarrow> get_vault i;
           ret \<leftarrow> rust_vault_copy_file E (cbuf ENC_IN_BUF (v_path v @ ''/'' @ the filename)) (the dst_path);
           unlock_return ret } })"

definition vault_export_and_decrypt_file_ffi ::
  "env \<Rightarrow> 32 word \<Rightarrow> string option \<Rightarrow> string option \<Rightarrow> string option \<Rightarrow> int vio" where
  "vault_export_and_decrypt_file_ffi E vid filename dst_path password =
    (if filename = None \<or> dst_path = None \<or> password = None then return (err_code ERR_INVALID_ARGS)
     else do {
       mutex_lock;
       p \<leftarrow> vault_find_by_id vid;
       case p of
         None \<Rightarrow> unlock_return (err_code ERR_VAULT_NOT_FOUND)
       | Some i \<Rightarrow> do {
           err \<leftarrow> auth_verify_password E i password;
           if err \<noteq> ERR_OK then unlock_return (err_code err)
           else do {
             v \<leftarrow> get_vault i;
             (case derive_key_for E password (v_salt v) ''file-encryption'' of
                Inl err \<Rightarrow> unlock_return (err_code err)
              | Inr key \<Rightarrow> do {
                  err \<leftarrow> decrypt_file E (cbuf ENC_IN_BUF (v_path v @ ''/'' @ the filename)) (the dst_path) key;
                  unlock_return (err_code err) }) } } })"

abbreviation EXPORT_BUF :: nat where "EXPORT_BUF \<equiv> 512 * 2"

text \<open>One file of the cipher directory; the result says whether it counts as failed.\<close>

definition export_entry :: "env \<Rightarrow> Vault \<Rightarrow> string option \<Rightarrow> string \<Rightarrow> string option \<Rightarrow> string \<Rightarrow> bool vio" where
  "export_entry E v password dst_dir filename d =
    (if hidden d then return False
     else if given filename \<and> d \<noteq> the filename then return False
     else do {
       let src_path = cbuf EXPORT_BUF (v_cipher v @ ''/'' @ d);
       st \<leftarrow> sys_stat E src_path;
       if not_regular st then return False
       else do {
         let dst_name = take NAME_MAX d;
         if v_type v = VAULT_TYPE_PROTECTED \<and> ends_with dst_name ENC_SUFFIX then do {
           let dst_path = cbuf EXPORT_BUF (dst_dir @ ''/'' @ take (length dst_name - 4) dst_name);
           (case derive_key_for E password (v_salt v) ''file-encryption'' of
              Inl _ \<Rightarrow> return True
            | Inr key \<Rightarrow> do {
                derr \<leftarrow> decrypt_file E src_path dst_path key;
                return (derr \<noteq> ERR_OK) }) }
         else do {
           r \<leftarrow> rust_vault_copy_file E src_path (cbuf EXPORT_BUF (dst_dir @ ''/'' @ dst_name));
           return (r \<noteq> 0) } } })"

fun export_loop :: "env \<Rightarrow> Vault \<Rightarrow> string option \<Rightarrow> string \<Rightarrow> string option \<Rightarrow> string list \<Rightarrow> nat vio" where
  "export_loop E v password dst_dir filename [] = return 0"
| "export_loop E v password dst_dir filename (d # ds) = do {
     bad \<leftarrow> export_entry E v password dst_dir filename d;
     n \<leftarrow> export_loop E v password dst_dir filename ds;
     return (if bad then n + 1 else n) }"

definition vault_mount_export_ffi ::
  "env \<Rightarrow> 32 word \<Rightarrow> string option \<Rightarrow> string option \<Rightarrow> string option \<Rightarrow> int vio" where
  "vault_mount_export_ffi E vid password dst_dir filename =
    (if \<not> given dst_dir then return (err_code ERR_INVALID_ARGS)
     else do {
       mutex_lock;
       p \<leftarrow> vault_find_by_id vid;
       case p of
         None \<Rightarrow> unlock_return (err_code ERR_VAULT_NOT_FOUND)
       | Some i \<Rightarrow> do {
           auth_err \<leftarrow> check_password E i password;
           if auth_err \<noteq> ERR_OK then unlock_return (err_code auth_err)
           else do {
             v \<leftarrow> get_vault i;
             dir \<leftarrow> sys_opendir E (v_cipher v);
             (case dir of
                Inl _ \<Rightarrow> unlock_return (err_code ERR_IO)
              | Inr names \<Rightarrow> do {
                  failed \<leftarrow> export_loop E v password (the dst_dir) filename names;
                  unlock_return (err_code (if failed > 0 then ERR_IO else ERR_OK)) }) } } })"

section \<open>The list of trusted processes\<close>

definition vault_auth_pid_add_ffi :: "env \<Rightarrow> nat \<Rightarrow> unit vio" where
  "vault_auth_pid_add_ffi E pid = do {
     mutex_lock;
     node \<leftarrow> alloc_ok E;
     (if node then modify (\<lambda>w. w\<lparr>g_pids := pid # g_pids w\<rparr>) else return ());
     unlock_return () }"

fun unlink_node :: "nat \<Rightarrow> nat list \<Rightarrow> nat list" where
  "unlink_node pid [] = []"
| "unlink_node pid (n # ns) = (if n = pid then ns else n # unlink_node pid ns)"

definition vault_auth_pid_remove_ffi :: "nat \<Rightarrow> unit vio" where
  "vault_auth_pid_remove_ffi pid = do {
     mutex_lock;
     modify (\<lambda>w. w\<lparr>g_pids := unlink_node pid (g_pids w)\<rparr>);
     unlock_return () }"

definition vault_auth_pid_is_authorized_ffi :: "env \<Rightarrow> nat \<Rightarrow> bool vio" where
  "vault_auth_pid_is_authorized_ffi E pid =
    (if pid = e_pid E then return True
     else do {
       mutex_lock;
       ns \<leftarrow> gets g_pids;
       if list_ex (\<lambda>n. n = pid) ns then unlock_return True else unlock_return False })"

section \<open>Start and stop\<close>

definition log_init :: "env \<Rightarrow> unit vio" where
  "log_init E = do {
     file \<leftarrow> gets g_log_file;
     fp \<leftarrow> sys_open E file (O_WRONLY OR O_CREAT OR O_APPEND) MODE_0666;
     ok \<leftarrow> (case fp of
        Inr _ \<Rightarrow> return True
      | Inl _ \<Rightarrow> (case e_home E of
          None \<Rightarrow> return False
        | Some home \<Rightarrow> do {
            fb \<leftarrow> sys_open E (cbuf 256 (home @ ''/.vault_security.log'')) (O_WRONLY OR O_CREAT OR O_APPEND) MODE_0666;
            return (case fb of Inl _ \<Rightarrow> False | Inr _ \<Rightarrow> True) }));
     modify (\<lambda>w. w\<lparr>g_log_open := ok\<rparr>) }"

definition vault_ffi_init :: "env \<Rightarrow> int vio" where
  "vault_ffi_init E = do {
     resolve_paths E;
     dir \<leftarrow> gets g_catalog_path;
     st \<leftarrow> sys_stat E dir;
     made \<leftarrow> (case st of
        Inr _ \<Rightarrow> return True
      | Inl _ \<Rightarrow> do {
          r \<leftarrow> sys_mkdir E dir MODE_0700;
          return (case r of Inl e \<Rightarrow> e = EEXIST | Inr _ \<Rightarrow> True) });
     if \<not> made then return (err_code ERR_IO)
     else do {
       log_init E;
       err \<leftarrow> catalog_load E;
       if err \<noteq> ERR_OK then return (err_code err)
       else do {
         modify (\<lambda>w. w\<lparr>g_mon_running := True\<rparr>);
         fan \<leftarrow> lib_ok E;
         modify (\<lambda>w. w\<lparr>g_fan_fd := if fan then 3 else -1\<rparr>);
         mutex \<leftarrow> lib_ok E;
         if \<not> mutex then return (err_code ERR_SYSTEM)
         else do {
           modify (\<lambda>w. w\<lparr>g_mutex := MUTEX_FREE\<rparr>);
           (if fan then do {
              thread \<leftarrow> lib_ok E;
              (if thread then modify (\<lambda>w. w\<lparr>g_mon_started := True\<rparr>) else return ()) }
            else return ());
           vault_auth_pid_add_ffi E (e_pid E);
           return (err_code ERR_OK) } } } }"

definition zero_catalog :: Catalog where
  "zero_catalog = \<lparr>c_vaults = [], c_next_id = 0, c_category = [], c_mac_mode = 0\<rparr>"

definition vault_ffi_shutdown :: "env \<Rightarrow> int vio" where
  "vault_ffi_shutdown E = do {
     modify (\<lambda>w. w\<lparr>g_mon_running := False, g_running := False, g_mon_started := False\<rparr>);
     mutex_destroy;
     modify (\<lambda>w. w\<lparr>g_fan_fd := if 0 \<le> g_fan_fd w then -1 else g_fan_fd w\<rparr>);
     _ \<leftarrow> catalog_save E;
     modify (\<lambda>w. w\<lparr>g_catalog := zero_catalog\<rparr>);
     modify (\<lambda>w. w\<lparr>g_log_open := False\<rparr>);
     return (err_code ERR_OK) }"

end
