(* ===== verification/Vault_Api.thy ===== *)
theory Vault_Api
  imports Vault_Ffi Mount_Life
begin

text \<open>
  What the entry points have in common. Every operation only ever changes a vault by one of a few writes (\<open>vault_write\<close>), so what
  those writes keep, every call keeps: the locale \<open>written_inv\<close> states this once, for any property
  of single vaults together with any property of the state outside the catalog.
\<close>

section \<open>Types of the fields\<close>

text \<open>What the C declarations of the structures promise: strings end within their buffers, byte arrays have
  their length, enumerations a value that is named once, times are 64-bit numbers.\<close>

definition fits :: "nat \<Rightarrow> string \<Rightarrow> bool" where
  "fits n s \<longleftrightarrow> length s < n"

definition entry_typed :: "FileEntry \<Rightarrow> bool" where
  "entry_typed e \<longleftrightarrow> fits (NAME_MAX + 1) (fe_name e) \<and> length (fe_hash e) = HASH_HEX_LEN \<and> time_ok (fe_last_seen e)"

definition map_typed :: "FileHashMap \<Rightarrow> bool" where
  "map_typed m \<longleftrightarrow> length (hm_buckets m) = HASHMAP_BUCKETS \<and> (\<forall>e \<in> set (entries m). entry_typed e)"

definition alert_typed :: "AlertState \<Rightarrow> bool" where
  "alert_typed a \<longleftrightarrow> time_ok (al_first a) \<and> time_ok (al_last a) \<and> fits 256 (al_reason a)"

definition vault_typed :: "Vault \<Rightarrow> bool" where
  "vault_typed v \<longleftrightarrow> fits VAULT_NAME_MAX (v_name v) \<and> fits VAULT_PATH_MAX (v_path v)
     \<and> fits VAULT_PATH_MAX (v_cipher v) \<and> type_ok (v_type v) \<and> status_ok (v_status v)
     \<and> time_ok (v_created v) \<and> time_ok (v_last_check v) \<and> alert_typed (v_alert v)
     \<and> length (v_salt v) = SALT_LEN \<and> length (v_pass_hash v) = KEY_LEN \<and> map_typed (v_map v)"

text \<open>Typed fields are what the round trip of the catalog asks for, besides strings without zero bytes, the
  bound of the counter and the invariant of the table.\<close>

lemma typed_wf:
  assumes "vault_typed v" "int_ok (v_failed v)" "hm_inv (v_map v)"
    and "\<forall>s \<in> {v_name v, v_path v, v_cipher v, al_reason (v_alert v)}. NUL \<notin> set s"
  shows "vault_wf v"
  using assms
  by (simp add: vault_typed_def vault_wf_def alert_typed_def map_typed_def entry_typed_def KEY_LEN_def fits_def str_ok_def)

lemma fits_Nil [simp]: "fits n [] \<longleftrightarrow> 0 < n"
  by (simp add: fits_def)

lemma fits_cbuf [simp]: "0 < n \<Longrightarrow> fits n (cbuf n s)"
  by (auto simp: fits_def cbuf_def)

definition clock_ok :: "env \<Rightarrow> bool" where
  "clock_ok E \<longleftrightarrow> (\<forall>t. time_ok (e_time E t))"

section \<open>The writes\<close>

text \<open>A change of an entry that respects the types when the clock does.\<close>

definition entry_write :: "env \<Rightarrow> (FileEntry \<Rightarrow> FileEntry) \<Rightarrow> bool" where
  "entry_write E f \<longleftrightarrow> (clock_ok E \<longrightarrow> (\<forall>e. entry_typed e \<longrightarrow> entry_typed (f e)))"

inductive vault_write :: "env \<Rightarrow> Vault \<Rightarrow> Vault \<Rightarrow> bool" for E where
  status: "status_ok st \<Longrightarrow> vault_write E v (v\<lparr>v_status := st\<rparr>)"
| failed: "vault_write E v (v\<lparr>v_failed := n\<rparr>)"
| accepted: "vault_write E v (v\<lparr>v_status := VAULT_STATUS_OK, v_failed := 0\<rparr>)"
| mark: "vault_write E v (alert_mark (e_time E t) reason v)"
| escalate: "vault_write E v (v\<lparr>v_alert := (v_alert v)\<lparr>al_count := c, al_last := e_time E t, al_idx := k\<rparr>\<rparr>)"
| resolved: "vault_write E v (v\<lparr>v_map := clear_modified (v_map v), v_alert := zero_alert, v_status := VAULT_STATUS_OK\<rparr>)"
| file_entry: "entry_write E f \<Longrightarrow> vault_write E v (v\<lparr>v_map := set_entry p f (v_map v)\<rparr>)"
| tracked: "vault_write E v (v\<lparr>v_map := fst (hashmap_insert mem (v_map v) d)\<rparr>)"
| checked: "vault_write E v (v\<lparr>v_last_check := e_time E t\<rparr>)"
| salt: "length s = SALT_LEN \<Longrightarrow> vault_write E v (v\<lparr>v_salt := s\<rparr>)"
| key: "length s = KEY_LEN \<Longrightarrow> vault_write E v (v\<lparr>v_pass_hash := s\<rparr>)"
| mode: "vault_write E v (v\<lparr>v_write_mode := b\<rparr>)"
| watch: "vault_write E v (v\<lparr>v_fan_wd := n\<rparr>)"
| mount: "vault_write E v (v\<lparr>v_mounted := b\<rparr>)"
| worm: "vault_write E v (v\<lparr>v_worm := fl\<rparr>)"
| engine: "vault_write E v (v\<lparr>v_engine := n\<rparr>)"
| name: "fits VAULT_NAME_MAX nm \<Longrightarrow> vault_write E v (v\<lparr>v_name := nm\<rparr>)"

text \<open>A vault as it enters the catalog.\<close>

definition vault_born :: "env \<Rightarrow> Vault \<Rightarrow> bool" where
  "vault_born E v \<longleftrightarrow> (clock_ok E \<longrightarrow> vault_typed v)"


section \<open>What the operations yield\<close>

lemma yields_time: "yields (sys_time E) (\<lambda>a. \<exists>t. a = e_time E t)"
  by (auto simp: yields_def wp_simps)

lemma yields_rand: "yields (sys_rand E n) (\<lambda>r. \<forall>s. r = Some s \<longrightarrow> length s = n)"
  by (auto simp: yields_def wp_simps)

lemma length_hex_of: "length (hex_of (pad 32 d)) = HASH_HEX_LEN"
  by (simp add: hex_of_def HASH_HEX_LEN_def)

lemma yields_sha256: "yields (sha256_file E p) (\<lambda>r. \<forall>h. r = Inr h \<longrightarrow> length h = HASH_HEX_LEN)"
  by (auto simp: sha256_file_def length_hex_of intro!: yields_bind yields_return split: sum.splits prod.splits)

lemma length_derived: "derive_key_for E pw s p = Inr k \<Longrightarrow> length k = KEY_LEN"
  by (auto simp: derive_key_for_def Let_def split: option.splits)

lemma map_typed_empty: "map_typed empty_map"
  by (simp add: map_typed_def empty_map_def entries_def)

lemma zero_alert_typed: "alert_typed zero_alert"
  by (simp add: alert_typed_def zero_alert_def time_ok_def)

lemma type_ok_zero: "time_ok 0" by (simp add: time_ok_def)

lemma vault_born_new:
  assumes "type_ok vtype"
  shows "vault_born E (new_vault vid vtype (e_time E t) name path (cipher_dir base vid))"
  using assms map_typed_empty zero_alert_typed
  by (simp add: vault_born_def vault_typed_def new_vault_def zero_vault_def clock_ok_def cipher_dir_def sizes)

lemma yields_set_password: "vault_born E v \<Longrightarrow> yields (auth_set_password E v pw) (\<lambda>r. vault_born E (snd r))"
  by (auto simp: yields_def auth_set_password_def wp_simps Let_def vault_born_def vault_typed_def
      split: option.splits sum.splits dest: length_derived)


text \<open>The rules for a case distinction, with what it reveals about the value.\<close>

lemma pres_case_sum_eq:
  "(\<And>e. x = Inl e \<Longrightarrow> preserves I (m e)) \<Longrightarrow> (\<And>y. x = Inr y \<Longrightarrow> preserves I (n y)) \<Longrightarrow>
   preserves I (case x of Inl e \<Rightarrow> m e | Inr y \<Rightarrow> n y)"
  by (cases x) simp_all

lemma pres_case_option_eq:
  "preserves I m \<Longrightarrow> (\<And>y. x = Some y \<Longrightarrow> preserves I (n y)) \<Longrightarrow> preserves I (case x of None \<Rightarrow> m | Some y \<Rightarrow> n y)"
  by (cases x) simp_all

section \<open>The interface\<close>

locale written_inv =
  fixes E :: env and P :: "Vault \<Rightarrow> bool" and J :: "world \<Rightarrow> bool"
  assumes writes: "P v \<Longrightarrow> vault_write E v v' \<Longrightarrow> P v'"
    and born: "vault_born E v \<Longrightarrow> P v"
    and J_os: "os_indep J"
    and J_catalog: "J (w\<lparr>g_catalog := c\<rparr>) = J w"
    and J_seed: "J (w\<lparr>g_seed := s\<rparr>) = J w"
begin

definition inv :: "world \<Rightarrow> bool" where
  "inv w \<longleftrightarrow> (\<forall>v \<in> set (vaults w). P v) \<and> J w"

lemma os_inv [simp]: "os_indep inv"
  unfolding os_indep_def inv_def by (simp add: os_indepD [OF J_os])

lemma inv_upd: "J (upd_vaults f w) = J w"
  by (simp add: upd_vaults_def J_catalog)

lemma inv_write: "vault_write E (vaults w ! i) v \<Longrightarrow> inv w \<Longrightarrow> inv (upd_vaults (\<lambda>vs. vs[i := v]) w)"
  by (cases "i < length (vaults w)")
     (auto simp: inv_def inv_upd list_update_beyond intro: writes dest!: set_update_subset_insert [THEN subsetD])

lemma pres_write: "(\<And>v. vault_write E v (f v)) \<Longrightarrow> preserves inv (mod_vault i f)"
proof (rule preservesI)
  fix w assume f: "\<And>v. vault_write E v (f v)" and "inv w"
  from inv_write [OF f this(2), of i] show "wp (mod_vault i f) (\<lambda>_. inv) w"
    by (cases "i < length (vaults w)") (simp_all add: wp_mod_vault upd_vaults_def list_update_beyond)
qed

lemma pres_seeded: "preserves inv (modify (\<lambda>w. w\<lparr>g_seed := s\<rparr>))"
  by (rule pres_modify) (simp add: inv_def J_seed)

lemma pres_next: "preserves inv (modify (\<lambda>w. w\<lparr>g_catalog := (g_catalog w)\<lparr>c_next_id := n\<rparr>\<rparr>))"
  by (rule pres_modify) (simp add: inv_def J_catalog)

lemma pres_grow: "vault_born E v \<Longrightarrow> preserves inv (modify (upd_vaults (\<lambda>vs. vs @ [v])))"
  by (rule pres_modify) (auto simp: inv_def inv_upd born)

lemma pres_shrink: "preserves inv (modify (upd_vaults (remove_nth i)))"
  by (rule pres_modify) (auto simp: inv_def inv_upd dest!: set_remove_nth [THEN subsetD])

lemmas rules = pres pres_os os_inv pres_write

lemma pres_find: "preserves inv (vault_find_by_id vid)" "preserves inv (vault_find_by_name name)"
  unfolding vault_find_by_id_def vault_find_by_name_def by (intro rules)+

lemma pres_auth: "preserves inv (auth_verify_password E i pw)"
  unfolding auth_verify_password_def by (intro rules vault_write.intros) simp_all

lemma pres_check: "preserves inv (check_password E i pw)"
  unfolding check_password_def by (intro rules pres_auth)

lemma pres_alert: "preserves inv (alert_trigger E i reason)"
  unfolding alert_trigger_def
  by (rule pres_bind_yields [OF yields_time]) (auto intro!: rules vault_write.intros)

lemma pres_chmod_file: "preserves inv (chmod_file E path mode d)"
  unfolding chmod_file_def by (intro rules)

lemma pres_readonly: "preserves inv (vault_enforce_readonly E i)"
  unfolding vault_enforce_readonly_def by (intro rules pres_chmod_file vault_write.intros)

lemma pres_mode: "preserves inv (vault_set_write_mode E i b)"
  unfolding vault_set_write_mode_def by (intro rules pres_chmod_file vault_write.intros)

lemma pres_resolve: "preserves inv (alert_resolve E vid pw)"
  unfolding alert_resolve_def by (intro rules pres_find pres_auth pres_readonly vault_write.intros)

text \<open>The scan.\<close>

lemma pres_set_file: "entry_write E f \<Longrightarrow> preserves inv (set_file i p f)"
  unfolding set_file_def by (intro rules vault_write.intros)

lemma pres_known: "length h = HASH_HEX_LEN \<Longrightarrow> preserves inv (scan_known E i (e_time E t) d h p e)"
  unfolding scan_known_def
  by (intro rules pres_set_file pres_alert) (simp_all add: entry_write_def entry_typed_def clock_ok_def)

lemma pres_insert: "preserves inv (do {
     v \<leftarrow> get_vault i;
     mem \<leftarrow> alloc_ok E;
     mod_vault i (\<lambda>u. u\<lparr>v_map := fst (hashmap_insert mem (v_map v) d)\<rparr>) })"
proof (rule preservesI)
  fix w assume "inv w"
  then have "inv (w\<lparr>o_tick := t\<rparr>)" for t by simp
  from inv_write [OF vault_write.tracked this] show "wp (do {
     v \<leftarrow> get_vault i;
     mem \<leftarrow> alloc_ok E;
     mod_vault i (\<lambda>u. u\<lparr>v_map := fst (hashmap_insert mem (v_map v) d)\<rparr>) }) (\<lambda>_. inv) w"
    by (simp add: wp_simps upd_vaults_def)
qed

lemma pres_track: "length h = HASH_HEX_LEN \<Longrightarrow> preserves inv (track_file E i (e_time E t) d h)"
proof -
  assume h: "length h = HASH_HEX_LEN"
  have set: "preserves inv (set_file i p (\<lambda>e. e\<lparr>fe_hash := h, fe_last_seen := e_time E t, fe_modified := False\<rparr>))" for p
    by (rule pres_set_file) (simp add: h entry_write_def entry_typed_def clock_ok_def)
  have "wp (track_file E i (e_time E t) d h) (\<lambda>_. inv) w" if w: "inv w" for w
  proof (cases "hashmap_find (v_map (vaults w ! i)) d")
    case None
    have "wp (do {
       v \<leftarrow> get_vault i;
       mem \<leftarrow> alloc_ok E;
       mod_vault i (\<lambda>u. u\<lparr>v_map := fst (hashmap_insert mem (v_map v) d)\<rparr>) }) (\<lambda>_. inv) w"
      by (rule preservesD [OF pres_insert w])
    then show ?thesis
      by (auto simp: track_file_def None wp_simps case_prod_beta intro!: preservesD [OF set] split: option.split)
  next
    case (Some p)
    then show ?thesis
      using preservesD [OF pres_known [OF h] w] by (simp add: track_file_def wp_bind wp_get_vault)
  qed
  then show ?thesis by (rule preservesI)
qed

lemma pres_scan_file: "preserves inv (scan_file E i (e_time E t) d)"
  unfolding scan_file_def Let_def
  by (intro pres_if pres_return pres_bind [OF pres_get_vault] pres_bind [OF pres_syscall [OF os_inv]]
      pres_bind_yields [OF yields_sha256 pres_sha256_file [OF os_inv]])
     (auto intro!: pres_case_sum_eq pres_return pres_track)

lemma pres_missing: "preserves inv (check_missing E i t p)"
  unfolding check_missing_def Let_def
  by (intro rules pres_set_file pres_alert) (simp add: entry_write_def entry_typed_def)

lemma pres_scan: "preserves inv (monitor_scan_vault E i)"
proof -
  have finish: "preserves inv (do { now \<leftarrow> sys_time E; mod_vault i (\<lambda>v. v\<lparr>v_last_check := now\<rparr>) })"
    by (rule pres_bind_yields [OF yields_time]) (auto intro!: rules vault_write.intros)
  have loop: "preserves inv (do {
      dir \<leftarrow> sys_opendir E path;
      case dir of
        Inl _ \<Rightarrow> return ()
      | Inr names \<Rightarrow> do {
          for_each names (scan_file E i (e_time E t));
          v \<leftarrow> get_vault i;
          for_each (positions (v_map v)) (check_missing E i (e_time E t));
          now \<leftarrow> sys_time E;
          mod_vault i (\<lambda>v. v\<lparr>v_last_check := now\<rparr>) } })" for path t
    by (intro pres_bind [OF pres_syscall [OF os_inv]] pres_case_sum pres_return pres_bind [OF pres_for_each [OF pres_scan_file]]
        pres_bind [OF pres_get_vault] pres_bind [OF pres_for_each [OF pres_missing]] finish)
  show ?thesis
    unfolding monitor_scan_vault_def
    by (intro pres_bind [OF pres_get_vault] pres_if pres_return pres_bind_yields [OF yields_time pres_sys_time [OF os_inv]])
       (auto intro!: loop)
qed

text \<open>The manager.\<close>

lemma pres_unlock: "preserves inv (vault_unlock E vid pw)"
  unfolding vault_unlock_def by (intro rules pres_find pres_auth vault_write.intros)

lemma pres_store_key: "length s = SALT_LEN \<Longrightarrow> preserves inv (do {
     mod_vault i (\<lambda>v. v\<lparr>v_salt := s\<rparr>);
     (case derive_key_for E pw s ''auth-verify'' of
        Inl err \<Rightarrow> return err
      | Inr key \<Rightarrow> do { mod_vault i (\<lambda>v. v\<lparr>v_pass_hash := key\<rparr>); catalog_save E }) })"
  by (auto intro!: rules vault_write.intros dest: length_derived split: sum.splits)

lemma pres_replace: "preserves inv (replace_password E i old new)"
proof -
  have new: "preserves inv (case derive_key_for E new s ''file-encryption'' of
      Inl err \<Rightarrow> return err
    | Inr new_key \<Rightarrow> do {
        err \<leftarrow> rekey_vault_files E v old_key new_key;
        if err \<noteq> ERR_OK then return err
        else do {
          mod_vault i (\<lambda>v. v\<lparr>v_salt := s\<rparr>);
          (case derive_key_for E new s ''auth-verify'' of
             Inl err \<Rightarrow> return err
           | Inr key \<Rightarrow> do { mod_vault i (\<lambda>v. v\<lparr>v_pass_hash := key\<rparr>); catalog_save E }) } })"
    if "length s = SALT_LEN" for s v old_key
    by (intro pres_case_sum pres_bind [OF pres_rekey_vault_files [OF os_inv]] pres_if pres_return pres_store_key that)
  have old: "preserves inv (case derive_key_for E old s ''file-encryption'' of Inl err \<Rightarrow> return err | Inr k \<Rightarrow> do {
      rnd \<leftarrow> sys_rand E SALT_LEN;
      case rnd of None \<Rightarrow> return ERR_CRYPTO | Some s' \<Rightarrow> f k s' })"
    if "\<And>k s'. length s' = SALT_LEN \<Longrightarrow> preserves inv (f k s')" for s f
    by (intro pres_case_sum pres_return pres_bind_yields [OF yields_rand pres_sys_rand [OF os_inv]] pres_case_option_eq that) simp
  show ?thesis
    unfolding replace_password_def by (intro pres_bind [OF pres_get_vault] old new)
qed

lemma pres_change: "preserves inv (vault_change_password E vid old new)"
  unfolding vault_change_password_def by (intro rules pres_find pres_auth pres_replace)

lemma pres_commit: "vault_born E v \<Longrightarrow> preserves inv (commit_vault E v)"
  unfolding commit_vault_def by (intro rules pres_grow pres_readonly)

lemma pres_build_vault: "type_ok vtype \<Longrightarrow> preserves inv (build_vault E name vtype path pw)"
proof -
  assume ok: "type_ok vtype"
  have rest: "preserves inv (do {
      (err, v) \<leftarrow> (if vtype = VAULT_TYPE_PROTECTED then auth_set_password E v pw else return (ERR_OK, v));
      if err \<noteq> ERR_OK then return err else commit_vault E v })" if "vault_born E v" for v
    by (rule pres_bind_yields [where R = "\<lambda>r. vault_born E (snd r)"])
       (use that yields_set_password [OF that] in \<open>auto intro!: rules yields_return pres_commit\<close>)
  have made: "preserves inv (do {
      r \<leftarrow> sys_mkdir E (v_cipher (new_vault vid vtype (e_time E t) name path (cipher_dir base vid))) MODE_0700;
      if (case r of Inl e \<Rightarrow> e \<noteq> EEXIST | Inr _ \<Rightarrow> False) then return ERR_IO
      else do {
        (err, v) \<leftarrow> (if vtype = VAULT_TYPE_PROTECTED then auth_set_password E (new_vault vid vtype (e_time E t) name path (cipher_dir base vid)) pw
                     else return (ERR_OK, new_vault vid vtype (e_time E t) name path (cipher_dir base vid)));
        if err \<noteq> ERR_OK then return err else commit_vault E v } })" for vid t base
    by (intro pres_bind [OF pres_syscall [OF os_inv]] pres_if pres_return rest vault_born_new ok)
  show ?thesis
    unfolding build_vault_def Let_def
    by (intro pres_bind [OF pres_gets] pres_bind [OF pres_next] pres_bind_yields [OF yields_time pres_sys_time [OF os_inv]])
       (elim exE, simp only: made)
qed

lemma pres_prepare: "preserves inv (prepare_dir E path)"
  unfolding prepare_dir_def by (intro rules)

lemma pres_create: "type_ok vtype \<Longrightarrow> preserves inv (vault_create E name vtype path pw)"
  unfolding vault_create_def vault_auto_name_def Let_def by (intro rules pres_find pres_prepare pres_build_vault)

lemma pres_delete: "preserves inv (vault_delete E vid pw)"
  unfolding vault_delete_def by (intro rules pres_find pres_check pres_shrink)

lemma pres_rename: "preserves inv (vault_rename E vid new pw)"
  unfolding vault_rename_def Let_def
  by (intro rules pres_find pres_check vault_write.intros) (simp add: VAULT_NAME_MAX_def)

text \<open>Files, engine, mount and flags.\<close>

lemma pres_entries: "preserves inv (encrypt_entry E path key d)" "preserves inv (decrypt_entry E path key d)"
  unfolding encrypt_entry_def decrypt_entry_def Let_def by (intro rules)+

lemma pres_copy: "preserves inv (rust_vault_copy_file E src dst)"
  unfolding rust_vault_copy_file_def fs_copy_def Let_def by (intro rules)

lemma pres_export: "preserves inv (export_loop E v pw dst fn ds)"
  by (induction ds) (auto simp: export_entry_def Let_def intro!: rules pres_copy)

lemma pres_engine: "preserves inv (engine_apply E vp)"
  by (rule pres_engine_apply) (simp_all add: inv_def J_seed)

lemma pres_engine_validate: "preserves inv (engine_validate E vp)"
  unfolding engine_validate_def Let_def by (intro rules pres_validate_subtree pres_alert)

lemma pres_fuse: "preserves inv (vault_fuse_mount E mounts i)" "preserves inv (vault_fuse_unmount E i)"
  unfolding vault_fuse_mount_def vault_fuse_unmount_def fuse_loop_enter_def fuse_loop_exit_def
  by (intro rules vault_write.intros)+

lemma pres_worm: "preserves inv (vault_worm_set_flags E vp fl)" "preserves inv (vault_worm_clear_flags E vp fl)"
  "preserves inv (vault_worm_set_scan E vp)"
  unfolding vault_worm_set_flags_def vault_worm_clear_flags_def vault_worm_set_scan_def Let_def
  by (intro rules vault_write.intros)+

lemma pres_real_path: "preserves inv (real_path E n v)"
  unfolding real_path_def by (intro rules)

lemma pres_list_ids: "preserves inv (list_ids_loop E n vs)"
proof (induction n arbitrary: vs)
  case (Suc n)
  then show ?case by (cases vs) (auto intro!: rules pres_real_path)
qed (simp add: pres_return)

lemma pres_set_engine: "preserves inv (mod_vault i (\<lambda>v. v\<lparr>v_engine := n\<rparr>))"
  by (intro rules vault_write.intros)

lemmas pres_operation = pres_find pres_auth pres_check pres_mode pres_resolve pres_scan pres_unlock pres_change pres_create
  pres_delete pres_rename pres_entries pres_copy pres_export pres_engine pres_engine_validate pres_fuse pres_worm
  pres_real_path pres_list_ids pres_set_engine

end

end
