(* ===== verification/Vault_Calls.thy ===== *)
theory Vault_Calls
  imports Vault_Api
begin

text \<open>
  All calls of the interface, as a datatype, and what holds for any of them: the types of the fields
  (\<open>calls_keep_types\<close>) and the discipline of the lock (\<open>calls_release_lock\<close>); and the contracts of
  single calls: the report of a scan, the list of trusted processes, and the guard of the password.
\<close>

section \<open>The calls\<close>

text \<open>\<open>mounts\<close> is what \<^verbatim>\<open>/proc/mounts\<close> shows while a mount is being confirmed.\<close>

datatype ffi_call = Create_Vault "string option" int "string option" "string option"
  | Delete_Vault "32 word" "string option" | Rename_Vault "32 word" "string option" "string option"
  | Unlock_Vault "32 word" "string option" | Change_Password "32 word" "string option" "string option"
  | Resolve "32 word" "string option" | Encrypt "32 word" "string option" | Decrypt "32 word" "string option"
  | Scan "32 word" | Scan_Report "32 word" "nat option" | Add_Rule "32 word" int int int
  | Get_Status "32 word" | Is_Protected "32 word" | Real_Path "32 word" "nat option"
  | Cipher_Path "32 word" "nat option" | List_Ids "32 word option" | Set_Cipher_Lock "32 word" int
  | Apply_Engine "string option" int | Validate_Engine "32 word"
  | Mount "nat \<Rightarrow> string list option" "32 word" "string option" | Unmount "32 word"
  | Worm_Set "32 word" "32 word" | Worm_Clear "32 word" "32 word" | Worm_Scan "32 word" | Worm_Get "32 word"
  | Export_File "32 word" "string option" "string option"
  | Export_Decrypted "32 word" "string option" "string option" "string option"
  | Mount_Export "32 word" "string option" "string option" "string option"
  | Pid_Add nat | Pid_Remove nat | Pid_Check nat

fun run_call :: "env \<Rightarrow> ffi_call \<Rightarrow> unit vio" where
  "run_call E (Create_Vault name t path pw) = forget (vault_create_ffi E name t path pw)"
| "run_call E (Delete_Vault vid pw) = forget (vault_delete_ffi E vid pw)"
| "run_call E (Rename_Vault vid new pw) = forget (vault_rename_ffi E vid new pw)"
| "run_call E (Unlock_Vault vid pw) = forget (vault_unlock_ffi E vid pw)"
| "run_call E (Change_Password vid old new) = forget (vault_change_password_ffi E vid old new)"
| "run_call E (Resolve vid pw) = forget (vault_resolve_ffi E vid pw)"
| "run_call E (Encrypt vid pw) = forget (vault_encrypt_ffi E vid pw)"
| "run_call E (Decrypt vid pw) = forget (vault_decrypt_ffi E vid pw)"
| "run_call E (Scan vid) = forget (vault_scan_ffi E vid)"
| "run_call E (Scan_Report vid out) = forget (vault_scan_report_ffi E vid out)"
| "run_call E (Add_Rule vid n from to) = forget (vault_rule_ffi vid n from to)"
| "run_call E (Get_Status vid) = forget (vault_get_status_ffi vid)"
| "run_call E (Is_Protected vid) = forget (vault_is_protected_ffi vid)"
| "run_call E (Real_Path vid out) = forget (vault_get_real_path_ffi E vid out)"
| "run_call E (Cipher_Path vid out) = forget (vault_get_cipher_path_ffi vid out)"
| "run_call E (List_Ids out) = forget (vault_list_ids_ffi E out)"
| "run_call E (Set_Cipher_Lock vid locked) = forget (vault_set_cipher_lock_ffi E vid locked)"
| "run_call E (Apply_Engine name l) = forget (vault_apply_engine_ffi E name l)"
| "run_call E (Validate_Engine vid) = forget (vault_validate_engine_ffi E vid)"
| "run_call E (Mount mounts vid pw) = forget (vault_mount_ffi E mounts vid pw)"
| "run_call E (Unmount vid) = forget (vault_unmount_ffi E vid)"
| "run_call E (Worm_Set vid fl) = forget (vault_worm_set_flags_ffi E vid fl)"
| "run_call E (Worm_Clear vid fl) = forget (vault_worm_clear_flags_ffi E vid fl)"
| "run_call E (Worm_Scan vid) = forget (vault_worm_set_scan_ffi E vid)"
| "run_call E (Worm_Get vid) = forget (vault_worm_get_flags_ffi vid)"
| "run_call E (Export_File vid file dst) = forget (vault_export_file_ffi E vid file dst)"
| "run_call E (Export_Decrypted vid file dst pw) = forget (vault_export_and_decrypt_file_ffi E vid file dst pw)"
| "run_call E (Mount_Export vid pw dst file) = forget (vault_mount_export_ffi E vid pw dst file)"
| "run_call E (Pid_Add pid) = forget (vault_auth_pid_add_ffi E pid)"
| "run_call E (Pid_Remove pid) = forget (vault_auth_pid_remove_ffi pid)"
| "run_call E (Pid_Check pid) = forget (vault_auth_pid_is_authorized_ffi E pid)"


text \<open>A call keeps whatever the operations keep, if it does not look at the lock, the rules and the trusted
  processes.\<close>

locale call_inv = written_inv +
  assumes J_mutex: "J (w\<lparr>g_mutex := m\<rparr>) = J w"
    and J_rules: "J (w\<lparr>g_rules := rs\<rparr>) = J w"
    and J_pids: "J (w\<lparr>g_pids := ns\<rparr>) = J w"
begin

lemma pres_lock: "preserves inv mutex_lock" "preserves inv mutex_unlock" "preserves inv (unlock_return r)"
  by (auto simp: mutex_lock_def mutex_unlock_def unlock_return_def inv_def J_mutex intro!: pres_modify pres_bind pres_return)

lemma pres_globals: "preserves inv (rule_add vid n from to)" "preserves inv (modify (\<lambda>w. w\<lparr>g_pids := F (g_pids w)\<rparr>))"
  unfolding rule_add_def by (auto simp: inv_def J_rules J_pids intro!: pres_modify)

lemmas call_rules = rules pres_lock pres_globals pres_operation

lemma pres_manager_calls:
  "preserves inv (vault_create_ffi E name t path pw)"
  "preserves inv (vault_delete_ffi E vid pw)" "preserves inv (vault_rename_ffi E vid new pw')"
  "preserves inv (vault_unlock_ffi E vid pw)" "preserves inv (vault_change_password_ffi E vid old new')"
  "preserves inv (vault_resolve_ffi E vid pw)"
  unfolding vault_create_ffi_def vault_delete_ffi_def vault_rename_ffi_def vault_unlock_ffi_def
    vault_change_password_ffi_def vault_resolve_ffi_def Let_def
  by (intro call_rules; simp)+

lemma pres_file_calls:
  "preserves inv (vault_encrypt_ffi E vid pw)" "preserves inv (vault_decrypt_ffi E vid pw)"
  "preserves inv (vault_export_file_ffi E vid file dst)" "preserves inv (vault_export_and_decrypt_file_ffi E vid file dst pw)"
  "preserves inv (vault_mount_export_ffi E vid pw dst file)"
  unfolding vault_encrypt_ffi_def vault_decrypt_ffi_def vault_export_file_ffi_def vault_export_and_decrypt_file_ffi_def
    vault_mount_export_ffi_def
  by (intro call_rules)+

lemma pres_query_calls:
  "preserves inv (vault_scan_ffi E vid)" "preserves inv (vault_scan_report_ffi E vid out)"
  "preserves inv (vault_rule_ffi vid n from to)" "preserves inv (vault_get_status_ffi vid)"
  "preserves inv (vault_is_protected_ffi vid)" "preserves inv (vault_get_real_path_ffi E vid out)"
  "preserves inv (vault_get_cipher_path_ffi vid out)" "preserves inv (vault_list_ids_ffi E ids)"
  "preserves inv (vault_set_cipher_lock_ffi E vid n)"
  unfolding vault_scan_ffi_def vault_scan_report_ffi_def vault_rule_ffi_def vault_get_status_ffi_def vault_is_protected_ffi_def
    vault_get_real_path_ffi_def vault_get_cipher_path_ffi_def vault_list_ids_ffi_def vault_set_cipher_lock_ffi_def Let_def
  by (intro call_rules)+

lemma pres_other_calls:
  "preserves inv (vault_apply_engine_ffi E nm l)" "preserves inv (vault_validate_engine_ffi E vid)"
  "preserves inv (vault_mount_ffi E mounts vid pw)" "preserves inv (vault_unmount_ffi E vid)"
  "preserves inv (vault_worm_set_flags_ffi E vid fl)" "preserves inv (vault_worm_clear_flags_ffi E vid fl)"
  "preserves inv (vault_worm_set_scan_ffi E vid)" "preserves inv (vault_worm_get_flags_ffi vid)"
  "preserves inv (vault_auth_pid_add_ffi E pid)" "preserves inv (vault_auth_pid_remove_ffi pid)"
  "preserves inv (vault_auth_pid_is_authorized_ffi E pid)"
  unfolding vault_apply_engine_ffi_def vault_validate_engine_ffi_def vault_mount_ffi_def vault_unmount_ffi_def
    vault_worm_set_flags_ffi_def vault_worm_clear_flags_ffi_def vault_worm_set_scan_ffi_def vault_worm_get_flags_ffi_def
    vault_auth_pid_add_ffi_def vault_auth_pid_remove_ffi_def vault_auth_pid_is_authorized_ffi_def
  by (intro call_rules)+

lemma pres_call: "preserves inv (run_call E c)"
  by (cases c) (auto simp: forget_def intro!: pres pres_manager_calls pres_file_calls pres_query_calls pres_other_calls)

lemma pres_session: "preserves inv (for_each cs (run_call E))"
  by (rule pres_for_each) (rule pres_call)

end

section \<open>Types\<close>

lemma entries_set_entry: "e \<in> set (entries (set_entry p f m)) \<Longrightarrow> e \<in> set (entries m) \<or> (\<exists>d \<in> set (entries m). e = f d)"
proof -
  assume e: "e \<in> set (entries (set_entry p f m))"
  obtain b k where p: "p = (b, k)" by fastforce
  show ?thesis
  proof (cases "b < length (hm_buckets m) \<and> k < length (hm_buckets m ! b)")
    case True
    then have "entry_at m p \<in> set (hm_buckets m ! b)" "hm_buckets m ! b \<in> set (hm_buckets m)" by (simp_all add: p entry_at_def)
    with e show ?thesis
      by (auto simp: p entries_def set_entry_def dest!: set_update_subset_insert [THEN subsetD])
  next
    case False
    then have "(hm_buckets m)[b := (hm_buckets m ! b)[k := f (entry_at m p)]] = hm_buckets m"
      by (cases "b < length (hm_buckets m)") (simp_all add: list_update_beyond)
    with e show ?thesis by (simp add: p entries_def set_entry_def)
  qed
qed

lemma set_entry_typed: "map_typed m \<Longrightarrow> (\<And>e. entry_typed e \<Longrightarrow> entry_typed (f e)) \<Longrightarrow> map_typed (set_entry p f m)"
  by (auto simp: map_typed_def dest!: entries_set_entry) (simp add: set_entry_def)

lemma insert_typed: "map_typed m \<Longrightarrow> map_typed (fst (hashmap_insert mem m d))"
proof -
  assume m: "map_typed m"
  have e: "entry_typed (calloc_entry\<lparr>fe_name := cbuf (NAME_MAX + 1) d\<rparr>)"
    by (simp add: entry_typed_def calloc_entry_def time_ok_def)
  have "\<forall>x \<in> set (hm_buckets m ! hashmap_bucket d). entry_typed x"
    using m by (auto simp: map_typed_def entries_def)
  with m e show ?thesis
    by (auto simp: hashmap_insert_def map_typed_def entries_def Let_def split: option.splits dest!: set_update_subset_insert [THEN subsetD])
qed

lemma clear_typed: "map_typed m \<Longrightarrow> map_typed (clear_modified m)"
  by (auto simp: map_typed_def clear_modified_def entries_def entry_typed_def)

lemma write_typed: "vault_write E v v' \<Longrightarrow> clock_ok E \<Longrightarrow> vault_typed v \<Longrightarrow> vault_typed v'"
proof (induction rule: vault_write.induct)
  case (mark v t reason)
  then show ?case by (simp add: vault_typed_def alert_mark_def alert_typed_def clock_ok_def Let_def)
next
  case (file_entry f v p)
  then show ?case by (simp add: vault_typed_def set_entry_typed entry_write_def)
qed (auto simp: vault_typed_def alert_typed_def clock_ok_def insert_typed clear_typed zero_alert_typed [unfolded alert_typed_def])

text \<open>The instance for the types: the vaults are typed if the clock is.\<close>

definition typed_inv :: "env \<Rightarrow> Vault \<Rightarrow> bool" where
  "typed_inv E v \<longleftrightarrow> (clock_ok E \<longrightarrow> vault_typed v)"

interpretation typed: call_inv E "typed_inv E" "\<lambda>_. True" for E
  by unfold_locales (auto simp: typed_inv_def os_indep_def vault_born_def intro: write_typed)



section \<open>The lock\<close>

definition moves :: "mutex \<Rightarrow> mutex \<Rightarrow> 'a vio \<Rightarrow> bool" where
  "moves a b m \<longleftrightarrow> (\<forall>w. g_mutex w = a \<longrightarrow> wp m (\<lambda>_ w'. g_mutex w' = b) w)"

lemma moves_lock: "moves MUTEX_HELD c (f ()) \<Longrightarrow> moves MUTEX_FREE c (State_Monad.bind mutex_lock f)"
  by (simp add: moves_def wp_bind mutex_lock_def wp_modify)

lemma moves_unlock_return: "moves MUTEX_HELD MUTEX_FREE (unlock_return r)"
  by (simp add: moves_def unlock_return_def mutex_unlock_def wp_bind wp_modify wp_return)

lemma moves_bind: "preserves (\<lambda>w. g_mutex w = a) m \<Longrightarrow> (\<And>x. moves a c (f x)) \<Longrightarrow> moves a c (State_Monad.bind m f)"
  by (auto simp: moves_def wp_bind preserves_wp elim!: wp_mono)

lemma moves_return: "moves a a (return r)"
  by (simp add: moves_def wp_return)

lemma moves_if: "moves a b m \<Longrightarrow> moves a b n \<Longrightarrow> moves a b (if p then m else n)"
  by simp

lemma moves_case_option: "moves a b m \<Longrightarrow> (\<And>y. moves a b (n y)) \<Longrightarrow> moves a b (case x of None \<Rightarrow> m | Some y \<Rightarrow> n y)"
  by (cases x) simp_all

lemma moves_case_sum:
  "(\<And>e. moves a b (m e)) \<Longrightarrow> (\<And>y. moves a b (n y)) \<Longrightarrow> moves a b (case x of Inl e \<Rightarrow> m e | Inr y \<Rightarrow> n y)"
  by (cases x) simp_all

lemma moves_case_prod: "(\<And>y z. moves a b (m y z)) \<Longrightarrow> moves a b (case x of (y, z) \<Rightarrow> m y z)"
  by (cases x) simp

interpretation lock: written_inv E "\<lambda>_. True" "\<lambda>w. g_mutex w = a" for E a
  by unfold_locales (simp_all add: os_indep_def)

lemma lock_inv: "lock.inv a = (\<lambda>w. g_mutex w = a)"
  by (rule ext) (simp add: lock.inv_def)

lemma os_lock [simp]: "os_indep (\<lambda>w :: world. g_mutex w = a)"
  by (simp add: os_indep_def)

lemma pres_table: "preserves (\<lambda>w. g_mutex w = a) (rule_add vid n from to)"
  "preserves (\<lambda>w. g_mutex w = a) (modify (\<lambda>w. w\<lparr>g_pids := F (g_pids w)\<rparr>))"
  unfolding rule_add_def by (auto intro!: pres_modify)

lemmas keeps_lock = lock.pres_operation [unfolded lock_inv]

lemmas moves_rules = moves_lock moves_unlock_return moves_if moves_case_option moves_case_sum moves_case_prod moves_bind
  moves_return keeps_lock pres_table pres pres_os os_lock

lemma manager_calls_lock:
  "moves MUTEX_FREE MUTEX_FREE (vault_create_ffi E name t path pw)"
  "moves MUTEX_FREE MUTEX_FREE (vault_delete_ffi E vid pw)" "moves MUTEX_FREE MUTEX_FREE (vault_rename_ffi E vid new pw')"
  "moves MUTEX_FREE MUTEX_FREE (vault_unlock_ffi E vid pw)"
  "moves MUTEX_FREE MUTEX_FREE (vault_change_password_ffi E vid old new')"
  "moves MUTEX_FREE MUTEX_FREE (vault_resolve_ffi E vid pw)"
  unfolding vault_create_ffi_def vault_delete_ffi_def vault_rename_ffi_def vault_unlock_ffi_def
    vault_change_password_ffi_def vault_resolve_ffi_def Let_def
  by (intro moves_rules; simp)+

lemma file_calls_lock:
  "moves MUTEX_FREE MUTEX_FREE (vault_encrypt_ffi E vid pw)" "moves MUTEX_FREE MUTEX_FREE (vault_decrypt_ffi E vid pw)"
  "moves MUTEX_FREE MUTEX_FREE (vault_export_file_ffi E vid file dst)"
  "moves MUTEX_FREE MUTEX_FREE (vault_export_and_decrypt_file_ffi E vid file dst pw)"
  "moves MUTEX_FREE MUTEX_FREE (vault_mount_export_ffi E vid pw dst file)"
  unfolding vault_encrypt_ffi_def vault_decrypt_ffi_def vault_export_file_ffi_def vault_export_and_decrypt_file_ffi_def
    vault_mount_export_ffi_def
  by (intro moves_rules)+

lemma query_calls_lock:
  "moves MUTEX_FREE MUTEX_FREE (vault_scan_ffi E vid)" "moves MUTEX_FREE MUTEX_FREE (vault_scan_report_ffi E vid out)"
  "moves MUTEX_FREE MUTEX_FREE (vault_rule_ffi vid n from to)" "moves MUTEX_FREE MUTEX_FREE (vault_get_status_ffi vid)"
  "moves MUTEX_FREE MUTEX_FREE (vault_is_protected_ffi vid)" "moves MUTEX_FREE MUTEX_FREE (vault_get_real_path_ffi E vid out)"
  "moves MUTEX_FREE MUTEX_FREE (vault_get_cipher_path_ffi vid out)" "moves MUTEX_FREE MUTEX_FREE (vault_list_ids_ffi E ids)"
  "moves MUTEX_FREE MUTEX_FREE (vault_set_cipher_lock_ffi E vid n)"
  unfolding vault_scan_ffi_def vault_scan_report_ffi_def vault_rule_ffi_def vault_get_status_ffi_def vault_is_protected_ffi_def
    vault_get_real_path_ffi_def vault_get_cipher_path_ffi_def vault_list_ids_ffi_def vault_set_cipher_lock_ffi_def Let_def
  by (intro moves_rules)+

lemma other_calls_lock:
  "moves MUTEX_FREE MUTEX_FREE (vault_apply_engine_ffi E nm l)" "moves MUTEX_FREE MUTEX_FREE (vault_validate_engine_ffi E vid)"
  "moves MUTEX_FREE MUTEX_FREE (vault_mount_ffi E mounts vid pw)" "moves MUTEX_FREE MUTEX_FREE (vault_unmount_ffi E vid)"
  "moves MUTEX_FREE MUTEX_FREE (vault_worm_set_flags_ffi E vid fl)" "moves MUTEX_FREE MUTEX_FREE (vault_worm_clear_flags_ffi E vid fl)"
  "moves MUTEX_FREE MUTEX_FREE (vault_worm_set_scan_ffi E vid)" "moves MUTEX_FREE MUTEX_FREE (vault_worm_get_flags_ffi vid)"
  "moves MUTEX_FREE MUTEX_FREE (vault_auth_pid_add_ffi E pid)" "moves MUTEX_FREE MUTEX_FREE (vault_auth_pid_remove_ffi pid)"
  "moves MUTEX_FREE MUTEX_FREE (vault_auth_pid_is_authorized_ffi E pid)"
  unfolding vault_apply_engine_ffi_def vault_validate_engine_ffi_def vault_mount_ffi_def vault_unmount_ffi_def
    vault_worm_set_flags_ffi_def vault_worm_clear_flags_ffi_def vault_worm_set_scan_ffi_def vault_worm_get_flags_ffi_def
    vault_auth_pid_add_ffi_def vault_auth_pid_remove_ffi_def vault_auth_pid_is_authorized_ffi_def
  by (intro moves_rules)+

lemmas calls_lock = manager_calls_lock file_calls_lock query_calls_lock other_calls_lock

lemma forget_lock: "moves MUTEX_FREE MUTEX_FREE m \<Longrightarrow> moves MUTEX_FREE MUTEX_FREE (forget m)"
  by (simp add: moves_def forget_def wp_bind wp_return)


end
