(* ===== verification/Vault_Files.thy ===== *)
theory Vault_Files
  imports Vault_Calls
begin

text \<open>
  \<^verbatim>\<open>vault_encrypt_ffi\<close> and \<^verbatim>\<open>vault_decrypt_ffi\<close> on a whole directory. What a file system shows of types and
  contents is \<open>look\<close>; \<open>packed\<close> relates two of these views, before and after the files \<open>X\<close> of a directory
  were encrypted. Encrypting adds a file to \<open>X\<close>, decrypting removes one, so after both \<open>X\<close> is
  empty and the views agree (\<open>encrypted_vault_comes_back\<close>).
\<close>

section \<open>Views of a directory\<close>

type_synonym view = "string \<Rightarrow> (ftype \<times> string) option"

definition look :: "fs \<Rightarrow> view" where
  "look f p = map_option (\<lambda>n. (i_type n, i_data n)) (fs_get f p)"

lemma look_None: "look f p = None \<longleftrightarrow> fs_get f p = None"
  by (simp add: look_def)

lemma look_put [simp]: "look (fs_put p n f) = (look f)(p \<mapsto> (i_type n, i_data n))"
  by (rule ext) (simp add: look_def fs_get_put)

lemma look_del [simp]: "look (fs_del p f) = (look f)(p := None)"
  by (rule ext) (simp add: look_def fs_get_del)

lemma look_dir: "dir_at f p \<longleftrightarrow> (\<exists>b. look f p = Some (S_IFDIR, b))"
  by (auto simp: dir_at_def look_def split: option.splits)

lemma look_file: "file_at f p \<longleftrightarrow> dir_at f (parent_dir p) \<and> (\<exists>b. look f p = Some (S_IFREG, b))"
  by (auto simp: file_at_def look_def split: option.splits)

lemma look_fresh: "fresh_at f p \<longleftrightarrow> dir_at f (parent_dir p) \<and> look f p = None"
  by (simp add: fresh_at_def look_None)

lemma look_content: "look f p = Some (t, b) \<Longrightarrow> fs_content f p = b"
  by (auto simp: look_def fs_content_def split: option.splits)

lemma look_with_mode: "fs_get f' = with_mode path m ds f \<Longrightarrow> look f' = look f"
  by (rule ext) (auto simp: look_def with_mode_def option.map_comp comp_def intro!: map_option_cong)

definition enc_of :: "string \<Rightarrow> string" where
  "enc_of d = d @ ENC_SUFFIX"

definition below :: "string \<Rightarrow> string \<Rightarrow> string" where
  "below path d = path @ ''/'' @ d"

definition temp_of :: "env \<Rightarrow> string \<Rightarrow> string" where
  "temp_of E d = d @ ''.tmp.'' @ dec_digits (e_pid E)"

text \<open>The directory \<open>path\<close> of a view \<open>g\<close>: plain names, no links, nothing encrypted yet, and no leftover of an
  interrupted decryption; \<open>plain_files\<close> are the files an encryption takes.\<close>

definition plain_files :: "view \<Rightarrow> string \<Rightarrow> string set" where
  "plain_files g path = {d. d \<noteq> [] \<and> CHR ''/'' \<notin> set d \<and> \<not> hidden d \<and> \<not> ends_with d ENC_SUFFIX
     \<and> (\<exists>b. g (below path d) = Some (S_IFREG, b))}"

definition file_fits :: "env \<Rightarrow> view \<Rightarrow> string \<Rightarrow> string \<Rightarrow> bool" where
  "file_fits E g path d \<longleftrightarrow> length (below path d) + length (dec_digits (e_pid E)) + 5 < PATH_MAX
     \<and> length (snd (the (g (below path d)))) + 28 \<le> MAX_DECRYPT_SIZE \<and> g (below path (temp_of E d)) = None"

definition tidy_dir :: "env \<Rightarrow> view \<Rightarrow> string \<Rightarrow> bool" where
  "tidy_dir E g path \<longleftrightarrow> path \<noteq> [] \<and> (\<exists>b. g path = Some (S_IFDIR, b)) \<and> (\<exists>b. g (parent_dir path) = Some (S_IFDIR, b))
     \<and> (\<forall>d. CHR ''/'' \<notin> set d \<longrightarrow> ends_with d ENC_SUFFIX \<longrightarrow> g (below path d) = None)
     \<and> (\<forall>d b. CHR ''/'' \<notin> set d \<longrightarrow> g (below path d) \<noteq> Some (S_IFLNK, b))
     \<and> (\<forall>d. CHR ''/'' \<notin> set d \<longrightarrow> g (below path d) \<noteq> None \<longrightarrow> length (below path d) + 4 < ENC_IN_BUF)
     \<and> (\<forall>d \<in> plain_files g path. file_fits E g path d)"

text \<open>The view \<open>h\<close> is \<open>g\<close> with the files \<open>X\<close> encrypted under \<open>key\<close>.\<close>

definition sealed_file :: "env \<Rightarrow> string \<Rightarrow> string \<Rightarrow> view \<Rightarrow> view \<Rightarrow> string \<Rightarrow> bool" where
  "sealed_file E key path g h d \<longleftrightarrow> h (below path d) = None \<and> (\<exists>iv. length iv = GCM_IV_LEN
     \<and> h (below path (enc_of d)) = Some (S_IFREG, encrypted E key iv (snd (the (g (below path d))))))"

definition packed :: "env \<Rightarrow> string \<Rightarrow> string \<Rightarrow> string set \<Rightarrow> view \<Rightarrow> view \<Rightarrow> bool" where
  "packed E key path X g h \<longleftrightarrow> X \<subseteq> plain_files g path \<and> (\<forall>d \<in> X. sealed_file E key path g h d)
     \<and> (\<forall>p. (\<forall>d \<in> X. p \<noteq> below path d \<and> p \<noteq> below path (enc_of d)) \<longrightarrow> h p = g p)"

lemma packed_empty: "packed E key path {} g h \<longleftrightarrow> h = g"
  by (auto simp: packed_def)

lemma enc_suffix: "d \<noteq> [] \<Longrightarrow> ends_with (enc_of d) ENC_SUFFIX"
  by (simp add: ends_with_def enc_of_def ENC_SUFFIX_def)

lemma enc_inj [simp]: "enc_of d = enc_of e \<longleftrightarrow> d = e"
  by (simp add: enc_of_def)

lemma enc_slash [simp]: "CHR ''/'' \<in> set (enc_of d) \<longleftrightarrow> CHR ''/'' \<in> set d"
  by (simp add: enc_of_def ENC_SUFFIX_def)

lemma plain_not_enc: "d \<in> plain_files g path \<Longrightarrow> e \<noteq> [] \<Longrightarrow> d \<noteq> enc_of e"
  using enc_suffix [of e] by (auto simp: plain_files_def)

lemma below_inj [simp]: "below path d = below path e \<longleftrightarrow> d = e"
  by (simp add: below_def)

lemma below_neq [simp]: "path \<noteq> below path d" "below path d \<noteq> path" "d \<noteq> enc_of d" "enc_of d \<noteq> d"
  by (simp_all add: below_def enc_of_def ENC_SUFFIX_def)

lemma parent_below: "path \<noteq> [] \<Longrightarrow> CHR ''/'' \<notin> set d \<Longrightarrow> parent_dir (below path d) = path"
  unfolding below_def by (rule parent_of_child)

text \<open>A plain file in a packed view: encrypted or as it was.\<close>

lemma packed_cases:
  assumes "packed E key path X g h" "d \<in> plain_files g path"
  shows "d \<in> X \<Longrightarrow> h (below path d) = None"
    "d \<notin> X \<Longrightarrow> h (below path d) = g (below path d)" "d \<notin> X \<Longrightarrow> h (below path (enc_of d)) = g (below path (enc_of d))"
proof -
  have no: "d \<noteq> enc_of x" "enc_of d \<noteq> x" if "x \<in> X" for x
  proof -
    have "x \<in> plain_files g path" using assms(1) that by (auto simp: packed_def)
    then show "d \<noteq> enc_of x" "enc_of d \<noteq> x"
      using plain_not_enc [OF assms(2)] plain_not_enc [of x g path d] assms(2) by (auto simp: plain_files_def)
  qed
  show "d \<in> X \<Longrightarrow> h (below path d) = None" using assms(1) by (simp add: packed_def sealed_file_def)
  have frame: "h p = g p" if "\<And>x. x \<in> X \<Longrightarrow> p \<noteq> below path x \<and> p \<noteq> below path (enc_of x)" for p
    using assms(1) that by (auto simp: packed_def)
  show "d \<notin> X \<Longrightarrow> h (below path d) = g (below path d)" by (rule frame) (use no in auto)
  show "d \<notin> X \<Longrightarrow> h (below path (enc_of d)) = g (below path (enc_of d))" by (rule frame) (use no in auto)
qed


section \<open>One file\<close>

text \<open>Everything of the state but the file system and the call counter.\<close>

definition rest :: "world \<Rightarrow> world" where
  "rest w = w\<lparr>o_fs := [], o_tick := 0\<rparr>"

lemma os_rest [simp]: "os_indep (\<lambda>w. rest w = x)"
  by (simp add: os_indep_def rest_def)

lemma rest_simps [simp]: "rest (w\<lparr>o_fs := f\<rparr>) = rest w" "rest (w\<lparr>o_tick := t\<rparr>) = rest w"
  by (simp_all add: rest_def)

lemma dec_digits_no_c: "CHR ''c'' \<notin> set (dec_digits n)"
  using dec_digits_set [of "CHR ''c''" n] by auto

lemma temp_not_enc: "temp_of E d \<noteq> enc_of e"
proof
  assume eq: "temp_of E d = enc_of e"
  obtain x xs where x: "dec_digits (e_pid E) = xs @ [x]" by (cases "dec_digits (e_pid E)" rule: rev_cases) (simp_all add: dec_digits.simps [of "e_pid E"] split: if_splits)
  have "last (temp_of E d) = x" "last (enc_of e) = CHR ''c''" by (simp_all add: temp_of_def x enc_of_def ENC_SUFFIX_def)
  with eq x dec_digits_no_c [of "e_pid E"] show False by simp
qed

lemma temp_path: "file_fits E g path d \<Longrightarrow> decrypt_tmp E (below path d) = below path (temp_of E d)"
  unfolding decrypt_tmp_def file_fits_def below_def temp_of_def cbuf_def PATH_MAX_def by auto

lemma temp_slash: "CHR ''/'' \<notin> set d \<Longrightarrow> CHR ''/'' \<notin> set (temp_of E d)"
  using dec_digits_set [of "CHR ''/''" "e_pid E"] by (auto simp: temp_of_def)

text \<open>Where the paths of a tidy directory are, in a packed view.\<close>

lemma packed_dir:
  assumes "tidy_dir E g path" "packed E key path X g h" "p = path \<or> p = parent_dir path"
  shows "\<exists>b. h p = Some (S_IFDIR, b)"
proof -
  obtain b where b: "g p = Some (S_IFDIR, b)" using assms(1,3) by (auto simp: tidy_dir_def)
  have "p \<noteq> below path d \<and> p \<noteq> below path (enc_of d)" if "d \<in> X" for d
  proof -
    have d: "d \<in> plain_files g path" using assms(2) that by (auto simp: packed_def)
    then have "g (below path (enc_of d)) = None" using assms(1) enc_suffix [of d] by (auto simp: tidy_dir_def plain_files_def)
    with d b show ?thesis by (auto simp: plain_files_def)
  qed
  with assms(2) b show ?thesis by (auto simp: packed_def)
qed


lemma unlink_root: "file_at f p \<Longrightarrow> e_euid E = 0 \<Longrightarrow> fs_unlink E p f = (Inr (), fs_del p f)"
  by (auto simp: file_at_def fs_unlink_def dir_at_search split: option.splits)

lemma wp_unlink_root:
  assumes "reliable E" "e_euid E = 0" "file_at (o_fs w) p"
  shows "wp (sys_unlink E p) (\<lambda>_ w'. \<exists>t. w' = w\<lparr>o_tick := t, o_fs := fs_del p (o_fs w)\<rparr>) w"
  using assms(1) unlink_root [OF assms(3,2)] by (auto simp: wp_simps)

lemma packed_insert:
  assumes "tidy_dir E g path" "packed E key path X g h" "d \<in> plain_files g path" "d \<notin> X" "length iv = GCM_IV_LEN"
  shows "packed E key path (insert d X) g ((h(below path (enc_of d) \<mapsto>
     (S_IFREG, encrypted E key iv (snd (the (g (below path d)))))))(below path d := None))"
proof -
  have apart: "x \<noteq> enc_of y" if "x \<in> insert d X" "y \<in> insert d X" for x y
    using that assms(2,3) plain_not_enc [of x g path y] by (auto simp: packed_def plain_files_def)
  have X: "sealed_file E key path g h x" if "x \<in> X" for x using assms(2) that by (simp add: packed_def)
  show ?thesis
    using assms apart X apart [symmetric] by (auto simp: packed_def sealed_file_def)
qed

lemma packed_remove:
  assumes "tidy_dir E g path" "packed E key path X g h" "d \<in> X"
  shows "packed E key path (X - {d}) g ((h(below path d \<mapsto> (S_IFREG, snd (the (g (below path d))))))(below path (enc_of d) := None))"
proof -
  have d: "d \<in> plain_files g path" "sealed_file E key path g h d" using assms(2,3) by (auto simp: packed_def)
  then have g: "g (below path d) = Some (S_IFREG, snd (the (g (below path d))))" "g (below path (enc_of d)) = None"
    using assms(1) enc_suffix [of d] by (auto simp: tidy_dir_def plain_files_def)
  have apart: "x \<noteq> enc_of y" if "x \<in> X" "y \<in> X" for x y
    using that assms(2) plain_not_enc [of x g path y] by (auto simp: packed_def plain_files_def)
  have X: "sealed_file E key path g h x" if "x \<in> X" for x using assms(2) that by (simp add: packed_def)
  show ?thesis
    using assms(2,3) apart X apart [symmetric] g by (auto simp: packed_def sealed_file_def)
qed


text \<open>Where \<open>stat\<close> and the open calls look.\<close>

lemma look_stat:
  assumes "reliable E" "e_euid E = 0" "tidy_dir E g path" "packed E key path X g (look (o_fs w))" "CHR ''/'' \<notin> set d"
    and "\<And>b. look (o_fs w) (below path d) \<noteq> Some (S_IFLNK, b)"
  shows "wp (sys_stat E (below path d)) (\<lambda>r w'. not_regular r = (\<forall>b. look (o_fs w) (below path d) \<noteq> Some (S_IFREG, b))
     \<and> (\<exists>t. w' = w\<lparr>o_tick := t\<rparr>)) w"
proof -
  have "path \<noteq> []" using assms(3) by (simp add: tidy_dir_def)
  from parent_below [OF this assms(5)] packed_dir [OF assms(3,4)]
  have dir: "dir_at (o_fs w) (parent_dir (below path d))" by (simp add: look_dir)
  have nl: "not_link (o_fs w) (below path d)" using assms(6) by (auto simp: not_link_def look_def split: option.splits)
  show ?thesis
    by (rule wp_mono [OF wp_stat_root [OF assms(1,2) nl dir]]) (auto simp: not_regular_def look_def split: option.splits)
qed

lemma short_path: "tidy_dir E g path \<Longrightarrow> CHR ''/'' \<notin> set d \<Longrightarrow> g (below path d) \<noteq> None \<Longrightarrow>
   cbuf ENC_IN_BUF (path @ ''/'' @ d) = below path d \<and> cbuf ENC_OUT_BUF (path @ ''/'' @ d @ ENC_SUFFIX) = below path (enc_of d)
   \<and> cbuf ENC_IN_BUF (path @ ''/'' @ enc_of d) = below path (enc_of d)"
  by (auto simp: tidy_dir_def below_def enc_of_def ENC_SUFFIX_def cbuf_def)

text \<open>A name of a packed view that is not the name of an encrypted file.\<close>

lemma packed_name:
  assumes "packed E key path X g h" "d \<noteq> []" "\<not> ends_with d ENC_SUFFIX"
  shows "h (below path d) = (if d \<in> X then None else g (below path d))"
proof (cases "d \<in> X")
  case True
  then show ?thesis using assms(1) by (simp add: packed_def sealed_file_def)
next
  case False
  have "d \<noteq> x \<and> d \<noteq> enc_of x" if "x \<in> X" for x
    using that assms False enc_suffix [of x] by (auto simp: packed_def plain_files_def)
  then show ?thesis using assms(1) False by (auto simp: packed_def)
qed

text \<open>The paths of a file to be encrypted, in a state that shows the packed view.\<close>

lemma encrypt_paths:
  assumes dir: "tidy_dir E g path" "packed E key path X g (look f)" and d: "d \<in> plain_files g path" "d \<notin> X"
  shows "file_at f (below path d)" "fresh_at f (below path (enc_of d))"
    "fs_content f (below path d) = snd (the (g (below path d)))" "file_at (fs_put (below path (enc_of d)) n f) (below path d)"
proof -
  obtain b where name: "CHR ''/'' \<notin> set d" "d \<noteq> []" and g: "g (below path d) = Some (S_IFREG, b)"
    using d(1) by (auto simp: plain_files_def)
  have h: "look f (below path d) = Some (S_IFREG, b)" using packed_cases(2) [OF dir(2) d] g by simp
  have free: "look f (below path (enc_of d)) = None"
    using packed_cases(3) [OF dir(2) d] dir(1) name(1) enc_suffix [OF name(2)] by (auto simp: tidy_dir_def)
  have par: "parent_dir (below path d) = path" "parent_dir (below path (enc_of d)) = path"
    using dir(1) name(1) by (auto simp: tidy_dir_def intro!: parent_below)
  obtain c where c: "look f path = Some (S_IFDIR, c)" using packed_dir [OF dir] by blast
  show "file_at f (below path d)" "fresh_at f (below path (enc_of d))"
    using h c free by (simp_all add: look_file look_fresh look_dir par)
  show "fs_content f (below path d) = snd (the (g (below path d)))" using look_content [OF h] g by simp
  show "file_at (fs_put (below path (enc_of d)) n f) (below path d)"
    using h c by (auto simp: look_file look_dir par)
qed

lemma wp_encrypt_plain:
  assumes env: "reliable E" "e_euid E = 0" "\<forall>t n. e_rand E t n \<noteq> None"
    and dir: "tidy_dir E g path" "packed E key path X g (look (o_fs w))" and d: "d \<in> plain_files g path" "d \<notin> X"
  shows "wp (do { r \<leftarrow> encrypt_file E (below path d) (below path (enc_of d)) key;
      if r = ERR_OK then do { _ \<leftarrow> sys_unlink E (below path d); return () } else return () })
        (\<lambda>_ w'. packed E key path (insert d X) g (look (o_fs w'))) w"
  unfolding wp_bind
  by (rule wp_mono [OF wp_encrypt_file_root [OF env encrypt_paths(1,2) [OF dir d]]])
     (auto simp: wp_bind wp_return encrypt_paths(3) [OF dir d] packed_insert [OF dir d]
        intro!: wp_mono [OF wp_unlink_root [OF env(1,2)]] encrypt_paths(4) [OF dir d])

lemma wp_encrypt_entry:
  assumes env: "reliable E" "e_euid E = 0" "\<forall>t n. e_rand E t n \<noteq> None"
    and dir: "tidy_dir E g path" "packed E key path X g (look (o_fs w))"
    and name: "CHR ''/'' \<notin> set d" "d \<noteq> []" "\<not> hidden d \<Longrightarrow> g (below path d) \<noteq> None"
  shows "wp (encrypt_entry E path key d) (\<lambda>_ w'. packed E key path (X \<union> ({d} \<inter> plain_files g path)) g (look (o_fs w'))) w"
proof (cases "hidden d \<or> ends_with d ENC_SUFFIX")
  case True
  then have "{d} \<inter> plain_files g path = {}" by (auto simp: plain_files_def)
  with True dir(2) show ?thesis by (auto simp: encrypt_entry_def wp_simps)
next
  case False
  then have eligible: "\<not> hidden d" "\<not> ends_with d ENC_SUFFIX" by simp_all
  note paths = short_path [OF dir(1) name(1) name(3) [OF eligible(1)]]
  note h = packed_name [OF dir(2) name(2) eligible(2)]
  have plain: "d \<in> plain_files g path \<longleftrightarrow> (\<exists>b. g (below path d) = Some (S_IFREG, b))"
    using name eligible by (simp add: plain_files_def)
  have nolink: "look (o_fs w) (below path d) \<noteq> Some (S_IFLNK, b)" for b
    using h dir(1) name(1) by (auto simp: tidy_dir_def)
  have skip: "X \<union> ({d} \<inter> plain_files g path) = X" if "\<forall>b. look (o_fs w) (below path d) \<noteq> Some (S_IFREG, b)"
    using that h plain by (cases "d \<in> X") auto
  have go: "d \<in> plain_files g path \<and> d \<notin> X \<and> X \<union> ({d} \<inter> plain_files g path) = insert d X"
    if "look (o_fs w) (below path d) = Some (S_IFREG, b)" for b
    using that h plain by (cases "d \<in> X") auto
  show ?thesis
    unfolding encrypt_entry_def Let_def wp_bind if_not_P [OF eligible(1)] if_not_P [OF eligible(2)]
      paths [THEN conjunct1] paths [THEN conjunct2, THEN conjunct1]
    by (rule wp_mono [OF look_stat [OF env(1,2) dir name(1) nolink]])
       (use skip go dir(2) in \<open>auto simp: wp_if wp_return wp_bind [symmetric] intro!: wp_encrypt_plain [OF env dir(1)]\<close>)
qed


text \<open>The paths of a file to be decrypted.\<close>

lemma decrypt_paths:
  assumes dir: "tidy_dir E g path" "packed E key path X g (look f)" and d: "d \<in> X"
  shows "file_at f (below path (enc_of d))" "fresh_at f (below path d)" "fresh_at f (decrypt_tmp E (below path d))"
    "below path d \<noteq> decrypt_tmp E (below path d)" "look f (decrypt_tmp E (below path d)) = None"
    "\<exists>iv. length iv = GCM_IV_LEN \<and> fs_content f (below path (enc_of d)) = encrypted E key iv (snd (the (g (below path d))))"
    "length (snd (the (g (below path d)))) + 28 \<le> MAX_DECRYPT_SIZE" "decrypt_tmp E (below path d) \<noteq> below path (enc_of d)"
proof -
  have plain: "d \<in> plain_files g path" and sealed: "sealed_file E key path g (look f) d"
    using dir(2) d by (auto simp: packed_def)
  then have name: "CHR ''/'' \<notin> set d" "d \<noteq> []" and fit: "file_fits E g path d"
    using dir(1) by (auto simp: plain_files_def tidy_dir_def)
  note tmp = temp_path [OF fit]
  have par: "parent_dir (below path e) = path" if "CHR ''/'' \<notin> set e" for e
    using dir(1) that by (auto simp: tidy_dir_def intro!: parent_below)
  obtain c where c: "look f path = Some (S_IFDIR, c)" using packed_dir [OF dir] by blast
  obtain iv where iv: "length iv = GCM_IV_LEN" "look f (below path (enc_of d)) = Some (S_IFREG, encrypted E key iv (snd (the (g (below path d)))))"
    and gone: "look f (below path d) = None" using sealed by (auto simp: sealed_file_def)
  have no_temp: "temp_of E d \<noteq> x \<and> temp_of E d \<noteq> enc_of x" if "x \<in> X" for x
    using that dir(2) fit temp_not_enc [of E d x] by (auto simp: packed_def plain_files_def file_fits_def)
  then have "look f (below path (temp_of E d)) = g (below path (temp_of E d))"
    using dir(2) by (auto simp: packed_def)
  then show free: "look f (decrypt_tmp E (below path d)) = None" using fit by (simp add: tmp file_fits_def)
  show "file_at f (below path (enc_of d))" "fresh_at f (below path d)"
    using iv c gone name by (simp_all add: look_file look_fresh look_dir par)
  show "fresh_at f (decrypt_tmp E (below path d))"
    using c free temp_slash [OF name(1), of E] by (simp add: tmp look_fresh look_dir par)
  show "below path d \<noteq> decrypt_tmp E (below path d)" by (simp add: tmp temp_of_def)
  show "decrypt_tmp E (below path d) \<noteq> below path (enc_of d)" using temp_not_enc [of E d d] by (simp add: tmp)
  show "length (snd (the (g (below path d)))) + 28 \<le> MAX_DECRYPT_SIZE" using fit by (simp add: file_fits_def)
  show "\<exists>iv. length iv = GCM_IV_LEN \<and> fs_content f (below path (enc_of d)) = encrypted E key iv (snd (the (g (below path d))))"
    using iv look_content [OF iv(2)] by blast
qed

lemma wp_decrypt_sealed:
  assumes env: "reliable E" "gcm_inverse E" "e_euid E = 0"
    and dir: "tidy_dir E g path" "packed E key path X g (look (o_fs w))" and d: "d \<in> X"
  shows "wp (do { r \<leftarrow> decrypt_file E (below path (enc_of d)) (below path d) key;
      if r = ERR_OK then do { _ \<leftarrow> sys_unlink E (below path (enc_of d)); return () } else return () })
        (\<lambda>_ w'. packed E key path (X - {d}) g (look (o_fs w'))) w"
proof -
  note p = decrypt_paths [OF dir d]
  let ?b = "below path (enc_of d)" and ?c = "below path d" and ?tmp = "decrypt_tmp E (below path d)"
  obtain iv where iv: "length iv = GCM_IV_LEN" "fs_content (o_fs w) ?b = encrypted E key iv (snd (the (g ?c)))" using p(6) by blast
  have view: "(look (o_fs w))(?tmp := None) = look (o_fs w)"
    using p(5) by (auto simp: fun_eq_iff)
  have still: "file_at (fs_put ?c n (fs_del ?tmp (fs_put ?tmp n (o_fs w)))) ?b" for n
  proof -
    have "dir_at (o_fs w) (parent_dir ?b)" "?tmp \<noteq> parent_dir ?b" "?c \<noteq> parent_dir ?b"
      using p(1,2,5) by (auto simp: file_at_def fresh_at_def look_def dir_at_def)
    then show ?thesis using p(1,8) by (auto simp: look_file look_dir)
  qed
  show ?thesis
    unfolding wp_bind
    by (rule wp_mono [OF wp_decrypt_file_root [OF env p(1-4) iv p(7)]])
       (auto simp: wp_bind wp_return view packed_remove [OF dir d] intro!: wp_mono [OF wp_unlink_root [OF env(1,3)]] still)
qed


lemma ends_with_enc: "ends_with e ENC_SUFFIX \<Longrightarrow> \<exists>d. e = enc_of d \<and> d \<noteq> []"
proof (rule exI [of _ "take (length e - 4) e"])
  assume "ends_with e ENC_SUFFIX"
  moreover have "length ENC_SUFFIX = 4" by (simp add: ENC_SUFFIX_def)
  ultimately have "drop (length e - 4) e = ENC_SUFFIX" and len: "4 < length e" unfolding ends_with_def by simp_all
  then have "enc_of (take (length e - 4) e) = e"
    using append_take_drop_id [of "length e - 4" e] by (simp add: enc_of_def)
  then show "e = enc_of (take (length e - 4) e) \<and> take (length e - 4) e \<noteq> []" using len by auto
qed

lemma wp_decrypt_entry:
  assumes env: "reliable E" "gcm_inverse E" "e_euid E = 0"
    and dir: "tidy_dir E g path" "packed E key path X g (look (o_fs w))"
    and name: "CHR ''/'' \<notin> set e" "\<And>d. e = enc_of d \<Longrightarrow> d \<noteq> [] \<Longrightarrow> d \<in> plain_files g path"
  shows "wp (decrypt_entry E path key e) (\<lambda>_ w'. packed E key path (X - {d. enc_of d = e}) g (look (o_fs w'))) w"
proof (cases "ends_with e ENC_SUFFIX")
  case False
  then have "X - {d. enc_of d = e} = X" using dir(2) enc_suffix by (auto simp: packed_def plain_files_def)
  with False dir(2) show ?thesis by (simp add: decrypt_entry_def wp_simps)
next
  case True
  then obtain d where e: "e = enc_of d" "d \<noteq> []" using ends_with_enc by blast
  then have d: "d \<in> plain_files g path" using name(2) by simp
  then have slash: "CHR ''/'' \<notin> set d" "g (below path d) \<noteq> None" by (auto simp: plain_files_def)
  note paths = short_path [OF dir(1) slash]
  have out: "cbuf ENC_IN_BUF (path @ ''/'' @ take (length e - 4) e) = below path d"
    using paths by (simp add: e enc_of_def ENC_SUFFIX_def)
  have set: "X - {d. enc_of d = e} = X - {d}" by (auto simp: e)
  have enc: "look (o_fs w) (below path (enc_of d)) = (if d \<in> X then look (o_fs w) (below path (enc_of d)) else None)"
    using packed_cases(3) [OF dir(2) d] dir(1) slash(1) enc_suffix [OF e(2)] by (auto simp: tidy_dir_def)
  have reg: "\<exists>b. look (o_fs w) (below path (enc_of d)) = Some (S_IFREG, b)" if "d \<in> X"
    using dir(2) that by (auto simp: packed_def sealed_file_def)
  have nolink: "look (o_fs w) (below path (enc_of d)) \<noteq> Some (S_IFLNK, b)" for b
    using enc reg by (cases "d \<in> X") auto
  have gone: "d \<notin> X \<Longrightarrow> X - {d} = X" by simp
  show ?thesis
    unfolding set decrypt_entry_def Let_def wp_bind if_not_P [OF not_not [THEN iffD2, OF True]] out
    unfolding e(1) paths [THEN conjunct2, THEN conjunct2]
    by (rule wp_mono [OF look_stat [OF env(1,3) dir _ nolink]])
       (use slash enc reg gone dir(2) in \<open>cases "d \<in> X"; auto simp: wp_if wp_return wp_bind [symmetric] intro!: wp_decrypt_sealed [OF env dir(1)]\<close>)+
qed

section \<open>All files\<close>

lemma wp_encrypt_all:
  assumes env: "reliable E" "e_euid E = 0" "\<forall>t n. e_rand E t n \<noteq> None" and dir: "tidy_dir E g path"
  shows "packed E key path X g (look (o_fs w)) \<Longrightarrow> \<forall>d \<in> set ds. CHR ''/'' \<notin> set d \<and> d \<noteq> [] \<and> (\<not> hidden d \<longrightarrow> g (below path d) \<noteq> None) \<Longrightarrow>
    wp (for_each ds (encrypt_entry E path key)) (\<lambda>_ w'. packed E key path (X \<union> (set ds \<inter> plain_files g path)) g (look (o_fs w'))) w"
proof (induction ds arbitrary: X w)
  case (Cons d ds)
  have set: "X \<union> ({d} \<inter> plain_files g path) \<union> (set ds \<inter> plain_files g path) = X \<union> (set (d # ds) \<inter> plain_files g path)" by auto
  have d: "CHR ''/'' \<notin> set d" "d \<noteq> []" "\<not> hidden d \<Longrightarrow> g (below path d) \<noteq> None" using Cons.prems(2) by simp_all
  have tail: "wp (for_each ds (encrypt_entry E path key)) (\<lambda>_ w'. packed E key path (X \<union> (set (d # ds) \<inter> plain_files g path)) g (look (o_fs w'))) t"
    if "packed E key path (X \<union> ({d} \<inter> plain_files g path)) g (look (o_fs t))" for t
    using Cons.IH [OF that] Cons.prems(2) unfolding set by simp
  show ?case
    unfolding for_each.simps wp_bind by (rule wp_mono [OF wp_encrypt_entry [OF env dir Cons.prems(1) d]], assumption, rule tail)
qed (simp add: wp_return)

lemma wp_decrypt_all:
  assumes env: "reliable E" "gcm_inverse E" "e_euid E = 0" and dir: "tidy_dir E g path"
  shows "packed E key path X g (look (o_fs w)) \<Longrightarrow>
    \<forall>e \<in> set es. CHR ''/'' \<notin> set e \<and> (\<forall>d. e = enc_of d \<longrightarrow> d \<noteq> [] \<longrightarrow> d \<in> plain_files g path) \<Longrightarrow>
    wp (for_each es (decrypt_entry E path key)) (\<lambda>_ w'. packed E key path (X - {d. enc_of d \<in> set es}) g (look (o_fs w'))) w"
proof (induction es arbitrary: X w)
  case (Cons e es)
  have set: "X - {d. enc_of d = e} - {d. enc_of d \<in> set es} = X - {d. enc_of d \<in> set (e # es)}" by auto
  have e: "CHR ''/'' \<notin> set e" "\<And>d. e = enc_of d \<Longrightarrow> d \<noteq> [] \<Longrightarrow> d \<in> plain_files g path" using Cons.prems(2) by simp_all
  have tail: "wp (for_each es (decrypt_entry E path key)) (\<lambda>_ w'. packed E key path (X - {d. enc_of d \<in> set (e # es)}) g (look (o_fs w'))) t"
    if "packed E key path (X - {d. enc_of d = e}) g (look (o_fs t))" for t
    using Cons.IH [OF that] Cons.prems(2) unfolding set by simp
  show ?case
    unfolding for_each.simps wp_bind by (rule wp_mono [OF wp_decrypt_entry [OF env dir Cons.prems(1) e]], assumption+, rule tail)
qed (simp add: wp_return)


lemma child_listed:
  "d \<in> set (child_names f path) \<longleftrightarrow> d \<noteq> [] \<and> CHR ''/'' \<notin> set d \<and> look f (below path d) \<noteq> None"
proof -
  have "is_child path p \<and> d = drop (length path + 1) p \<longleftrightarrow> p = below path d \<and> d \<noteq> [] \<and> CHR ''/'' \<notin> set d" for p
    by (auto simp: is_child_def below_def prefix_def)
  then show ?thesis
    unfolding look_None fs_get_in [of f "below path d"] in_child_names by metis
qed

lemma listed:
  assumes "d \<in> set (listing f path)"
  shows "CHR ''/'' \<notin> set d" "d \<noteq> []" "\<not> hidden d \<Longrightarrow> look f (below path d) \<noteq> None" "\<And>x. d = enc_of x \<Longrightarrow> x \<noteq> [] \<Longrightarrow> look f (below path d) \<noteq> None"
  using assms by (auto simp: listing_def child_listed hidden_def enc_of_def ENC_SUFFIX_def append_eq_Cons_conv)

lemma plain_listed: "look f = g \<Longrightarrow> plain_files g path \<subseteq> set (listing f path)"
  by (auto simp: listing_def child_listed plain_files_def)

definition set_mode :: "nat \<Rightarrow> bool \<Rightarrow> world \<Rightarrow> world" where
  "set_mode i b = upd_vaults (\<lambda>vs. vs[i := (vs ! i)\<lparr>v_write_mode := b\<rparr>])"

lemma rest_upd: "rest (upd_vaults f w) = upd_vaults f (rest w)"
  by (simp add: rest_def upd_vaults_def)

lemma pres_rest_chmod: "preserves (\<lambda>w. rest w = x) (chmod_file E path m d)"
  unfolding chmod_file_def by (intro pres pres_os os_rest)

text \<open>Vault \<open>i\<close>, in use, with its directory at \<open>path\<close>.\<close>

definition dir_view :: "view \<Rightarrow> string \<Rightarrow> bool" where
  "dir_view h path \<longleftrightarrow> path \<noteq> [] \<and> (\<exists>b. h path = Some (S_IFDIR, b)) \<and> (\<exists>b. h (parent_dir path) = Some (S_IFDIR, b))"

definition vault_at :: "nat \<Rightarrow> string \<Rightarrow> world \<Rightarrow> bool" where
  "vault_at i path w \<longleftrightarrow> i < length (vaults w) \<and> v_path (vaults w ! i) = path \<and> v_status (vaults w ! i) \<noteq> VAULT_STATUS_DELETED"

lemma dir_view_at: "dir_view (look f) path \<Longrightarrow> dir_at f path \<and> dir_at f (parent_dir path) \<and> not_link f path"
  by (auto simp: dir_view_def look_dir [symmetric]) (auto simp: dir_at_def not_link_def split: option.splits)

lemma vault_at_mode [simp]: "vault_at i path (set_mode j b w) = vault_at i path w"
  by (cases "i = j") (auto simp: vault_at_def set_mode_def nth_list_update)

lemma vault_at_rest: "rest w' = rest w \<Longrightarrow> vault_at i path w' = vault_at i path w"
proof -
  assume "rest w' = rest w"
  then have "g_catalog (rest w') = g_catalog (rest w)" by simp
  then show ?thesis by (simp add: rest_def vault_at_def)
qed

lemma wp_set_mode:
  assumes "reliable E" "e_euid E = 0" "vault_at i path w" "dir_view (look (o_fs w)) path"
  shows "wp (vault_set_write_mode E i b) (\<lambda>_ w'. look (o_fs w') = look (o_fs w) \<and> rest w' = rest (set_mode i b w)) w"
proof -
  have v: "v_path (vaults w ! i) = path" "v_status (vaults w ! i) \<noteq> VAULT_STATUS_DELETED" using assms(3) by (simp_all add: vault_at_def)
  note dir = dir_view_at [OF assms(4)]
  have ne: "path \<noteq> []" using assms(4) by (simp add: dir_view_def)
  have names: "d \<in> set (listing (o_fs w) path) \<Longrightarrow> \<not> hidden d \<Longrightarrow> CHR ''/'' \<notin> set d" for d by (rule listed(1))
  have loop: "wp (for_each (listing (o_fs w) path) (chmod_file E path m)) (\<lambda>_ w'. look (o_fs w') = look (o_fs w) \<and> rest w' = rest w) w1"
    if "o_fs w1 = o_fs w" "rest w1 = rest w" for w1 m
    by (rule wp_mono [OF wp_conj [OF wp_chmod_loop [OF assms(1,2) ne names] preservesD [OF pres_for_each [OF pres_rest_chmod] that(2)]]])
       (use that dir in \<open>auto intro: look_with_mode\<close>)
  show ?thesis
    unfolding vault_set_write_mode_def wp_bind wp_get_vault v if_not_P [OF v(2)]
    by (rule wp_mono [OF wp_opendir_root [OF assms(1,2)]])
       (use dir in \<open>auto simp: wp_bind wp_mod_vault set_mode_def rest_upd intro!: wp_mono [OF loop]\<close>)
qed


section \<open>The calls\<close>

text \<open>What both calls do once the key is derived, with \<open>oper\<close> on every name.\<close>

definition over_dir :: "env \<Rightarrow> nat \<Rightarrow> string \<Rightarrow> (string \<Rightarrow> unit vio) \<Rightarrow> int vio" where
  "over_dir E i path oper = do {
     vault_set_write_mode E i True;
     dir \<leftarrow> sys_opendir E path;
     (case dir of
        Inl _ \<Rightarrow> unlock_return (err_code ERR_IO)
      | Inr names \<Rightarrow> do {
          for_each names oper;
          vault_set_write_mode E i False;
          unlock_return (err_code ERR_OK) }) }"

definition released :: "world \<Rightarrow> world" where
  "released w = w\<lparr>g_mutex := MUTEX_FREE\<rparr>"

lemma set_mode_twice [simp]: "set_mode i b (set_mode i c w) = set_mode i b w"
  by (cases "i < length (vaults w)") (simp_all add: set_mode_def upd_vaults_def list_update_beyond)

lemma rest_set_mode: "rest (set_mode i b w) = set_mode i b (rest w)"
  by (simp add: set_mode_def rest_upd)

lemma rest_released: "rest (released w) = released (rest w)"
  by (simp add: rest_def released_def)

lemma rest_mutex: "rest w' = rest w \<Longrightarrow> g_mutex w' = g_mutex w"
proof -
  assume "rest w' = rest w"
  then have "g_mutex (rest w') = g_mutex (rest w)" by simp
  then show ?thesis by (simp add: rest_def)
qed

lemma mutex_set_mode [simp]: "g_mutex (set_mode i b w) = g_mutex w"
  by (simp add: set_mode_def upd_vaults_def)

lemma released_fs [simp]: "o_fs (released w) = o_fs w"
  by (simp add: released_def)

lemma released_set_mode: "released (set_mode i b w) = set_mode i b (released w)"
  by (simp add: released_def set_mode_def upd_vaults_def)

lemma wp_unlock: "g_mutex w = MUTEX_HELD \<Longrightarrow> Q r (released w) \<Longrightarrow> wp (unlock_return r) Q w"
  by (simp add: unlock_return_def mutex_unlock_def wp_bind wp_modify wp_return released_def)

lemma wp_over_dir:
  assumes env: "reliable E" "e_euid E = 0" and at: "vault_at i path w" "dir_view (look (o_fs w)) path" "g_mutex w = MUTEX_HELD"
    and loop: "\<And>w1. look (o_fs w1) = look (o_fs w) \<Longrightarrow> wp (for_each (listing (o_fs w1) path) oper) (\<lambda>_ w'. R (look (o_fs w'))) w1"
    and pres: "\<And>d x. preserves (\<lambda>w. rest w = x) (oper d)" and R: "\<And>h. R h \<Longrightarrow> dir_view h path"
  shows "wp (over_dir E i path oper) (\<lambda>r w'. r = err_code ERR_OK \<and> R (look (o_fs w')) \<and> rest w' = rest (released (set_mode i False w))) w"
proof -
  have finish: "wp (vault_set_write_mode E i False) (\<lambda>_. wp (unlock_return (err_code ERR_OK))
      (\<lambda>r w'. r = err_code ERR_OK \<and> R (look (o_fs w')) \<and> rest w' = rest (released (set_mode i False w)))) w2"
    if "R (look (o_fs w2))" "rest w2 = rest (set_mode i True w)" for w2
  proof -
    have "vault_at i path w2" using at(1) vault_at_rest [OF that(2)] by simp
    moreover have "g_mutex w' = MUTEX_HELD \<and> rest (released w') = rest (released (set_mode i False w))"
      if "rest w' = rest (set_mode i False w2)" for w'
      using rest_mutex [OF that] rest_mutex [OF \<open>rest w2 = rest (set_mode i True w)\<close>] at(3) that \<open>rest w2 = _\<close>
      by (simp add: rest_released rest_set_mode released_set_mode)
    ultimately show ?thesis
      by (intro wp_mono [OF wp_set_mode [OF env _ R [OF that(1)]]]) (auto simp: that(1) intro!: wp_unlock)
  qed
  have body: "wp (for_each (listing (o_fs w1) path) oper) (\<lambda>_. wp (vault_set_write_mode E i False) (\<lambda>_. wp (unlock_return (err_code ERR_OK))
      (\<lambda>r w'. r = err_code ERR_OK \<and> R (look (o_fs w')) \<and> rest w' = rest (released (set_mode i False w))))) w2"
    if "look (o_fs w1) = look (o_fs w)" "rest w2 = rest (set_mode i True w)" "o_fs w2 = o_fs w1" for w1 w2
    by (rule wp_mono [OF wp_conj [OF loop [of w2, unfolded that(3), OF that(1)] preservesD [OF pres_for_each [OF pres] that(2)]]])
       (simp add: finish)
  show ?thesis
    unfolding over_dir_def wp_bind
    by (rule wp_mono [OF wp_set_mode [OF env at(1,2)]], rule wp_mono [OF wp_opendir_root [OF env]])
       (use at(2) dir_view_at in \<open>auto simp: wp_bind body\<close>)
qed


lemma pres_rest_entries: "preserves (\<lambda>w. rest w = x) (encrypt_entry E path key d)" "preserves (\<lambda>w. rest w = x) (decrypt_entry E path key d)"
  unfolding encrypt_entry_def decrypt_entry_def Let_def by (intro pres pres_os os_rest)+

lemma packed_view: "tidy_dir E g path \<Longrightarrow> packed E key path X g h \<Longrightarrow> dir_view h path"
  using packed_dir [of E g path key X h] by (auto simp: dir_view_def tidy_dir_def)

lemma wp_pack:
  assumes env: "reliable E" "e_euid E = 0" "\<forall>t n. e_rand E t n \<noteq> None" and dir: "tidy_dir E (look (o_fs w)) path"
    and at: "vault_at i path w" "g_mutex w = MUTEX_HELD"
  shows "wp (over_dir E i path (encrypt_entry E path key)) (\<lambda>r w'. r = err_code ERR_OK
     \<and> packed E key path (plain_files (look (o_fs w)) path) (look (o_fs w)) (look (o_fs w')) \<and> rest w' = rest (released (set_mode i False w))) w"
proof (rule wp_over_dir [OF env(1,2) at(1) _ at(2)])
  let ?g = "look (o_fs w)"
  have none: "packed E key path {} ?g ?g" by (simp add: packed_empty)
  show "dir_view ?g path" by (rule packed_view [OF dir none])
  fix w1 :: world assume w1: "look (o_fs w1) = ?g"
  have set: "{} \<union> (set (listing (o_fs w1) path) \<inter> plain_files ?g path) = plain_files ?g path"
    using plain_listed [OF w1] by blast
  have names: "\<forall>d \<in> set (listing (o_fs w1) path). CHR ''/'' \<notin> set d \<and> d \<noteq> [] \<and> (\<not> hidden d \<longrightarrow> ?g (below path d) \<noteq> None)"
    using listed(1-3) [of _ "o_fs w1" path] by (auto simp: w1)
  from wp_encrypt_all [OF env dir _ names, of key "{}" w1, unfolded set w1] none
  show "wp (for_each (listing (o_fs w1) path) (encrypt_entry E path key))
     (\<lambda>_ w'. packed E key path (plain_files ?g path) ?g (look (o_fs w'))) w1" by simp
qed (auto intro: pres_rest_entries packed_view [OF dir])

lemma wp_unpack:
  assumes env: "reliable E" "gcm_inverse E" "e_euid E = 0" and dir: "tidy_dir E g path" "packed E key path X g (look (o_fs w))"
    and at: "vault_at i path w" "g_mutex w = MUTEX_HELD"
  shows "wp (over_dir E i path (decrypt_entry E path key)) (\<lambda>r w'. r = err_code ERR_OK
     \<and> look (o_fs w') = g \<and> rest w' = rest (released (set_mode i False w))) w"
proof (rule wp_over_dir [OF env(1,3) at(1) _ at(2)])
  let ?h = "look (o_fs w)"
  show "dir_view ?h path" by (rule packed_view [OF dir])
  show "h = g \<Longrightarrow> dir_view h path" for h using packed_view [OF dir(1), of key "{}" h] by (simp add: packed_empty)
  fix w1 :: world assume w1: "look (o_fs w1) = ?h"
  have sub: "X \<subseteq> plain_files g path" and sealed: "\<forall>d \<in> X. ?h (below path (enc_of d)) \<noteq> None"
    using dir(2) by (auto simp: packed_def sealed_file_def)
  have "X \<subseteq> {d. enc_of d \<in> set (listing (o_fs w1) path)}"
    using sealed sub by (auto simp: listing_def child_listed w1 plain_files_def enc_of_def ENC_SUFFIX_def)
  then have set: "X - {d. enc_of d \<in> set (listing (o_fs w1) path)} = {}" by blast
  have "d \<in> plain_files g path" if "?h (below path (enc_of d)) \<noteq> None" "CHR ''/'' \<notin> set d" "d \<noteq> []" for d
  proof (rule ccontr)
    assume "d \<notin> plain_files g path"
    then have "\<forall>x \<in> X. enc_of d \<noteq> x \<and> enc_of d \<noteq> enc_of x"
      using sub enc_suffix [OF that(3)] by (auto simp: plain_files_def)
    then have "?h (below path (enc_of d)) = g (below path (enc_of d))" using dir(2) by (auto simp: packed_def)
    with that dir(1) enc_suffix [OF that(3)] show False by (auto simp: tidy_dir_def)
  qed
  then have "d \<in> plain_files g path" if "enc_of d \<in> set (listing (o_fs w1) path)" "d \<noteq> []" for d
    using listed(1,4) [OF that(1)] that(2) by (auto simp: w1)
  then have names: "\<forall>e \<in> set (listing (o_fs w1) path). CHR ''/'' \<notin> set e \<and> (\<forall>d. e = enc_of d \<longrightarrow> d \<noteq> [] \<longrightarrow> d \<in> plain_files g path)"
    using listed(1) [of _ "o_fs w1" path] by auto
  from wp_decrypt_all [OF env dir(1) _ names, of key X w1, unfolded set w1] dir(2)
  show "wp (for_each (listing (o_fs w1) path) (decrypt_entry E path key)) (\<lambda>_ w'. look (o_fs w') = g) w1"
    by (simp add: packed_empty)
qed (rule pres_rest_entries)

text \<open>The password is accepted, and gives the key.\<close>

definition accepts :: "env \<Rightarrow> Vault \<Rightarrow> string option \<Rightarrow> string \<Rightarrow> bool" where
  "accepts E v pw key \<longleftrightarrow> given pw \<and> v_has_pass v \<and> v_status v \<noteq> VAULT_STATUS_LOCKED
     \<and> derive_key_for E pw (v_salt v) ''auth-verify'' = Inr (v_pass_hash v)
     \<and> derive_key_for E pw (v_salt v) ''file-encryption'' = Inr key"

definition forgiven :: "nat \<Rightarrow> world \<Rightarrow> world" where
  "forgiven i = upd_vaults (\<lambda>vs. vs[i := (vs ! i)\<lparr>v_failed := 0\<rparr>])"

lemma wp_auth_accepts:
  assumes "accepts E (vaults w ! i) pw key"
  shows "wp (auth_verify_password E i pw) (\<lambda>r w'. r = ERR_OK \<and> w' = forgiven i w) w"
  using assms by (auto simp: accepts_def given_def auth_verify_password_def forgiven_def wp_simps split: option.splits)


text \<open>The state a call starts from: the lock free, the identifier that of vault \<open>i\<close>, which is at \<open>path\<close> and
  accepts the password.\<close>

definition ready :: "env \<Rightarrow> nat \<Rightarrow> string \<Rightarrow> 32 word \<Rightarrow> string option \<Rightarrow> string \<Rightarrow> world \<Rightarrow> bool" where
  "ready E i path vid pw key w \<longleftrightarrow> g_mutex w = MUTEX_FREE \<and> find_index (\<lambda>v. v_id v = vid) (vaults w) = Some i
     \<and> vault_at i path w \<and> accepts E (vaults w ! i) pw key"

definition taken :: "nat \<Rightarrow> world \<Rightarrow> world" where
  "taken i w = forgiven i (w\<lparr>g_mutex := MUTEX_HELD\<rparr>)"

lemma taken_simps [simp]: "o_fs (taken i w) = o_fs w" "g_mutex (taken i w) = MUTEX_HELD"
  "vault_at i path (taken i w) = vault_at i path w"
  by (auto simp: taken_def forgiven_def upd_vaults_def vault_at_def nth_list_update)

lemma rest_taken: "rest (taken i w) = taken i (rest w)"
  by (simp add: rest_def taken_def forgiven_def upd_vaults_def)

lemma encrypt_call:
  assumes "ready E i path vid pw key w"
    and body: "wp (over_dir E i path (encrypt_entry E path key)) Q (taken i w)"
  shows "wp (vault_encrypt_ffi E vid pw) Q w"
proof -
  have r: "g_mutex w = MUTEX_FREE" "find_index (\<lambda>v. v_id v = vid) (vaults w) = Some i" "given pw" "v_has_pass (vaults w ! i)"
    "derive_key_for E pw (v_salt (vaults w ! i)) ''file-encryption'' = Inr key" "v_path (vaults w ! i) = path"
    and ok: "accepts E (vaults (w\<lparr>g_mutex := MUTEX_HELD\<rparr>) ! i) pw key"
    using assms(1) by (simp_all add: ready_def accepts_def vault_at_def)
  show ?thesis
    unfolding vault_encrypt_ffi_def
    by (simp add: r mutex_lock_def vault_find_by_id_def wp_simps)
       (rule wp_mono [OF wp_auth_accepts [OF ok]], use body in \<open>simp add: taken_def over_dir_def r wp_simps\<close>)
qed


lemma decrypt_call:
  assumes "ready E i path vid pw key w" "\<not> worm_blocks_decrypt (vaults w ! i)"
    and body: "wp (over_dir E i path (decrypt_entry E path key)) Q (taken i w)"
  shows "wp (vault_decrypt_ffi E vid pw) Q w"
proof -
  have r: "g_mutex w = MUTEX_FREE" "find_index (\<lambda>v. v_id v = vid) (vaults w) = Some i" "given pw" "v_has_pass (vaults w ! i)"
    "derive_key_for E pw (v_salt (vaults w ! i)) ''file-encryption'' = Inr key" "v_path (vaults w ! i) = path"
    and ok: "accepts E (vaults (w\<lparr>g_mutex := MUTEX_HELD\<rparr>) ! i) pw key"
    using assms(1) by (simp_all add: ready_def accepts_def vault_at_def)
  show ?thesis
    unfolding vault_decrypt_ffi_def
    by (simp add: r assms(2) mutex_lock_def vault_find_by_id_def wp_simps)
       (rule wp_mono [OF wp_auth_accepts [OF ok]], use body assms(2) in \<open>simp add: taken_def over_dir_def r wp_simps\<close>)
qed

text \<open>The state after a call.\<close>

definition done_call :: "nat \<Rightarrow> world \<Rightarrow> world" where
  "done_call i w = released (set_mode i False (taken i w))"

lemma find_index_update: "v_id v = v_id (vs ! i) \<Longrightarrow> find_index (\<lambda>v. v_id v = vid) (vs[i := v]) = find_index (\<lambda>v. v_id v = vid) vs"
  by (induction vs arbitrary: i) (auto split: nat.splits)

lemma done_call_vaults: "vaults (done_call i w) = (vaults w)[i := (vaults w ! i)\<lparr>v_failed := 0, v_write_mode := False\<rparr>]"
  by (cases "i < length (vaults w)") (simp_all add: done_call_def released_def set_mode_def taken_def forgiven_def upd_vaults_def list_update_beyond)

lemma ready_again:
  assumes "ready E i path vid pw key w" "rest w' = rest (done_call i w)"
  shows "ready E i path vid pw key w'" "worm_blocks_decrypt (vaults w' ! i) = worm_blocks_decrypt (vaults w ! i)"
proof -
  have same: "vaults w' = vaults (done_call i w)" "g_mutex w' = g_mutex (done_call i w)"
    using arg_cong [OF assms(2), of vaults] rest_mutex [OF assms(2)] by (simp_all add: rest_def)
  have i: "i < length (vaults w)" using assms(1) by (simp add: ready_def vault_at_def)
  show "ready E i path vid pw key w'"
    using assms(1) i by (simp add: ready_def same done_call_vaults find_index_update vault_at_def accepts_def)
       (simp add: done_call_def released_def)
  show "worm_blocks_decrypt (vaults w' ! i) = worm_blocks_decrypt (vaults w ! i)"
    using i by (simp add: same done_call_vaults worm_blocks_decrypt_def worm_check_def)
qed

text \<open>\<^verbatim>\<open>vault_encrypt_ffi\<close> with the right password takes every plain file of the vault's directory and no other:
  each is replaced by one with the suffix \<^verbatim>\<open>.enc\<close> that holds its encryption under the key of the
  password, nothing else in the file system changes its type or content, and the call reports success.\<close>
theorem encrypt_takes_every_plain_file:
  assumes "reliable E" "e_euid E = 0" "\<forall>t n. e_rand E t n \<noteq> None"
    and "ready E i path vid pw key w" "tidy_dir E (look (o_fs w)) path"
  shows "wp (vault_encrypt_ffi E vid pw) (\<lambda>r w'. r = err_code ERR_OK
     \<and> packed E key path (plain_files (look (o_fs w)) path) (look (o_fs w)) (look (o_fs w'))) w"
  by (rule encrypt_call [OF assms(4)], rule wp_mono [OF wp_pack [OF assms(1-3)]])
     (use assms(4,5) in \<open>simp_all add: ready_def\<close>)

text \<open>C26: A vault that is encrypted and then decrypted with its password comes back: both calls report success, every
  file has the content it had, the encrypted files are gone, and no other file of the system is touched,
  provided the directory is tidy (nothing ends in \<^verbatim>\<open>.enc\<close>, no leftover temporary file, no symbolic
  links, no file beyond the size \<^verbatim>\<open>decrypt_file\<close> accepts) and no write-once flag forbids it.\<close>
theorem encrypted_vault_comes_back:
  assumes "reliable E" "gcm_inverse E" "e_euid E = 0" "\<forall>t n. e_rand E t n \<noteq> None"
    and "ready E i path vid pw key w" "tidy_dir E (look (o_fs w)) path" "\<not> worm_blocks_decrypt (vaults w ! i)"
  shows "wp (do { r \<leftarrow> vault_encrypt_ffi E vid pw; r' \<leftarrow> vault_decrypt_ffi E vid pw; return (r, r') })
     (\<lambda>r w'. r = (err_code ERR_OK, err_code ERR_OK) \<and> look (o_fs w') = look (o_fs w)) w"
proof -
  have restore: "wp (vault_decrypt_ffi E vid pw) (\<lambda>r' w'. r' = err_code ERR_OK \<and> look (o_fs w') = look (o_fs w)) w1"
    if "packed E key path (plain_files (look (o_fs w)) path) (look (o_fs w)) (look (o_fs w1))" "rest w1 = rest (done_call i w)" for w1
  proof (rule decrypt_call [OF ready_again(1) [OF assms(5) that(2)]])
    show "\<not> worm_blocks_decrypt (vaults w1 ! i)" using ready_again(2) [OF assms(5) that(2)] assms(7) by simp
    have "vault_at i path w1" using ready_again(1) [OF assms(5) that(2)] by (simp add: ready_def)
    then show "wp (over_dir E i path (decrypt_entry E path key)) (\<lambda>r' w'. r' = err_code ERR_OK \<and> look (o_fs w') = look (o_fs w)) (taken i w1)"
      using that(1) by (intro wp_mono [OF wp_unpack [OF assms(1-3,6)]]) simp_all
  qed
  have go: "wp (vault_encrypt_ffi E vid pw) (\<lambda>r w'. r = err_code ERR_OK
     \<and> packed E key path (plain_files (look (o_fs w)) path) (look (o_fs w)) (look (o_fs w')) \<and> rest w' = rest (done_call i w)) w"
    by (rule encrypt_call [OF assms(5)], rule wp_mono [OF wp_pack [OF assms(1,3,4)]])
       (use assms(5,6) in \<open>simp_all add: ready_def done_call_def\<close>)
  show ?thesis
    unfolding wp_bind by (rule wp_mono [OF go], rule wp_mono [OF restore]) (simp_all add: wp_return)
qed

end
