(* ===== verification/Call_Contracts.thy ===== *)
theory Call_Contracts
  imports "HOL-Library.Multiset" Vault_Files
begin

text \<open>
  Contracts of single calls of \<^verbatim>\<open>vault_ffi.c\<close>: the text of a scan report, the list of trusted processes as a
  multiset, and the password that guards mounting and exporting; with examples for these and for the
  properties of all calls.
\<close>

section \<open>The report of a scan\<close>

definition report_lines :: "FileEntry list \<Rightarrow> string" where
  "report_lines es = concat (map (\<lambda>e. fe_name e @ [NEWLINE]) (filter fe_modified es))"

lemma report_lines_simps [simp]: "report_lines [] = []"
  "report_lines (e # es) = (if fe_modified e then fe_name e @ NEWLINE # report_lines es else report_lines es)"
  "report_lines (xs @ ys) = report_lines xs @ report_lines ys"
  by (simp_all add: report_lines_def)

lemma report_lines_Nil: "report_lines es = [] \<longleftrightarrow> filter fe_modified es = []"
  by (auto simp: report_lines_def filter_empty_conv)

lemma chain_fits: "length (buf @ report_lines es) \<le> n - 1 \<Longrightarrow>
   report_chain n es (k, buf) = (k + length (filter fe_modified es), buf @ report_lines es)"
proof (induction es arbitrary: k buf)
  case (Cons e es)
  show ?case
  proof (cases "fe_modified e")
    case True
    let ?buf = "buf @ fe_name e @ [NEWLINE]"
    have line: "report_line n (fe_name e) (k, buf) = (k + 1, ?buf)"
      using Cons.prems True by (simp add: report_line_def)
    have rest: "report_chain n es (k + 1, ?buf) = (k + 1 + length (filter fe_modified es), ?buf @ report_lines es)"
      by (rule Cons.IH) (use Cons.prems True in simp)
    have "report_lines es = []" if "n - 1 \<le> length ?buf" using that Cons.prems True by (cases "report_lines es") auto
    then have "report_lines es = [] \<and> filter fe_modified es = []" if "n - 1 \<le> length ?buf"
      using that report_lines_Nil [of es] by auto
    with rest True show ?thesis
      by (cases "n - 1 \<le> length ?buf") (simp_all add: line Let_def)
  qed (use Cons in simp)
qed simp

text \<open>In general the text is cut, and a report that counts nothing adds nothing.\<close>

definition cut_report :: "nat \<Rightarrow> FileEntry list \<Rightarrow> nat \<times> string \<Rightarrow> nat \<times> string \<Rightarrow> bool" where
  "cut_report n es st r \<longleftrightarrow> fst st \<le> fst r \<and> fst r \<le> fst st + length (filter fe_modified es)
     \<and> snd r = take (n - 1) (snd st @ report_lines es) \<and> (fst r = fst st \<longrightarrow> snd r = snd st)"

lemma cut_report_length: "cut_report n es st r \<Longrightarrow> length (snd r) \<le> n - 1"
  by (simp add: cut_report_def del: take_append)

lemma take_take_append: "take k (take k xs @ ys) = take k (xs @ ys)"
  by (cases "k \<le> length xs") simp_all

lemma take_full: "k \<le> length (take k xs) \<Longrightarrow> take k (xs @ ys) = take k xs"
  by simp

lemma cut_report_append: "cut_report n es st r \<Longrightarrow> cut_report n fs r r' \<Longrightarrow> cut_report n (es @ fs) st r'"
  unfolding cut_report_def by (auto simp: take_take_append simp del: take_append simp flip: append_assoc)

lemma cut_report_full: "cut_report n es st r \<Longrightarrow> n - 1 \<le> length (snd r) \<Longrightarrow> cut_report n (es @ fs) st r"
  using take_full [of "n - 1" "snd st @ report_lines es" "report_lines fs"]
  unfolding cut_report_def by (auto simp del: take_append)

lemma cut_report_line:
  assumes "fe_modified e" "length (snd st) \<le> n - 1"
  shows "cut_report n [e] st (report_line n (fe_name e) st)"
  using assms by (auto simp: cut_report_def report_line_def)

lemma cut_report_skip: "length (snd st) \<le> n - 1 \<Longrightarrow> filter fe_modified es = [] \<Longrightarrow> cut_report n es st st"
  using report_lines_Nil [of es] by (simp add: cut_report_def)

lemma chain_cut: "length (snd st) \<le> n - 1 \<Longrightarrow> cut_report n es st (report_chain n es st)"
proof (induction es arbitrary: st)
  case Nil
  then show ?case by (simp add: cut_report_skip)
next
  case (Cons e es)
  show ?case
  proof (cases "fe_modified e")
    case True
    let ?st = "report_line n (fe_name e) st"
    note line = cut_report_line [OF True Cons.prems]
    from cut_report_append [OF line Cons.IH [OF cut_report_length [OF line]]] cut_report_full [OF line, of es] True
    show ?thesis by (simp add: Let_def)
  next
    case False
    then have "cut_report n [e] st st" using Cons.prems by (simp add: cut_report_skip)
    from cut_report_append [OF this Cons.IH [OF Cons.prems]] False show ?thesis by simp
  qed
qed

lemma buckets_cut: "length (snd st) \<le> n - 1 \<Longrightarrow> cut_report n (concat bs) st (report_buckets n bs st)"
proof (induction bs arbitrary: st)
  case Nil
  then show ?case by (simp add: cut_report_skip)
next
  case (Cons b bs)
  note chain = chain_cut [OF Cons.prems, of b]
  from cut_report_append [OF chain Cons.IH [OF cut_report_length [OF chain]]] cut_report_full [OF chain, of "concat bs"]
  show ?case by (simp add: Let_def)
qed

lemma buckets_fit: "length (buf @ report_lines (concat bs)) \<le> n - 1 \<Longrightarrow>
   report_buckets n bs (k, buf) = (k + length (filter fe_modified (concat bs)), buf @ report_lines (concat bs))"
proof (induction bs arbitrary: k buf)
  case (Cons b bs)
  have chain: "report_chain n b (k, buf) = (k + length (filter fe_modified b), buf @ report_lines b)"
    by (rule chain_fits) (use Cons.prems in simp)
  have "report_lines (concat bs) = []" if "n - 1 \<le> length (buf @ report_lines b)"
    using that Cons.prems by (cases "report_lines (concat bs)") auto
  then have full: "report_lines (concat bs) = [] \<and> filter fe_modified (concat bs) = []" if "n - 1 \<le> length (buf @ report_lines b)"
    using that report_lines_Nil [of "concat bs"] by auto
  show ?case
    using Cons.IH [of "buf @ report_lines b" "k + length (filter fe_modified b)"] Cons.prems full
    by (auto simp: chain Let_def)
qed simp

text \<open>The report of \<^verbatim>\<open>vault_scan_report_ffi\<close> never overruns the caller's buffer: it is the list of modified files,
  one per line, cut at the last byte, or the message that nothing was found; the number it returns is
  the number of modified files when the whole list fits, and never more.\<close>
theorem report_lists_modified:
  "(if length (report_lines (entries m)) < n then fst (scan_report n m) = length (filter fe_modified (entries m))
    else fst (scan_report n m) \<le> length (filter fe_modified (entries m))) \<and>
   snd (scan_report n m) = (if filter fe_modified (entries m) = [] then cbuf n (''No issues found'' @ [NEWLINE])
     else take (n - 1) (report_lines (entries m)))"
proof -
  let ?r = "report_buckets n (hm_buckets m) (0, [])"
  have r: "scan_report n m = (fst ?r, if fst ?r = 0 then cbuf n (''No issues found'' @ [NEWLINE]) else snd ?r)"
    by (simp add: scan_report_def case_prod_beta)
  have cut: "cut_report n (entries m) (0, []) ?r"
    unfolding entries_def by (rule buckets_cut) simp
  have fit: "?r = (length (filter fe_modified (entries m)), report_lines (entries m))" if "length (report_lines (entries m)) < n"
    using buckets_fit [of "[]" "hm_buckets m" n 0] that by (simp add: entries_def)
  have none: "fst ?r = 0" if "filter fe_modified (entries m) = []" using cut that by (simp add: cut_report_def)
  have some: "take (n - 1) (report_lines (entries m)) = (if fst ?r = 0 then cbuf n (''No issues found'' @ [NEWLINE]) else snd ?r)"
    if "filter fe_modified (entries m) \<noteq> []"
  proof (cases "fst ?r = 0")
    case True
    with cut have "take (n - 1) (report_lines (entries m)) = []" unfolding cut_report_def by auto
    moreover have "report_lines (entries m) \<noteq> []" using that report_lines_Nil by blast
    ultimately have "n - 1 = 0" unfolding take_eq_Nil by blast
    then show ?thesis using True by (simp add: cbuf_def)
  qed (use cut in \<open>simp add: cut_report_def\<close>)
  show ?thesis
    using cut fit none some by (auto simp: r cut_report_def)
qed


section \<open>The trusted processes\<close>

lemma unlink_node_mset: "mset (unlink_node pid ns) = mset ns - {#pid#}"
  by (induction ns) auto

text \<open>The interface of a set of processes in which each is counted: what the list has to provide, and what a
  client can rely on.\<close>

locale pid_bag =
  fixes bag :: "'s \<Rightarrow> nat multiset" and add remove :: "nat \<Rightarrow> 's \<Rightarrow> 's" and trusted :: "nat \<Rightarrow> 's \<Rightarrow> bool"
  assumes bag_add: "bag (add p s) = add_mset p (bag s)"
    and bag_remove: "bag (remove p s) = bag s - {#p#}"
    and trusted_bag: "trusted p s \<longleftrightarrow> p \<in># bag s"
begin

lemma count_trusted: "trusted p s \<longleftrightarrow> 0 < count (bag s) p"
  by (simp add: trusted_bag)

lemma added_is_trusted: "trusted p (add p s)"
  by (simp add: trusted_bag bag_add)

lemma removal_is_counted: "trusted p (remove p (add q s)) \<longleftrightarrow> (if p = q then trusted p s else 1 < count (bag s) p)"
  by (simp add: count_trusted bag_add bag_remove)

lemma others_untouched: "p \<noteq> q \<Longrightarrow> trusted q (remove p s) = trusted q s" "p \<noteq> q \<Longrightarrow> trusted q (add p s) = trusted q s"
  by (simp_all add: count_trusted bag_add bag_remove)

end

interpretation pids: pid_bag "mset" "\<lambda>p ns. p # ns" unlink_node "\<lambda>p ns. list_ex (\<lambda>n. n = p) ns"
  by unfold_locales (auto simp: unlink_node_mset list_ex_iff)

lemma wp_pid_add: "e_malloc E (o_tick w) \<Longrightarrow> wp (vault_auth_pid_add_ffi E pid) (\<lambda>_ w'. g_pids w' = pid # g_pids w) w"
  by (simp add: vault_auth_pid_add_ffi_def mutex_lock_def mutex_unlock_def unlock_return_def alloc_ok_def wp_simps)

lemma wp_pid_remove: "wp (vault_auth_pid_remove_ffi pid) (\<lambda>_ w'. g_pids w' = unlink_node pid (g_pids w)) w"
  by (simp add: vault_auth_pid_remove_ffi_def mutex_lock_def mutex_unlock_def unlock_return_def wp_simps)

lemma wp_pid_check: "wp (vault_auth_pid_is_authorized_ffi E pid)
   (\<lambda>r w'. r = (pid = e_pid E \<or> list_ex (\<lambda>n. n = pid) (g_pids w)) \<and> g_pids w' = g_pids w) w"
  by (simp add: vault_auth_pid_is_authorized_ffi_def mutex_lock_def mutex_unlock_def unlock_return_def wp_simps)

text \<open>C29: The list of trusted processes refines a multiset: adding a process counts it once more, removing it once less
  and never changes another one, and the query answers whether it is counted, or the program itself. A process
  that was added twice is therefore still trusted after it is removed.\<close>
theorem pid_list_is_multiset:
  assumes "e_malloc E (o_tick w)"
  shows "wp (vault_auth_pid_add_ffi E p) (\<lambda>_ w'. mset (g_pids w') = add_mset p (mset (g_pids w))) w
    \<and> wp (vault_auth_pid_remove_ffi p) (\<lambda>_ w'. mset (g_pids w') = mset (g_pids w) - {#p#}) w
    \<and> wp (vault_auth_pid_is_authorized_ffi E p) (\<lambda>r w'. r = (p = e_pid E \<or> p \<in># mset (g_pids w)) \<and> g_pids w' = g_pids w) w"
  using wp_mono [OF wp_pid_add [OF assms]] wp_mono [OF wp_pid_remove] wp_mono [OF wp_pid_check]
  by (simp add: pids.bag_remove pids.trusted_bag)

section \<open>The password that guards the contents\<close>

lemma no_password_given: "no_password pw \<longleftrightarrow> \<not> given pw"
  by (auto simp: no_password_def given_def split: option.splits)

lemma pres_save_auth:
  assumes "length file < 508"
  shows "preserves (save_frame file g) (auth_verify_password E i pw)"
  unfolding auth_verify_password_def
  by (intro pres pres_get_vault pres_save_frame [OF assms]) (auto simp: mod_vault_def intro!: pres_modify)

lemma wp_check_refuses:
  assumes "i < length (vaults w)" "length file < 508" "save_frame file g w" "v_type (vaults w ! i) = VAULT_TYPE_PROTECTED"
  shows "wp (check_password E i pw) (\<lambda>r w'. r = authorized E (vaults w ! i) pw \<and> save_frame file g w') w"
proof -
  have frame: "preserves (save_frame file g) (check_password E i pw)"
    unfolding check_password_def by (intro pres pres_get_vault pres_save_auth [OF assms(2)])
  show ?thesis
    by (rule wp_mono [OF wp_conj [OF wp_check_password [OF assms(1)] preservesD [OF frame assms(3)]]])
       (use assms(4) in \<open>simp add: authorized_def\<close>)
qed

text \<open>Neither mounting nor exporting gives anything away without the password of a protected vault: the call returns
  the refusal and, whatever the environment does, no file of the system changes but the catalog, in
  which the failed attempt may be recorded.\<close>
theorem contents_need_password:
  assumes "find_index (\<lambda>v. v_id v = vid) (vaults w) = Some i" "v_type (vaults w ! i) = VAULT_TYPE_PROTECTED"
    and "authorized E (vaults w ! i) pw \<noteq> ERR_OK" "given dst"
    and "length (g_catalog_file w) < 508" "not_link (o_fs w) (tmp_of (g_catalog_file w))"
  shows "wp (vault_mount_export_ffi E vid pw dst filename) (\<lambda>r w'. r = err_code (authorized E (vaults w ! i) pw)
      \<and> keeps {g_catalog_file w, tmp_of (g_catalog_file w)} (fs_get (o_fs w)) w') w
    \<and> wp (vault_mount_ffi E mounts vid pw) (\<lambda>r w'. r = err_code (authorized E (vaults w ! i) pw)
      \<and> keeps {g_catalog_file w, tmp_of (g_catalog_file w)} (fs_get (o_fs w)) w') w"
proof -
  let ?w = "w\<lparr>g_mutex := MUTEX_HELD\<rparr>"
  let ?Q = "\<lambda>r w'. r = err_code (authorized E (vaults w ! i) pw) \<and> keeps {g_catalog_file w, tmp_of (g_catalog_file w)} (fs_get (o_fs w)) w'"
  have i: "i < length (vaults w)" using assms(1) by (simp add: find_index_Some_iff)
  have frame: "save_frame (g_catalog_file w) (fs_get (o_fs w)) (w\<lparr>g_mutex := m\<rparr>)" for m
    using assms(6) by (simp add: save_frame_def keeps_def)
  have check: "wp (check_password E i pw) (\<lambda>err. wp (if err \<noteq> ERR_OK then unlock_return (err_code err) else k err) ?Q) (w\<lparr>g_mutex := m\<rparr>)" for k m
    by (rule wp_mono [OF wp_check_refuses [OF _ assms(5) frame]])
       (use i assms(2,3) in \<open>auto simp: unlock_return_def mutex_unlock_def wp_simps save_frame_def keeps_def\<close>)
  have "wp (vault_mount_export_ffi E vid pw dst filename) ?Q w"
    unfolding vault_mount_export_ffi_def
    by (simp add: assms(1,4) mutex_lock_def vault_find_by_id_def wp_bind wp_modify wp_gets check)
  moreover have "wp (vault_mount_ffi E mounts vid pw) ?Q w"
    unfolding vault_mount_ffi_def
    by (simp add: assms(1) mutex_lock_def vault_find_by_id_def wp_bind wp_modify wp_gets check)
  ultimately show ?thesis ..
qed

section \<open>Examples\<close>

text \<open>The examples of the properties of all calls, on a clock that stands still.\<close>

definition still_env :: env where
  "still_env = ex_env\<lparr>e_time := \<lambda>_. 1000\<rparr>"

definition ex_calls :: "ffi_call list" where
  "ex_calls = [Create_Vault (Some ''work'') 0 None None, Scan 1, Rename_Vault 1 (Some ''old'') None,
     Pid_Add 9, Worm_Set 2 1, Encrypt 7 (Some ''x''), Delete_Vault 1 None]"

lemma ex_vault_typed: "vault_typed ex_vault"
  using type_ok_zero map_typed_empty zero_alert_typed
  by (simp add: vault_typed_def ex_vault_def zero_vault_def fits_def sizes type_ok_def status_ok_def type_of_code_def type_code_def status_of_code_def status_code_def)



text \<open>A protected vault, whose password is \<open>secret-pw\<close>.\<close>

definition sealed_world :: world where
  "sealed_world = upd_vaults (map (\<lambda>v. v\<lparr>v_type := VAULT_TYPE_PROTECTED, v_has_pass := True, v_pass_hash := pad 32 ''secret-pw''\<rparr>)) ex_world"

lemma sealed_world_simps [simp]: "o_fs sealed_world = ex_fs" "g_mutex sealed_world = MUTEX_FREE"
  "vaults sealed_world = [ex_vault\<lparr>v_type := VAULT_TYPE_PROTECTED, v_has_pass := True, v_pass_hash := pad 32 ''secret-pw''\<rparr>]"
  "g_catalog_file sealed_world = ''/k/c''" "g_pids sealed_world = []" "o_tick sealed_world = 0"
  by (simp_all add: sealed_world_def ex_world_def upd_vaults_def)

lemma sealed_ready: "ready ex_env 0 ''/v/docs'' 1 (Some ''secret-pw'') (pad 32 ''secret-pw'') sealed_world"
  by (simp add: ready_def vault_at_def accepts_def given_def derive_key_for_def) (simp add: ex_env_def pad_def KEY_LEN_def)

lemma ex_docs: "look ex_fs (below ''/v/docs'' d) = (if d = ''a'' then Some (S_IFREG, ''hello'') else None)"
  by (simp add: look_def below_def ex_fs_def fs_get_def ex_dir_def ex_file_def)

lemma ex_plain_files: "plain_files (look ex_fs) ''/v/docs'' = {''a''}"
  by (auto simp: plain_files_def ex_docs hidden_def ends_with_def ENC_SUFFIX_def)

lemma ex_temp: "temp_of ex_env ''a'' = ''a.tmp.7''"
  using ex_tmp by (simp add: temp_of_def ex_env_def dec_digits.simps decrypt_tmp_def cbuf_def PATH_MAX_def)

lemma ex_pid: "dec_digits (e_pid ex_env) = [char_of (55 :: nat)]"
  by (simp add: ex_env_def dec_digits.simps)

lemma ex_tidy: "tidy_dir ex_env (look ex_fs) ''/v/docs''"
  unfolding tidy_dir_def ex_plain_files
  by (auto simp: ex_docs file_fits_def ex_temp ex_pid below_def ENC_SUFFIX_def ends_with_def PATH_MAX_def MAX_DECRYPT_SIZE_def
      parent_dir_def look_def ex_fs_def fs_get_def ex_dir_def ex_file_def)

lemma encrypt_takes_every_plain_file_witness:
  "wp (vault_encrypt_ffi ex_env 1 (Some ''secret-pw'')) (\<lambda>r w'. r = err_code ERR_OK
     \<and> packed ex_env (pad 32 ''secret-pw'') ''/v/docs'' {''a''} (look ex_fs) (look (o_fs w'))) sealed_world"
  using encrypt_takes_every_plain_file [OF reliable_ex_env ex_env_root ex_rand sealed_ready] ex_tidy
  by (simp add: ex_plain_files)

lemma encrypted_vault_comes_back_witness:
  "wp (do { r \<leftarrow> vault_encrypt_ffi ex_env 1 (Some ''secret-pw''); r' \<leftarrow> vault_decrypt_ffi ex_env 1 (Some ''secret-pw''); return (r, r') })
     (\<lambda>r w'. r = (err_code ERR_OK, err_code ERR_OK) \<and> look (o_fs w') = look ex_fs) sealed_world"
  using encrypted_vault_comes_back [OF reliable_ex_env ex_gcm_inverse ex_env_root ex_rand sealed_ready] ex_tidy
  by (simp add: worm_blocks_decrypt_def worm_check_def)

lemma pid_list_is_multiset_witness:
  "wp (vault_auth_pid_add_ffi ex_env 9) (\<lambda>_ w'. mset (g_pids w') = {#9#}) sealed_world"
  using pid_list_is_multiset [of ex_env sealed_world 9] by (simp add: ex_env_def)

lemma contents_need_password_witness:
  "wp (vault_mount_export_ffi ex_env 1 (Some ''wrong'') (Some ''/d'') None) (\<lambda>r w'. r = err_code ERR_AUTH_FAIL
      \<and> keeps {''/k/c'', tmp_of ''/k/c''} (fs_get ex_fs) w') sealed_world"
proof -
  have "authorized ex_env (vaults sealed_world ! 0) (Some ''wrong'') = ERR_AUTH_FAIL"
    by (simp add: authorized_def no_password_def auth_step_def key_matches_def derive_key_for_def) (simp add: ex_env_def pad_def KEY_LEN_def)
  moreover have "not_link ex_fs (tmp_of ''/k/c'')"
    by (simp add: not_link_def tmp_of_def cbuf_def ex_fs_def fs_get_def)
  ultimately show ?thesis
    using contents_need_password [of 1 sealed_world 0 ex_env "Some ''wrong''" "Some ''/d''" None] by (simp add: given_def)
qed

end
