(* ===== verification/C_Strings.thy ===== *)
theory C_Strings
  imports Vault_Text
begin

text \<open>
  The functions of \<^verbatim>\<open><string.h>\<close>, \<^verbatim>\<open><ctype.h>\<close> and \<^verbatim>\<open><stdlib.h>\<close> the sandbox and the command line are
  written with: character classes in the C locale, \<^verbatim>\<open>strstr\<close> with the position it returns,
  \<^verbatim>\<open>strtok_r\<close>, \<^verbatim>\<open>strcasecmp\<close>, \<^verbatim>\<open>strtol\<close> with its clamping and \<^verbatim>\<open>atoi\<close> with the truncation to an
  \<^verbatim>\<open>int\<close>.
\<close>

definition ord :: "char \<Rightarrow> nat" where "ord c = of_char c"

definition c_isspace :: "char \<Rightarrow> bool" where "c_isspace c \<longleftrightarrow> ord c = 32 \<or> 9 \<le> ord c \<and> ord c \<le> 13"
definition c_isdigit :: "char \<Rightarrow> bool" where "c_isdigit c \<longleftrightarrow> 48 \<le> ord c \<and> ord c \<le> 57"
definition c_isupper :: "char \<Rightarrow> bool" where "c_isupper c \<longleftrightarrow> 65 \<le> ord c \<and> ord c \<le> 90"
definition c_islower :: "char \<Rightarrow> bool" where "c_islower c \<longleftrightarrow> 97 \<le> ord c \<and> ord c \<le> 122"
definition c_isalnum :: "char \<Rightarrow> bool" where
  "c_isalnum c \<longleftrightarrow> c_isdigit c \<or> c_isupper c \<or> c_islower c"
definition c_tolower :: "char \<Rightarrow> char" where
  "c_tolower c = (if c_isupper c then char_of (ord c + 32) else c)"

lemmas c_classes = c_isspace_def c_isdigit_def c_isupper_def c_islower_def c_isalnum_def ord_def

definition strcasecmp_eq :: "string \<Rightarrow> string \<Rightarrow> bool" where
  "strcasecmp_eq a b \<longleftrightarrow> map c_tolower a = map c_tolower b"

section \<open>Searching and splitting\<close>

text \<open>\<^verbatim>\<open>strstr(h, n)\<close>: the part of \<open>h\<close> from the first occurrence of \<open>n\<close> on.\<close>

fun strstr_at :: "string \<Rightarrow> string \<Rightarrow> string option" where
  "strstr_at [] n = (if n = [] then Some [] else None)"
| "strstr_at (c # h) n = (if prefix n (c # h) then Some (c # h) else strstr_at h n)"

text \<open>The string after \<^verbatim>\<open>p = strstr(s, n); if (p) *p = 0;\<close>.\<close>

definition cut_at :: "string \<Rightarrow> string \<Rightarrow> string" where
  "cut_at s n = (case strstr_at s n of None \<Rightarrow> s | Some r \<Rightarrow> take (length s - length r) s)"

lemma strstr_at_suffix: "strstr_at h n = Some r \<Longrightarrow> suffix r h \<and> prefix n r"
  by (induction h) (auto split: if_splits intro: suffix_ConsI)

lemma strstr_at_None: "strstr_at h n = None \<longleftrightarrow> \<not> sublist n h"
  by (induction h) (auto simp: sublist_Cons_right)

lemma strstr_at_length: "strstr_at h n = Some r \<Longrightarrow> length r \<le> length h"
  by (drule strstr_at_suffix) (auto dest: suffix_length_le)

lemma cut_at_prefix: "prefix (cut_at s n) s"
  by (simp add: cut_at_def take_is_prefix split: option.splits)

text \<open>All the tokens \<^verbatim>\<open>strtok_r(s, delims)\<close> returns one after the other.\<close>

fun tok_loop :: "char set \<Rightarrow> string \<Rightarrow> string \<Rightarrow> string list" where
  "tok_loop D acc [] = (if acc = [] then [] else [rev acc])"
| "tok_loop D acc (c # s) = (if c \<in> D then (if acc = [] then tok_loop D [] s else rev acc # tok_loop D [] s)
                            else tok_loop D (c # acc) s)"

definition strtok_all :: "string \<Rightarrow> string \<Rightarrow> string list" where
  "strtok_all delims s = tok_loop (set delims) [] s"

lemma tok_loop_in:
  "t \<in> set (tok_loop D acc s) \<Longrightarrow> set acc \<inter> D = {} \<Longrightarrow> t \<noteq> [] \<and> set t \<inter> D = {}"
proof (induction s arbitrary: acc)
  case (Cons c s)
  have "set [] \<inter> D = {}" by simp
  note IH = Cons.IH [OF _ this] Cons.IH [of "c # acc"]
  show ?case
    using Cons.prems IH by (auto split: if_splits)
qed (auto split: if_splits)

lemma strtok_all_in: "t \<in> set (strtok_all delims s) \<Longrightarrow> t \<noteq> [] \<and> set t \<inter> set delims = {}"
  by (simp add: strtok_all_def tok_loop_in)

lemma tok_loop_word:
  "set w \<inter> D = {} \<Longrightarrow> tok_loop D acc (w @ s) = tok_loop D (rev w @ acc) s"
  by (induction w arbitrary: acc) auto

lemma strtok_all_word:
  assumes "w \<noteq> []" "set w \<inter> set ds = {}"
  shows "strtok_all ds w = [w]" and "d \<in> set ds \<Longrightarrow> strtok_all ds (w @ d # s) = w # strtok_all ds s"
  using tok_loop_word [OF assms(2), of "[]" "[]"] tok_loop_word [OF assms(2), of "[]" "d # s"] assms(1)
  by (auto simp: strtok_all_def)

lemma strtok_all_skip: "d \<in> set ds \<Longrightarrow> strtok_all ds (d # s) = strtok_all ds s"
  by (simp add: strtok_all_def)

text \<open>\<^verbatim>\<open>strrchr(s, c)\<close>: the part from the last \<open>c\<close> on, and what stays before it.\<close>

definition before_last :: "char \<Rightarrow> string \<Rightarrow> string option" where
  "before_last c s = (if c \<in> set s then Some (rev (drop 1 (dropWhile (\<lambda>d. d \<noteq> c) (rev s)))) else None)"

definition after_last :: "char \<Rightarrow> string \<Rightarrow> string option" where
  "after_last c s = (if c \<in> set s then Some (rev (takeWhile (\<lambda>d. d \<noteq> c) (rev s))) else None)"

section \<open>Reading numbers\<close>

definition LONG_MIN :: int where "LONG_MIN = - (2 ^ 63)"
definition LONG_MAX :: int where "LONG_MAX = 2 ^ 63 - 1"
definition INT_MAX :: int where "INT_MAX = 2 ^ 31 - 1"

definition clamp_long :: "int \<Rightarrow> int" where
  "clamp_long x = (if x < LONG_MIN then LONG_MIN else if LONG_MAX < x then LONG_MAX else x)"

definition sign_split :: "string \<Rightarrow> int \<times> string" where
  "sign_split s = (case s of
     c # r \<Rightarrow> if c = CHR ''-'' then (- 1, r) else if c = CHR ''+'' then (1, r) else (1, s)
   | [] \<Rightarrow> (1, s))"

text \<open>\<^verbatim>\<open>strtol(s, &end, 10)\<close>: the value, the string \<open>end\<close> points to, and whether \<^verbatim>\<open>errno\<close> becomes
  \<^verbatim>\<open>ERANGE\<close>.\<close>

definition strtol :: "string \<Rightarrow> int \<times> string \<times> bool" where
  "strtol s = (case sign_split (dropWhile c_isspace s) of (g, r) \<Rightarrow>
     (let ds = takeWhile c_isdigit r; v = g * int (dec_read ds) in
      if ds = [] then (0, s, False)
      else (clamp_long v, dropWhile c_isdigit r, clamp_long v \<noteq> v)))"

text \<open>Conversion to a 32-bit \<^verbatim>\<open>int\<close>.\<close>

definition to_int32 :: "int \<Rightarrow> int" where
  "to_int32 x = signed_take_bit 31 x"

definition atoi :: "string \<Rightarrow> int" where
  "atoi s = to_int32 (fst (strtol s))"

lemma to_int32_id: "- (2 ^ 31) \<le> x \<Longrightarrow> x < 2 ^ 31 \<Longrightarrow> to_int32 x = x"
  by (simp add: to_int32_def signed_take_bit_int_eq_self)

lemma to_int32_range: "- (2 ^ 31) \<le> to_int32 x \<and> to_int32 x < 2 ^ 31"
  using signed_take_bit_int_greater_eq_minus_exp [of 31 x] signed_take_bit_int_less_exp [of 31 x]
  by (simp add: to_int32_def)

lemma c_isdigit_dec_digits: "c \<in> set (dec_digits n) \<Longrightarrow> c_isdigit c"
  using dec_digits_set by (auto simp: c_classes)

lemma dec_digits_Nil [simp]: "dec_digits n \<noteq> []"
  by (simp add: dec_digits.simps [of n])

lemma strtol_dec_digits:
  assumes "int n \<le> LONG_MAX"
  shows "strtol (dec_digits n) = (int n, [], False)"
proof -
  obtain c r where c: "dec_digits n = c # r" by (cases "dec_digits n") auto
  then have "c_isdigit c" using c_isdigit_dec_digits by (metis list.set_intros(1))
  then have "\<not> c_isspace c" "c \<noteq> CHR ''-''" "c \<noteq> CHR ''+''" by (auto simp: c_classes)
  then have sg: "sign_split (dropWhile c_isspace (dec_digits n)) = (1, dec_digits n)"
    by (simp add: c sign_split_def)
  have tw: "takeWhile c_isdigit (dec_digits n) = dec_digits n" "dropWhile c_isdigit (dec_digits n) = []"
    using c_isdigit_dec_digits [where n = n] by (simp_all add: takeWhile_eq_all_conv)
  show ?thesis
    using assms by (simp add: strtol_def Let_def sg tw dec_read_dec_digits clamp_long_def LONG_MIN_def)
qed

text \<open>\<^verbatim>\<open>%d\<close>.\<close>

definition int_text :: "int \<Rightarrow> string" where
  "int_text i = (if i < 0 then CHR ''-'' # dec_digits (nat (- i)) else dec_digits (nat i))"

text \<open>What successive calls \<^verbatim>\<open>fgets(line, n, f)\<close> return.\<close>

fun fgets_loop :: "nat \<Rightarrow> string \<Rightarrow> string \<Rightarrow> string list" where
  "fgets_loop n acc [] = (if acc = [] then [] else [rev acc])"
| "fgets_loop n acc (c # s) = (if c = CHR 0x0A \<or> n \<le> length acc + 2 then rev (c # acc) # fgets_loop n [] s
                              else fgets_loop n (c # acc) s)"

definition fgets_all :: "nat \<Rightarrow> string \<Rightarrow> string list" where
  "fgets_all n s = fgets_loop n [] s"

end
