(* ===== verification/Sandbox_State.thy ===== *)
theory Sandbox_State
  imports C_Strings Samples
begin

text \<open>
  What the code of \<^verbatim>\<open>sandbox/\<close> acts on: the kernel calls that change the process (namespaces, mounts,
  privileges, limits, filters), which are recorded in the order of their execution together with
  their results, and the static variables of the modules.

  A call may fail at any time: \<open>h_ret H t\<close> is what the \<open>t\<close>-th call of the run returns, so statements
  that hold for every host hold for every pattern of failures. Mounts are recorded and do not change
  the paths of the file-system model.
\<close>

text \<open>The calls, with the arguments the code passes.\<close>

datatype kcall =
    Mount "string option" string "string option" "64 word" "string option"
  | Umount2 string "32 word"
  | Pivot_root string string
  | Chdir string
  | Chroot string
  | Unshare "32 word"
  | Prctl int int
  | Capset
  | Setrlimit int int int
  | Setuid int
  | Setgid int
  | Setgroups
  | Sethostname string
  | Setsid
  | System string
  | Execv string "string list"
  | Fork
  | Kill int int
  | Seccomp_load
  | Landlock_create "64 word"
  | Landlock_rule string "64 word"
  | Landlock_restrict
  | Rust_call string "string list"
  | Nft_run string
  | Kernel_write string string
  | Library string
  | Prctl_name string
  | Mknod string "32 word" nat nat
  | Symlink string string
  | Chown string int int
  | Waitpid int

text \<open>Actions of a rule of the system call filter.\<close>

datatype scmp_action = SCMP_ACT_ALLOW | SCMP_ACT_KILL_PROCESS | SCMP_ACT_ERRNO int

type_synonym scmp_filter = "(scmp_action \<times> int) list"

record jail = world +
  j_trace :: "(kcall \<times> int) list"
  j_seccomp_strict :: bool
  j_seccomp_allow_c3 :: bool
  j_seccomp_friendly :: bool
  j_seccomp_permissive :: bool
  j_seccomp_adapter :: "string option"
  j_declined :: "int list"
  j_ctx :: scmp_filter
  j_loaded :: "scmp_filter option"
  j_mount_dev :: bool
  j_nf_ips :: "string list"
  j_environ :: "(string \<times> string option) list"
  j_root :: string
  j_target :: int
  j_pw_buf :: string

text \<open>The machine: the system interface of \<open>Posix\<close>, the results of the recorded calls and what the
  libraries answer.\<close>

record host =
  h_os :: env
  h_ret :: "nat \<Rightarrow> int"
  h_errno :: "nat \<Rightarrow> nat"
  h_sysno :: "string \<Rightarrow> int"
  h_gid :: int
  h_env :: "string \<Rightarrow> string option"
  h_pwdir :: "int \<Rightarrow> string option"
  h_stat_ino :: "string \<Rightarrow> nat option"
  h_readlink :: "string \<Rightarrow> string option"
  h_input :: "nat \<Rightarrow> string option"
  h_status :: "nat \<Rightarrow> int"
  h_temp :: "nat \<Rightarrow> string"
  h_ischr :: "string \<Rightarrow> bool"

type_synonym 'a jio = "(jail, 'a) state"

text \<open>A recorded call.\<close>

definition kernel :: "host \<Rightarrow> kcall \<Rightarrow> int jio" where
  "kernel H k = do {
     t \<leftarrow> tick;
     modify (\<lambda>s. s\<lparr>j_trace := j_trace s @ [(k, h_ret H t)]\<rparr>);
     return (h_ret H t) }"

text \<open>The same when the code looks at \<^verbatim>\<open>errno\<close>.\<close>

definition kernel_errno :: "host \<Rightarrow> kcall \<Rightarrow> (int \<times> nat) jio" where
  "kernel_errno H k = do {
     t \<leftarrow> gets o_tick;
     r \<leftarrow> kernel H k;
     return (r, h_errno H t) }"

text \<open>A library function whose only effect is its result.\<close>

definition lib_ret :: "host \<Rightarrow> int jio" where
  "lib_ret H = do { t \<leftarrow> tick; return (h_ret H t) }"

lemma wp_kernel [wp_simps]: "wp (kernel H k) Q = (\<lambda>s. Q (h_ret H (o_tick s))
    (s\<lparr>o_tick := Suc (o_tick s), j_trace := j_trace s @ [(k, h_ret H (o_tick s))]\<rparr>))"
  by (rule ext) (simp add: kernel_def wp_simps)

lemma wp_lib_ret [wp_simps]: "wp (lib_ret H) Q = (\<lambda>s. Q (h_ret H (o_tick s)) (s\<lparr>o_tick := Suc (o_tick s)\<rparr>))"
  by (rule ext) (simp add: lib_ret_def wp_simps)

text \<open>\<^verbatim>\<open>waitpid\<close>: the result and the status of the child.\<close>

definition waitpid :: "host \<Rightarrow> int \<Rightarrow> (int \<times> int) jio" where
  "waitpid H pid = do {
     t \<leftarrow> gets o_tick;
     r \<leftarrow> kernel H (Waitpid pid);
     return (r, h_status H t) }"

definition WIFEXITED :: "int \<Rightarrow> bool" where "WIFEXITED st \<longleftrightarrow> st mod 128 = 0"
definition WIFSIGNALED :: "int \<Rightarrow> bool" where "WIFSIGNALED st \<longleftrightarrow> st mod 128 \<noteq> 0 \<and> st mod 128 \<noteq> 127"
definition WEXITSTATUS :: "int \<Rightarrow> int" where "WEXITSTATUS st = st div 256 mod 256"
definition WTERMSIG :: "int \<Rightarrow> int" where "WTERMSIG st = st mod 128"

text \<open>\<^verbatim>\<open>getenv\<close> and \<^verbatim>\<open>setenv(k, v, overwrite)\<close>: variables the process has set hide those it
  started with.\<close>

definition getenv :: "host \<Rightarrow> string \<Rightarrow> string option jio" where
  "getenv H k = gets (\<lambda>s. case map_of (j_environ s) k of Some v \<Rightarrow> v | None \<Rightarrow> h_env H k)"

definition setenv :: "host \<Rightarrow> string \<Rightarrow> string \<Rightarrow> bool \<Rightarrow> unit jio" where
  "setenv H k v overwrite = do {
     old \<leftarrow> getenv H k;
     if overwrite \<or> old = None then modify (\<lambda>s. s\<lparr>j_environ := (k, Some v) # j_environ s\<rparr>) else return () }"

definition unsetenv :: "string \<Rightarrow> unit jio" where
  "unsetenv k = modify (\<lambda>s. s\<lparr>j_environ := (k, None) # j_environ s\<rparr>)"

text \<open>The trace only grows.\<close>

definition traced :: "(kcall \<times> int) list \<Rightarrow> jail \<Rightarrow> bool" where
  "traced tr s \<longleftrightarrow> prefix tr (j_trace s)"

lemma pres_traced_kernel [pres]: "preserves (traced tr) (kernel H k)"
  by (auto simp: preserves_wp wp_simps traced_def intro: prefix_order.trans)

lemma os_indep_traced [simp]: "os_indep (traced tr)"
  by (simp add: os_indep_def traced_def)

text \<open>A loop over a list that a step may leave, as \<^verbatim>\<open>return -1\<close> inside a loop.\<close>

fun all_ok :: "'a list \<Rightarrow> ('a \<Rightarrow> ('s, bool) state) \<Rightarrow> ('s, bool) state" where
  "all_ok [] f = return True"
| "all_ok (x # xs) f = do { ok \<leftarrow> f x; if ok then all_ok xs f else return False }"

text \<open>The postcondition of such a step: \<open>P\<close> when it went on, \<open>X\<close> when it left.\<close>

definition ok_post :: "('s \<Rightarrow> bool) \<Rightarrow> ('s \<Rightarrow> bool) \<Rightarrow> bool \<Rightarrow> 's \<Rightarrow> bool" where
  "ok_post P X ok = (if ok then P else X)"

lemma ok_post_simps [simp]: "ok_post P X True = P" "ok_post P X False = X"
  by (simp_all add: ok_post_def)

lemma wp_ok_bind:
  assumes "wp m (ok_post P X) s" and "\<And>t. P t \<Longrightarrow> wp (f True) Q t" and "\<And>t. X t \<Longrightarrow> wp (f False) Q t"
  shows "wp (m \<bind> f) Q s"
proof -
  have "wp (f ok) Q t" if "ok_post P X ok t" for ok t
    using that assms(2,3) by (cases ok) simp_all
  with assms(1) show ?thesis unfolding wp_bind by (rule wp_mono)
qed

lemma wp_all_ok:
  assumes "\<And>k t. k < length xs \<Longrightarrow> I k t \<Longrightarrow> wp (f (xs ! k)) (ok_post (I (Suc k)) X) t" and "I 0 s"
  shows "wp (all_ok xs f) (ok_post (I (length xs)) X) s"
  using assms
proof (induction xs arbitrary: I s)
  case (Cons x xs)
  have step: "wp (f x) (ok_post (I (Suc 0)) X) s"
    using Cons.prems(1) [of 0 s] Cons.prems(2) by simp
  have rest: "wp (all_ok xs f) (ok_post (I (Suc (length xs))) X) t" if "I (Suc 0) t" for t
    using Cons.IH [of "\<lambda>k. I (Suc k)" t] Cons.prems(1) [of "Suc _"] that by simp
  show ?case
    unfolding all_ok.simps length_Cons by (rule wp_ok_bind [OF step]) (use rest in \<open>simp_all add: wp_return\<close>)
qed (simp add: wp_return)

lemma pres_all_ok [pres]: "(\<And>x. preserves I (f x)) \<Longrightarrow> preserves I (all_ok xs f)"
  by (induction xs) (auto intro!: pres)

fun fold_io :: "('a \<Rightarrow> 'b \<Rightarrow> ('s, 'b) state) \<Rightarrow> 'a list \<Rightarrow> 'b \<Rightarrow> ('s, 'b) state" where
  "fold_io f [] b = return b"
| "fold_io f (x # xs) b = do { b' \<leftarrow> f x b; fold_io f xs b' }"

text \<open>\<^verbatim>\<open>access(p, m)\<close>.\<close>

definition fs_access :: "env \<Rightarrow> string \<Rightarrow> 32 word \<Rightarrow> unit call" where
  "fs_access E p m f = (case resolve SYMLOOP_MAX f p of
     Inl e \<Rightarrow> (Inl e, f)
   | Inr q \<Rightarrow> (case search_err E f (parent_dir q) of
       Some e \<Rightarrow> (Inl e, f)
     | None \<Rightarrow> (case fs_get f q of
         None \<Rightarrow> (Inl ENOENT, f)
       | Some n \<Rightarrow> if may E n m then (Inr (), f) else (Inl EACCES, f))))"

abbreviation sys_access where "sys_access E p m \<equiv> syscall E (fs_access E p m)"

lemma read_only_access [simp]: "read_only (fs_access E p m)"
  by (simp add: read_only_def fs_access_def split: option.splits sum.splits)

lemma read_only_open:
  "\<not> flag_set fl O_CREAT \<Longrightarrow> \<not> flag_set fl O_TRUNC \<Longrightarrow> read_only (fs_open E p fl m)"
  by (simp add: read_only_def fs_open_def split: option.splits sum.splits)

lemma read_only_open_flags [simp]: "read_only (fs_open E p 0 m)" "read_only (fs_open E p O_WRONLY m)"
  by (simp_all add: read_only_open flag_set_def o_flags)

text \<open>A regular file the superuser can open.\<close>

definition plain_file :: "fs \<Rightarrow> string \<Rightarrow> string \<Rightarrow> bool" where
  "plain_file f p b \<longleftrightarrow> (\<exists>d n. fs_get f (parent_dir p) = Some d \<and> i_type d = S_IFDIR
     \<and> fs_get f p = Some n \<and> i_type n = S_IFREG \<and> i_data n = b)"

lemma resolve_plain_file: "plain_file f p b \<Longrightarrow> resolve SYMLOOP_MAX f p = Inr p"
  by (auto simp: plain_file_def SYMLOOP_MAX_def numeral_eq_Suc)

lemma open_plain:
  assumes "e_euid E = 0" "plain_file f p b"
  shows "fs_open E p 0 m f = (Inr p, f)" "fs_access E p a f = (Inr (), f)" "fs_content f p = b"
  using assms resolve_plain_file [OF assms(2)]
  by (auto simp: fs_open_def fs_access_def open_target_def flag_set_def plain_file_def search_err_def may_def
      wants_write_def fs_content_def)

definition succeeds :: "errno + 'a \<Rightarrow> bool" where
  "succeeds r = (case r of Inl _ \<Rightarrow> False | Inr _ \<Rightarrow> True)"

text \<open>The lines of a text file that can be opened.\<close>

definition read_lines :: "host \<Rightarrow> string \<Rightarrow> nat \<Rightarrow> string list option jio" where
  "read_lines H path n = do {
     r \<leftarrow> sys_fopen_r (h_os H) path;
     case r of
       Inl _ \<Rightarrow> return None
     | Inr q \<Rightarrow> do {
         f \<leftarrow> gets o_fs;
         (b, err) \<leftarrow> sys_fread (h_os H) q 0 (length (fs_content f q));
         return (Some (fgets_all n b)) } }"

text \<open>The calls recorded between two states.\<close>

definition made :: "kcall list \<Rightarrow> jail \<Rightarrow> jail \<Rightarrow> bool" where
  "made ks s u \<longleftrightarrow> (\<exists>tr. j_trace u = j_trace s @ tr \<and> map fst tr = ks)"

lemma made_refl [simp]: "made ks s s \<longleftrightarrow> ks = []"
  by (auto simp: made_def)

text \<open>The file system is the same and the trace has grown.\<close>

definition grown :: "fs \<Rightarrow> (kcall \<times> int) list \<Rightarrow> jail \<Rightarrow> bool" where
  "grown f tr s \<longleftrightarrow> o_fs s = f \<and> prefix tr (j_trace s)"

lemma grown_refl [simp]: "grown (o_fs s) (j_trace s) s"
  by (simp add: grown_def)

lemma pres_grown [pres]:
  "preserves (grown f tr) (kernel H k)" "preserves (grown f tr) (lib_ret H)" "preserves (grown f tr) (getenv H v)"
  "read_only c \<Longrightarrow> preserves (grown f tr) (syscall E c)"
  by (auto simp: preserves_wp wp_simps getenv_def grown_def read_only_def split: option.split
      intro: prefix_order.trans)

section \<open>An example\<close>

text \<open>A machine on which every call succeeds, with an invented numbering of the system calls.\<close>

fun name_code :: "string \<Rightarrow> nat" where
  "name_code [] = 0"
| "name_code (c # cs) = 1 + of_char c + 256 * name_code cs"

lemma name_code_inj: "name_code a = name_code b \<Longrightarrow> a = b"
proof (induction a arbitrary: b)
  case Nil
  then show ?case by (cases b) simp_all
next
  case (Cons c a)
  then obtain d b' where b: "b = d # b'" by (cases b) simp_all
  with Cons.prems have eq: "of_char c + 256 * name_code a = of_char d + 256 * name_code b'" by simp
  have "(of_char c :: nat) = (of_char c + 256 * name_code a) mod 256" by (simp add: of_char_lt_256)
  also have "\<dots> = of_char d" using eq by (simp add: of_char_lt_256)
  finally have "c = d" by simp
  with eq Cons.IH b show ?case by simp
qed

definition ex_host :: host where
  "ex_host = \<lparr>h_os = ex_env, h_ret = \<lambda>_. 0, h_errno = \<lambda>_. 0, h_sysno = \<lambda>n. int (name_code n), h_gid = 0,
     h_env = \<lambda>_. None, h_pwdir = \<lambda>_. None, h_stat_ino = \<lambda>_. None,
     h_readlink = \<lambda>_. None, h_input = \<lambda>_. None,
     h_status = \<lambda>_. 0, h_temp = \<lambda>_. ''aaaaaa'', h_ischr = \<lambda>_. False\<rparr>"

definition ex_jail :: jail where
  "ex_jail = world.extend ex_world \<lparr>j_trace = [], j_seccomp_strict = False, j_seccomp_allow_c3 = False,
     j_seccomp_friendly = False, j_seccomp_permissive = False, j_seccomp_adapter = None, j_declined = [],
     j_ctx = [], j_loaded = None, j_mount_dev = False, j_nf_ips = [], j_environ = [], j_root = [], j_target = 0, j_pw_buf = []\<rparr>"

lemma ex_host_simps [simp]: "h_os ex_host = ex_env" "h_ret ex_host t = 0" "h_sysno ex_host n = int (name_code n)"
  by (simp_all add: ex_host_def)

end
