(* ===== verification/Cli_Record.thy ===== *)
theory Cli_Record
  imports Sandbox_State
begin

text \<open>
  The configuration of the command line (\<^verbatim>\<open>CliConfig\<close> of \<^verbatim>\<open>sandbox/preset.h\<close>), as a chain of records in
  the order of the structure. The array \<^verbatim>\<open>binds\<close> with its counter is the list of its used
  entries, and \<^verbatim>\<open>run_argv\<close> with \<^verbatim>\<open>run_argc\<close> the list of the arguments.
\<close>

datatype BindType = BIND_RO | BIND_RW | BIND_BLACKLIST

record BindEntry =
  b_path :: string
  b_type :: BindType

definition MAX_BINDS :: nat where "MAX_BINDS = 64"
definition PRESET_PATH_MAX :: nat where "PRESET_PATH_MAX = 4096"

record cfg_ops =
  vault_id :: int
  op_ls :: bool
  op_info :: bool
  op_files :: bool
  op_status :: bool
  op_scan :: bool
  op_encrypt :: bool
  op_decrypt :: bool
  op_resolve :: bool
  op_mount :: bool
  op_umount :: bool
  op_mount_export :: bool
  op_export :: bool
  op_rm :: bool
  op_unlock :: bool
  op_passwd :: bool
  op_rule :: bool
  op_worm_status :: bool
  op_help :: bool
  op_version :: bool
  op_rename :: bool
  op_whitelist_exclude :: bool
  op_whitelist_restore :: bool
  image_url :: "string option"
  image_url_allocated :: bool
  export_file :: "string option"
  export_dest :: "string option"
  rename_to :: "string option"

record cfg_rule = cfg_ops +
  rule_max_fails :: int
  rule_hour_from :: int
  rule_hour_to :: int
  new_name :: "string option"
  new_path :: "string option"
  protected_vault :: bool
  engine_level :: int
  worm_set :: "32 word"
  worm_clear :: "32 word"
  worm_protected_scan :: bool
  run_exec :: "string option"
  run_argv :: "string list"

record cfg_iso = cfg_rule +
  iso_no_net :: bool
  iso_pivot_root :: bool
  iso_wayland :: bool
  iso_x11 :: bool
  iso_ro_home :: bool
  iso_rw_home :: bool
  iso_no_dbus :: bool
  iso_tmp_home :: bool
  iso_audit :: bool
  iso_no_proc :: bool
  iso_new_session :: bool
  iso_unshare_ipc :: bool
  iso_unshare_uts :: bool
  iso_hostname :: "string option"
  iso_profile :: "string option"

record cfg_desktop = cfg_iso +
  iso_audio :: bool
  iso_dbus_session :: bool
  iso_dbus_system :: bool
  iso_gpu :: bool
  iso_xdg_runtime :: bool
  iso_dev_level :: int
  iso_mount_dev :: bool
  iso_no_seccomp :: bool
  iso_no_landlock :: bool
  iso_landlock :: bool
  iso_use_chroot :: bool
  iso_display :: "string option"
  iso_wayland_disp :: "string option"
  iso_preset :: "string option"

record cfg_seccomp = cfg_desktop +
  seccomp_strict :: bool
  allow_clone3 :: bool
  friendly_sandbox :: bool
  permissive_sandbox :: bool
  skip_preflight :: bool
  no_fuse :: bool
  iso_net_veth :: bool
  iso_net_veth_ip :: "string option"
  iso_net_veth_gw :: "string option"
  iso_nfilter :: bool
  iso_nfilter_jail :: "string option"
  iso_uuid :: bool
  iso_init :: bool
  iso_adapter :: "string option"

record cfg_limits = cfg_seccomp +
  iso_max_procs :: int
  iso_max_mem_gb :: int
  iso_max_fsize_mb :: int
  iso_max_fds :: int
  iso_tmp_size_mb :: int
  iso_cgroup :: bool
  iso_unshare_cgroup :: bool
  iso_cgroup_name :: "string option"
  iso_cpu_shares :: int
  iso_cpu_quota_us :: int
  iso_cgroup_mem_mb :: int

record cfg_files = cfg_limits +
  op_add :: bool
  add_file :: "string option"
  add_recursive :: bool
  add_replace :: bool
  add_preserve :: bool
  op_extract :: bool
  extract_file :: "string option"
  extract_dest :: "string option"
  extract_force :: bool
  op_mv :: bool
  mv_src :: "string option"
  mv_dest :: "string option"
  op_cp :: bool
  cp_src :: "string option"
  cp_dest :: "string option"
  op_rm_file :: bool
  rm_file_target :: "string option"
  op_mkdir :: bool
  mkdir_target :: "string option"
  op_rmdir :: bool
  rmdir_target :: "string option"
  op_tree :: bool
  op_du :: bool
  op_find :: bool
  find_pattern :: "string option"

record cfg_snapshots = cfg_files +
  op_snapshot :: bool
  snapshot_tag :: "string option"
  op_snapshots :: bool
  op_snapshot_delete :: bool
  snapshot_del_tag :: "string option"
  op_snapshot_restore :: bool
  snapshot_restore_tag :: "string option"
  op_snapshot_diff :: bool
  snapshot_diff_tag1 :: "string option"
  snapshot_diff_tag2 :: "string option"

record cfg_integrity = cfg_snapshots +
  op_hash :: bool
  hash_target :: "string option"
  op_baseline :: bool
  op_verify :: bool
  op_integrity :: bool
  op_repair :: bool
  op_diff :: bool
  diff_other :: "string option"
  op_backup :: bool
  backup_out :: "string option"
  op_restore :: bool
  restore_archive :: "string option"
  op_import :: bool
  import_src :: "string option"

record cfg_keys = cfg_integrity +
  op_lock :: bool
  op_lock_status :: bool
  op_force_unlock :: bool
  op_key_info :: bool
  op_key_rotate :: bool
  key_rotate_old :: "string option"
  key_rotate_new :: "string option"
  op_rekey :: bool
  op_stats :: bool
  op_usage :: bool
  op_inspect :: bool
  inspect_target :: "string option"
  op_history :: bool
  op_events :: bool

record CliConfig = cfg_keys +
  binds :: "BindEntry list"
  verbose :: bool
  json_output :: bool
  password :: "string option"
  op_app_armor :: bool
  app_armor_target :: "string option"
  op_mac_enable :: bool
  op_disable_apparmor :: bool
  op_mac_status :: bool
  op_generate_secret :: bool
  vault_export_dest :: "string option"
  op_manual :: bool
  op_sysinfo :: bool
  sysinfo_target :: "string option"
  op_gui :: bool

text \<open>\<^verbatim>\<open>memset(cfg, 0, sizeof *cfg)\<close>.\<close>

definition zero_config :: CliConfig where
  "zero_config = \<lparr>vault_id = 0, op_ls = False, op_info = False, op_files = False, op_status = False,
     op_scan = False, op_encrypt = False, op_decrypt = False, op_resolve = False,
     op_mount = False, op_umount = False, op_mount_export = False, op_export = False,
     op_rm = False, op_unlock = False, op_passwd = False, op_rule = False,
     op_worm_status = False, op_help = False, op_version = False, op_rename = False,
     op_whitelist_exclude = False, op_whitelist_restore = False, image_url = None,
     image_url_allocated = False, export_file = None, export_dest = None, rename_to = None,
     rule_max_fails = 0, rule_hour_from = 0, rule_hour_to = 0, new_name = None, new_path = None,
     protected_vault = False, engine_level = 0, worm_set = 0, worm_clear = 0,
     worm_protected_scan = False, run_exec = None, run_argv = [], iso_no_net = False,
     iso_pivot_root = False, iso_wayland = False, iso_x11 = False, iso_ro_home = False,
     iso_rw_home = False, iso_no_dbus = False, iso_tmp_home = False, iso_audit = False,
     iso_no_proc = False, iso_new_session = False, iso_unshare_ipc = False,
     iso_unshare_uts = False, iso_hostname = None, iso_profile = None, iso_audio = False,
     iso_dbus_session = False, iso_dbus_system = False, iso_gpu = False, iso_xdg_runtime = False,
     iso_dev_level = 0, iso_mount_dev = False, iso_no_seccomp = False, iso_no_landlock = False,
     iso_landlock = False, iso_use_chroot = False, iso_display = None, iso_wayland_disp = None,
     iso_preset = None, seccomp_strict = False, allow_clone3 = False, friendly_sandbox = False,
     permissive_sandbox = False, skip_preflight = False, no_fuse = False, iso_net_veth = False,
     iso_net_veth_ip = None, iso_net_veth_gw = None, iso_nfilter = False,
     iso_nfilter_jail = None, iso_uuid = False, iso_init = False, iso_adapter = None,
     iso_max_procs = 0, iso_max_mem_gb = 0, iso_max_fsize_mb = 0, iso_max_fds = 0,
     iso_tmp_size_mb = 0, iso_cgroup = False, iso_unshare_cgroup = False, iso_cgroup_name = None,
     iso_cpu_shares = 0, iso_cpu_quota_us = 0, iso_cgroup_mem_mb = 0, op_add = False,
     add_file = None, add_recursive = False, add_replace = False, add_preserve = False,
     op_extract = False, extract_file = None, extract_dest = None, extract_force = False,
     op_mv = False, mv_src = None, mv_dest = None, op_cp = False, cp_src = None, cp_dest = None,
     op_rm_file = False, rm_file_target = None, op_mkdir = False, mkdir_target = None,
     op_rmdir = False, rmdir_target = None, op_tree = False, op_du = False, op_find = False,
     find_pattern = None, op_snapshot = False, snapshot_tag = None, op_snapshots = False,
     op_snapshot_delete = False, snapshot_del_tag = None, op_snapshot_restore = False,
     snapshot_restore_tag = None, op_snapshot_diff = False, snapshot_diff_tag1 = None,
     snapshot_diff_tag2 = None, op_hash = False, hash_target = None, op_baseline = False,
     op_verify = False, op_integrity = False, op_repair = False, op_diff = False,
     diff_other = None, op_backup = False, backup_out = None, op_restore = False,
     restore_archive = None, op_import = False, import_src = None, op_lock = False,
     op_lock_status = False, op_force_unlock = False, op_key_info = False, op_key_rotate = False,
     key_rotate_old = None, key_rotate_new = None, op_rekey = False, op_stats = False,
     op_usage = False, op_inspect = False, inspect_target = None, op_history = False,
     op_events = False, binds = [], verbose = False, json_output = False, password = None,
     op_app_armor = False, app_armor_target = None, op_mac_enable = False,
     op_disable_apparmor = False, op_mac_status = False, op_generate_secret = False,
     vault_export_dest = None, op_manual = False, op_sysinfo = False, sysinfo_target = None,
     op_gui = False\<rparr>"

end
