(* ===== verification/Net_Rules.thy ===== *)
theory Net_Rules
  imports Sandbox_State
begin

text \<open>
  The isolated network (\<^verbatim>\<open>sandbox/net.c\<close>): the veth pair, configured by shell commands that contain
  names and addresses the user chose, and the egress filter, a program for nftables written into a fixed
  buffer. Shown are that the commands contain nothing the shell interprets beyond the code's own text
  and are never cut, and that the filter program is complete, drops by default and accepts exactly the
  registered addresses.
\<close>

section \<open>Checks of names and addresses\<close>

definition prefix_char :: "char \<Rightarrow> bool" where
  "prefix_char c \<longleftrightarrow> c_isalnum c \<or> c = CHR ''.'' \<or> c = CHR ''_'' \<or> c = CHR ''-''"

definition validate_name_prefix :: "string option \<Rightarrow> bool" where
  "validate_name_prefix p = (case p of
     None \<Rightarrow> False
   | Some n \<Rightarrow> if n = [] then False
              else if \<not> list_all prefix_char n then False
              else \<not> (length n = 0 \<or> 14 < length n))"

text \<open>\<^verbatim>\<open>inet_pton(AF_INET, s)\<close>: four decimal numbers up to 255 without leading zeros.\<close>

fun split_on :: "char \<Rightarrow> string \<Rightarrow> string list" where
  "split_on d [] = [[]]"
| "split_on d (c # s) = (if c = d then [] # split_on d s
     else (case split_on d s of p # ps \<Rightarrow> (c # p) # ps | [] \<Rightarrow> [[c]]))"

definition octet :: "string \<Rightarrow> bool" where
  "octet w \<longleftrightarrow> w \<noteq> [] \<and> length w \<le> 3 \<and> list_all c_isdigit w \<and> (hd w = CHR ''0'' \<longrightarrow> length w = 1) \<and> dec_read w \<le> 255"

definition inet_pton4 :: "string \<Rightarrow> bool" where
  "inet_pton4 s \<longleftrightarrow> (let ps = split_on CHR ''.'' s in length ps = 4 \<and> list_all octet ps)"

definition NET_IFACE_NAME_MAX :: nat where "NET_IFACE_NAME_MAX = 64"
definition IP_MAX_LEN :: nat where "IP_MAX_LEN = 64"
definition MAX_ALLOWED_IPS :: nat where "MAX_ALLOWED_IPS = 64"
definition NET_CMD :: nat where "NET_CMD = 512"
definition NFT_BUF :: nat where "NFT_BUF = 4096"

section \<open>The veth pair\<close>

definition net_exec :: "host \<Rightarrow> string \<Rightarrow> int jio" where
  "net_exec H cmd = kernel H (System (cbuf NET_CMD cmd))"

definition if_name :: "string \<Rightarrow> string \<Rightarrow> string" where
  "if_name p side = cbuf NET_IFACE_NAME_MAX (p @ side)"

definition nat_rule :: "string \<Rightarrow> string \<Rightarrow> string" where
  "nat_rule gw p = ''iptables -t nat -C POSTROUTING -s '' @ gw @ ''/24 ! -o '' @ p @ ''0 -j MASQUERADE 2>/dev/null || ''
     @ ''iptables -t nat -A POSTROUTING -s '' @ gw @ ''/24 ! -o '' @ p @ ''0 -j MASQUERADE''"

definition veth_host_steps :: "host \<Rightarrow> nat \<Rightarrow> string \<Rightarrow> string \<Rightarrow> int jio" where
  "veth_host_steps H pid gw p = (let if0 = if_name p ''0''; if1 = if_name p ''1'' in do {
     net_exec H (''ip link del '' @ p @ ''0 2>/dev/null'');
     rc \<leftarrow> net_exec H (''ip link add '' @ if0 @ '' type veth peer name '' @ if1);
     if rc \<noteq> 0 then return (- 1)
     else do {
       net_exec H (''ip link set '' @ if0 @ '' up'');
       net_exec H (''ip addr add '' @ gw @ ''/24 dev '' @ if0);
       rc \<leftarrow> net_exec H (''ip link set '' @ if1 @ '' netns '' @ dec_digits pid);
       if rc \<noteq> 0 then return (- 1)
       else do {
         net_exec H ''sysctl -w net.ipv4.ip_forward=1'';
         net_exec H (nat_rule gw p);
         return 0 } } })"

definition vsb_setup_veth_host :: "host \<Rightarrow> nat \<Rightarrow> string option \<Rightarrow> string option \<Rightarrow> string option \<Rightarrow> int jio" where
  "vsb_setup_veth_host H pid jail_ip gw_ip name_prefix = (case (jail_ip, gw_ip, name_prefix) of
     (Some jail, Some gw, Some p) \<Rightarrow>
       if \<not> validate_name_prefix (Some p) then return (- 1)
       else if \<not> inet_pton4 jail \<or> \<not> inet_pton4 gw then return (- 1)
       else veth_host_steps H pid gw p
   | _ \<Rightarrow> return (- 1))"

definition vsb_net_veth_setup :: "host \<Rightarrow> nat \<Rightarrow> string option \<Rightarrow> string option \<Rightarrow> string option \<Rightarrow> int jio" where
  "vsb_net_veth_setup H pid jail_ip gw_ip name_prefix = vsb_setup_veth_host H pid jail_ip gw_ip name_prefix"

definition vsb_configure_veth_inside :: "host \<Rightarrow> string \<Rightarrow> string \<Rightarrow> string option \<Rightarrow> int jio" where
  "vsb_configure_veth_inside H jail_ip gw_ip name_prefix =
    (if \<not> validate_name_prefix name_prefix then return (- 1)
     else (let if1 = if_name (the name_prefix) ''1'' in do {
       net_exec H (''ip link set '' @ if1 @ '' up'');
       rc \<leftarrow> net_exec H (''ip addr add '' @ jail_ip @ ''/24 dev '' @ if1);
       if rc \<noteq> 0 then return (- 1)
       else do {
         rc \<leftarrow> net_exec H (''ip route add default via '' @ gw_ip @ '' dev '' @ if1);
         if rc \<noteq> 0 then return (- 1)
         else do {
           net_exec H ''ip link set lo up'';
           return 0 } } }))"

definition vsb_cleanup_veth :: "host \<Rightarrow> string option \<Rightarrow> int jio" where
  "vsb_cleanup_veth H name_prefix =
    (if \<not> validate_name_prefix name_prefix then return (- 1)
     else do { net_exec H (''ip link del '' @ the name_prefix @ ''0 2>/dev/null''); return 0 })"

section \<open>The egress filter\<close>

definition user_send_set_ip :: "string option \<Rightarrow> int jio" where
  "user_send_set_ip ip = (case ip of
     None \<Rightarrow> return (- 1)
   | Some a \<Rightarrow>
       if \<not> inet_pton4 a then return (- 1)
       else do {
         ips \<leftarrow> gets j_nf_ips;
         if MAX_ALLOWED_IPS \<le> length ips then return (- 1)
         else do { modify (\<lambda>s. s\<lparr>j_nf_ips := ips @ [cbuf IP_MAX_LEN a]\<rparr>); return 0 } })"

definition nft_header :: "string \<Rightarrow> string" where
  "nft_header j = ''add table inet '' @ j @ [CHR 0x0A] @ ''add chain inet '' @ j
     @ '' output { type filter hook output priority 0; policy drop; }'' @ [CHR 0x0A]"

definition nft_rule :: "string \<Rightarrow> string \<Rightarrow> string" where
  "nft_rule j a = ''add rule inet '' @ j @ '' output '' @ (if CHR '':'' \<in> set a then ''ip6'' else ''ip'')
     @ '' daddr '' @ a @ '' accept'' @ [CHR 0x0A]"

text \<open>The loop that appends the rules: \<open>n\<close> is \<^verbatim>\<open>buffer_length\<close>, the sum of the lengths \<^verbatim>\<open>snprintf\<close> reports,
  and \<open>b\<close> the text in the buffer.\<close>

fun nft_loop :: "string \<Rightarrow> string list \<Rightarrow> nat \<Rightarrow> string \<Rightarrow> string option" where
  "nft_loop j [] n b = Some b"
| "nft_loop j (a # as) n b = (if NFT_BUF - 128 \<le> n then None
     else nft_loop j as (n + length (nft_rule j a)) (b @ cbuf (NFT_BUF - n) (nft_rule j a)))"

definition nfilterflag :: "host \<Rightarrow> string option \<Rightarrow> int jio" where
  "nfilterflag H jail_name = (case jail_name of
     None \<Rightarrow> return (- 1)
   | Some j \<Rightarrow>
       if length j = 0 \<or> 64 < length j then return (- 1)
       else do {
         c \<leftarrow> lib_ret H;
         if c \<noteq> 0 then return (- 1)
         else do {
           ips \<leftarrow> gets j_nf_ips;
           if NFT_BUF \<le> 256 + length ips * 128 then return (- 1)
           else (case nft_loop j ips (length (nft_header j)) (cbuf NFT_BUF (nft_header j)) of
             None \<Rightarrow> return (- 1)
           | Some b \<Rightarrow> do {
               rc \<leftarrow> kernel H (Nft_run b);
               return (if rc \<noteq> 0 then - 1 else 0) }) } })"

section \<open>Lengths and characters\<close>

definition plain_char :: "char \<Rightarrow> bool" where
  "plain_char c \<longleftrightarrow> c_isalnum c \<or> c \<in> {CHR ''.'', CHR ''_'', CHR ''-''}"

lemma validate_name_prefixD:
  "validate_name_prefix (Some p) \<Longrightarrow> p \<noteq> [] \<and> length p \<le> 14 \<and> list_all plain_char p"
  by (auto simp: validate_name_prefix_def prefix_char_def plain_char_def list_all_iff split: if_splits)

lemma split_on_join: "s = concat (map (\<lambda>p. p @ [d]) (butlast (split_on d s))) @ last (split_on d s)
    \<and> split_on d s \<noteq> []"
  by (induction s) (auto split: list.splits)

lemma length_4: "length xs = 4 \<Longrightarrow> \<exists>a b c d. xs = [a, b, c, d]"
  by (auto simp: numeral_eq_Suc length_Suc_conv)

lemma inet_pton4D:
  assumes "inet_pton4 s"
  shows "length s \<le> 15" and "list_all (\<lambda>c. c_isdigit c \<or> c = CHR ''.'') s" and "CHR '':'' \<notin> set s"
proof -
  from assms obtain a b c d where sp: "split_on CHR ''.'' s = [a, b, c, d]"
    and o: "octet a" "octet b" "octet c" "octet d"
    by (auto simp: inet_pton4_def Let_def dest!: length_4)
  have s: "s = a @ ''.'' @ b @ ''.'' @ c @ ''.'' @ d"
    using split_on_join [of s "CHR ''.''"] by (simp add: sp)
  show "length s \<le> 15" using o by (simp add: s octet_def)
  show l: "list_all (\<lambda>c. c_isdigit c \<or> c = CHR ''.'') s" using o by (auto simp: s octet_def list_all_iff)
  then show "CHR '':'' \<notin> set s" by (auto simp: list_all_iff c_classes)
qed

lemma inet_pton4_plain: "inet_pton4 s \<Longrightarrow> list_all plain_char s"
  using inet_pton4D(2) by (auto simp: list_all_iff plain_char_def c_isalnum_def)

lemma cbuf_short: "length s < n \<Longrightarrow> cbuf n s = s"
  by (simp add: cbuf_def)

lemma if_name_valid: "length p \<le> 14 \<Longrightarrow> length side \<le> 1 \<Longrightarrow> if_name p side = p @ side"
  by (simp add: if_name_def cbuf_short NET_IFACE_NAME_MAX_def)

section \<open>No command can be injected\<close>

text \<open>The shell commands of the host side, written with the valid names.\<close>

definition veth_commands :: "nat \<Rightarrow> string \<Rightarrow> string \<Rightarrow> string list" where
  "veth_commands pid gw p = [
     ''ip link del '' @ p @ ''0 2>/dev/null'',
     ''ip link add '' @ p @ ''0 type veth peer name '' @ p @ ''1'',
     ''ip link set '' @ p @ ''0 up'',
     ''ip addr add '' @ gw @ ''/24 dev '' @ p @ ''0'',
     ''ip link set '' @ p @ ''1 netns '' @ dec_digits pid,
     ''sysctl -w net.ipv4.ip_forward=1'',
     nat_rule gw p]"

lemma veth_commands_short:
  assumes "length gw \<le> 15" "length p \<le> 14" "pid < 10 ^ 10" "c \<in> set (veth_commands pid gw p)"
  shows "length c < NET_CMD"
proof -
  have "length (dec_digits pid) \<le> Suc 9" by (rule length_dec_digits) (use assms(3) in simp)
  with assms(1,2,4) show ?thesis by (auto simp: veth_commands_def nat_rule_def NET_CMD_def)
qed

definition first_commands :: "nat \<Rightarrow> string \<Rightarrow> string \<Rightarrow> kcall list \<Rightarrow> bool" where
  "first_commands pid gw p ks \<longleftrightarrow> (\<exists>n \<in> {2, 5, 7}. ks = map System (take n (veth_commands pid gw p)))"

lemma wp_veth_host_steps:
  assumes "length gw \<le> 15" "length p \<le> 14" "pid < 10 ^ 10"
  shows "wp (veth_host_steps H pid gw p) (\<lambda>rc u. \<exists>ks. made ks s u \<and> first_commands pid gw p ks
      \<and> (rc = 0 \<longrightarrow> length ks = 7)) s"
proof -
  have cut: "cbuf NET_CMD c = c" if "c \<in> set (veth_commands pid gw p)" for c
    using cbuf_short veth_commands_short [OF assms that] .
  show ?thesis
    using assms by (auto simp: veth_host_steps_def net_exec_def wp_simps Let_def if_name_valid made_def
        first_commands_def veth_commands_def cut)
qed

text \<open>C32: setting up the host side of the isolated network either runs nothing and fails, or runs a
  prefix of the seven fixed commands, uncut, with an interface name and an address made of letters, digits,
  dots, dashes and underscores only, so that nothing the user chose is interpreted by the shell; success
  means that all seven were run.\<close>

theorem veth_commands_clean:
  assumes "run_state (vsb_setup_veth_host H pid jail gw p) s = (rc, u)" and "pid < 10 ^ 10"
  shows "made [] s u \<and> rc = - 1 \<or>
    (\<exists>g n ks. gw = Some g \<and> p = Some n \<and> list_all plain_char n \<and> list_all plain_char g \<and> made ks s u
       \<and> first_commands pid g n ks \<and> (\<forall>c. System c \<in> set ks \<longrightarrow> length c < NET_CMD) \<and> (rc = 0 \<longrightarrow> length ks = 7))"
proof (cases "\<exists>g n j. gw = Some g \<and> p = Some n \<and> jail = Some j \<and> validate_name_prefix p \<and> inet_pton4 j \<and> inet_pton4 g")
  case True
  then obtain g n where v: "gw = Some g" "p = Some n" "validate_name_prefix (Some n)" "inet_pton4 g"
    and m: "vsb_setup_veth_host H pid jail gw p = veth_host_steps H pid g n"
    by (auto simp: vsb_setup_veth_host_def)
  note n = validate_name_prefixD [OF v(3)]
  obtain ks where ks: "made ks s u" "first_commands pid g n ks" "rc = 0 \<longrightarrow> length ks = 7"
    using wpD [OF wp_veth_host_steps [OF inet_pton4D(1) [OF v(4)] _ assms(2)] assms(1) [unfolded m]] n by blast
  have "\<forall>c. System c \<in> set ks \<longrightarrow> length c < NET_CMD"
    using ks(2) veth_commands_short [OF inet_pton4D(1) [OF v(4)] conjunct1 [OF conjunct2 [OF n]] assms(2)]
    by (auto simp: first_commands_def dest!: in_set_takeD)
  with ks v(1,2) n inet_pton4_plain [OF v(4)] show ?thesis by blast
next
  case False
  then have "vsb_setup_veth_host H pid jail gw p = return (- 1)"
    by (auto simp: vsb_setup_veth_host_def split: option.splits)
  with assms(1) show ?thesis by simp
qed

lemma ex_inet [simp]: "inet_pton4 ''10.0.0.2''" "inet_pton4 ''10.0.0.3''" "validate_name_prefix (Some ''nuk4sd'')"
  by code_simp+

theorem veth_commands_clean_witness:
  "\<exists>ks. made ks ex_jail (snd (run_state (vsb_setup_veth_host ex_host 42 (Some ''10.0.0.3'') (Some ''10.0.0.2'')
      (Some ''nuk4sd'')) ex_jail)) \<and> first_commands 42 ''10.0.0.2'' ''nuk4sd'' ks \<and> length ks = 7"
proof -
  let ?r = "run_state (vsb_setup_veth_host ex_host 42 (Some ''10.0.0.3'') (Some ''10.0.0.2'') (Some ''nuk4sd'')) ex_jail"
  have "wp (vsb_setup_veth_host ex_host 42 (Some ''10.0.0.3'') (Some ''10.0.0.2'') (Some ''nuk4sd'')) (\<lambda>rc _. rc = 0) ex_jail"
    by (simp add: vsb_setup_veth_host_def veth_host_steps_def net_exec_def wp_simps Let_def)
  then have "fst ?r = 0" by (simp add: wp_def split: prod.splits)
  then show ?thesis
    using veth_commands_clean [of ex_host 42 "Some ''10.0.0.3''" "Some ''10.0.0.2''" "Some ''nuk4sd''" ex_jail "fst ?r" "snd ?r",
        OF surjective_pairing] by auto
qed

text \<open>The jail side does not look at the addresses: called with anything else than addresses, it hands
  them to the shell. It relies on the host side having been called with the same arguments.\<close>

lemma configure_trusts_addresses:
  assumes "validate_name_prefix (Some p)" and "length ip \<le> 400"
  shows "wp (vsb_configure_veth_inside H ip gw (Some p))
     (\<lambda>_ u. System (''ip addr add '' @ ip @ ''/24 dev '' @ p @ ''1'') \<in> fst ` set (j_trace u)) s"
  using validate_name_prefixD [OF assms(1)] assms
  by (simp add: vsb_configure_veth_inside_def net_exec_def wp_simps Let_def if_name_valid cbuf_short NET_CMD_def image_Un)

section \<open>The filter program\<close>

definition nf_ok :: "jail \<Rightarrow> bool" where
  "nf_ok s \<longleftrightarrow> length (j_nf_ips s) \<le> MAX_ALLOWED_IPS \<and> list_all inet_pton4 (j_nf_ips s)"

lemma send_keeps_nf_ok: "preserves nf_ok (user_send_set_ip ip)"
proof (rule preservesI)
  fix s assume s: "nf_ok s"
  have "cbuf IP_MAX_LEN a = a" if "inet_pton4 a" for a
    using inet_pton4D(1) [OF that] by (simp add: cbuf_def IP_MAX_LEN_def)
  with s show "wp (user_send_set_ip ip) (\<lambda>_. nf_ok) s"
    by (auto simp: user_send_set_ip_def wp_simps nf_ok_def split: option.split)
qed

lemma length_nft_rule: "inet_pton4 a \<Longrightarrow> length j \<le> 64 \<Longrightarrow> length (nft_rule j a) \<le> 118"
  using inet_pton4D(1,3) [of a] by (simp add: nft_rule_def)

lemma length_nft_header: "length j \<le> 64 \<Longrightarrow> length (nft_header j) \<le> 256"
  by (simp add: nft_header_def)

lemma nft_loop_complete:
  assumes "list_all inet_pton4 as" "length j \<le> 64" "n + 118 * length as \<le> NFT_BUF - 128"
  shows "nft_loop j as n b = Some (b @ concat (map (nft_rule j) as))"
  using assms
proof (induction as arbitrary: n b)
  case (Cons a as)
  then have l: "length (nft_rule j a) \<le> 118" by (simp add: length_nft_rule)
  with Cons.prems(3) have "cbuf (NFT_BUF - n) (nft_rule j a) = nft_rule j a"
    by (intro cbuf_short) (simp add: NFT_BUF_def)
  with Cons l show ?case by simp
qed simp

text \<open>the egress filter either fails without running anything, which is what happens with thirty
  or more registered addresses although sixty-four can be registered, or it runs one program that is not
  cut: a chain that drops by default, followed by exactly one accepting rule for each registered address
  in their order.\<close>

theorem nfilter_program_complete:
  assumes "run_state (nfilterflag H (Some j)) s = (rc, u)" and "nf_ok s"
  shows "(if length j \<in> {1..64} \<and> length (j_nf_ips s) < 30 \<and> h_ret H (o_tick s) = 0
     then made [Nft_run (nft_header j @ concat (map (nft_rule j) (j_nf_ips s)))] s u
        \<and> length (nft_header j @ concat (map (nft_rule j) (j_nf_ips s))) < NFT_BUF
     else made [] s u \<and> rc = - 1)"
proof -
  let ?ips = "j_nf_ips s"
  have loop: "nft_loop j ?ips (length (nft_header j)) (cbuf NFT_BUF (nft_header j))
      = Some (nft_header j @ concat (map (nft_rule j) ?ips))"
    and len: "length (nft_header j @ concat (map (nft_rule j) ?ips)) < NFT_BUF"
    if "length j \<le> 64" "length ?ips < 30"
  proof -
    have h: "length (nft_header j) \<le> 256" by (rule length_nft_header [OF that(1)])
    then have "cbuf NFT_BUF (nft_header j) = nft_header j" by (simp add: cbuf_def NFT_BUF_def)
    then show "nft_loop j ?ips (length (nft_header j)) (cbuf NFT_BUF (nft_header j))
        = Some (nft_header j @ concat (map (nft_rule j) ?ips))"
      using nft_loop_complete [of ?ips j] assms(2) that h by (simp add: nf_ok_def NFT_BUF_def)
    have "length (concat (map (nft_rule j) as)) \<le> 118 * length as" if "list_all inet_pton4 as" for as
      using that length_nft_rule [OF _ \<open>length j \<le> 64\<close>] by (induction as) (auto intro: add_mono)
    with assms(2) have "length (concat (map (nft_rule j) ?ips)) \<le> 118 * length ?ips" by (simp add: nf_ok_def)
    with h that show "length (nft_header j @ concat (map (nft_rule j) ?ips)) < NFT_BUF" by (simp add: NFT_BUF_def)
  qed
  have big: "NFT_BUF \<le> 256 + length ?ips * 128 \<longleftrightarrow> \<not> length ?ips < 30" by (auto simp: NFT_BUF_def)
  have "wp (nfilterflag H (Some j)) (\<lambda>rc u. if length j \<in> {1..64} \<and> length ?ips < 30 \<and> h_ret H (o_tick s) = 0
     then made [Nft_run (nft_header j @ concat (map (nft_rule j) ?ips))] s u else made [] s u \<and> rc = - 1) s"
    using loop by (cases j) (auto simp: nfilterflag_def wp_simps big made_def split: option.split)
  from wpD [OF this assms(1)] len show ?thesis by auto
qed

theorem nfilter_program_complete_witness:
  "made [Nft_run (nft_header ''web'' @ nft_rule ''web'' ''10.0.0.2'')] (ex_jail\<lparr>j_nf_ips := [''10.0.0.2'']\<rparr>)
     (snd (run_state (nfilterflag ex_host (Some ''web'')) (ex_jail\<lparr>j_nf_ips := [''10.0.0.2'']\<rparr>)))"
  using nfilter_program_complete [of ex_host "''web''" "ex_jail\<lparr>j_nf_ips := [''10.0.0.2'']\<rparr>", OF surjective_pairing]
  by (simp add: nf_ok_def MAX_ALLOWED_IPS_def)

end
