(* ===== verification/Cli_Config.thy ===== *)
theory Cli_Config
  imports Cli_Record Net_Rules
begin

text \<open>
  The helpers that fill the configuration of the command line (\<^verbatim>\<open>cli/vault_cli.c\<close>): integer arguments,
  directories and home expansion, profile files and presets.
\<close>

section \<open>Integer arguments and paths\<close>

text \<open>\<open>None\<close>: the error flag was set.\<close>

definition parse_int_arg :: "string \<Rightarrow> int \<Rightarrow> int \<Rightarrow> int option" where
  "parse_int_arg s lo hi = (case strtol s of (v, rest, erange) \<Rightarrow>
     if erange \<or> rest = s \<or> rest \<noteq> [] then None
     else if v < lo \<or> hi < v then None
     else Some v)"

definition mkdir_ok :: "host \<Rightarrow> string \<Rightarrow> 32 word \<Rightarrow> bool jio" where
  "mkdir_ok H p m = do {
     r \<leftarrow> sys_mkdir (h_os H) p m;
     return (case r of Inr _ \<Rightarrow> True | Inl e \<Rightarrow> e = EEXIST) }"

text \<open>The prefixes of a path that end before one of its slashes, except the first character.\<close>

definition cut_points :: "string \<Rightarrow> string list" where
  "cut_points p = map (\<lambda>i. take i p) (filter (\<lambda>i. p ! i = CHR ''/'') [1..<length p])"

definition strip_slash :: "string \<Rightarrow> string" where
  "strip_slash p = (if p \<noteq> [] \<and> last p = CHR ''/'' then butlast p else p)"

definition cli_mkdir_p :: "host \<Rightarrow> string \<Rightarrow> 32 word \<Rightarrow> int jio" where
  "cli_mkdir_p H path mode =
    (if length path = 0 \<or> PATH_MAX \<le> length path then return (- 1)
     else do {
       let tmp = strip_slash path;
       ok \<leftarrow> all_ok (cut_points tmp) (\<lambda>d. mkdir_ok H d mode);
       if \<not> ok then return (- 1)
       else do {
         ok \<leftarrow> mkdir_ok H tmp mode;
         return (if ok then 0 else - 1) } })"

definition cli_expand_tilde :: "host \<Rightarrow> string \<Rightarrow> nat \<Rightarrow> string jio" where
  "cli_expand_tilde H inp out_sz = (case inp of
     c # r \<Rightarrow>
       if c \<noteq> CHR ''~'' \<or> (r \<noteq> [] \<and> hd r \<noteq> CHR ''/'') then return (cbuf out_sz inp)
       else do {
         e \<leftarrow> getenv H ''HOME'';
         let home = (case e of Some h \<Rightarrow> if h = [] then h_pwdir H (e_uid (h_os H)) else Some h
             | None \<Rightarrow> h_pwdir H (e_uid (h_os H)));
         case home of
           None \<Rightarrow> return (cbuf out_sz inp)
         | Some h \<Rightarrow> return (if r = [] then cbuf out_sz h else cbuf out_sz (h @ r)) }
   | [] \<Rightarrow> return (cbuf out_sz inp))"

text \<open>The path is looked up, and its parents while it does not exist; every round shortens the path.\<close>

fun probe_loop :: "nat \<Rightarrow> host \<Rightarrow> fs \<Rightarrow> string \<Rightarrow> string option" where
  "probe_loop 0 H f p = None"
| "probe_loop (Suc k) H f p = (case e_realpath (h_os H) f p of
     Some r \<Rightarrow> Some r
   | None \<Rightarrow> (case before_last CHR ''/'' p of
       None \<Rightarrow> None
     | Some q \<Rightarrow> if q = [] then None else probe_loop k H f q))"

definition bind_path_is_safe :: "host \<Rightarrow> string \<Rightarrow> string \<Rightarrow> bool jio" where
  "bind_path_is_safe H vault_path dst = do {
     f \<leftarrow> gets o_fs;
     return (case e_realpath (h_os H) f vault_path of
       None \<Rightarrow> False
     | Some v \<Rightarrow> (case probe_loop (Suc (length dst)) H f (cbuf PATH_MAX dst) of
         None \<Rightarrow> False
       | Some r \<Rightarrow> take (length v) r = v \<and> (length r = length v \<or> r ! length v = CHR ''/''))) }"

section \<open>Profile files\<close>

definition add_bind :: "host \<Rightarrow> BindType \<Rightarrow> string \<Rightarrow> CliConfig \<Rightarrow> CliConfig jio" where
  "add_bind H ty arg c = (if length (binds c) < MAX_BINDS then do {
       p \<leftarrow> cli_expand_tilde H arg PRESET_PATH_MAX;
       return (c\<lparr>binds := binds c @ [\<lparr>b_path = p, b_type = ty\<rparr>]\<rparr>) }
     else return c)"

definition default_to :: "string \<Rightarrow> string option \<Rightarrow> string option" where
  "default_to d x = (case x of None \<Rightarrow> Some d | Some y \<Rightarrow> Some y)"

definition default_jail :: string where "default_jail = ''nuk4sd_jail''"

definition profile_flags :: "(string \<times> (CliConfig \<Rightarrow> CliConfig)) list" where
  "profile_flags = [
     (''--no-net'', iso_no_net_update (\<lambda>_. True)),
     (''--wayland'', iso_wayland_update (\<lambda>_. True)),
     (''--x11'', iso_x11_update (\<lambda>_. True)),
     (''--ro-home'', iso_ro_home_update (\<lambda>_. True)),
     (''--rw-home'', iso_rw_home_update (\<lambda>_. True)),
     (''--no-dbus'', iso_no_dbus_update (\<lambda>_. True)),
     (''--tmp-home'', iso_tmp_home_update (\<lambda>_. True)),
     (''--audit'', iso_audit_update (\<lambda>_. True)),
     (''--no-proc'', iso_no_proc_update (\<lambda>_. True)),
     (''--new-session'', iso_new_session_update (\<lambda>_. True)),
     (''--unshare-ipc'', iso_unshare_ipc_update (\<lambda>_. True)),
     (''--unshare-uts'', iso_unshare_uts_update (\<lambda>_. True)),
     (''--uuid'', iso_uuid_update (\<lambda>_. True)),
     (''--init'', \<lambda>c. c\<lparr>iso_init := True, iso_uuid := True\<rparr>),
     (''--mount-dev'', iso_mount_dev_update (\<lambda>_. True)),
     (''--net-veth'', \<lambda>c. c\<lparr>iso_net_veth := True,
        iso_net_veth_ip := default_to ''10.0.0.3'' (iso_net_veth_ip c),
        iso_net_veth_gw := default_to ''10.0.0.2'' (iso_net_veth_gw c)\<rparr>),
     (''--nfilter'', \<lambda>c. c\<lparr>iso_nfilter := True,
        iso_nfilter_jail := default_to default_jail (iso_nfilter_jail c)\<rparr>),
     (''--cgroup'', \<lambda>c. c\<lparr>iso_cgroup := True, iso_unshare_cgroup := True\<rparr>),
     (''--audio'', iso_audio_update (\<lambda>_. True)),
     (''--gpu'', iso_gpu_update (\<lambda>_. True)),
     (''--xdg-runtime'', iso_xdg_runtime_update (\<lambda>_. True)),
     (''--no-seccomp'', iso_no_seccomp_update (\<lambda>_. True)),
     (''--no-landlock'', iso_no_landlock_update (\<lambda>_. True)),
     (''--landlock'', iso_landlock_update (\<lambda>_. True)),
     (''--seccomp-strict'', seccomp_strict_update (\<lambda>_. True)),
     (''-q'', seccomp_strict_update (\<lambda>_. True)),
     (''--allow-clone3'', allow_clone3_update (\<lambda>_. True)),
     (''-k'', allow_clone3_update (\<lambda>_. True)),
     (''--friendly-sandbox'', friendly_sandbox_update (\<lambda>_. True)),
     (''--permissive'', permissive_sandbox_update (\<lambda>_. True)),
     (''--chroot'', iso_use_chroot_update (\<lambda>_. True)),
     (''--no-fuse'', no_fuse_update (\<lambda>_. True)),
     (''--no-preflight'', skip_preflight_update (\<lambda>_. True))]"

definition profile_args :: "(string \<times> (string \<Rightarrow> CliConfig \<Rightarrow> CliConfig)) list" where
  "profile_args = [
     (''--adapter '', \<lambda>a. iso_adapter_update (\<lambda>_. Some a)),
     (''--cgroup-name '', \<lambda>a c. c\<lparr>iso_cgroup := True, iso_cgroup_name := Some a\<rparr>),
     (''--cpu-shares '', \<lambda>a c. c\<lparr>iso_cgroup := True, iso_cpu_shares := atoi a\<rparr>),
     (''--cpu-quota '', \<lambda>a c. c\<lparr>iso_cgroup := True, iso_cpu_quota_us := atoi a\<rparr>),
     (''--cgroup-mem '', \<lambda>a c. c\<lparr>iso_cgroup := True, iso_cgroup_mem_mb := atoi a\<rparr>),
     (''--dev '', \<lambda>a. iso_dev_level_update (\<lambda>_. atoi a)),
     (''--preset '', \<lambda>a. iso_preset_update (\<lambda>_. Some a)),
     (''--display '', \<lambda>a. iso_display_update (\<lambda>_. Some a)),
     (''--wayland-display '', \<lambda>a. iso_wayland_disp_update (\<lambda>_. Some a)),
     (''--hostname '', \<lambda>a. iso_hostname_update (\<lambda>_. Some a)),
     (''--max-procs '', \<lambda>a. iso_max_procs_update (\<lambda>_. atoi a)),
     (''--max-mem '', \<lambda>a. iso_max_mem_gb_update (\<lambda>_. atoi a)),
     (''--max-filesize '', \<lambda>a. iso_max_fsize_mb_update (\<lambda>_. atoi a)),
     (''--max-fds '', \<lambda>a. iso_max_fds_update (\<lambda>_. atoi a)),
     (''--tmp-size '', \<lambda>a. iso_tmp_size_mb_update (\<lambda>_. atoi a))]"

definition profile_binds :: "(string \<times> BindType) list" where
  "profile_binds = [(''--ro '', BIND_RO), (''--rw '', BIND_RW), (''--blacklist '', BIND_BLACKLIST)]"

text \<open>The first entry whose key begins the line, with the rest of the line.\<close>

definition find_prefix :: "(string \<times> 'a) list \<Rightarrow> string \<Rightarrow> (string \<times> 'a) option" where
  "find_prefix t p = map_option (\<lambda>(k, x). (drop (length k) p, x)) (find (\<lambda>(k, x). prefix k p) t)"

text \<open>Line \<open>p\<close> after the comment and the leading blanks are gone; an unknown one is reported and skipped.\<close>

definition profile_line :: "host \<Rightarrow> CliConfig \<Rightarrow> string \<Rightarrow> CliConfig jio" where
  "profile_line H c p = (if p = [] then return c else case map_of profile_flags p of
     Some f \<Rightarrow> return (f c)
   | None \<Rightarrow> (case find_prefix profile_args p of
       Some (a, f) \<Rightarrow> return (f a c)
     | None \<Rightarrow> (case find_prefix profile_binds p of
         Some (a, ty) \<Rightarrow> add_bind H ty a c
       | None \<Rightarrow> return c)))"

definition clean_line :: "string \<Rightarrow> string" where
  "clean_line l = takeWhile (\<lambda>x. x \<noteq> CHR 0x0D \<and> x \<noteq> CHR 0x0A)
     (dropWhile (\<lambda>x. x = CHR '' '' \<or> x = CHR 0x09) (takeWhile (\<lambda>x. x \<noteq> CHR ''#'') (cstr l)))"

definition load_profile :: "host \<Rightarrow> CliConfig \<Rightarrow> string \<Rightarrow> CliConfig jio" where
  "load_profile H c path = do {
     ls \<leftarrow> read_lines H path 512;
     case ls of
       None \<Rightarrow> return c
     | Some ls \<Rightarrow> fold_io (\<lambda>l c. profile_line H c (clean_line l)) ls c }"

section \<open>Presets\<close>

definition set_dev_level :: "int \<Rightarrow> CliConfig \<Rightarrow> CliConfig" where
  "set_dev_level d c = (if iso_dev_level c = 0 then c\<lparr>iso_dev_level := d\<rparr> else c)"

definition desktop :: "CliConfig \<Rightarrow> CliConfig" where
  "desktop c = c\<lparr>iso_wayland := True, iso_x11 := True, iso_dbus_session := True, iso_xdg_runtime := True,
     iso_rw_home := True\<rparr>"

definition apply_preset :: "host \<Rightarrow> string \<Rightarrow> CliConfig \<Rightarrow> CliConfig jio" where
  "apply_preset H p c =
    (if p = ''firefox'' \<or> p = ''browser'' \<or> p = ''flameshot'' then do {
       setenv H ''MOZ_WEBRENDER'' ''software'' False;
       setenv H ''LIBGL_ALWAYS_SOFTWARE'' ''1'' False;
       return (set_dev_level 2 ((desktop c)\<lparr>iso_audio := True, iso_gpu := True, permissive_sandbox := True\<rparr>)) }
     else if p = ''office'' \<or> p = ''evince'' \<or> p = ''gnome-calculator'' \<or> p = ''nautilus'' then
       return (set_dev_level 1 ((desktop c)\<lparr>iso_audio := True\<rparr>))
     else if p = ''dev'' \<or> p = ''code'' \<or> p = ''gedit'' then return (set_dev_level 1 (desktop c))
     else if p = ''media'' \<or> p = ''celluloid'' \<or> p = ''hypnotix'' then
       return (set_dev_level 2 ((desktop c)\<lparr>iso_audio := True, iso_gpu := True\<rparr>))
     else if p = ''nuk4sd-gui'' then
       return (set_dev_level 2 ((desktop c)\<lparr>iso_gpu := True, permissive_sandbox := True\<rparr>))
     else return c)"

end
