(* ===== verification/Health_Check.thy ===== *)
theory Health_Check
  imports Sandbox_State
begin

text \<open>
  The inspector of a running sandbox (\<^verbatim>\<open>vault/vault_health.c\<close>): fields of \<^verbatim>\<open>/proc/<pid>/status\<close>, the
  namespace inodes compared with those of process 1, the verdict and the report in JSON. The inode
  numbers and the link \<^verbatim>\<open>exe\<close> are answers of the kernel (\<open>h_stat_ino\<close>, \<open>h_readlink\<close>).
\<close>

definition proc_path :: "int \<Rightarrow> string \<Rightarrow> string" where
  "proc_path pid sub = ''/proc/'' @ int_text pid @ sub"

text \<open>The value of the first line that begins with the name of the field and has a colon.\<close>

definition field_value :: "string \<Rightarrow> string \<Rightarrow> string option" where
  "field_value field l = (if prefix field l \<and> CHR '':'' \<in> set l
     then Some (rev (dropWhile (\<lambda>c. c = CHR 0x0A \<or> c = CHR 0x0D)
            (rev (dropWhile (\<lambda>c. c = CHR 0x09 \<or> c = CHR '' '') (drop 1 (dropWhile (\<lambda>c. c \<noteq> CHR '':'') l))))))
     else None)"

fun find_field :: "string \<Rightarrow> string list \<Rightarrow> string option" where
  "find_field field [] = None"
| "find_field field (l # ls) = (case field_value field l of Some v \<Rightarrow> Some v | None \<Rightarrow> find_field field ls)"

definition read_status_field :: "host \<Rightarrow> int \<Rightarrow> string \<Rightarrow> nat \<Rightarrow> string option jio" where
  "read_status_field H pid field outsz = do {
     ls \<leftarrow> read_lines H (cbuf 256 (proc_path pid ''/status'')) 256;
     return (case ls of None \<Rightarrow> None | Some ls \<Rightarrow> map_option (cbuf outsz) (find_field field (map cstr ls))) }"

definition read_ns_inode :: "host \<Rightarrow> int \<Rightarrow> string \<Rightarrow> nat" where
  "read_ns_inode H pid ns = (case h_stat_ino H (cbuf 256 (proc_path pid (''/ns/'' @ ns))) of
     None \<Rightarrow> 0 | Some i \<Rightarrow> i)"

definition read_exe :: "host \<Rightarrow> int \<Rightarrow> nat \<Rightarrow> string" where
  "read_exe H pid outsz = (case h_readlink H (cbuf 64 (proc_path pid ''/exe'')) of
     Some l \<Rightarrow> if l = [] then cbuf outsz ''(unknown)'' else cstr (take (outsz - 1) l)
   | None \<Rightarrow> cbuf outsz ''(unknown)'')"

fun json_body :: "string \<Rightarrow> string" where
  "json_body [] = []"
| "json_body (c # s) = (if c = DQUOTE then [BACKSLASH, DQUOTE] else if c = BACKSLASH then [BACKSLASH, BACKSLASH]
     else if c = NL then [BACKSLASH, CHR ''n''] else [c]) @ json_body s"

definition json_str :: "string \<Rightarrow> string" where
  "json_str s = DQUOTE # json_body s @ [DQUOTE]"

text \<open>The facts the verdict rests on.\<close>

record health =
  hc_caps_eff :: string
  hc_caps_dropped :: bool
  hc_no_new_privs :: bool
  hc_seccomp :: int
  hc_ns :: "string \<Rightarrow> bool"
  hc_exe :: string

definition ns_isolated :: "host \<Rightarrow> int \<Rightarrow> string \<Rightarrow> bool" where
  "ns_isolated H pid ns = (let a = read_ns_inode H 1 ns; b = read_ns_inode H pid ns in a \<noteq> 0 \<and> b \<noteq> 0 \<and> a \<noteq> b)"

definition health_facts :: "host \<Rightarrow> int \<Rightarrow> health jio" where
  "health_facts H pid = do {
     caps \<leftarrow> read_status_field H pid ''CapEff'' 32;
     nnp \<leftarrow> read_status_field H pid ''NoNewPrivs'' 8;
     sec \<leftarrow> read_status_field H pid ''Seccomp'' 8;
     let unknown = (\<lambda>v. case v of Some x \<Rightarrow> x | None \<Rightarrow> ''?'');
     return \<lparr>hc_caps_eff = unknown caps, hc_caps_dropped = (unknown caps = ''0000000000000000''),
       hc_no_new_privs = (atoi (unknown nnp) = 1), hc_seccomp = atoi (unknown sec),
       hc_ns = ns_isolated H pid, hc_exe = read_exe H pid 4096\<rparr> }"

definition seccomp_label :: "int \<Rightarrow> string" where
  "seccomp_label v = (if v = 0 then ''disabled'' else if v = 1 then ''strict'' else if v = 2 then ''filter''
     else ''unknown'')"

definition health_issues :: "health \<Rightarrow> string list" where
  "health_issues h = map snd (filter fst [
     (\<not> hc_caps_dropped h, ''capabilities not fully dropped''),
     (\<not> hc_no_new_privs h, ''NO_NEW_PRIVS not set '' @ [CHR 0xE2, CHR 0x80, CHR 0x94] @ '' execve() can escalate''),
     (hc_seccomp h = 0, ''seccomp disabled '' @ [CHR 0xE2, CHR 0x80, CHR 0x94] @ '' all syscalls allowed''),
     (\<not> hc_ns h ''user'', ''no user namespace '' @ [CHR 0xE2, CHR 0x80, CHR 0x94] @ '' running in host UID space''),
     (\<not> hc_ns h ''mnt'', ''no mount namespace '' @ [CHR 0xE2, CHR 0x80, CHR 0x94] @ '' host filesystem visible''),
     (\<not> hc_ns h ''net'', ''no network namespace '' @ [CHR 0xE2, CHR 0x80, CHR 0x94] @ '' full host network access''),
     (\<not> hc_ns h ''pid'', ''no PID namespace '' @ [CHR 0xE2, CHR 0x80, CHR 0x94] @ '' can see all host processes'')])"

definition health_score :: "health \<Rightarrow> nat" where
  "health_score h = of_bool (hc_caps_dropped h) + of_bool (hc_no_new_privs h) + of_bool (0 < hc_seccomp h)
     + of_bool (hc_ns h ''mnt'') + of_bool (hc_ns h ''user'') + of_bool (hc_ns h ''net'')"

definition verdict :: "health \<Rightarrow> string" where
  "verdict h = (if health_score h = 6 then ''isolated'' else if 3 \<le> health_score h then ''partial'' else ''exposed'')"

definition bool_text :: "bool \<Rightarrow> string" where
  "bool_text b = (if b then ''true'' else ''false'')"

definition json_field :: "string \<Rightarrow> string \<Rightarrow> string" where
  "json_field k v = '' '' @ '' '' @ [DQUOTE] @ k @ [DQUOTE] @ '': '' @ v"

definition join_with :: "string \<Rightarrow> string list \<Rightarrow> string" where
  "join_with sep xs = (case xs of [] \<Rightarrow> [] | x # r \<Rightarrow> x @ concat (map (\<lambda>y. sep @ y) r))"

definition health_fields :: "int \<Rightarrow> health \<Rightarrow> (string \<times> string) list" where
  "health_fields pid h = [
     (''pid'', int_text pid), (''exe'', json_str (hc_exe h)), (''caps_effective'', json_str (hc_caps_eff h)),
     (''caps_dropped'', bool_text (hc_caps_dropped h)), (''no_new_privs'', bool_text (hc_no_new_privs h)),
     (''seccomp'', int_text (hc_seccomp h)), (''seccomp_label'', json_str (seccomp_label (hc_seccomp h))),
     (''ns_user_isolated'', bool_text (hc_ns h ''user'')), (''ns_mnt_isolated'', bool_text (hc_ns h ''mnt'')),
     (''ns_net_isolated'', bool_text (hc_ns h ''net'')), (''ns_pid_isolated'', bool_text (hc_ns h ''pid'')),
     (''ns_ipc_isolated'', bool_text (hc_ns h ''ipc'')), (''ns_uts_isolated'', bool_text (hc_ns h ''uts'')),
     (''verdict'', json_str (verdict h)),
     (''issues'', ''['' @ join_with '', '' (map json_str (health_issues h)) @ '']'')]"

definition health_report :: "int \<Rightarrow> health \<Rightarrow> string" where
  "health_report pid h = ''{'' @ [NL]
     @ join_with ('','' @ [NL]) (map (\<lambda>(k, v). json_field k v) (health_fields pid h)) @ [NL] @ ''}'' @ [NL]"

text \<open>The result and what is printed to the standard output.\<close>

definition sandbox_health_check :: "host \<Rightarrow> int \<Rightarrow> (int \<times> string) jio" where
  "sandbox_health_check H pid = (case h_stat_ino H (cbuf 64 (proc_path pid [])) of
     None \<Rightarrow> return (1, [])
   | Some _ \<Rightarrow> do { h \<leftarrow> health_facts H pid; return (0, health_report pid h) })"

section \<open>Properties\<close>

lemma unescape_json_body: "unescape (json_body s @ DQUOTE # r) = s"
proof (induction s)
  case Nil
  then show ?case by (cases r) (simp_all add: unescape.simps(3))
next
  case (Cons c s)
  have q: "unescape (BACKSLASH # DQUOTE # t) = DQUOTE # unescape t" "unescape (BACKSLASH # BACKSLASH # t) = BACKSLASH # unescape t"
    "unescape (BACKSLASH # CHR ''n'' # t) = NL # unescape t" for t
    using escape_of_Some [of DQUOTE DQUOTE t] escape_of_Some [of BACKSLASH BACKSLASH t] escape_of_Some [of NL "CHR ''n''" t]
    by (simp_all add: escape_of_def)
  show ?case using Cons by (auto simp: q unescape_plain)
qed

lemma json_str_reads_back [simp]: "unescape (drop (Suc 0) (json_str s)) = s"
  by (simp add: json_str_def unescape_json_body)

lemma verdict_isolated_iff: "verdict h = ''isolated'' \<longleftrightarrow> hc_caps_dropped h \<and> hc_no_new_privs h \<and> 0 < hc_seccomp h
    \<and> hc_ns h ''mnt'' \<and> hc_ns h ''user'' \<and> hc_ns h ''net''"
  by (auto simp: verdict_def health_score_def of_bool_def split: if_splits)

lemma wp_health_facts: "wp (health_facts H pid) (\<lambda>h _. hc_ns h = ns_isolated H pid
    \<and> (hc_caps_dropped h \<longrightarrow> hc_caps_eff h = ''0000000000000000'')) s"
  by (simp add: health_facts_def wp_simps Let_def wp_bind [of "read_status_field _ _ _ _"])
     (auto intro!: wpI simp: wp_simps)

text \<open>the inspector reports the verdict isolated exactly when no capability is effective, no new
  privileges can be gained, a system call filter is on, and the user, mount and network namespaces are
  known to differ from those of process 1; a namespace that cannot be read never counts as isolated. The
  only issue an isolated process can still have is that it shares the process namespace. The text of a
  field cannot end its JSON string.\<close>

theorem health_verdict_sound:
  assumes "run_state (sandbox_health_check H pid) s = ((rc, out), u)"
  shows "(rc = 0 \<longleftrightarrow> h_stat_ino H (cbuf 64 (proc_path pid [])) \<noteq> None) \<and>
    (rc = 0 \<longrightarrow> (\<exists>h. out = health_report pid h \<and>
       (verdict h = ''isolated'' \<longleftrightarrow> hc_caps_dropped h \<and> hc_no_new_privs h \<and> 0 < hc_seccomp h
          \<and> ns_isolated H pid ''mnt'' \<and> ns_isolated H pid ''user'' \<and> ns_isolated H pid ''net'') \<and>
       (hc_caps_dropped h \<longrightarrow> hc_caps_eff h = ''0000000000000000'') \<and>
       (verdict h = ''isolated'' \<longrightarrow> length (health_issues h) = of_bool (\<not> ns_isolated H pid ''pid'')) \<and>
       unescape (drop 1 (json_str (hc_exe h))) = hc_exe h))"
proof (cases "h_stat_ino H (cbuf 64 (proc_path pid []))")
  case None
  with assms show ?thesis by (auto simp: sandbox_health_check_def)
next
  case (Some i)
  let ?Q = "\<lambda>r _. fst r = 0 \<and> (\<exists>h. snd r = health_report pid h \<and> hc_ns h = ns_isolated H pid
      \<and> (hc_caps_dropped h \<longrightarrow> hc_caps_eff h = ''0000000000000000''))"
  have "wp (sandbox_health_check H pid) ?Q s"
    unfolding sandbox_health_check_def Some option.case wp_bind
    by (rule wp_mono [OF wp_health_facts]) (auto simp: wp_return)
  from wpD [OF this assms] obtain h where h: "rc = 0" "out = health_report pid h" "hc_ns h = ns_isolated H pid"
    "hc_caps_dropped h \<longrightarrow> hc_caps_eff h = ''0000000000000000''" by auto
  have "length (health_issues h) = of_bool (\<not> ns_isolated H pid ''pid'')" if "verdict h = ''isolated''"
    using that by (auto simp: verdict_isolated_iff health_issues_def h(3))
  with h Some show ?thesis
    by (intro conjI impI exI [of _ h]) (simp_all add: verdict_isolated_iff json_str_reads_back)
qed

definition ex_health_host :: host where
  "ex_health_host = ex_host\<lparr>h_stat_ino := \<lambda>p. if prefix ''/proc/1/'' p then Some 10 else Some 20\<rparr>"

theorem health_verdict_sound_witness:
  "\<exists>h. fst (run_state (sandbox_health_check ex_health_host 42) ex_jail) = (0, health_report 42 h)
     \<and> (verdict h = ''isolated'' \<longleftrightarrow> hc_caps_dropped h \<and> hc_no_new_privs h \<and> 0 < hc_seccomp h)"
proof -
  let ?r = "run_state (sandbox_health_check ex_health_host 42) ex_jail"
  have ns: "ns_isolated ex_health_host 42 ''mnt''" "ns_isolated ex_health_host 42 ''user''"
    "ns_isolated ex_health_host 42 ''net''"
    by code_simp+
  have "h_stat_ino ex_health_host (cbuf 64 (proc_path 42 [])) \<noteq> None" by (simp add: ex_health_host_def)
  then obtain h where "fst (fst ?r) = 0" "snd (fst ?r) = health_report 42 h"
    "verdict h = ''isolated'' \<longleftrightarrow> hc_caps_dropped h \<and> hc_no_new_privs h \<and> 0 < hc_seccomp h"
    using health_verdict_sound [of ex_health_host 42 ex_jail "fst (fst ?r)" "snd (fst ?r)" "snd ?r"] ns by auto
  then show ?thesis by (metis prod.collapse)
qed

end
