(* ===== verification/Cli_Parse.thy ===== *)
theory Cli_Parse
  imports Cli_Config Health_Check
begin

text \<open>
  The argument parser of the command line (\<^verbatim>\<open>parse_flags\<close> of \<^verbatim>\<open>cli/vault_cli.c\<close>): the table of long options,
  \<^verbatim>\<open>getopt_long\<close> with its permutation of the operands and its abbreviations (\<^verbatim>\<open>POSIXLY_CORRECT\<close> unset), the
  cases of the switch as a table from the option's name to what its case does, and the checks after the
  loop. Messages printed to the terminal are left out.
\<close>

datatype has_arg = No | Required | Optional

definition long_options :: "(string \<times> has_arg) list" where
  "long_options = [
     (''vault'', Required), (''ls'', No), (''info'', No), (''files'', No), (''status'', No),
     (''scan'', No), (''encrypt'', No), (''decrypt'', No), (''resolve'', No), (''mount'', No),
     (''umount'', No), (''mount-export'', No), (''export'', No), (''file'', Required),
     (''dest'', Required), (''rm'', No), (''rename'', Required), (''unlock'', No),
     (''passwd'', No), (''rule'', Required), (''hours'', Required), (''new'', Required),
     (''path'', Required), (''protected'', No), (''engine'', Required), (''worm-status'', No),
     (''protect-delete'', No), (''protect-rename'', No), (''protect-write'', No),
     (''protect-read'', No), (''protected-scan'', No), (''clear-delete'', No),
     (''clear-rename'', No), (''clear-write'', No), (''clear-read'', No),
     (''white-list'', Required), (''image'', Required), (''run'', Required), (''no-net'', No),
     (''net-veth'', Optional), (''nfilter'', Optional), (''allow-ip'', Required), (''uuid'', No),
     (''init'', No), (''wayland'', No), (''x11'', No), (''ro-home'', No), (''rw-home'', No),
     (''no-dbus'', No), (''tmp-home'', No), (''ro'', Required), (''rw'', Required),
     (''blacklist'', Required), (''audit'', No), (''no-proc'', No), (''new-session'', No),
     (''unshare-ipc'', No), (''unshare-uts'', No), (''hostname'', Required),
     (''profile'', Required), (''audio'', No), (''dbus'', Required), (''gpu'', No),
     (''xdg-runtime'', No), (''dev'', Required), (''mount-dev'', No), (''no-seccomp'', No),
     (''pivot-root'', No), (''chroot'', No), (''display'', Required),
     (''wayland-display'', Required), (''preset'', Required), (''max-procs'', Required),
     (''max-mem'', Required), (''max-filesize'', Required), (''max-fds'', Required),
     (''tmp-size'', Required), (''help'', No), (''password'', Required), (''verbose'', No),
     (''json'', No), (''version'', No), (''seccomp-strict'', No), (''allow-clone3'', No),
     (''friendly-sandbox'', No), (''permissive'', No), (''adapter'', Required),
     (''no-preflight'', No), (''no-fuse'', No), (''health'', Required), (''cgroup'', Optional),
     (''cgroup-name'', Required), (''cpu-shares'', Required), (''cpu-quota'', Required),
     (''cgroup-mem'', Required), (''add'', Required), (''recursive'', No), (''replace'', No),
     (''preserve'', No), (''extract'', Required), (''force'', No), (''mv'', Required),
     (''cp'', Required), (''rm-file'', Required), (''mkdir'', Required), (''rmdir'', Required),
     (''tree'', No), (''du'', No), (''find'', Required), (''snapshot'', Optional),
     (''snapshots'', No), (''snapshot-delete'', Required), (''snapshot-restore'', Required),
     (''snapshot-diff'', Required), (''hash'', Optional), (''baseline'', No), (''verify'', No),
     (''integrity'', No), (''repair'', No), (''diff'', Optional), (''backup'', Optional),
     (''restore-arch'', Required), (''import'', Required), (''lock'', No), (''lock-status'', No),
     (''force-unlock'', No), (''key-info'', No), (''key-rotate'', Required), (''rekey'', No),
     (''stats'', No), (''usage'', No), (''inspect'', Required), (''history'', No),
     (''events'', No), (''app-armor'', Required), (''mac-enable'', No),
     (''disable-apparmor'', Optional), (''mac-status'', No), (''generate-secret'', No),
     (''manual'', No), (''sysinfo'', Optional), (''gui'', No)]"

section \<open>getopt_long\<close>

text \<open>One call: the operands at the end, an error, or an option with its argument, the rest of a cluster of
  short options, the operands passed over so far, and the arguments not looked at.\<close>

datatype getopt_result = G_done "string list" | G_error
  | G_opt string "string option" string "string list" "string list"

definition match_option :: "string \<Rightarrow> (string \<times> has_arg) option" where
  "match_option n = (case map_of long_options n of
     Some k \<Rightarrow> Some (n, k)
   | None \<Rightarrow> (case filter (\<lambda>(m, k). prefix n m) long_options of [x] \<Rightarrow> Some x | _ \<Rightarrow> None))"

definition long_opt :: "string \<Rightarrow> string list \<Rightarrow> string list \<Rightarrow> getopt_result" where
  "long_opt a skip rest =
    (let n = takeWhile (\<lambda>c. c \<noteq> CHR ''='') a;
         v = (if CHR ''='' \<in> set a then Some (drop (Suc (length n)) a) else None) in
     case match_option n of
       None \<Rightarrow> G_error
     | Some (m, k) \<Rightarrow> (case k of
         No \<Rightarrow> if v = None then G_opt m None [] skip rest else G_error
       | Required \<Rightarrow> (case v of
           Some x \<Rightarrow> G_opt m (Some x) [] skip rest
         | None \<Rightarrow> (case rest of x # r \<Rightarrow> G_opt m (Some x) [] skip r | [] \<Rightarrow> G_error))
       | Optional \<Rightarrow> G_opt m v [] skip rest))"

definition short_opt :: "char \<Rightarrow> string \<Rightarrow> string list \<Rightarrow> string list \<Rightarrow> getopt_result" where
  "short_opt c cl skip rest =
    (if c = CHR ''q'' then G_opt ''seccomp-strict'' None cl skip rest
     else if c = CHR ''k'' then G_opt ''allow-clone3'' None cl skip rest
     else G_error)"

fun getopt_next :: "string \<Rightarrow> string list \<Rightarrow> string list \<Rightarrow> getopt_result" where
  "getopt_next (c # cl) skip rest = short_opt c cl skip rest"
| "getopt_next [] skip [] = G_done skip"
| "getopt_next [] skip (a # rest) =
     (if a = ''--'' then G_done (skip @ rest)
      else if a = [] \<or> hd a \<noteq> CHR ''-'' \<or> a = ''-'' then getopt_next [] (skip @ [a]) rest
      else if prefix ''--'' a then long_opt (drop 2 a) skip rest
      else short_opt (a ! 1) (drop 2 a) skip rest)"

section \<open>The cases of the switch\<close>

text \<open>What a case does: return from the parser, free the configuration and return, or go on with the
  configuration and the number of further arguments it took.\<close>

datatype outcome = Ret int | Ret_freed int | Go CliConfig nat

type_synonym handler = "host \<Rightarrow> string option \<Rightarrow> string list \<Rightarrow> CliConfig \<Rightarrow> outcome jio"

definition arg_of :: "string option \<Rightarrow> string" where
  "arg_of a = (case a of Some x \<Rightarrow> x | None \<Rightarrow> [])"

definition is_operand :: "string \<Rightarrow> bool" where
  "is_operand x \<longleftrightarrow> x = [] \<or> hd x \<noteq> CHR ''-''"

definition flag :: "(CliConfig \<Rightarrow> CliConfig) \<Rightarrow> handler" where
  "flag f H a rest c = return (Go (f c) 0)"

definition strarg :: "(string option \<Rightarrow> CliConfig \<Rightarrow> CliConfig) \<Rightarrow> handler" where
  "strarg f H a rest c = return (Go (f a c) 0)"

text \<open>\<^verbatim>\<open>if (optind < argc && argv[optind][0] != '-') cfg->g = argv[optind++];\<close>\<close>

definition take_operand :: "(string option \<Rightarrow> CliConfig \<Rightarrow> CliConfig) \<Rightarrow> string list \<Rightarrow> CliConfig \<Rightarrow> outcome" where
  "take_operand g rest c = (case rest of
     x # _ \<Rightarrow> if is_operand x then Go (g (Some x) c) 1 else Go c 0
   | [] \<Rightarrow> Go c 0)"

definition strarg_operand :: "(string option \<Rightarrow> CliConfig \<Rightarrow> CliConfig) \<Rightarrow>
    (string option \<Rightarrow> CliConfig \<Rightarrow> CliConfig) \<Rightarrow> handler" where
  "strarg_operand f g H a rest c = return (take_operand g rest (f a c))"

definition optarg_operand :: "(CliConfig \<Rightarrow> CliConfig) \<Rightarrow> (string option \<Rightarrow> CliConfig \<Rightarrow> CliConfig) \<Rightarrow> handler" where
  "optarg_operand f g H a rest c =
    return (if arg_of a \<noteq> [] then Go (g a (f c)) 0 else take_operand g rest (f c))"

definition intarg :: "int \<Rightarrow> int \<Rightarrow> (int \<Rightarrow> CliConfig \<Rightarrow> CliConfig) \<Rightarrow> handler" where
  "intarg lo hi f H a rest c = return (case parse_int_arg (arg_of a) lo hi of
     None \<Rightarrow> Ret (- 1)
   | Some v \<Rightarrow> Go (f v c) 0)"

definition bindarg :: "BindType \<Rightarrow> handler" where
  "bindarg ty H a rest c = do { c' \<leftarrow> add_bind H ty (arg_of a) c; return (Go c' 0) }"

definition hours_case :: handler where
  "hours_case H a rest c = (let s = arg_of a in
     return (if CHR ''-'' \<notin> set s then Ret (- 1)
       else Go (c\<lparr>rule_hour_from := atoi s, rule_hour_to := atoi (drop 1 (dropWhile (\<lambda>x. x \<noteq> CHR ''-'') s))\<rparr>) 0))"

definition engine_case :: handler where
  "engine_case H a rest c = (let v = atoi (arg_of a) in
     return (if v < 0 \<or> 5 < v then Ret (- 1) else Go (c\<lparr>engine_level := v\<rparr>) 0))"

definition white_list_case :: handler where
  "white_list_case H a rest c = (let s = arg_of a in
     return (if s = ''-e'' \<or> s = ''exclude'' \<or> s = ''e'' then Go (c\<lparr>op_whitelist_exclude := True\<rparr>) 0
       else if s = ''-r'' \<or> s = ''restore'' \<or> s = ''r'' then Go (c\<lparr>op_whitelist_restore := True\<rparr>) 0
       else Ret (- 1)))"

definition net_veth_case :: handler where
  "net_veth_case H a rest c = (let ip = (if arg_of a \<noteq> [] then arg_of a else ''10.0.0.3'') in
     return (if \<not> inet_pton4 ip then Ret (- 1)
       else Go (c\<lparr>iso_net_veth := True, iso_net_veth_ip := Some ip, iso_net_veth_gw := Some ''10.0.0.2''\<rparr>) 0))"

definition nfilter_case :: handler where
  "nfilter_case H a rest c = (let s = arg_of a in
     return (if s = [] then Go (c\<lparr>iso_nfilter := True, iso_nfilter_jail := Some default_jail\<rparr>) 0
       else if \<not> list_all (\<lambda>x. c_isalnum x \<or> x = CHR ''_'') s then Ret (- 1)
       else Go (c\<lparr>iso_nfilter := True, iso_nfilter_jail := Some s\<rparr>) 0))"

definition allow_ip_case :: handler where
  "allow_ip_case H a rest c =
    (if \<not> inet_pton4 (arg_of a) then return (Ret (- 1))
     else do {
       user_send_set_ip (Some (arg_of a));
       return (Go (c\<lparr>iso_nfilter := True, iso_nfilter_jail := default_to default_jail (iso_nfilter_jail c)\<rparr>) 0) })"

definition dbus_case :: handler where
  "dbus_case H a rest c = (let s = arg_of a in
     return (if s = ''session'' \<or> s = ''system'' \<or> s = ''both''
       then Go (c\<lparr>iso_dbus_session := iso_dbus_session c \<or> s = ''session'' \<or> s = ''both'',
                 iso_dbus_system := iso_dbus_system c \<or> s = ''system'' \<or> s = ''both''\<rparr>) 0
       else Ret (- 1)))"

definition dev_case :: handler where
  "dev_case H a rest c = (let s = arg_of a in
     return (if s = ''minimal'' \<or> s = ''1'' then Go (c\<lparr>iso_dev_level := 1\<rparr>) 0
       else if s = ''standard'' \<or> s = ''2'' then Go (c\<lparr>iso_dev_level := 2\<rparr>) 0
       else Ret (- 1)))"

definition health_case :: handler where
  "health_case H a rest c = (let target = atoi (arg_of a) in
     if target \<le> 0 then return (Ret_freed 1)
     else do { r \<leftarrow> sandbox_health_check H target; return (Ret_freed (fst r)) })"

definition vault_cases :: "(string \<times> handler) list" where
  "vault_cases = [
     (''vault'', strarg (\<lambda>a c. c\<lparr>vault_id := atoi (arg_of a)\<rparr>)),
     (''ls'', flag (\<lambda>c. c\<lparr>op_ls := True\<rparr>)),
     (''info'', flag (\<lambda>c. c\<lparr>op_info := True\<rparr>)),
     (''files'', flag (\<lambda>c. c\<lparr>op_files := True\<rparr>)),
     (''status'', flag (\<lambda>c. c\<lparr>op_status := True\<rparr>)),
     (''scan'', flag (\<lambda>c. c\<lparr>op_scan := True\<rparr>)),
     (''encrypt'', flag (\<lambda>c. c\<lparr>op_encrypt := True\<rparr>)),
     (''decrypt'', flag (\<lambda>c. c\<lparr>op_decrypt := True\<rparr>)),
     (''resolve'', flag (\<lambda>c. c\<lparr>op_resolve := True\<rparr>)),
     (''mount'', flag (\<lambda>c. c\<lparr>op_mount := True\<rparr>)),
     (''umount'', flag (\<lambda>c. c\<lparr>op_umount := True\<rparr>)),
     (''mount-export'', flag (\<lambda>c. c\<lparr>op_mount_export := True\<rparr>)),
     (''export'', flag (\<lambda>c. c\<lparr>op_export := True\<rparr>)),
     (''file'', strarg (\<lambda>a c. c\<lparr>export_file := a\<rparr>)),
     (''dest'', strarg (\<lambda>a c. c\<lparr>export_dest := a\<rparr>)),
     (''rm'', flag (\<lambda>c. c\<lparr>op_rm := True\<rparr>)),
     (''rename'', strarg (\<lambda>a c. c\<lparr>op_rename := True, rename_to := a\<rparr>)),
     (''unlock'', flag (\<lambda>c. c\<lparr>op_unlock := True\<rparr>)),
     (''passwd'', flag (\<lambda>c. c\<lparr>op_passwd := True\<rparr>)),
     (''rule'', strarg (\<lambda>a c. c\<lparr>op_rule := True, rule_max_fails := atoi (arg_of a)\<rparr>)),
     (''hours'', hours_case)]"

definition create_cases :: "(string \<times> handler) list" where
  "create_cases = [
     (''new'', strarg (\<lambda>a c. c\<lparr>new_name := a\<rparr>)),
     (''path'', strarg (\<lambda>a c. c\<lparr>new_path := a\<rparr>)),
     (''protected'', flag (\<lambda>c. c\<lparr>protected_vault := True\<rparr>)),
     (''engine'', engine_case),
     (''worm-status'', flag (\<lambda>c. c\<lparr>op_worm_status := True\<rparr>)),
     (''protect-delete'', flag (\<lambda>c. c\<lparr>worm_set := worm_set c OR WORM_PROTECT_DELETE\<rparr>)),
     (''protect-rename'', flag (\<lambda>c. c\<lparr>worm_set := worm_set c OR WORM_PROTECT_RENAME\<rparr>)),
     (''protect-write'', flag (\<lambda>c. c\<lparr>worm_set := worm_set c OR WORM_PROTECT_WRITE\<rparr>)),
     (''protect-read'', flag (\<lambda>c. c\<lparr>worm_set := worm_set c OR WORM_PROTECT_READ\<rparr>)),
     (''protected-scan'', flag (\<lambda>c. c\<lparr>worm_protected_scan := True\<rparr>)),
     (''clear-delete'', flag (\<lambda>c. c\<lparr>worm_clear := worm_clear c OR WORM_PROTECT_DELETE\<rparr>)),
     (''clear-rename'', flag (\<lambda>c. c\<lparr>worm_clear := worm_clear c OR WORM_PROTECT_RENAME\<rparr>)),
     (''clear-write'', flag (\<lambda>c. c\<lparr>worm_clear := worm_clear c OR WORM_PROTECT_WRITE\<rparr>)),
     (''clear-read'', flag (\<lambda>c. c\<lparr>worm_clear := worm_clear c OR WORM_PROTECT_READ\<rparr>))]"

definition isolation_cases :: "(string \<times> handler) list" where
  "isolation_cases = [
     (''white-list'', white_list_case),
     (''image'', strarg (\<lambda>a c. c\<lparr>image_url := a\<rparr>)),
     (''run'', strarg (\<lambda>a c. c\<lparr>run_exec := a\<rparr>)),
     (''no-net'', flag (\<lambda>c. c\<lparr>iso_no_net := True\<rparr>)),
     (''uuid'', flag (\<lambda>c. c\<lparr>iso_uuid := True\<rparr>)),
     (''init'', flag (\<lambda>c. c\<lparr>iso_init := True, iso_uuid := True\<rparr>)),
     (''net-veth'', net_veth_case),
     (''nfilter'', nfilter_case),
     (''allow-ip'', allow_ip_case),
     (''wayland'', flag (\<lambda>c. c\<lparr>iso_wayland := True\<rparr>)),
     (''x11'', flag (\<lambda>c. c\<lparr>iso_x11 := True\<rparr>)),
     (''ro-home'', flag (\<lambda>c. c\<lparr>iso_ro_home := True\<rparr>)),
     (''no-dbus'', flag (\<lambda>c. c\<lparr>iso_no_dbus := True\<rparr>)),
     (''tmp-home'', flag (\<lambda>c. c\<lparr>iso_tmp_home := True\<rparr>)),
     (''audit'', flag (\<lambda>c. c\<lparr>iso_audit := True\<rparr>)),
     (''no-proc'', flag (\<lambda>c. c\<lparr>iso_no_proc := True\<rparr>)),
     (''new-session'', flag (\<lambda>c. c\<lparr>iso_new_session := True\<rparr>)),
     (''unshare-ipc'', flag (\<lambda>c. c\<lparr>iso_unshare_ipc := True\<rparr>)),
     (''unshare-uts'', flag (\<lambda>c. c\<lparr>iso_unshare_uts := True\<rparr>)),
     (''hostname'', strarg (\<lambda>a c. c\<lparr>iso_hostname := a\<rparr>)),
     (''profile'', strarg (\<lambda>a c. c\<lparr>iso_profile := a\<rparr>))]"

definition desktop_cases :: "(string \<times> handler) list" where
  "desktop_cases = [
     (''audio'', flag (\<lambda>c. c\<lparr>iso_audio := True\<rparr>)),
     (''gpu'', flag (\<lambda>c. c\<lparr>iso_gpu := True\<rparr>)),
     (''xdg-runtime'', flag (\<lambda>c. c\<lparr>iso_xdg_runtime := True\<rparr>)),
     (''no-seccomp'', flag (\<lambda>c. c\<lparr>iso_no_seccomp := True\<rparr>)),
     (''chroot'', flag (\<lambda>c. c\<lparr>iso_use_chroot := True\<rparr>)),
     (''display'', strarg (\<lambda>a c. c\<lparr>iso_display := a\<rparr>)),
     (''wayland-display'', strarg (\<lambda>a c. c\<lparr>iso_wayland_disp := a\<rparr>)),
     (''preset'', strarg (\<lambda>a c. c\<lparr>iso_preset := a\<rparr>)),
     (''dbus'', dbus_case),
     (''dev'', dev_case),
     (''mount-dev'', flag (\<lambda>c. c\<lparr>iso_mount_dev := True\<rparr>))]"

definition limit_cases :: "(string \<times> handler) list" where
  "limit_cases = [
     (''max-procs'', intarg 1 65535 (\<lambda>v c. c\<lparr>iso_max_procs := v\<rparr>)),
     (''max-mem'', intarg 1 512 (\<lambda>v c. c\<lparr>iso_max_mem_gb := v\<rparr>)),
     (''max-filesize'', intarg 1 102400 (\<lambda>v c. c\<lparr>iso_max_fsize_mb := v\<rparr>)),
     (''max-fds'', intarg 1 65535 (\<lambda>v c. c\<lparr>iso_max_fds := v\<rparr>)),
     (''tmp-size'', intarg 1 102400 (\<lambda>v c. c\<lparr>iso_tmp_size_mb := v\<rparr>))]"

definition general_cases :: "(string \<times> handler) list" where
  "general_cases = [
     (''password'', strarg (\<lambda>a c. c\<lparr>password := a\<rparr>)),
     (''verbose'', flag (\<lambda>c. c\<lparr>verbose := True\<rparr>)),
     (''json'', flag (\<lambda>c. c\<lparr>json_output := True\<rparr>)),
     (''version'', flag (\<lambda>c. c\<lparr>op_version := True\<rparr>)),
     (''help'', flag (\<lambda>c. c\<lparr>op_help := True\<rparr>)),
     (''seccomp-strict'', flag (\<lambda>c. c\<lparr>seccomp_strict := True\<rparr>)),
     (''allow-clone3'', flag (\<lambda>c. c\<lparr>allow_clone3 := True\<rparr>)),
     (''friendly-sandbox'', flag (\<lambda>c. c\<lparr>friendly_sandbox := True\<rparr>)),
     (''adapter'', strarg (\<lambda>a c. c\<lparr>iso_adapter := a\<rparr>)),
     (''cgroup'', strarg (\<lambda>a c. c\<lparr>iso_cgroup := True, iso_unshare_cgroup := True,
        iso_cgroup_name := (if arg_of a = [] then iso_cgroup_name c else a)\<rparr>)),
     (''cgroup-name'', strarg (\<lambda>a c. c\<lparr>iso_cgroup := True, iso_cgroup_name := a\<rparr>)),
     (''cpu-shares'', intarg 2 262144 (\<lambda>v c. c\<lparr>iso_cpu_shares := v, iso_cgroup := True\<rparr>)),
     (''cpu-quota'', intarg 1000 10000000 (\<lambda>v c. c\<lparr>iso_cpu_quota_us := v, iso_cgroup := True\<rparr>)),
     (''cgroup-mem'', intarg 16 1048576 (\<lambda>v c. c\<lparr>iso_cgroup_mem_mb := v, iso_cgroup := True\<rparr>)),
     (''no-preflight'', flag (\<lambda>c. c\<lparr>skip_preflight := True\<rparr>)),
     (''no-fuse'', flag (\<lambda>c. c\<lparr>no_fuse := True\<rparr>)),
     (''health'', health_case)]"

definition bind_cases :: "(string \<times> handler) list" where
  "bind_cases = [
     (''ro'', bindarg BIND_RO),
     (''rw'', bindarg BIND_RW),
     (''blacklist'', bindarg BIND_BLACKLIST)]"

definition file_cases :: "(string \<times> handler) list" where
  "file_cases = [
     (''add'', strarg (\<lambda>a c. c\<lparr>op_add := True, add_file := a\<rparr>)),
     (''recursive'', flag (\<lambda>c. c\<lparr>add_recursive := True\<rparr>)),
     (''replace'', flag (\<lambda>c. c\<lparr>add_replace := True\<rparr>)),
     (''preserve'', flag (\<lambda>c. c\<lparr>add_preserve := True\<rparr>)),
     (''extract'', strarg (\<lambda>a c. c\<lparr>op_extract := True, extract_file := a\<rparr>)),
     (''force'', flag (\<lambda>c. c\<lparr>extract_force := True\<rparr>)),
     (''mv'', strarg_operand (\<lambda>a c. c\<lparr>op_mv := True, mv_src := a\<rparr>)
        (\<lambda>x c. c\<lparr>mv_dest := x\<rparr>)),
     (''cp'', strarg_operand (\<lambda>a c. c\<lparr>op_cp := True, cp_src := a\<rparr>)
        (\<lambda>x c. c\<lparr>cp_dest := x\<rparr>)),
     (''rm-file'', strarg (\<lambda>a c. c\<lparr>op_rm_file := True, rm_file_target := a\<rparr>)),
     (''mkdir'', strarg (\<lambda>a c. c\<lparr>op_mkdir := True, mkdir_target := a\<rparr>)),
     (''rmdir'', strarg (\<lambda>a c. c\<lparr>op_rmdir := True, rmdir_target := a\<rparr>)),
     (''tree'', flag (\<lambda>c. c\<lparr>op_tree := True\<rparr>)),
     (''du'', flag (\<lambda>c. c\<lparr>op_du := True\<rparr>)),
     (''find'', strarg (\<lambda>a c. c\<lparr>op_find := True, find_pattern := a\<rparr>))]"

definition snapshot_cases :: "(string \<times> handler) list" where
  "snapshot_cases = [
     (''snapshot'', optarg_operand (\<lambda>c. c\<lparr>op_snapshot := True\<rparr>)
        (\<lambda>x c. c\<lparr>snapshot_tag := x\<rparr>)),
     (''snapshots'', flag (\<lambda>c. c\<lparr>op_snapshots := True\<rparr>)),
     (''snapshot-delete'', strarg (\<lambda>a c. c\<lparr>op_snapshot_delete := True, snapshot_del_tag := a\<rparr>)),
     (''snapshot-restore'', strarg (\<lambda>a c. c\<lparr>op_snapshot_restore := True, snapshot_restore_tag := a\<rparr>)),
     (''snapshot-diff'', strarg_operand (\<lambda>a c. c\<lparr>op_snapshot_diff := True, snapshot_diff_tag1 := a\<rparr>)
        (\<lambda>x c. c\<lparr>snapshot_diff_tag2 := x\<rparr>))]"

definition integrity_cases :: "(string \<times> handler) list" where
  "integrity_cases = [
     (''hash'', optarg_operand (\<lambda>c. c\<lparr>op_hash := True\<rparr>)
        (\<lambda>x c. c\<lparr>hash_target := x\<rparr>)),
     (''baseline'', flag (\<lambda>c. c\<lparr>op_baseline := True\<rparr>)),
     (''verify'', flag (\<lambda>c. c\<lparr>op_verify := True\<rparr>)),
     (''integrity'', flag (\<lambda>c. c\<lparr>op_integrity := True\<rparr>)),
     (''repair'', flag (\<lambda>c. c\<lparr>op_repair := True\<rparr>)),
     (''diff'', optarg_operand (\<lambda>c. c\<lparr>op_diff := True\<rparr>)
        (\<lambda>x c. c\<lparr>diff_other := x\<rparr>)),
     (''backup'', optarg_operand (\<lambda>c. c\<lparr>op_backup := True\<rparr>)
        (\<lambda>x c. c\<lparr>backup_out := x\<rparr>)),
     (''restore-arch'', strarg (\<lambda>a c. c\<lparr>op_restore := True, restore_archive := a\<rparr>)),
     (''import'', strarg (\<lambda>a c. c\<lparr>op_import := True, import_src := a\<rparr>))]"

definition key_cases :: "(string \<times> handler) list" where
  "key_cases = [
     (''lock'', flag (\<lambda>c. c\<lparr>op_lock := True\<rparr>)),
     (''lock-status'', flag (\<lambda>c. c\<lparr>op_lock_status := True\<rparr>)),
     (''force-unlock'', flag (\<lambda>c. c\<lparr>op_force_unlock := True\<rparr>)),
     (''key-info'', flag (\<lambda>c. c\<lparr>op_key_info := True\<rparr>)),
     (''key-rotate'', strarg_operand (\<lambda>a c. c\<lparr>op_key_rotate := True, key_rotate_old := a\<rparr>)
        (\<lambda>x c. c\<lparr>key_rotate_new := x\<rparr>)),
     (''rekey'', flag (\<lambda>c. c\<lparr>op_rekey := True\<rparr>)),
     (''stats'', flag (\<lambda>c. c\<lparr>op_stats := True\<rparr>)),
     (''usage'', flag (\<lambda>c. c\<lparr>op_usage := True\<rparr>)),
     (''inspect'', strarg (\<lambda>a c. c\<lparr>op_inspect := True, inspect_target := a\<rparr>)),
     (''history'', flag (\<lambda>c. c\<lparr>op_history := True\<rparr>)),
     (''events'', flag (\<lambda>c. c\<lparr>op_events := True\<rparr>))]"

definition mac_cases :: "(string \<times> handler) list" where
  "mac_cases = [
     (''app-armor'', strarg (\<lambda>a c. c\<lparr>op_app_armor := True, app_armor_target := a\<rparr>)),
     (''mac-enable'', flag (\<lambda>c. c\<lparr>op_mac_enable := True\<rparr>)),
     (''disable-apparmor'', strarg (\<lambda>a c. c\<lparr>op_disable_apparmor := True,
        app_armor_target := (if a = None then app_armor_target c else a)\<rparr>)),
     (''mac-status'', flag (\<lambda>c. c\<lparr>op_mac_status := True\<rparr>)),
     (''generate-secret'', flag (\<lambda>c. c\<lparr>op_generate_secret := True\<rparr>)),
     (''manual'', flag (\<lambda>c. c\<lparr>op_manual := True\<rparr>)),
     (''sysinfo'', strarg (\<lambda>a c. c\<lparr>op_sysinfo := True, sysinfo_target := (if arg_of a = [] then sysinfo_target c else a)\<rparr>)),
     (''gui'', flag (\<lambda>c. c\<lparr>op_gui := True, iso_preset := Some ''nuk4sd-gui''\<rparr>))]"

definition option_cases :: "(string \<times> handler) list" where
  "option_cases = vault_cases @ create_cases @ isolation_cases @ desktop_cases @ limit_cases @ general_cases
     @ bind_cases @ file_cases @ snapshot_cases @ integrity_cases @ key_cases @ mac_cases"

text \<open>An option of the table without a case takes the default branch.\<close>

definition run_case :: "host \<Rightarrow> string \<Rightarrow> string option \<Rightarrow> string list \<Rightarrow> CliConfig \<Rightarrow> outcome jio" where
  "run_case H n a rest c = (case map_of option_cases n of Some h \<Rightarrow> h H a rest c | None \<Rightarrow> return (Ret (- 1)))"

section \<open>The parser\<close>

datatype parse_result = P_config CliConfig | P_operands CliConfig "string list" | P_return int | P_freed int

definition args_size :: "string \<Rightarrow> string list \<Rightarrow> nat" where
  "args_size cl rest = length cl + sum_list (map (\<lambda>a. Suc (length a)) rest)"

lemma args_size_simps [simp]: "args_size [] [] = 0" "args_size (c # cl) r = Suc (args_size cl r)"
  "args_size [] (a # r) = Suc (length a + args_size [] r)"
  by (simp_all add: args_size_def)

lemma args_size_cluster: "args_size cl r = length cl + args_size [] r"
  by (simp add: args_size_def)

lemma args_size_drop: "args_size cl (drop k r) \<le> args_size cl r"
proof -
  have "args_size [] (drop k r) \<le> args_size [] r" for k
    by (induction r arbitrary: k) (auto simp: drop_Cons split: nat.split intro: le_SucI trans_le_add2)
  then show ?thesis by (simp add: args_size_cluster [of cl])
qed

lemma long_opt_size: "long_opt a skip rest = G_opt n v cl skip' rest' \<Longrightarrow> cl = [] \<and> args_size [] rest' \<le> args_size [] rest"
  by (auto simp: long_opt_def Let_def split: option.splits has_arg.splits list.splits if_splits)

lemma getopt_next_size:
  "getopt_next cl skip rest = G_opt n v cl' skip' rest' \<Longrightarrow> args_size cl' rest' < args_size cl rest"
proof (induction cl skip rest rule: getopt_next.induct)
  case (3 skip a rest)
  then show ?case
    by (auto split: if_splits simp: short_opt_def args_size_cluster [of "drop 2 a"] args_size_cluster [of cl']
        dest!: long_opt_size)
qed (auto simp: short_opt_def split: if_splits)

function parse_loop :: "host \<Rightarrow> string \<Rightarrow> string list \<Rightarrow> string list \<Rightarrow> CliConfig \<Rightarrow> jail \<Rightarrow> parse_result \<times> jail" where
  "parse_loop H cl skip rest c s = (case getopt_next cl skip rest of
     G_done ops \<Rightarrow> (P_operands c ops, s)
   | G_error \<Rightarrow> (P_return (- 1), s)
   | G_opt n a cl' skip' rest' \<Rightarrow> (case run_state (run_case H n a rest' c) s of (r, s') \<Rightarrow> (case r of
       Ret v \<Rightarrow> (P_return v, s')
     | Ret_freed v \<Rightarrow> (P_freed v, s')
     | Go c' k \<Rightarrow> parse_loop H cl' skip' (drop k rest') c' s')))"
  by pat_completeness auto

termination
proof (relation "measure (\<lambda>(H, cl, skip, rest, c, s). args_size cl rest)", goal_cases)
  case (2 H cl skip rest)
  then show ?case
    using getopt_next_size args_size_drop by (fastforce intro: le_less_trans)
qed simp

declare parse_loop.simps [simp del]

definition start_config :: CliConfig where
  "start_config = zero_config\<lparr>vault_id := - 1, rule_hour_from := - 1, rule_hour_to := - 1\<rparr>"

definition finish_parse :: "host \<Rightarrow> CliConfig \<Rightarrow> string list \<Rightarrow> parse_result jio" where
  "finish_parse H c ops = do {
     let c1 = (if run_exec c \<noteq> None \<and> ops \<noteq> [] then c\<lparr>run_argv := ops\<rparr> else c);
     c2 \<leftarrow> (case iso_profile c1 of Some p \<Rightarrow> load_profile H c1 p | None \<Rightarrow> return c1);
     c3 \<leftarrow> (case iso_preset c2 of Some p \<Rightarrow> apply_preset H p c2 | None \<Rightarrow> return c2);
     return (if iso_no_net c3 \<and> iso_net_veth c3 then P_return (- 1)
       else if iso_nfilter c3 \<and> \<not> iso_net_veth c3 then P_return (- 1)
       else P_config c3) }"

text \<open>\<open>argv\<close> is the argument vector after the program's name.\<close>

definition parse_flags :: "host \<Rightarrow> string list \<Rightarrow> parse_result jio" where
  "parse_flags H argv = do {
     r \<leftarrow> State (parse_loop H [] [] argv start_config);
     case r of
       P_operands c ops \<Rightarrow> finish_parse H c ops
     | _ \<Rightarrow> return r }"

end
