(* ===== verification/Parse_Props.thy ===== *)
theory Parse_Props
  imports Cli_Parse
begin

text \<open>
  What the parser of the command line guarantees for the configuration it accepts: an invariant that
  every case of the switch, every line of a profile and every preset keeps.
\<close>

definition jail_name_char :: "char \<Rightarrow> bool" where
  "jail_name_char x \<longleftrightarrow> c_isalnum x \<or> x = CHR ''_''"

text \<open>A switch and the value that goes with it: the value is there when the switch is on, and checked.\<close>

definition checked :: "bool \<Rightarrow> 'a option \<Rightarrow> ('a \<Rightarrow> bool) \<Rightarrow> bool" where
  "checked b x P = (case x of None \<Rightarrow> \<not> b | Some y \<Rightarrow> P y)"

lemma checked_simps [simp]: "checked b None P = (\<not> b)" "checked b (Some y) P = P y"
  by (simp_all add: checked_def)

lemma checked_default: "checked b x P \<Longrightarrow> P d \<Longrightarrow> checked True (default_to d x) P"
  by (cases x) (simp_all add: default_to_def)

definition cfg_ok :: "CliConfig \<Rightarrow> bool" where
  "cfg_ok c \<longleftrightarrow> length (binds c) \<le> MAX_BINDS \<and> (\<forall>b \<in> set (binds c). length (b_path b) < PRESET_PATH_MAX)
     \<and> checked (iso_net_veth c) (iso_net_veth_ip c) inet_pton4
     \<and> checked (iso_net_veth c) (iso_net_veth_gw c) (\<lambda>gw. gw = ''10.0.0.2'')
     \<and> checked (iso_nfilter c) (iso_nfilter_jail c) (\<lambda>j. j \<noteq> [] \<and> list_all jail_name_char j)
     \<and> engine_level c \<in> {0..5} \<and> vault_id c \<in> {- (2 ^ 31)..2 ^ 31 - 1}"

definition limits_ok :: "CliConfig \<Rightarrow> bool" where
  "limits_ok c \<longleftrightarrow> iso_max_procs c \<in> {0..65535} \<and> iso_max_mem_gb c \<in> {0..512} \<and> iso_max_fsize_mb c \<in> {0..102400}
     \<and> iso_max_fds c \<in> {0..65535} \<and> iso_tmp_size_mb c \<in> {0..102400} \<and> iso_cpu_shares c \<in> {0} \<union> {2..262144}
     \<and> iso_cpu_quota_us c \<in> {0} \<union> {1000..10000000} \<and> iso_cgroup_mem_mb c \<in> {0} \<union> {16..1048576}
     \<and> iso_dev_level c \<in> {0..2}"

text \<open>Settings that no case of the switch makes: only a profile or a preset can.\<close>

definition profile_only :: "CliConfig \<Rightarrow> bool" where
  "profile_only c \<longleftrightarrow> \<not> iso_rw_home c \<and> \<not> iso_pivot_root c \<and> \<not> permissive_sandbox c \<and> \<not> iso_landlock c"

section \<open>The cases of the switch\<close>

definition keeps :: "(CliConfig \<Rightarrow> bool) \<Rightarrow> handler \<Rightarrow> bool" where
  "keeps P h \<longleftrightarrow> (\<forall>H a rest c s. P c \<longrightarrow>
     wp (h H a rest c) (\<lambda>r _. case r of Go c' k \<Rightarrow> P c' | _ \<Rightarrow> True) s)"

lemma keeps_flag: "(\<And>c. P c \<Longrightarrow> P (f c)) \<Longrightarrow> keeps P (flag f)"
  by (simp add: keeps_def flag_def wp_simps)

lemma keeps_strarg: "(\<And>a c. P c \<Longrightarrow> P (f a c)) \<Longrightarrow> keeps P (strarg f)"
  by (simp add: keeps_def strarg_def wp_simps)

lemma keeps_strarg_operand: "(\<And>a c. P c \<Longrightarrow> P (f a c)) \<Longrightarrow> (\<And>a c. P c \<Longrightarrow> P (g a c)) \<Longrightarrow> keeps P (strarg_operand f g)"
  by (simp add: keeps_def strarg_operand_def take_operand_def wp_simps split: list.split)

lemma keeps_optarg_operand: "(\<And>c. P c \<Longrightarrow> P (f c)) \<Longrightarrow> (\<And>a c. P c \<Longrightarrow> P (g a c)) \<Longrightarrow> keeps P (optarg_operand f g)"
  by (simp add: keeps_def optarg_operand_def take_operand_def wp_simps split: list.split)

lemma parse_int_arg_range: "parse_int_arg s lo hi = Some v \<Longrightarrow> lo \<le> v \<and> v \<le> hi"
  by (auto simp: parse_int_arg_def split: prod.splits if_splits)

lemma keeps_intarg: "(\<And>v c. P c \<Longrightarrow> lo \<le> v \<Longrightarrow> v \<le> hi \<Longrightarrow> P (f v c)) \<Longrightarrow> keeps P (intarg lo hi f)"
  by (auto simp: keeps_def intarg_def wp_simps split: option.split dest: parse_int_arg_range)

lemmas keeps_rules = keeps_flag keeps_strarg keeps_strarg_operand keeps_optarg_operand keeps_intarg

text \<open>An expanded path fits its buffer.\<close>

lemma length_cbuf: "0 < n \<Longrightarrow> length (cbuf n s) < n"
  by (simp add: cbuf_def)

lemma wp_expand_tilde: "0 < n \<Longrightarrow> wp (cli_expand_tilde H p n) (\<lambda>q _. length q < n) s"
  by (auto simp: cli_expand_tilde_def getenv_def Let_def wp_simps length_cbuf split: list.split option.split)

lemma wp_add_bind:
  assumes "cfg_ok c"
  shows "wp (add_bind H ty a c) (\<lambda>c' _. cfg_ok c' \<and> (limits_ok c \<and> profile_only c \<longrightarrow> limits_ok c' \<and> profile_only c')
     \<and> (\<exists>p. binds c' = (if length (binds c) < MAX_BINDS then binds c @ [\<lparr>b_path = p, b_type = ty\<rparr>] else binds c))) s"
proof (cases "length (binds c) < MAX_BINDS")
  case True
  have "wp (cli_expand_tilde H a PRESET_PATH_MAX) (\<lambda>q _. length q < PRESET_PATH_MAX) s"
    by (rule wp_expand_tilde) (simp add: PRESET_PATH_MAX_def)
  then have "wp (cli_expand_tilde H a PRESET_PATH_MAX \<bind> (\<lambda>p. return (c\<lparr>binds := binds c @ [\<lparr>b_path = p, b_type = ty\<rparr>]\<rparr>)))
     (\<lambda>c' _. cfg_ok c' \<and> (limits_ok c \<and> profile_only c \<longrightarrow> limits_ok c' \<and> profile_only c') \<and> (\<exists>p. binds c' = binds c @ [\<lparr>b_path = p, b_type = ty\<rparr>])) s"
    unfolding wp_bind by (rule wp_mono) (use assms True in \<open>auto simp: wp_return cfg_ok_def limits_ok_def profile_only_def\<close>)
  with True show ?thesis by (simp add: add_bind_def)
qed (use assms in \<open>simp add: add_bind_def wp_return\<close>)

definition opt_inv :: "CliConfig \<Rightarrow> bool" where
  "opt_inv c \<longleftrightarrow> cfg_ok c \<and> limits_ok c \<and> profile_only c"

lemma keeps_bindarg: "keeps opt_inv (bindarg ty)"
  unfolding keeps_def
proof (intro allI impI)
  fix H a rest c s assume "opt_inv c"
  then show "wp (bindarg ty H a rest c) (\<lambda>r _. case r of Go c' k \<Rightarrow> opt_inv c' | _ \<Rightarrow> True) s"
    unfolding bindarg_def wp_bind opt_inv_def
    by (intro wp_mono [OF wp_add_bind]) (auto simp: wp_return)
qed

lemma jail_name_char_eq: "jail_name_char = (\<lambda>x. c_isalnum x \<or> x = CHR ''_'')"
  by (simp add: jail_name_char_def fun_eq_iff)

lemma default_jail_ok [simp]: "list_all jail_name_char default_jail" "default_jail \<noteq> []"
  by code_simp+

lemma keeps_special:
  "keeps opt_inv hours_case" "keeps opt_inv engine_case" "keeps opt_inv white_list_case" "keeps opt_inv net_veth_case"
  "keeps opt_inv dbus_case" "keeps opt_inv dev_case"
  unfolding keeps_def
  by (simp_all add: hours_case_def engine_case_def white_list_case_def net_veth_case_def dbus_case_def
      dev_case_def Let_def wp_simps opt_inv_def cfg_ok_def limits_ok_def profile_only_def)

lemma keeps_nfilter: "keeps opt_inv nfilter_case"
  by (simp add: keeps_def nfilter_case_def Let_def wp_simps opt_inv_def cfg_ok_def limits_ok_def profile_only_def
      flip: jail_name_char_eq)

lemma keeps_allow_ip: "keeps opt_inv allow_ip_case"
proof -
  have "opt_inv (c\<lparr>iso_nfilter := True, iso_nfilter_jail := default_to default_jail (iso_nfilter_jail c)\<rparr>)"
    if "opt_inv c" for c
    using that by (auto simp: opt_inv_def cfg_ok_def limits_ok_def profile_only_def intro: checked_default)
  then show ?thesis
    by (auto simp: keeps_def allow_ip_case_def wp_simps)
qed

lemma keeps_health: "keeps opt_inv health_case"
  by (auto simp: keeps_def health_case_def Let_def wp_simps)

definition all_keep :: "(string \<times> handler) list \<Rightarrow> bool" where
  "all_keep t \<longleftrightarrow> (\<forall>(n, h) \<in> set t. keeps opt_inv h)"

lemma all_keep_simps: "all_keep []" "all_keep ((n, h) # t) \<longleftrightarrow> keeps opt_inv h \<and> all_keep t"
  "all_keep (t @ t') \<longleftrightarrow> all_keep t \<and> all_keep t'"
  by (auto simp: all_keep_def)

lemmas inv_defs = opt_inv_def cfg_ok_def limits_ok_def profile_only_def

lemma to_int32_bounds: "- 2147483648 \<le> to_int32 x" "to_int32 x \<le> 2147483647"
  using to_int32_range [of x] by simp_all

lemma keep_vault: "all_keep vault_cases"
  unfolding vault_cases_def all_keep_simps
  by (intro conjI TrueI keeps_special keeps_rules)
     (simp_all add: all_keep_simps inv_defs atoi_def to_int32_bounds)

lemma keep_create: "all_keep create_cases"
  unfolding create_cases_def all_keep_simps
  by (intro conjI TrueI keeps_special keeps_rules) (simp_all add: all_keep_simps inv_defs)

lemma keep_isolation: "all_keep isolation_cases"
  unfolding isolation_cases_def all_keep_simps
  by (intro conjI TrueI keeps_special keeps_nfilter keeps_allow_ip keeps_rules) (simp_all add: all_keep_simps inv_defs)

lemma keep_desktop: "all_keep desktop_cases"
  unfolding desktop_cases_def all_keep_simps
  by (intro conjI TrueI keeps_special keeps_rules) (simp_all add: all_keep_simps inv_defs)

lemma keep_limit: "all_keep limit_cases"
  unfolding limit_cases_def all_keep_simps
  by (intro conjI TrueI keeps_rules) (simp_all add: all_keep_simps inv_defs)

lemma keep_general: "all_keep general_cases"
  unfolding general_cases_def all_keep_simps
  by (intro conjI TrueI keeps_health keeps_rules) (simp_all add: all_keep_simps inv_defs)

lemma keep_bind: "all_keep bind_cases"
  by (simp add: bind_cases_def all_keep_simps keeps_bindarg)

lemma keep_file: "all_keep file_cases"
  unfolding file_cases_def all_keep_simps
  by (intro conjI TrueI keeps_rules) (simp_all add: all_keep_simps inv_defs)

lemma keep_snapshot: "all_keep snapshot_cases"
  unfolding snapshot_cases_def all_keep_simps
  by (intro conjI TrueI keeps_rules) (simp_all add: all_keep_simps inv_defs)

lemma keep_integrity: "all_keep integrity_cases"
  unfolding integrity_cases_def all_keep_simps
  by (intro conjI TrueI keeps_rules) (simp_all add: all_keep_simps inv_defs)

lemma keep_key: "all_keep key_cases"
  unfolding key_cases_def all_keep_simps
  by (intro conjI TrueI keeps_rules) (simp_all add: all_keep_simps inv_defs)

lemma keep_mac: "all_keep mac_cases"
  unfolding mac_cases_def all_keep_simps
  by (intro conjI TrueI keeps_rules) (simp_all add: all_keep_simps inv_defs)

lemma keep_options: "all_keep option_cases"
  by (simp add: option_cases_def all_keep_simps keep_vault keep_create keep_isolation keep_desktop keep_limit
      keep_general keep_bind keep_file keep_snapshot keep_integrity keep_key keep_mac)

lemma run_case_keeps:
  assumes "opt_inv c"
  shows "wp (run_case H n a rest c) (\<lambda>r _. case r of Go c' k \<Rightarrow> opt_inv c' | _ \<Rightarrow> True) s"
proof (cases "map_of option_cases n")
  case (Some h)
  then have "keeps opt_inv h" using keep_options map_of_SomeD by (fastforce simp: all_keep_def)
  with assms Some show ?thesis by (simp add: run_case_def keeps_def)
qed (simp add: run_case_def wp_return)

lemma parse_loop_inv:
  assumes "opt_inv c" "parse_loop H cl skip rest c s = (P_operands c' ops, u)"
  shows "opt_inv c'"
  using assms
proof (induction H cl skip rest c s rule: parse_loop.induct)
  case (1 H cl skip rest c s)
  show ?case
  proof (cases "getopt_next cl skip rest")
    case (G_opt n a cl' skip' rest')
    obtain r s' where r: "run_state (run_case H n a rest' c) s = (r, s')" by fastforce
    have "case r of Go c' k \<Rightarrow> opt_inv c' | _ \<Rightarrow> True"
      using wpD [OF run_case_keeps [OF 1(2)] r] by simp
    with 1(1) [OF G_opt r [symmetric]] 1(3) G_opt r show ?thesis
      by (auto simp: parse_loop.simps [of H cl] split: outcome.splits)
  qed (use 1(2,3) in \<open>auto simp: parse_loop.simps [of H cl]\<close>)
qed

lemma parse_loop_result: "parse_loop H cl skip rest c s = (r, u) \<Longrightarrow> r \<noteq> P_config x"
proof (induction H cl skip rest c s rule: parse_loop.induct)
  case (1 H cl skip rest c s)
  then show ?case
    by (subst (asm) parse_loop.simps) (auto split: getopt_result.splits prod.splits outcome.splits)
qed

section \<open>Profiles and presets\<close>

lemma profile_flags_keep: "(k, f) \<in> set profile_flags \<Longrightarrow> cfg_ok c \<Longrightarrow> cfg_ok (f c)"
proof -
  have "list_all (\<lambda>(k, f). \<forall>c. cfg_ok c \<longrightarrow> cfg_ok (f c)) profile_flags"
    unfolding profile_flags_def list.pred_inject split_conv
    by (intro conjI allI impI) (auto simp: cfg_ok_def intro: checked_default)
  then show "(k, f) \<in> set profile_flags \<Longrightarrow> cfg_ok c \<Longrightarrow> cfg_ok (f c)" by (auto simp: list_all_iff)
qed

lemma profile_args_keep: "(k, f) \<in> set profile_args \<Longrightarrow> cfg_ok c \<Longrightarrow> cfg_ok (f a c)"
proof -
  have "list_all (\<lambda>(k, f). \<forall>a c. cfg_ok c \<longrightarrow> cfg_ok (f a c)) profile_args"
    unfolding profile_args_def list.pred_inject split_conv
    by (intro conjI allI impI) (auto simp: cfg_ok_def)
  then show "(k, f) \<in> set profile_args \<Longrightarrow> cfg_ok c \<Longrightarrow> cfg_ok (f a c)" by (auto simp: list_all_iff)
qed

lemma find_prefix_mem: "find_prefix t p = Some (a, x) \<Longrightarrow> \<exists>k. (k, x) \<in> set t"
  by (auto simp: find_prefix_def find_Some_iff) (metis nth_mem)

lemma wp_profile_line:
  assumes "cfg_ok c"
  shows "wp (profile_line H c p) (\<lambda>c' _. cfg_ok c') s"
  using assms
  by (auto simp: profile_line_def wp_return split: option.split
      dest!: map_of_SomeD find_prefix_mem intro: profile_flags_keep profile_args_keep
      intro!: wp_mono [OF wp_add_bind])

lemma wp_fold_io:
  "I b \<Longrightarrow> (\<And>x b s. I b \<Longrightarrow> wp (f x b) (\<lambda>b' _. I b') s) \<Longrightarrow> wp (fold_io f xs b) (\<lambda>b' _. I b') s"
proof (induction xs arbitrary: b s)
  case (Cons x xs)
  show ?case
    unfolding fold_io.simps wp_bind by (rule wp_mono [OF Cons.prems(2) [OF Cons.prems(1)]]) (rule Cons.IH, auto intro: Cons.prems)
qed (simp add: wp_return)

lemma wp_load_profile: "cfg_ok c \<Longrightarrow> wp (load_profile H c p) (\<lambda>c' _. cfg_ok c') s"
  unfolding load_profile_def wp_bind
  by (rule wpI) (auto simp: wp_return wp_profile_line intro!: wp_fold_io split: option.split)

lemma preset_updates [simp]:
  "cfg_ok (c\<lparr>iso_audio := b\<rparr>) = cfg_ok c" "cfg_ok (c\<lparr>iso_gpu := b\<rparr>) = cfg_ok c"
  "cfg_ok (c\<lparr>permissive_sandbox := b\<rparr>) = cfg_ok c" "cfg_ok (desktop c) = cfg_ok c"
  "limits_ok (c\<lparr>iso_audio := b\<rparr>) = limits_ok c" "limits_ok (c\<lparr>iso_gpu := b\<rparr>) = limits_ok c"
  "limits_ok (c\<lparr>permissive_sandbox := b\<rparr>) = limits_ok c" "limits_ok (desktop c) = limits_ok c"
  by (simp_all add: cfg_ok_def limits_ok_def desktop_def)

lemma cfg_ok_dev [simp]: "cfg_ok (set_dev_level d c) = cfg_ok c"
  by (simp add: set_dev_level_def cfg_ok_def)

lemma limits_ok_dev: "limits_ok c \<Longrightarrow> d \<in> {0..2} \<Longrightarrow> limits_ok (set_dev_level d c)"
  by (simp add: set_dev_level_def limits_ok_def)

lemma wp_apply_preset: "cfg_ok c \<Longrightarrow> wp (apply_preset H p c) (\<lambda>c' _. cfg_ok c' \<and> (limits_ok c \<longrightarrow> limits_ok c')) s"
  by (auto simp: apply_preset_def wp_if wp_return wp_bind limits_ok_dev intro!: wpI)

lemma start_inv: "opt_inv start_config"
  by (simp add: inv_defs start_config_def zero_config_def)

lemma wp_finish_parse:
  assumes "opt_inv c"
  shows "wp (finish_parse H c ops) (\<lambda>r _. \<forall>c'. r = P_config c' \<longrightarrow> cfg_ok c'
     \<and> \<not> (iso_no_net c' \<and> iso_net_veth c') \<and> (iso_nfilter c' \<longrightarrow> iso_net_veth c')
     \<and> (iso_profile c = None \<longrightarrow> limits_ok c' \<and> (iso_preset c = None \<longrightarrow> profile_only c'))) s"
proof -
  define c1 where "c1 = (if run_exec c \<noteq> None \<and> ops \<noteq> [] then c\<lparr>run_argv := ops\<rparr> else c)"
  have c1: "cfg_ok c1" "limits_ok c1" "profile_only c1" "iso_profile c1 = iso_profile c" "iso_preset c1 = iso_preset c"
    using assms by (simp_all add: c1_def inv_defs)
  have prof: "wp (case iso_profile c1 of Some p \<Rightarrow> load_profile H c1 p | None \<Rightarrow> return c1)
      (\<lambda>c2 _. cfg_ok c2 \<and> (iso_profile c = None \<longrightarrow> c2 = c1)) t" for t
    using c1 by (auto simp: wp_return split: option.split intro: wp_mono [OF wp_load_profile])
  have pre: "wp (case iso_preset c2 of Some p \<Rightarrow> apply_preset H p c2 | None \<Rightarrow> return c2)
      (\<lambda>c3 _. cfg_ok c3 \<and> (iso_profile c = None \<longrightarrow> limits_ok c3 \<and> (iso_preset c = None \<longrightarrow> profile_only c3))) t"
    if "cfg_ok c2" "iso_profile c = None \<longrightarrow> c2 = c1" for c2 t
    using that c1 by (auto simp: wp_return split: option.split intro!: wp_mono [OF wp_apply_preset])
  show ?thesis
    unfolding finish_parse_def Let_def c1_def [symmetric] wp_bind
    by (rule wp_mono [OF prof], rule wp_mono [OF pre]) (auto simp: wp_return)
qed

text \<open>C31: a configuration the parser accepts can be acted on: it has at most sixty-four bind entries, whose
  paths fit their buffers; a virtual network has a valid address; the filter has a name made of letters, digits
  and underscores, and is only on together with the virtual network; no network and a virtual network
  exclude each other; and without a profile file every limit is in its documented range. Without a
  profile and a preset, nothing on the command line can make the home directory writable, relax the
  capabilities or turn the file access rules on.\<close>

theorem parsed_config_consistent:
  assumes "run_state (parse_flags H argv) s = (P_config c, u)"
  shows "cfg_ok c \<and> \<not> (iso_no_net c \<and> iso_net_veth c) \<and> (iso_nfilter c \<longrightarrow> iso_net_veth c) \<and>
    (\<exists>c0 ops w. parse_loop H [] [] argv start_config s = (P_operands c0 ops, w) \<and>
       (iso_profile c0 = None \<longrightarrow> limits_ok c \<and> (iso_preset c0 = None \<longrightarrow> profile_only c)))"
proof -
  obtain r w where r: "parse_loop H [] [] argv start_config s = (r, w)" by fastforce
  obtain c0 ops where o: "r = P_operands c0 ops" and f: "run_state (finish_parse H c0 ops) w = (P_config c, u)"
    using assms r parse_loop_result [OF r] that by (auto simp: parse_flags_def split: parse_result.splits)
  have "opt_inv c0" using parse_loop_inv [OF start_inv] r o by blast
  from wpD [OF wp_finish_parse [OF this] f] r o show ?thesis by auto
qed

definition ex_args :: "string list" where "ex_args = [''--net-veth'', ''x'', ''--allow-ip'', ''10.0.0.9'', ''--max-procs=5'']"

definition parsed :: "host \<Rightarrow> string list \<Rightarrow> jail \<Rightarrow> CliConfig option" where
  "parsed H argv s = (case fst (run_state (parse_flags H argv) s) of P_config c \<Rightarrow> Some c | _ \<Rightarrow> None)"

lemma ex_parsed: "map_option (\<lambda>c. iso_net_veth_ip c = Some ''10.0.0.3'' \<and> iso_max_procs c = 5 \<and> iso_nfilter c) (parsed ex_host ex_args ex_jail) = Some True"
  by code_simp

theorem parsed_config_consistent_witness:
  "\<exists>c. parsed ex_host ex_args ex_jail = Some c \<and> cfg_ok c \<and> iso_nfilter c \<and> iso_net_veth c"
proof -
  let ?r = "run_state (parse_flags ex_host ex_args) ex_jail"
  obtain c where c: "parsed ex_host ex_args ex_jail = Some c" "iso_nfilter c" using ex_parsed by auto
  then have "?r = (P_config c, snd ?r)" by (auto simp: parsed_def prod_eq_iff split: parse_result.splits)
  with c parsed_config_consistent [of ex_host ex_args ex_jail c "snd ?r"] show ?thesis by auto
qed

end
