(* ===== verification/Apparmor.thy ===== *)
theory Apparmor
  imports Sandbox_State
begin

text \<open>
  The AppArmor layer (\<^verbatim>\<open>sandbox/apparmor.c\<close>): whether a profile is loaded, the text of the profile of a
  vault, loading, removing and the batch over the mounted vaults. Writes to the kernel's interface files
  are recorded; the number of bytes they report is the kernel's answer. What the kernel does with the
  text is not modelled.
\<close>

definition AA_LOAD_PATH :: string where "AA_LOAD_PATH = ''/sys/kernel/security/apparmor/.load''"
definition AA_REMOVE_PATH :: string where "AA_REMOVE_PATH = ''/sys/kernel/security/apparmor/.remove''"
definition AA_PROFILES_PATH :: string where "AA_PROFILES_PATH = ''/sys/kernel/security/apparmor/profiles''"

definition mac_apparmor_available :: "host \<Rightarrow> bool jio" where
  "mac_apparmor_available H = do { r \<leftarrow> sys_access (h_os H) AA_LOAD_PATH W_BIT; return (succeeds r) }"

definition profile_name :: "nat \<Rightarrow> string" where
  "profile_name vid = ''nuk4sd_vault_'' @ dec_digits vid"

definition mac_apparmor_is_active :: "host \<Rightarrow> nat \<Rightarrow> bool jio" where
  "mac_apparmor_is_active H vid = do {
     ls \<leftarrow> read_lines H AA_PROFILES_PATH 256;
     return (case ls of
       None \<Rightarrow> False
     | Some ls \<Rightarrow> list_ex (\<lambda>l. strstr (cbuf 80 (profile_name vid)) (cstr l)) ls) }"

definition profile_text :: "Vault \<Rightarrow> string" where
  "profile_text v = ''profile '' @ profile_name (unat (v_id v)) @ '' flags=(attach_disconnected,mediate_deleted) {'' @ [NL]
     @ ''  /proc/self/exe r,'' @ [NL]
     @ ''  '' @ v_cipher v @ ''/ rwl,'' @ [NL]
     @ ''  '' @ v_cipher v @ ''/** rwl,'' @ [NL]
     @ ''}'' @ [NL]"

text \<open>\<^verbatim>\<open>open(p, O_WRONLY)\<close>, one \<^verbatim>\<open>write\<close> of the whole text, \<^verbatim>\<open>close\<close>.\<close>

definition write_text :: "host \<Rightarrow> string \<Rightarrow> string \<Rightarrow> VaultErrorr jio" where
  "write_text H p txt = do {
     fd \<leftarrow> sys_open (h_os H) p O_WRONLY 0;
     if \<not> succeeds fd then return ERR_IO
     else do {
       n \<leftarrow> kernel H (Kernel_write p txt);
       return (if n \<noteq> int (length txt) then ERR_IO else ERR_OK) } }"

definition mac_apparmor_load :: "host \<Rightarrow> Vault option \<Rightarrow> VaultErrorr jio" where
  "mac_apparmor_load H vo = (case vo of
     None \<Rightarrow> return ERR_INVALID_ARGS
   | Some v \<Rightarrow>
       if v_cipher v = [] then return ERR_INVALID_ARGS
       else do {
         av \<leftarrow> mac_apparmor_available H;
         if \<not> av then return ERR_PERM_DENIED
         else do {
           active \<leftarrow> mac_apparmor_is_active H (unat (v_id v));
           if active then return ERR_OK
           else if VAULT_PATH_MAX * 2 + 256 \<le> length (profile_text v) then return ERR_NO_MEMORY
           else write_text H AA_LOAD_PATH (profile_text v) } })"

definition mac_apparmor_remove :: "host \<Rightarrow> nat \<Rightarrow> VaultErrorr jio" where
  "mac_apparmor_remove H vid = do {
     av \<leftarrow> mac_apparmor_available H;
     if \<not> av then return ERR_OK
     else do {
       active \<leftarrow> mac_apparmor_is_active H vid;
       if \<not> active then return ERR_OK
       else if 80 \<le> length (profile_name vid) then return ERR_INVALID_ARGS
       else write_text H AA_REMOVE_PATH (profile_name vid) } }"

fun apply_vaults :: "host \<Rightarrow> Vault list \<Rightarrow> nat \<Rightarrow> nat jio" where
  "apply_vaults H [] n = return n"
| "apply_vaults H (v # vs) n =
     (if \<not> v_mounted v then apply_vaults H vs n
      else do {
        r \<leftarrow> mac_apparmor_load H (Some v);
        apply_vaults H vs (if r = ERR_OK then n + 1 else n) })"

definition mac_apparmor_apply_all :: "host \<Rightarrow> nat jio" where
  "mac_apparmor_apply_all H = do {
     av \<leftarrow> mac_apparmor_available H;
     if \<not> av then return 0
     else do {
       vs \<leftarrow> gets (\<lambda>s. c_vaults (g_catalog s));
       apply_vaults H vs 0 } }"

section \<open>Properties\<close>

text \<open>What a call that loads a profile does to the trace: it writes the whole text of the vault once,
  or nothing.\<close>

lemma pres_read_lines: "preserves (grown f tr) (read_lines H p n)"
  unfolding read_lines_def
  by (intro pres pres_grown) (auto simp: preserves_wp wp_simps grown_def)

lemma pres_available: "preserves (grown f tr) (mac_apparmor_available H)"
  unfolding mac_apparmor_available_def by (intro pres) simp

lemma pres_is_active: "preserves (grown f tr) (mac_apparmor_is_active H v)"
  unfolding mac_apparmor_is_active_def by (intro pres pres_read_lines)

lemma wp_read_plain:
  assumes "reliable (h_os H)" "e_euid (h_os H) = 0" "plain_file (o_fs s) p b"
  shows "wp (read_lines H p n) (\<lambda>r u. r = Some (fgets_all n b) \<and> o_fs u = o_fs s \<and> j_trace u = j_trace s) s"
  using assms open_plain [OF assms(2,3)] by (simp add: read_lines_def wp_simps)

lemma wp_available:
  assumes "reliable (h_os H)" "e_euid (h_os H) = 0" "plain_file (o_fs s) AA_LOAD_PATH b"
  shows "wp (mac_apparmor_available H) (\<lambda>r u. r \<and> o_fs u = o_fs s \<and> j_trace u = j_trace s) s"
  using assms open_plain [OF assms(2,3)] by (simp add: mac_apparmor_available_def wp_simps succeeds_def)

lemma dec_digits_append: "0 < n \<Longrightarrow> d < 10 \<Longrightarrow> dec_digits (10 * n + d) = dec_digits n @ [char_of (48 + d)]"
  by (subst dec_digits.simps) simp

lemma fgets_one_line:
  "NL \<notin> set l \<Longrightarrow> length l + 2 < n \<Longrightarrow> fgets_all n (l @ [NL]) = [l @ [NL]]"
proof -
  have "fgets_loop n acc (l @ [CHR 0x0A]) = [rev acc @ l @ [CHR 0x0A]]" if "CHR 0x0A \<notin> set l" "length acc + length l + 2 < n" for acc
    using that by (induction l arbitrary: acc) auto
  from this [of "[]"] show "NL \<notin> set l \<Longrightarrow> length l + 2 < n \<Longrightarrow> fgets_all n (l @ [NL]) = [l @ [NL]]"
    by (simp add: fgets_all_def)
qed

text \<open>The line the kernel lists for a loaded profile.\<close>

definition loaded_line :: "nat \<Rightarrow> string" where
  "loaded_line vid = profile_name vid @ '' (enforce)''"

text \<open>The test whether the profile of a vault is loaded takes the profile of a vault whose number has one
  more digit for it: then loading reports success and loads nothing, and the vault stays unprotected.\<close>

theorem apparmor_confuses_vaults:
  assumes "run_state (mac_apparmor_load H (Some v)) s = (r, u)"
    and "reliable (h_os H)" and "e_euid (h_os H) = 0" and "plain_file (o_fs s) AA_LOAD_PATH b"
    and "plain_file (o_fs s) AA_PROFILES_PATH (loaded_line (10 * unat (v_id v) + d) @ [NL])"
    and "0 < unat (v_id v)" and "d < 10" and "v_cipher v \<noteq> []"
  shows "r = ERR_OK \<and> made [] s u"
proof -
  let ?n = "unat (v_id v)" and ?l = "loaded_line (10 * unat (v_id v) + d)"
  have n: "10 * ?n + d < 10 ^ Suc 10" using unat_lt_32 [of "v_id v"] assms(7) by simp
  have digits: "c \<noteq> NL \<and> c \<noteq> NUL" if "c \<in> set (dec_digits k)" for c k
    using dec_digits_set [OF that] by auto
  have clean: "NL \<notin> set ?l" "NUL \<notin> set (?l @ [NL])"
    using digits by (fastforce simp: loaded_line_def profile_name_def)+
  moreover have short: "length ?l + 2 < 256" "length (profile_name ?n) < 79"
    using length_dec_digits [OF n] length_dec_digits [of ?n 9] unat_lt_32 [of "v_id v"]
    by (simp_all add: loaded_line_def profile_name_def)
  moreover have "strstr (profile_name ?n) ((?l @ [NL]))"
    by (simp add: loaded_line_def profile_name_def dec_digits_append assms(6,7))
  ultimately have found: "list_ex (\<lambda>l. strstr (cbuf 80 (profile_name ?n)) (cstr l)) (fgets_all 256 (?l @ [NL]))"
    by (simp add: fgets_one_line cstr_id cbuf_def)
  have active: "wp (mac_apparmor_is_active H ?n) (\<lambda>r u. r \<and> j_trace u = j_trace s) t"
    if "o_fs t = o_fs s" "j_trace t = j_trace s" for t
    unfolding mac_apparmor_is_active_def wp_bind
    by (rule wp_mono [OF wp_read_plain [OF assms(2,3)]]) (use assms(5) that found in \<open>auto simp: wp_return\<close>)
  have "wp (mac_apparmor_load H (Some v)) (\<lambda>r u. r = ERR_OK \<and> j_trace u = j_trace s) s"
    unfolding mac_apparmor_load_def option.case if_not_P [OF assms(8)] wp_bind
    by (rule wp_mono [OF wp_available [OF assms(2-4)]])
       (auto simp: wp_bind wp_return intro!: wp_mono [OF active])
  from wpD [OF this assms(1)] show ?thesis by (auto simp: made_def)
qed

definition ex_aa_jail :: jail where
  "ex_aa_jail = ex_jail\<lparr>o_fs := [(''/sys/kernel/security/apparmor'', ex_dir), (AA_LOAD_PATH, ex_file []),
     (AA_PROFILES_PATH, ex_file (loaded_line 12 @ [NL]))]\<rparr>"

theorem apparmor_confuses_vaults_witness:
  "fst (run_state (mac_apparmor_load ex_host (Some ex_vault)) ex_aa_jail) = ERR_OK \<and>
   made [] ex_aa_jail (snd (run_state (mac_apparmor_load ex_host (Some ex_vault)) ex_aa_jail))"
proof (rule apparmor_confuses_vaults [where b = "[]" and d = 2, OF surjective_pairing])
  have p: "parent_dir ''/sys/kernel/security/apparmor/.load'' = ''/sys/kernel/security/apparmor''"
    "parent_dir ''/sys/kernel/security/apparmor/profiles'' = ''/sys/kernel/security/apparmor''" by code_simp+
  show "plain_file (o_fs ex_aa_jail) AA_LOAD_PATH []"
    by (simp add: plain_file_def p ex_aa_jail_def fs_get_def AA_LOAD_PATH_def AA_PROFILES_PATH_def ex_dir_def ex_file_def)
  show "plain_file (o_fs ex_aa_jail) AA_PROFILES_PATH (loaded_line (10 * unat (v_id ex_vault) + 2) @ [NL])"
    by (simp add: plain_file_def p ex_aa_jail_def fs_get_def AA_LOAD_PATH_def AA_PROFILES_PATH_def ex_dir_def ex_file_def)
qed simp_all

end
