(* ===== verification/Process_Steps.thy ===== *)
theory Process_Steps
  imports Sandbox_State
begin

text \<open>
  Processes as sequences of steps that may end the process: by \<^verbatim>\<open>_exit\<close>, or because an \<^verbatim>\<open>exec\<close> call
  succeeded and replaced the program. \<open>Running\<close> is a process still in a loop when the fuel of its model is
  used up. The two sides of a \<^verbatim>\<open>fork\<close> are two such processes. The rules of this theory reduce a statement about
  the order of the kernel calls of a process to statements about its single steps.
\<close>

section \<open>Constants of the system headers\<close>

definition MODE_0755 :: "32 word" where "MODE_0755 = 0x1ED"
definition MODE_0555 :: "32 word" where "MODE_0555 = 0x16D"
definition MODE_01777 :: "32 word" where "MODE_01777 = 0x3FF"
definition EINVAL_NO :: nat where "EINVAL_NO = 22"
definition MNT_DETACH :: "32 word" where "MNT_DETACH = 2"
definition MS_RDONLY :: "64 word" where "MS_RDONLY = 1"
definition MS_NOSUID :: "64 word" where "MS_NOSUID = 2"
definition MS_NODEV :: "64 word" where "MS_NODEV = 4"
definition MS_NOEXEC :: "64 word" where "MS_NOEXEC = 8"
definition MS_REMOUNT :: "64 word" where "MS_REMOUNT = 32"
definition MS_BIND :: "64 word" where "MS_BIND = 4096"
definition MS_REC :: "64 word" where "MS_REC = 16384"
definition MS_PRIVATE :: "64 word" where "MS_PRIVATE = 0x40000"
definition MS_STRICTATIME :: "64 word" where "MS_STRICTATIME = 0x1000000"
definition CLONE_NEWNS :: "32 word" where "CLONE_NEWNS = 0x20000"
definition CLONE_NEWCGROUP :: "32 word" where "CLONE_NEWCGROUP = 0x2000000"
definition CLONE_NEWUTS :: "32 word" where "CLONE_NEWUTS = 0x4000000"
definition CLONE_NEWIPC :: "32 word" where "CLONE_NEWIPC = 0x8000000"
definition CLONE_NEWUSER :: "32 word" where "CLONE_NEWUSER = 0x10000000"
definition CLONE_NEWPID :: "32 word" where "CLONE_NEWPID = 0x20000000"
definition CLONE_NEWNET :: "32 word" where "CLONE_NEWNET = 0x40000000"
definition PR_SET_KEEPCAPS :: int where "PR_SET_KEEPCAPS = 8"
definition PR_CAPBSET_DROP :: int where "PR_CAPBSET_DROP = 24"
definition PR_SET_NO_NEW_PRIVS :: int where "PR_SET_NO_NEW_PRIVS = 38"
definition SIGKILL :: int where "SIGKILL = 9"
definition SIGTERM :: int where "SIGTERM = 15"

section \<open>Processes\<close>

datatype ended = Exit int | Image | Running

type_synonym 'a proc = "(ended + 'a) jio"

fun steps :: "unit proc list \<Rightarrow> unit proc" where
  "steps [] = return (Inr ())"
| "steps (m # ms) = do { r \<leftarrow> m; case r of Inl e \<Rightarrow> return (Inl e) | Inr _ \<Rightarrow> steps ms }"

definition always :: "'a jio \<Rightarrow> unit proc" where
  "always m = do { m; return (Inr ()) }"

text \<open>\<^verbatim>\<open>if (m() != 0) _exit(c);\<close>\<close>

definition or_exit :: "int jio \<Rightarrow> int \<Rightarrow> unit proc" where
  "or_exit m c = do { r \<leftarrow> m; return (if r \<noteq> 0 then Inl (Exit c) else Inr ()) }"

text \<open>The \<^verbatim>\<open>exec\<close> family: a call that returns has failed. The search of \<^verbatim>\<open>execvp\<close> is the library's.\<close>

definition execv :: "host \<Rightarrow> string \<Rightarrow> string list \<Rightarrow> unit proc" where
  "execv H path argv = do { r \<leftarrow> kernel H (Execv path argv); return (if r < 0 then Inr () else Inl Image) }"

text \<open>Paths of a process whose root was changed.\<close>

definition rooted :: "(string \<Rightarrow> 'a jio) \<Rightarrow> string \<Rightarrow> 'a jio" where
  "rooted f p = do { r \<leftarrow> gets j_root; f (r @ p) }"

section \<open>Order of calls\<close>

type_synonym event = "kcall \<times> int"

fun is_exec :: "kcall \<Rightarrow> bool" where
  "is_exec (Execv _ _) = True"
| "is_exec _ = False"

definition no_exec :: "event list \<Rightarrow> bool" where
  "no_exec tr \<longleftrightarrow> list_all (\<lambda>(k, r). \<not> is_exec k) tr"

text \<open>The events of \<open>tr\<close> include, in this order, one for each of the tests.\<close>

fun passed :: "(event \<Rightarrow> bool) list \<Rightarrow> event list \<Rightarrow> bool" where
  "passed [] tr = True"
| "passed (p # ps) [] = False"
| "passed (p # ps) (x # tr) = (if p x then passed ps tr else passed (p # ps) tr)"

lemma no_exec_simps [simp]: "no_exec []" "no_exec (x # tr) \<longleftrightarrow> \<not> is_exec (fst x) \<and> no_exec tr"
  "no_exec (a @ b) \<longleftrightarrow> no_exec a \<and> no_exec b"
  by (auto simp: no_exec_def)

lemma passed_fewer: "passed (p # ps) tr \<Longrightarrow> passed ps tr"
proof (induction tr arbitrary: p ps)
  case (Cons x tr)
  then show ?case by (cases ps) (auto split: if_splits)
qed simp

lemma passed_more: "passed ps tr \<Longrightarrow> passed ps (x # tr)"
  by (cases ps) (auto intro: passed_fewer)

lemma passed_prepend: "passed ps b \<Longrightarrow> passed ps (a @ b)"
  by (induction a) (auto intro: passed_more)

lemma passed_append: "passed ps a \<Longrightarrow> passed qs b \<Longrightarrow> passed (ps @ qs) (a @ b)"
  by (induction ps a rule: passed.induct) (auto intro: passed_prepend split: if_splits)

lemma passed_cons: "p x \<Longrightarrow> passed ps tr \<Longrightarrow> passed (p # ps) (x # tr)"
  by simp

text \<open>The events since \<open>tr0\<close> include no execution of a program.\<close>

definition calm :: "event list \<Rightarrow> jail \<Rightarrow> bool" where
  "calm tr0 s \<longleftrightarrow> (\<exists>tr. j_trace s = tr0 @ tr \<and> no_exec tr)"

lemma os_indep_calm [simp]: "os_indep (calm tr0)"
  by (simp add: os_indep_def calm_def)

lemma calm_refl [simp]: "calm (j_trace s) s"
  by (auto simp: calm_def)

lemma pres_calm_kernel [pres]: "\<not> is_exec k \<Longrightarrow> preserves (calm tr0) (kernel H k)"
  by (auto simp: preserves_wp wp_simps calm_def)

text \<open>A step that executes nothing and, when it goes on, has passed the tests.\<close>

definition layer_post :: "(event \<Rightarrow> bool) list \<Rightarrow> event list \<Rightarrow> bool \<Rightarrow> jail \<Rightarrow> bool" where
  "layer_post ps tr0 ok u \<longleftrightarrow> (\<exists>tr. j_trace u = tr0 @ tr \<and> no_exec tr \<and> (ok \<longrightarrow> passed ps tr))"

definition goes_on :: "ended + 'a \<Rightarrow> bool" where
  "goes_on r \<longleftrightarrow> (case r of Inl _ \<Rightarrow> False | Inr _ \<Rightarrow> True)"

lemma goes_on_simps [simp]: "goes_on (Inr x)" "\<not> goes_on (Inl e)"
  by (simp_all add: goes_on_def)

text \<open>A step of a process: it executes at most programs that are admitted, and when the process goes on
  after it, it has executed nothing and passed the tests.\<close>

definition admitted :: "(kcall \<Rightarrow> bool) \<Rightarrow> event list \<Rightarrow> bool" where
  "admitted A tr \<longleftrightarrow> list_all (\<lambda>(k, r). is_exec k \<longrightarrow> A k) tr"

lemma admitted_simps [simp]: "admitted A []" "admitted A (x # tr) \<longleftrightarrow> (is_exec (fst x) \<longrightarrow> A (fst x)) \<and> admitted A tr"
  "admitted A (a @ b) \<longleftrightarrow> admitted A a \<and> admitted A b"
  by (auto simp: admitted_def)

lemma no_exec_admitted: "no_exec tr \<Longrightarrow> admitted A tr"
  by (auto simp: no_exec_def admitted_def list_all_iff)

definition step_post :: "(kcall \<Rightarrow> bool) \<Rightarrow> (event \<Rightarrow> bool) list \<Rightarrow> event list \<Rightarrow> bool \<Rightarrow> jail \<Rightarrow> bool" where
  "step_post A ps tr0 ok u \<longleftrightarrow> (\<exists>tr. j_trace u = tr0 @ tr \<and> admitted A tr \<and> (ok \<longrightarrow> no_exec tr \<and> passed ps tr))"

definition layer :: "(kcall \<Rightarrow> bool) \<Rightarrow> (event \<Rightarrow> bool) list \<Rightarrow> 'a proc \<Rightarrow> bool" where
  "layer A ps m \<longleftrightarrow> (\<forall>s. wp m (\<lambda>r. step_post A ps (j_trace s) (goes_on r)) s)"

lemma step_postI: "layer_post ps tr0 ok u \<Longrightarrow> step_post A ps tr0 ok u"
  by (auto simp: layer_post_def step_post_def intro: no_exec_admitted)

lemma layerI: "(\<And>s. wp m (\<lambda>r. layer_post ps (j_trace s) (goes_on r)) s) \<Longrightarrow> layer A ps m"
  unfolding layer_def by (blast intro: wp_mono step_postI)

lemma calm_layer_post: "calm tr0 u \<Longrightarrow> layer_post [] tr0 ok u" "calm tr0 u \<Longrightarrow> layer_post ps tr0 False u"
  by (auto simp: calm_def layer_post_def)

lemma layer_calm:
  assumes "\<And>tr0. preserves (calm tr0) m"
  shows "layer A [] m"
proof (rule layerI)
  fix s
  have "wp m (\<lambda>_. calm (j_trace s)) s" using assms by (simp add: preserves_wp)
  then show "wp m (\<lambda>r. layer_post [] (j_trace s) (goes_on r)) s"
    by (rule wp_mono) (rule calm_layer_post)
qed

lemma layer_always: "(\<And>tr0. preserves (calm tr0) m) \<Longrightarrow> layer A [] (always m)"
  unfolding always_def by (rule layer_calm) (auto intro!: pres)

lemma layer_or_exit:
  assumes "\<And>s. wp m (\<lambda>r u. layer_post ps (j_trace s) (r = 0) u) s"
  shows "layer A ps (or_exit m c)"
  unfolding or_exit_def by (rule layerI, unfold wp_bind wp_return, rule wp_mono [OF assms]) (auto simp: layer_post_def)

text \<open>A process that stops, or goes on to the rest.\<close>

lemma layer_bind:
  fixes m :: "'a proc" and f :: "ended + 'a \<Rightarrow> 'b proc"
  assumes "layer A ps m" "\<And>e. layer A ps' (f (Inl e))" "\<And>e s. wp (f (Inl e)) (\<lambda>r u. u = s \<and> \<not> goes_on r) s"
    and "\<And>x. layer A ps' (f (Inr x))"
  shows "layer A (ps @ ps') (m \<bind> f)"
  unfolding layer_def wp_bind
proof (intro allI, rule wp_mono)
  fix s
  show "wp m (\<lambda>r. step_post A ps (j_trace s) (goes_on r)) s" using assms(1) by (simp add: layer_def)
  fix r :: "ended + 'a" and u assume *: "step_post A ps (j_trace s) (goes_on r) u"
  show "wp (f r) (\<lambda>r. step_post A (ps @ ps') (j_trace s) (goes_on r)) u"
  proof (cases r)
    case (Inl e)
    with * have "step_post A (ps @ ps') (j_trace s) False u" by (auto simp: step_post_def)
    then show ?thesis unfolding Inl by (intro wp_mono [OF assms(3)]) auto
  next
    case (Inr x)
    with * obtain tr where tr: "j_trace u = j_trace s @ tr" "no_exec tr" "passed ps tr"
      by (auto simp: step_post_def)
    have "wp (f r) (\<lambda>r. step_post A ps' (j_trace u) (goes_on r)) u"
      using assms(4) Inr by (simp add: layer_def)
    then show ?thesis
      by (rule wp_mono) (use tr in \<open>auto simp: step_post_def intro: no_exec_admitted passed_append\<close>)
  qed
qed

lemma layer_stop: "layer A ps (return (Inl e))"
  by (simp add: layer_def wp_return step_post_def)

lemma layer_steps: "list_all2 (layer A) pss ms \<Longrightarrow> layer A (concat pss) (steps ms)"
proof (induction rule: list_all2_induct)
  case Nil
  then show ?case by (simp add: layer_def wp_return step_post_def)
next
  case (Cons ps pss m ms)
  then show ?case by (auto intro!: layer_bind layer_stop simp: wp_return)
qed

text \<open>A process that executes a program at the end: before any program that is not admitted, the tests were
  passed.\<close>

definition exec_after :: "(kcall \<Rightarrow> bool) \<Rightarrow> (event \<Rightarrow> bool) list \<Rightarrow> event list \<Rightarrow> jail \<Rightarrow> bool" where
  "exec_after A ps tr0 u \<longleftrightarrow> (\<exists>tr. j_trace u = tr0 @ tr
     \<and> (\<forall>a x b. tr = a @ x # b \<and> is_exec (fst x) \<longrightarrow> A (fst x) \<or> passed ps a))"

lemma exec_after_admitted: "j_trace u = tr0 @ tr \<Longrightarrow> admitted A tr \<Longrightarrow> exec_after A ps tr0 u"
  by (auto simp: exec_after_def)

lemma exec_after_more:
  assumes "j_trace u = tr0 @ tr @ tr'" "no_exec tr" "passed ps tr"
  shows "exec_after A ps tr0 u"
proof -
  have "passed ps a" if "tr @ tr' = a @ y # b" "is_exec (fst y)" for a y b
    using that assms(2,3) by (auto simp: append_eq_append_conv2 Cons_eq_append_conv append_eq_Cons_conv
        dest: passed_append [where qs = "[]", simplified])
  with assms(1) show ?thesis by (auto simp: exec_after_def)
qed

lemma wp_exec_at_end:
  fixes m :: "'a proc" and f :: "ended + 'a \<Rightarrow> 'b proc"
  assumes "layer A ps m" "\<And>tr. preserves (traced tr) fin" "\<And>e. f (Inl e) = return (g e)" "\<And>x. f (Inr x) = fin"
  shows "wp (m \<bind> f) (\<lambda>r. exec_after A ps (j_trace s)) s"
  unfolding wp_bind
proof (rule wp_mono)
  show "wp m (\<lambda>r. step_post A ps (j_trace s) (goes_on r)) s" using assms(1) by (simp add: layer_def)
  fix r :: "ended + 'a" and u assume *: "step_post A ps (j_trace s) (goes_on r) u"
  show "wp (f r) (\<lambda>r. exec_after A ps (j_trace s)) u"
  proof (cases r)
    case (Inl e)
    with * assms(3) show ?thesis by (auto simp: wp_return step_post_def intro: exec_after_admitted)
  next
    case (Inr x)
    with * obtain tr where tr: "j_trace u = j_trace s @ tr" "no_exec tr" "passed ps tr"
      by (auto simp: step_post_def)
    have "wp fin (\<lambda>_. traced (j_trace u)) u" using assms(2) by (simp add: preserves_wp traced_def)
    then have "wp fin (\<lambda>r. exec_after A ps (j_trace s)) u"
      by (rule wp_mono) (use tr in \<open>auto simp: traced_def prefix_def intro: exec_after_more\<close>)
    with Inr assms(4) show ?thesis by simp
  qed
qed

end
