(* ===== verification/Overlay.thy ===== *)
theory Overlay
  imports Net_Rules Process_Steps
begin

text \<open>
  Containers: the layered file system of a container (\<^verbatim>\<open>container/overlay.c\<close>) and the whitelist of a sealed
  one (\<^verbatim>\<open>container/container.c\<close>). Shown is that a mount is attempted only when the policy allows it, on
  directories inside the container, with options that mean what the code wrote.
\<close>

record VaultContainer =
  ct_id :: "32 word"
  ct_path :: string
  ct_image_tarball :: string
  ct_entrypoint :: string
  ct_sealed :: bool
  ct_whitelist_excluded :: bool
  ct_require_network :: bool
  ct_require_gui :: bool

definition container_whitelist_exclude :: "VaultContainer option \<Rightarrow> int \<times> VaultContainer option" where
  "container_whitelist_exclude c = (case c of
     None \<Rightarrow> (- 1, None)
   | Some c \<Rightarrow> (0, Some (c\<lparr>ct_whitelist_excluded := True\<rparr>)))"

definition container_whitelist_restore :: "VaultContainer option \<Rightarrow> int \<times> VaultContainer option" where
  "container_whitelist_restore c = (case c of
     None \<Rightarrow> (- 1, None)
   | Some c \<Rightarrow> (0, Some (c\<lparr>ct_whitelist_excluded := False\<rparr>)))"

definition container_is_operable :: "VaultContainer option \<Rightarrow> bool" where
  "container_is_operable c = (case c of
     None \<Rightarrow> False
   | Some c \<Rightarrow> \<not> (ct_sealed c \<and> ct_whitelist_excluded c))"

section \<open>Paths\<close>

definition PROBE_MAX :: nat where "PROBE_MAX = 32"

text \<open>\<open>k\<close> failed look-ups are still allowed.\<close>

fun safe_probe :: "nat \<Rightarrow> host \<Rightarrow> fs \<Rightarrow> string \<Rightarrow> string option" where
  "safe_probe k H f p = (case e_realpath (h_os H) f p of
     Some r \<Rightarrow> Some r
   | None \<Rightarrow> (case k of
       0 \<Rightarrow> None
     | Suc k' \<Rightarrow> (case before_last CHR ''/'' p of
         None \<Rightarrow> None
       | Some q \<Rightarrow> if q = [] then None else safe_probe k' H f q)))"

declare safe_probe.simps [simp del]

definition inside :: "string \<Rightarrow> string \<Rightarrow> bool" where
  "inside root r \<longleftrightarrow> take (length root) r = root \<and> (length r = length root \<or> r ! length root = CHR ''/'')"

definition overlay_path_is_safe :: "host \<Rightarrow> fs \<Rightarrow> string option \<Rightarrow> string option \<Rightarrow> bool" where
  "overlay_path_is_safe H f vault_root path = (case (vault_root, path) of
     (Some root, Some p) \<Rightarrow> (case e_realpath (h_os H) f root of
         None \<Rightarrow> False
       | Some rr \<Rightarrow> if PATH_MAX \<le> length p then False
                  else (case safe_probe PROBE_MAX H f p of None \<Rightarrow> False | Some r \<Rightarrow> inside rr r))
   | _ \<Rightarrow> False)"

definition ensure_dir :: "host \<Rightarrow> string \<Rightarrow> bool jio" where
  "ensure_dir H p = do {
     r \<leftarrow> sys_access (h_os H) p 0;
     if succeeds r then return True
     else do { r \<leftarrow> sys_mkdir (h_os H) p MODE_0755; return (succeeds r) } }"

section \<open>Mounting\<close>

definition overlay_delims :: "char set" where
  "overlay_delims = {CHR '':'', CHR '','', NL, BACKSLASH}"

definition overlay_opts :: "string \<Rightarrow> string \<Rightarrow> string \<Rightarrow> string" where
  "overlay_opts lower upper work = ''lowerdir='' @ lower @ '',upperdir='' @ upper @ '',workdir='' @ work"

definition overlay_call :: "string \<Rightarrow> string \<Rightarrow> kcall" where
  "overlay_call merged opts = Mount (Some ''overlay'') merged (Some ''overlay'') 0 (Some opts)"

definition OPTS_MAX :: nat where "OPTS_MAX = 4 * VAULT_PATH_MAX + 128"

definition overlay_calls :: "host \<Rightarrow> string \<Rightarrow> string \<Rightarrow> string \<Rightarrow> string \<Rightarrow> int jio" where
  "overlay_calls H upper work lower merged =
    (let opts = overlay_opts lower upper work; opts1 = opts @ '',userxattr'' in
     if OPTS_MAX \<le> length opts1 then return (- 1)
     else do {
       (r, e) \<leftarrow> kernel_errno H (overlay_call merged opts1);
       if r = 0 then return 0
       else if e = EINVAL_NO then
         (if OPTS_MAX \<le> length opts then return (- 1)
          else do {
            r \<leftarrow> kernel H (overlay_call merged opts);
            return (if r = 0 then 0 else - 1) })
       else return (- 1) })"

definition mount_overlay :: "host \<Rightarrow> string option \<Rightarrow> string option \<Rightarrow> string option \<Rightarrow> string option
    \<Rightarrow> string option \<Rightarrow> int jio" where
  "mount_overlay H upper work lower merged vault_root = (case (upper, work, lower, merged) of
     (Some up, Some wk, Some lo, Some mg) \<Rightarrow>
       (let dirs = [lo, up, wk, mg] in do {
          f \<leftarrow> gets o_fs;
          if list_ex (\<lambda>d. list_ex (\<lambda>c. c \<in> overlay_delims) d) dirs then return (- 1)
          else if vault_root \<noteq> None \<and> \<not> list_all (\<lambda>d. overlay_path_is_safe H f vault_root (Some d)) dirs then return (- 1)
          else do {
            ok \<leftarrow> all_ok dirs (ensure_dir H);
            if \<not> ok then return (- 1) else overlay_calls H up wk lo mg } })
   | _ \<Rightarrow> return (- 1))"

definition umount_overlay :: "host \<Rightarrow> string option \<Rightarrow> int jio" where
  "umount_overlay H merged = (case merged of
     None \<Rightarrow> return (- 1)
   | Some m \<Rightarrow> do {
       kernel H (Library ''sync'');
       r \<leftarrow> kernel H (Umount2 m MNT_DETACH);
       return (if r = - 1 then - 1 else 0) })"

definition overlay_fs_init :: "host \<Rightarrow> VaultContainer option \<Rightarrow> Vault option \<Rightarrow> int jio" where
  "overlay_fs_init H container vault = (case (container, vault) of
     (Some c, Some v) \<Rightarrow>
       if ct_sealed c \<and> ct_whitelist_excluded c then return (- 1)
       else if worm_check (Some v) WORM_PROTECT_WRITE then return (- 1)
       else if VAULT_PATH_MAX \<le> length (ct_path c @ ''/lower'') then return (- 1)
       else if VAULT_PATH_MAX \<le> length (ct_path c @ ''/upper'') then return (- 1)
       else if VAULT_PATH_MAX \<le> length (ct_path c @ ''/work'') then return (- 1)
       else if VAULT_PATH_MAX \<le> length (ct_path c @ ''/merged'') then return (- 1)
       else mount_overlay H (Some (ct_path c @ ''/upper'')) (Some (ct_path c @ ''/work''))
              (Some (ct_path c @ ''/lower'')) (Some (ct_path c @ ''/merged'')) (Some (ct_path c))
   | _ \<Rightarrow> return (- 1))"

section \<open>Properties\<close>

lemma split_on_plain: "d \<notin> set w \<Longrightarrow> split_on d w = [w]"
  by (induction w) auto

lemma split_on_append: "d \<notin> set w \<Longrightarrow> split_on d (w @ d # s) = w # split_on d s"
  by (induction w) auto

lemma overlay_opts_parse:
  assumes "CHR '','' \<notin> set lower" "CHR '','' \<notin> set upper" "CHR '','' \<notin> set work"
  shows "split_on CHR '','' (overlay_opts lower upper work) = [''lowerdir='' @ lower, ''upperdir='' @ upper, ''workdir='' @ work]"
    and "split_on CHR '','' (overlay_opts lower upper work @ '',userxattr'') =
      [''lowerdir='' @ lower, ''upperdir='' @ upper, ''workdir='' @ work, ''userxattr'']"
  using assms split_on_append [of "CHR '',''" "''lowerdir='' @ lower"] split_on_append [of "CHR '',''" "''upperdir='' @ upper"]
    split_on_append [of "CHR '',''" "''workdir='' @ work"] split_on_plain [of "CHR '',''" "''workdir='' @ work"]
  by (simp_all add: overlay_opts_def split_on_plain)

definition container_dirs :: "VaultContainer \<Rightarrow> string list" where
  "container_dirs c = map (\<lambda>d. ct_path c @ d) [''/lower'', ''/upper'', ''/work'', ''/merged'']"

text \<open>The options of a mount, read the way the kernel splits them.\<close>

definition layer_options :: "VaultContainer \<Rightarrow> string list" where
  "layer_options c = [''lowerdir='' @ ct_path c @ ''/lower'', ''upperdir='' @ ct_path c @ ''/upper'',
     ''workdir='' @ ct_path c @ ''/work'']"

definition container_mount :: "VaultContainer \<Rightarrow> kcall \<Rightarrow> bool" where
  "container_mount c k \<longleftrightarrow> (\<exists>opts. k = overlay_call (ct_path c @ ''/merged'') opts
     \<and> split_on CHR '','' opts \<in> {layer_options c, layer_options c @ [''userxattr'']})"

definition container_allowed :: "host \<Rightarrow> fs \<Rightarrow> VaultContainer \<Rightarrow> Vault \<Rightarrow> bool" where
  "container_allowed H f c v \<longleftrightarrow> \<not> (ct_sealed c \<and> ct_whitelist_excluded c) \<and> \<not> worm_check (Some v) WORM_PROTECT_WRITE
     \<and> (\<forall>d \<in> set (container_dirs c). overlay_path_is_safe H f (Some (ct_path c)) (Some d))"

text \<open>At most two calls, of which only the last can succeed.\<close>

definition mounted_last :: "(kcall \<times> int) list \<Rightarrow> bool" where
  "mounted_last tr \<longleftrightarrow> tr \<noteq> [] \<and> snd (last tr) = 0 \<and> (\<forall>(k, r) \<in> set (butlast tr). r \<noteq> 0)"

lemma pres_ensure_dir: "preserves (\<lambda>u. j_trace u = tr) (ensure_dir H p)"
  by (auto simp: ensure_dir_def preserves_wp wp_simps split: option.split)

lemma wp_overlay_calls:
  assumes "CHR '','' \<notin> set (ct_path c)"
  shows "wp (overlay_calls H (ct_path c @ ''/upper'') (ct_path c @ ''/work'') (ct_path c @ ''/lower'') (ct_path c @ ''/merged''))
    (\<lambda>rc u. rc \<in> {0, - 1} \<and> (\<exists>tr. j_trace u = j_trace s @ tr \<and> length tr \<le> 2 \<and> list_all (container_mount c) (map fst tr)
       \<and> (rc = 0 \<longleftrightarrow> mounted_last tr))) s"
proof -
  let ?lo = "ct_path c @ ''/lower''" and ?up = "ct_path c @ ''/upper''" and ?wk = "ct_path c @ ''/work''"
  let ?o = "overlay_opts ?lo ?up ?wk"
  have "container_mount c (overlay_call (ct_path c @ ''/merged'') opts)" if "opts \<in> {?o, ?o @ '',userxattr''}" for opts
    using that overlay_opts_parse [of ?lo ?up ?wk] assms by (auto simp: container_mount_def layer_options_def)
  then show ?thesis
    by (auto simp: overlay_calls_def kernel_errno_def wp_simps Let_def mounted_last_def)
qed

lemma wp_mount_overlay:
  shows "wp (mount_overlay H (Some (ct_path c @ ''/upper'')) (Some (ct_path c @ ''/work'')) (Some (ct_path c @ ''/lower''))
      (Some (ct_path c @ ''/merged'')) (Some (ct_path c)))
    (\<lambda>rc u. rc \<in> {0, - 1} \<and> (\<exists>tr. j_trace u = j_trace s @ tr \<and> length tr \<le> 2 \<and> list_all (container_mount c) (map fst tr)
       \<and> (rc = 0 \<longleftrightarrow> mounted_last tr)
       \<and> (tr \<noteq> [] \<longrightarrow> (\<forall>d \<in> set (container_dirs c). overlay_path_is_safe H (o_fs s) (Some (ct_path c)) (Some d))))) s"
    (is "wp _ ?Q s")
proof -
  let ?dirs = "[ct_path c @ ''/lower'', ct_path c @ ''/upper'', ct_path c @ ''/work'', ct_path c @ ''/merged'']"
  let ?safe = "list_all (\<lambda>d. overlay_path_is_safe H (o_fs s) (Some (ct_path c)) (Some d)) ?dirs"
  have none: "?Q (- 1 :: int) u" if "j_trace u = j_trace s" for u :: jail
    using that by (auto simp: mounted_last_def)
  have rest: "wp (all_ok ?dirs (ensure_dir H) \<bind> (\<lambda>ok. if \<not> ok then return (- 1)
       else overlay_calls H (ct_path c @ ''/upper'') (ct_path c @ ''/work'') (ct_path c @ ''/lower'') (ct_path c @ ''/merged''))) ?Q s"
    if "?safe" "CHR '','' \<notin> set (ct_path c)"
    unfolding wp_bind
  proof (rule wp_mono [OF preservesD [OF pres_all_ok [OF pres_ensure_dir] refl]])
    fix ok and u :: jail assume u: "j_trace u = j_trace s"
    show "wp (if \<not> ok then return (- 1) else overlay_calls H (ct_path c @ ''/upper'') (ct_path c @ ''/work'')
        (ct_path c @ ''/lower'') (ct_path c @ ''/merged'')) ?Q u"
    proof (cases ok)
      case True
      have "wp (overlay_calls H (ct_path c @ ''/upper'') (ct_path c @ ''/work'') (ct_path c @ ''/lower'') (ct_path c @ ''/merged'')) ?Q u"
        by (rule wp_mono [OF wp_overlay_calls [OF that(2)]]) (use that(1) u in \<open>auto simp: container_dirs_def\<close>)
      with True show ?thesis by simp
    qed (use none u in \<open>simp add: wp_return\<close>)
  qed
  show ?thesis
  proof (cases "CHR '','' \<notin> set (ct_path c) \<and> ?safe")
    case True
    with rest none show ?thesis
      by (simp only: mount_overlay_def option.case prod.case Let_def wp_bind wp_gets wp_if wp_return) auto
  next
    case False
    with none show ?thesis
      by (simp only: mount_overlay_def option.case prod.case Let_def wp_bind wp_gets wp_if wp_return)
         (auto simp: overlay_delims_def list_ex_iff simp del: all_ok.simps)
  qed
qed

text \<open>C33: mounting the layers of a container calls the kernel only when the container is not sealed with
  its whitelist excluded, the vault is not write-once, and all four directories lie inside the container
  (as resolved before they are created); the options then read exactly as the three layers of this
  container, whatever its path; success is reported exactly when the last of at most two attempts succeeds.\<close>

theorem overlay_mount_guarded:
  assumes "run_state (overlay_fs_init H (Some c) (Some v)) s = (rc, u)"
  shows "rc \<in> {0, - 1} \<and> (\<exists>tr. j_trace u = j_trace s @ tr \<and> length tr \<le> 2
     \<and> list_all (container_mount c) (map fst tr) \<and> (rc = 0 \<longleftrightarrow> mounted_last tr)
     \<and> (tr = [] \<or> container_allowed H (o_fs s) c v))"
proof -
  let ?Q = "\<lambda>rc u. rc \<in> {0, - 1} \<and> (\<exists>tr. j_trace u = j_trace s @ tr \<and> length tr \<le> 2
     \<and> list_all (container_mount c) (map fst tr) \<and> (rc = 0 \<longleftrightarrow> mounted_last tr)
     \<and> (tr = [] \<or> container_allowed H (o_fs s) c v))"
  have none: "?Q (- 1 :: int) s" by (auto simp: mounted_last_def)
  have "wp (overlay_fs_init H (Some c) (Some v)) ?Q s"
  proof (cases "(ct_sealed c \<and> ct_whitelist_excluded c) \<or> worm_check (Some v) WORM_PROTECT_WRITE")
    case True
    with none show ?thesis by (auto simp: overlay_fs_init_def wp_return)
  next
    case False
    have "wp (mount_overlay H (Some (ct_path c @ ''/upper'')) (Some (ct_path c @ ''/work'')) (Some (ct_path c @ ''/lower''))
        (Some (ct_path c @ ''/merged'')) (Some (ct_path c))) ?Q s"
      by (rule wp_mono [OF wp_mount_overlay]) (use False in \<open>auto simp: container_allowed_def\<close>)
    with none show ?thesis
      by (simp only: overlay_fs_init_def option.case prod.case wp_if wp_return) auto
  qed
  from wpD [OF this assms] show ?thesis .
qed

definition ex_container :: VaultContainer where
  "ex_container = \<lparr>ct_id = 1, ct_path = ''/v/docs'', ct_image_tarball = [], ct_entrypoint = [], ct_sealed = True,
     ct_whitelist_excluded = False, ct_require_network = False, ct_require_gui = False\<rparr>"

lemma ex_overlay: "fst (run_state (overlay_fs_init ex_host (Some ex_container) (Some ex_vault)) ex_jail) = 0"
  by code_simp

theorem overlay_mount_guarded_witness:
  "\<exists>tr. j_trace (snd (run_state (overlay_fs_init ex_host (Some ex_container) (Some ex_vault)) ex_jail)) = j_trace ex_jail @ tr
     \<and> mounted_last tr \<and> list_all (container_mount ex_container) (map fst tr)"
  using overlay_mount_guarded [of ex_host ex_container ex_vault ex_jail, OF surjective_pairing] ex_overlay by auto

end
