(* ===== verification/Edit_Distance.thy ===== *)
theory Edit_Distance
  imports Process_Steps
begin

text \<open>
  The edit distance of \<^verbatim>\<open>sandbox/jail.c\<close> with its table, the search for a program with a similar name that
  uses it, and the proof that the table holds the least number of single-character edits.
\<close>

section \<open>The table\<close>

text \<open>The cells of a row from column 1 on: \<open>c\<close> is the character of the row, the list holds the row above
  from the previous column on, and \<open>left\<close> is the cell to the left.\<close>

fun lev_cells :: "char \<Rightarrow> string \<Rightarrow> nat list \<Rightarrow> nat \<Rightarrow> nat list" where
  "lev_cells c [] up left = []"
| "lev_cells c (d # ds) up left =
    (let cost = (if c = d then 0 else 1);
         m = up ! 1 + 1;
         m = (if left + 1 < m then left + 1 else m);
         m = (if up ! 0 + cost < m then up ! 0 + cost else m)
     in m # lev_cells c ds (tl up) m)"

definition lev_row :: "string \<Rightarrow> nat \<Rightarrow> char \<Rightarrow> nat list \<Rightarrow> nat list" where
  "lev_row s2 i c up = i # lev_cells c s2 up i"

fun lev_rows :: "string \<Rightarrow> nat \<Rightarrow> string \<Rightarrow> nat list \<Rightarrow> nat list" where
  "lev_rows s2 i [] row = row"
| "lev_rows s2 i (c # cs) row = lev_rows s2 (Suc i) cs (lev_row s2 i c row)"

definition levenshtein :: "string \<Rightarrow> string \<Rightarrow> nat" where
  "levenshtein s1 s2 = lev_rows s2 1 s1 [0..<Suc (length s2)] ! length s2"

section \<open>The search\<close>

definition closest_dirs :: "string list" where
  "closest_dirs = [''/usr/bin/apt-get'', ''/usr/bin/dnf'', ''/usr/bin/pacman'', ''/sbin/apk'', ''/usr/bin/zypper'']"

definition X_OK :: "32 word" where "X_OK = 1"

text \<open>The best match so far and its distance.\<close>

fun closest_entries :: "host \<Rightarrow> string \<Rightarrow> string \<Rightarrow> string list \<Rightarrow> string option \<times> nat \<Rightarrow> (string option \<times> nat) jio" where
  "closest_entries H target dir [] best = return best"
| "closest_entries H target dir (n # ns) best =
    (if n = ''.'' \<or> n = ''..'' then closest_entries H target dir ns best
     else (let dist = levenshtein target n in
       if dist < snd best then do {
         let full = cbuf 1024 (dir @ ''/'' @ n);
         r \<leftarrow> sys_access (h_os H) full X_OK;
         closest_entries H target dir ns (if succeeds r then (Some full, dist) else best) }
       else closest_entries H target dir ns best))"

fun closest_in :: "host \<Rightarrow> string \<Rightarrow> string list \<Rightarrow> string option \<times> nat \<Rightarrow> (string option \<times> nat) jio" where
  "closest_in H target [] best = return best"
| "closest_in H target (d # ds) best = do {
     r \<leftarrow> sys_opendir (h_os H) d;
     case r of
       Inl _ \<Rightarrow> closest_in H target ds best
     | Inr names \<Rightarrow> do { b \<leftarrow> closest_entries H target d names best; closest_in H target ds b } }"

definition find_closest_binary :: "host \<Rightarrow> string \<Rightarrow> nat \<Rightarrow> string option jio" where
  "find_closest_binary H target max_distance = do {
     b \<leftarrow> closest_in H target closest_dirs (None, max_distance + 1);
     return (fst b) }"

section \<open>The distance is the least number of edits\<close>

text \<open>\<open>edits n s t\<close>: \<open>n\<close> insertions, deletions and replacements, made from the left to the right, turn
  \<open>s\<close> into \<open>t\<close>.\<close>

inductive edits :: "nat \<Rightarrow> string \<Rightarrow> string \<Rightarrow> bool" where
  nil: "edits 0 [] []"
| keep: "edits n s t \<Longrightarrow> edits n (c # s) (c # t)"
| replace: "edits n s t \<Longrightarrow> edits (Suc n) (c # s) (d # t)"
| drop_char: "edits n s t \<Longrightarrow> edits (Suc n) (c # s) t"
| add_char: "edits n s t \<Longrightarrow> edits (Suc n) s (d # t)"

lemma edits_append: "edits m s t \<Longrightarrow> edits n s' t' \<Longrightarrow> edits (m + n) (s @ s') (t @ t')"
  by (induction rule: edits.induct) (auto intro: edits.intros)

lemma edits_single: "edits 0 [c] [c]" "edits (Suc 0) [c] [d]" "edits (Suc 0) [c] []" "edits (Suc 0) [] [d]"
  by (auto intro: edits.intros)

lemma edits_rev: "edits n s t \<Longrightarrow> edits n (rev s) (rev t)"
proof (induction rule: edits.induct)
  case (keep n s t c)
  then show ?case using edits_append [OF keep.IH edits_single(1)] by simp
next
  case (replace n s t c d)
  then show ?case using edits_append [OF replace.IH edits_single(2)] by simp
next
  case (drop_char n s t c)
  then show ?case using edits_append [OF drop_char.IH edits_single(3)] by simp
next
  case (add_char n s t d)
  then show ?case using edits_append [OF add_char.IH edits_single(4)] by simp
qed (simp add: edits.nil)

text \<open>The recursion of the table, on the reversed strings.\<close>

fun dist :: "string \<Rightarrow> string \<Rightarrow> nat" where
  "dist [] t = length t"
| "dist (c # s) [] = Suc (length s)"
| "dist (c # s) (d # t) = min (Suc (dist s (d # t))) (min (Suc (dist (c # s) t)) (dist s t + of_bool (c \<noteq> d)))"

lemma dist_Nil [simp]: "dist s [] = length s"
  by (cases s) simp_all

lemma edits_dist: "edits (dist s t) s t"
proof (induction s t rule: dist.induct)
  case (1 t)
  show ?case by (induction t) (auto intro: edits.intros)
next
  case (2 c s)
  have "edits (length u) u []" for u by (induction u) (auto intro: edits.intros)
  from this [of "c # s"] show ?case by simp
next
  case (3 c s d t)
  have "edits (dist s t + of_bool (c \<noteq> d)) (c # s) (d # t)"
    using 3 by (cases "c = d") (auto intro: edits.intros)
  with 3 show ?case by (auto simp: min_def intro: edits.intros)
qed

lemma dist_Cons_right: "dist s (d # t) \<le> Suc (dist s t)"
  by (cases s) auto

lemma dist_Cons_left: "dist (c # s) t \<le> Suc (dist s t)"
  by (cases t) auto

lemma dist_le_edits: "edits n s t \<Longrightarrow> dist s t \<le> n"
proof (induction rule: edits.induct)
  case (drop_char n s t c)
  then show ?case using dist_Cons_left [of c s t] by linarith
next
  case (add_char n s t d)
  then show ?case using dist_Cons_right [of s d t] by linarith
qed (auto simp: min_le_iff_disj)

section \<open>The table holds the distances of the prefixes\<close>

lemma lev_cells_dist:
  assumes "length up = Suc (length ds)" "\<And>k. k \<le> length ds \<Longrightarrow> up ! k = dist p (rev (take k ds) @ q)"
    "left = dist (c # p) q"
  shows "lev_cells c ds up left = map (\<lambda>k. dist (c # p) (rev (take (Suc k) ds) @ q)) [0..<length ds]"
  using assms
proof (induction ds arbitrary: up left q)
  case (Cons d ds)
  obtain a0 up' where up: "up = a0 # up'" using Cons.prems(1) by (cases up) auto
  let ?m = "dist (c # p) (d # q)"
  have "a0 = dist p q" "up' ! 0 = dist p (d # q)"
    using Cons.prems(2) [of 0] Cons.prems(2) [of 1] by (simp_all add: up)
  then have m: "lev_cells c (d # ds) up left = ?m # lev_cells c ds up' ?m"
    using Cons.prems(3) by (auto simp: up Let_def min_def)
  have "lev_cells c ds up' ?m = map (\<lambda>k. dist (c # p) (rev (take (Suc k) ds) @ d # q)) [0..<length ds]"
  proof (rule Cons.IH [of up' "d # q" ?m])
    show "up' ! k = dist p (rev (take k ds) @ d # q)" if "k \<le> length ds" for k
      using Cons.prems(2) [of "Suc k"] that by (simp add: up)
  qed (use Cons.prems(1) up in simp_all)
  then show ?case
    by (simp only: m) (simp add: upt_conv_Cons map_Suc_upt [symmetric] del: upt_Suc)
qed simp

definition dist_row :: "string \<Rightarrow> string \<Rightarrow> nat list" where
  "dist_row p s2 = map (\<lambda>k. dist p (rev (take k s2))) [0..<Suc (length s2)]"

lemma lev_row_dist: "length p = i \<Longrightarrow> lev_row s2 (Suc i) c (dist_row p s2) = dist_row (c # p) s2"
proof -
  assume "length p = i"
  then have "lev_cells c s2 (dist_row p s2) (Suc i) = map (\<lambda>k. dist (c # p) (rev (take (Suc k) s2) @ [])) [0..<length s2]"
    by (intro lev_cells_dist) (simp_all add: dist_row_def del: upt_Suc)
  with \<open>length p = i\<close> show ?thesis
    by (simp add: lev_row_def dist_row_def upt_conv_Cons map_Suc_upt [symmetric] del: upt_Suc)
qed

lemma lev_rows_dist: "lev_rows s2 (Suc (length p)) cs (dist_row p s2) = dist_row (rev cs @ p) s2"
proof (induction cs arbitrary: p)
  case (Cons c cs)
  from Cons.IH [of "c # p"] show ?case by (simp add: lev_row_dist)
qed simp

lemma levenshtein_dist: "levenshtein s1 s2 = dist (rev s1) (rev s2)"
proof -
  have "dist_row [] s2 = map (\<lambda>k. k) [0..<Suc (length s2)]"
    unfolding dist_row_def by (rule map_cong) auto
  then have "[0..<Suc (length s2)] = dist_row [] s2" by simp
  with lev_rows_dist [of s2 "[]" s1] show ?thesis
    by (simp add: levenshtein_def dist_row_def nth_append)
qed

text \<open>C36: the table computes the least number of insertions, deletions and replacements of single characters
  that turn one name into the other: so many edits are enough, and fewer are never.\<close>

theorem levenshtein_least:
  "levenshtein s1 s2 = (LEAST n. edits n s1 s2) \<and> edits (levenshtein s1 s2) s1 s2"
proof -
  have "edits (levenshtein s1 s2) s1 s2"
    using edits_rev [OF edits_dist [of "rev s1" "rev s2"]] by (simp add: levenshtein_dist)
  moreover have "levenshtein s1 s2 \<le> n" if "edits n s1 s2" for n
    using dist_le_edits [OF edits_rev [OF that]] by (simp add: levenshtein_dist)
  ultimately show ?thesis using Least_equality [of "\<lambda>n. edits n s1 s2"] by metis
qed

end
