(* ===== verification/Landlock_Rules.thy ===== *)
theory Landlock_Rules
  imports Cli_Record Process_Steps
begin

text \<open>
  The file access rules (\<^verbatim>\<open>sandbox/landlock.c\<close>): the accesses a version of the kernel interface knows,
  the rules added for the base paths, the jail, the user's bind entries and the home directory, and the
  restriction of the process. The rules are recorded in the trace; which accesses a set of rules permits is
  the kernel's documented semantics (\<open>ll_permits\<close>).
\<close>

definition LANDLOCK_ACCESS_FS_EXECUTE :: "64 word" where "LANDLOCK_ACCESS_FS_EXECUTE = push_bit 0 1"
definition LANDLOCK_ACCESS_FS_WRITE_FILE :: "64 word" where "LANDLOCK_ACCESS_FS_WRITE_FILE = push_bit 1 1"
definition LANDLOCK_ACCESS_FS_READ_FILE :: "64 word" where "LANDLOCK_ACCESS_FS_READ_FILE = push_bit 2 1"
definition LANDLOCK_ACCESS_FS_READ_DIR :: "64 word" where "LANDLOCK_ACCESS_FS_READ_DIR = push_bit 3 1"
definition LANDLOCK_ACCESS_FS_REMOVE_DIR :: "64 word" where "LANDLOCK_ACCESS_FS_REMOVE_DIR = push_bit 4 1"
definition LANDLOCK_ACCESS_FS_REMOVE_FILE :: "64 word" where "LANDLOCK_ACCESS_FS_REMOVE_FILE = push_bit 5 1"
definition LANDLOCK_ACCESS_FS_MAKE_CHAR :: "64 word" where "LANDLOCK_ACCESS_FS_MAKE_CHAR = push_bit 6 1"
definition LANDLOCK_ACCESS_FS_MAKE_DIR :: "64 word" where "LANDLOCK_ACCESS_FS_MAKE_DIR = push_bit 7 1"
definition LANDLOCK_ACCESS_FS_MAKE_REG :: "64 word" where "LANDLOCK_ACCESS_FS_MAKE_REG = push_bit 8 1"
definition LANDLOCK_ACCESS_FS_MAKE_SOCK :: "64 word" where "LANDLOCK_ACCESS_FS_MAKE_SOCK = push_bit 9 1"
definition LANDLOCK_ACCESS_FS_MAKE_FIFO :: "64 word" where "LANDLOCK_ACCESS_FS_MAKE_FIFO = push_bit 10 1"
definition LANDLOCK_ACCESS_FS_MAKE_BLOCK :: "64 word" where "LANDLOCK_ACCESS_FS_MAKE_BLOCK = push_bit 11 1"
definition LANDLOCK_ACCESS_FS_MAKE_SYM :: "64 word" where "LANDLOCK_ACCESS_FS_MAKE_SYM = push_bit 12 1"
definition LANDLOCK_ACCESS_FS_REFER :: "64 word" where "LANDLOCK_ACCESS_FS_REFER = push_bit 13 1"
definition LANDLOCK_ACCESS_FS_TRUNCATE :: "64 word" where "LANDLOCK_ACCESS_FS_TRUNCATE = push_bit 14 1"

lemmas landlock_bits = LANDLOCK_ACCESS_FS_EXECUTE_def LANDLOCK_ACCESS_FS_WRITE_FILE_def LANDLOCK_ACCESS_FS_READ_FILE_def
  LANDLOCK_ACCESS_FS_READ_DIR_def LANDLOCK_ACCESS_FS_REMOVE_DIR_def LANDLOCK_ACCESS_FS_REMOVE_FILE_def
  LANDLOCK_ACCESS_FS_MAKE_CHAR_def LANDLOCK_ACCESS_FS_MAKE_DIR_def LANDLOCK_ACCESS_FS_MAKE_REG_def
  LANDLOCK_ACCESS_FS_MAKE_SOCK_def LANDLOCK_ACCESS_FS_MAKE_FIFO_def LANDLOCK_ACCESS_FS_MAKE_BLOCK_def
  LANDLOCK_ACCESS_FS_MAKE_SYM_def LANDLOCK_ACCESS_FS_REFER_def LANDLOCK_ACCESS_FS_TRUNCATE_def

definition landlock_abi_version :: "host \<Rightarrow> int jio" where
  "landlock_abi_version H = do { ver \<leftarrow> lib_ret H; return (if ver < 0 then - 1 else ver) }"

definition landlock_fs_access_all :: "int \<Rightarrow> 64 word" where
  "landlock_fs_access_all abi =
    (let access = LANDLOCK_ACCESS_FS_EXECUTE OR LANDLOCK_ACCESS_FS_WRITE_FILE OR LANDLOCK_ACCESS_FS_READ_FILE
           OR LANDLOCK_ACCESS_FS_READ_DIR OR LANDLOCK_ACCESS_FS_REMOVE_DIR OR LANDLOCK_ACCESS_FS_REMOVE_FILE
           OR LANDLOCK_ACCESS_FS_MAKE_CHAR OR LANDLOCK_ACCESS_FS_MAKE_DIR OR LANDLOCK_ACCESS_FS_MAKE_REG
           OR LANDLOCK_ACCESS_FS_MAKE_SOCK OR LANDLOCK_ACCESS_FS_MAKE_FIFO OR LANDLOCK_ACCESS_FS_MAKE_BLOCK
           OR LANDLOCK_ACCESS_FS_MAKE_SYM;
         access = (if 2 \<le> abi then access OR LANDLOCK_ACCESS_FS_REFER else access) in
     if 3 \<le> abi then access OR LANDLOCK_ACCESS_FS_TRUNCATE else access)"

definition ro_access :: "64 word" where
  "ro_access = LANDLOCK_ACCESS_FS_EXECUTE OR LANDLOCK_ACCESS_FS_READ_FILE OR LANDLOCK_ACCESS_FS_READ_DIR"

text \<open>A path that cannot be opened is skipped.\<close>

definition ll_allow_path :: "host \<Rightarrow> string \<Rightarrow> 64 word \<Rightarrow> int jio" where
  "ll_allow_path H path allowed = do {
     r \<leftarrow> sys_stat (h_os H) path;
     if \<not> succeeds r then return 0 else kernel H (Landlock_rule path allowed) }"

definition base_paths :: "(string \<times> bool) list" where
  "base_paths = [(''/proc/self'', False), (''/proc/self/fd'', False), (''/dev'', False), (''/tmp'', False),
     (''/run'', False)]"

definition ll_bind :: "host \<Rightarrow> 64 word \<Rightarrow> BindEntry \<Rightarrow> int jio" where
  "ll_bind H all_access b = (case b_type b of
     BIND_RO \<Rightarrow> ll_allow_path H (b_path b) ro_access
   | BIND_RW \<Rightarrow> ll_allow_path H (b_path b) all_access
   | BIND_BLACKLIST \<Rightarrow> return 0)"

definition ll_home :: "host \<Rightarrow> CliConfig \<Rightarrow> 64 word \<Rightarrow> int jio" where
  "ll_home H c all_access = do {
     home \<leftarrow> getenv H ''HOME'';
     case home of
       None \<Rightarrow> return 0
     | Some h \<Rightarrow>
         if iso_ro_home c then ll_allow_path H h ro_access
         else if iso_rw_home c \<or> iso_tmp_home c then ll_allow_path H h all_access
         else return 0 }"

definition ll_rules :: "host \<Rightarrow> CliConfig \<Rightarrow> string option \<Rightarrow> 64 word \<Rightarrow> unit jio" where
  "ll_rules H c vault_root all_access = do {
     for_each base_paths (\<lambda>(p, rw). do { ll_allow_path H p (if rw then all_access else ro_access); return () });
     ll_allow_path H ''/'' all_access;
     (case vault_root of
        Some r \<Rightarrow> if r \<noteq> [] then do { ll_allow_path H r all_access; return () } else return ()
      | None \<Rightarrow> return ());
     for_each (binds c) (\<lambda>b. do { ll_bind H all_access b; return () });
     ll_home H c all_access;
     return () }"

definition landlock_apply :: "host \<Rightarrow> CliConfig \<Rightarrow> string option \<Rightarrow> int jio" where
  "landlock_apply H c vault_root = do {
     abi \<leftarrow> landlock_abi_version H;
     if abi < 0 then return (- 1)
     else do {
       let all_access = landlock_fs_access_all abi;
       fd \<leftarrow> kernel H (Landlock_create all_access);
       if fd < 0 then return (- 2)
       else do {
         ll_rules H c vault_root all_access;
         kernel H (Prctl PR_SET_NO_NEW_PRIVS 1);
         r \<leftarrow> kernel H Landlock_restrict;
         return (if r < 0 then - 2 else 0) } } }"

section \<open>What the rules permit\<close>

text \<open>The rules the kernel accepted, and the kernel's reading of them: an access to a path is permitted when
  every right it needs is handled by no rule set or granted by a rule for the path or a directory above it.\<close>

definition accepted_rules :: "(kcall \<times> int) list \<Rightarrow> (string \<times> 64 word) list" where
  "accepted_rules tr = concat (map (\<lambda>(k, r). case k of Landlock_rule p a \<Rightarrow> if r < 0 then [] else [(p, a)] | _ \<Rightarrow> []) tr)"

definition beneath :: "string \<Rightarrow> string \<Rightarrow> bool" where
  "beneath d p \<longleftrightarrow> d = ''/'' \<and> prefix ''/'' p \<or> p = d \<or> prefix (d @ ''/'') p"

definition ll_permits :: "64 word \<Rightarrow> (string \<times> 64 word) list \<Rightarrow> string \<Rightarrow> 64 word \<Rightarrow> bool" where
  "ll_permits handled rules p a \<longleftrightarrow>
     (\<forall>i < 64. bit a i \<longrightarrow> bit handled i \<longrightarrow> (\<exists>(d, g) \<in> set rules. beneath d p \<and> bit g i))"

lemma accepted_rules_append [simp]: "accepted_rules (a @ b) = accepted_rules a @ accepted_rules b"
  by (simp add: accepted_rules_def)

lemma root_rule_permits: "(''/'', all) \<in> set rules \<Longrightarrow> prefix ''/'' p \<Longrightarrow> ll_permits all rules p a"
  by (fastforce simp: ll_permits_def beneath_def)

text \<open>The rule for \<^verbatim>\<open>/\<close> is added, and nothing takes a rule away.\<close>

definition has_root_rule :: "64 word \<Rightarrow> jail \<Rightarrow> bool" where
  "has_root_rule all s \<longleftrightarrow> (''/'', all) \<in> set (accepted_rules (j_trace s))"

lemma has_root_rule_indep: "os_indep (has_root_rule all)"
  by (simp add: os_indep_def has_root_rule_def)

lemma pres_root_kernel: "preserves (has_root_rule all) (kernel H k)"
  by (simp add: preserves_wp wp_simps has_root_rule_def)

lemma pres_root_allow:
  "preserves (has_root_rule all) (ll_allow_path H p a)" "preserves (grown f tr) (ll_allow_path H p a)"
  unfolding ll_allow_path_def
  by (intro pres pres_os has_root_rule_indep pres_root_kernel, intro pres) simp_all

lemma pres_ll_bind: "(\<And>p a. preserves I (ll_allow_path H p a)) \<Longrightarrow> preserves I (ll_bind H a b)"
  unfolding ll_bind_def by (cases "b_type b") (auto intro: pres)

lemma pres_ll_home: "(\<And>p a. preserves I (ll_allow_path H p a)) \<Longrightarrow> preserves I (ll_home H c a)"
  unfolding ll_home_def getenv_def by (auto intro!: pres)

lemma wp_root_rule:
  assumes "\<And>t. 0 \<le> h_ret H t" "reliable (h_os H)" "e_euid (h_os H) = 0"
    "fs_get (o_fs s) ''/'' = Some d" "i_type d = S_IFDIR"
  shows "wp (ll_allow_path H ''/'' all) (\<lambda>_. has_root_rule all) s"
proof -
  have "fs_stat (h_os H) ''/'' (o_fs s) = (Inr d, o_fs s)"
    using assms(3-5) by (simp add: fs_stat_def SYMLOOP_MAX_def numeral_eq_Suc fs_lstat_def search_err_def
        parent_dir_def may_def)
  moreover have nn: "(h_ret H t < 0) = False" for t using assms(1) [of t] by simp
  ultimately show ?thesis
    using assms(2) by (simp add: nn ll_allow_path_def wp_simps succeeds_def has_root_rule_def accepted_rules_def)
qed

lemma wp_ll_rules:
  assumes "\<And>t. 0 \<le> h_ret H t" "reliable (h_os H)" "e_euid (h_os H) = 0"
    "fs_get (o_fs s) ''/'' = Some d" "i_type d = S_IFDIR"
  shows "wp (ll_rules H c root all) (\<lambda>_ u. has_root_rule all u \<and> grown (o_fs s) (j_trace s) u) s"
proof -
  let ?I = "grown (o_fs s) (j_trace s)"
  have base: "preserves ?I (for_each base_paths (\<lambda>(p, rw). ll_allow_path H p (if rw then all else ro_access) \<bind> (\<lambda>_. return ())))"
    by (auto intro!: pres pres_root_allow)
  have rest: "preserves J ((case root of Some r \<Rightarrow> if r \<noteq> [] then ll_allow_path H r all \<bind> (\<lambda>_. return ()) else return ()
        | None \<Rightarrow> return ()) \<bind> (\<lambda>_. for_each (binds c) (\<lambda>b. ll_bind H all b \<bind> (\<lambda>_. return ())) \<bind>
      (\<lambda>_. ll_home H c all \<bind> (\<lambda>_. return ()))))"
    if "\<And>p a. preserves J (ll_allow_path H p a)" for J
    using that by (auto intro!: pres pres_ll_bind pres_ll_home split: option.split)
  have root: "wp (ll_allow_path H ''/'' all) (\<lambda>_ u. has_root_rule all u \<and> ?I u) t" if "?I t" for t
    using wp_conj [OF wp_root_rule preservesD [OF pres_root_allow(2) that]] assms that by (simp add: grown_def)
  show ?thesis
    unfolding ll_rules_def wp_bind [of "for_each base_paths _"] wp_bind [of "ll_allow_path H ''/'' all"]
    apply (rule wp_mono [OF preservesD [OF base grown_refl]])
    apply (rule wp_mono [OF root], assumption)
    by (rule wp_conj; rule preservesD [OF rest]) (auto intro: pres_root_allow)
qed

text \<open>C34: when the rules are applied and the root directory could be opened and its rule added, the rule for
  the root directory permits every access to every absolute path: neither a read-only entry nor an entry
  of the blacklist restricts anything.\<close>

theorem landlock_restricts_nothing:
  assumes "run_state (landlock_apply H c root) s = (rc, u)"
    and "\<And>t. 0 \<le> h_ret H t" and "reliable (h_os H)" and "e_euid (h_os H) = 0"
    and "fs_get (o_fs s) ''/'' = Some d" and "i_type d = S_IFDIR"
  shows "rc = 0 \<and> (\<exists>all. Landlock_create all \<in> fst ` set (j_trace u) \<and> Landlock_restrict \<in> fst ` set (j_trace u) \<and>
     (\<forall>p a. prefix ''/'' p \<longrightarrow> ll_permits all (accepted_rules (j_trace u)) p a))"
proof -
  define all where "all = landlock_fs_access_all (h_ret H (o_tick s))"
  define s1 where "s1 = s\<lparr>o_tick := Suc (Suc (o_tick s)),
    j_trace := j_trace s @ [(Landlock_create all, h_ret H (Suc (o_tick s)))]\<rparr>"
  let ?Q = "\<lambda>rc u. rc = 0 \<and> Landlock_create all \<in> fst ` set (j_trace u) \<and> Landlock_restrict \<in> fst ` set (j_trace u)
     \<and> has_root_rule all u"
  have "wp (ll_rules H c root all \<bind> (\<lambda>_. kernel H (Prctl PR_SET_NO_NEW_PRIVS 1) \<bind> (\<lambda>_. kernel H Landlock_restrict \<bind>
      (\<lambda>r. return (if r < 0 then - 2 else 0))))) ?Q s1"
    unfolding wp_bind [of "ll_rules H c root all"]
    by (rule wp_mono [OF wp_ll_rules [OF assms(2-4)]])
       (use assms in \<open>auto simp: s1_def wp_simps grown_def has_root_rule_def prefix_def linorder_not_less [symmetric]\<close>)
  then have "wp (landlock_apply H c root) ?Q s"
    using assms(2) by (simp add: landlock_apply_def landlock_abi_version_def wp_bind wp_return wp_lib_ret wp_kernel
        wp_if Let_def not_less s1_def all_def)
  from wpD [OF this assms(1)] show ?thesis
    by (auto simp: has_root_rule_def intro: root_rule_permits)
qed

theorem landlock_restricts_nothing_witness:
  "\<exists>all. ll_permits all (accepted_rules (j_trace (snd (run_state (landlock_apply ex_host
      (zero_config\<lparr>binds := [\<lparr>b_path = ''/v'', b_type = BIND_BLACKLIST\<rparr>]\<rparr>) (Some ''/k'')) ex_jail)))) ''/v/docs'' LANDLOCK_ACCESS_FS_WRITE_FILE"
proof -
  let ?c = "zero_config\<lparr>binds := [\<lparr>b_path = ''/v'', b_type = BIND_BLACKLIST\<rparr>]\<rparr>"
  have "fs_get (o_fs ex_jail) ''/'' = Some ex_dir" "i_type ex_dir = S_IFDIR"
    by (simp_all add: ex_jail_def world.extend_def ex_fs_def fs_get_def ex_dir_def)
  then obtain all where "\<forall>p a. prefix ''/'' p \<longrightarrow>
      ll_permits all (accepted_rules (j_trace (snd (run_state (landlock_apply ex_host ?c (Some ''/k'')) ex_jail)))) p a"
    using landlock_restricts_nothing [of ex_host ?c "Some ''/k''" ex_jail, OF surjective_pairing] by auto
  moreover have "prefix ''/'' ''/v/docs''" by simp
  ultimately show ?thesis by blast
qed

end
