(* ===== verification/Isolation_Layers.thy ===== *)
theory Isolation_Layers
  imports Process_Steps Cli_Config Landlock_Rules
begin

text \<open>
  The layers of the sandbox that are sequences of kernel calls: the change of the root directory and the
  identity maps (\<^verbatim>\<open>sandbox/userns.c\<close>), the capabilities (\<^verbatim>\<open>caps.c\<close>), the resource limits (\<^verbatim>\<open>rlimits.c\<close>),
  the mounts of the jail (\<^verbatim>\<open>mounts.c\<close>, \<^verbatim>\<open>mount_dev.c\<close>) and the identification of a sandbox
  (\<^verbatim>\<open>autority.c\<close>). \<open>Inl\<close> is a call of \<^verbatim>\<open>_exit\<close>.
\<close>

section \<open>The root directory\<close>

definition EXIT_FAILURE :: int where "EXIT_FAILURE = 1"

definition cleanup_bind :: "host \<Rightarrow> string \<Rightarrow> int proc" where
  "cleanup_bind H root = do { kernel H (Umount2 root MNT_DETACH); return (Inr (- 1)) }"

definition is_dir_result :: "errno + inode \<Rightarrow> bool" where
  "is_dir_result r = (case r of Inl _ \<Rightarrow> False | Inr n \<Rightarrow> i_type n = S_IFDIR)"

definition proc_mount :: "string \<Rightarrow> kcall" where
  "proc_mount p = Mount (Some ''proc'') p (Some ''proc'') (MS_NOSUID OR MS_NOEXEC OR MS_NODEV) None"

text \<open>What follows a successful \<^verbatim>\<open>pivot_root\<close>; the paths are those of the new root.\<close>

definition leave_old_root :: "host \<Rightarrow> string \<Rightarrow> bool \<Rightarrow> int proc" where
  "leave_old_root H oldroot mount_proc = do {
     (if mount_proc then do {
        rooted (\<lambda>p. sys_mkdir (h_os H) p MODE_0555) ''/proc'';
        kernel H (proc_mount ''/proc'');
        return () } else return ());
     r \<leftarrow> kernel H (Umount2 (cbuf 80 (''/'' @ oldroot)) MNT_DETACH);
     if r \<noteq> 0 then return (Inl (Exit EXIT_FAILURE))
     else do {
       d \<leftarrow> rooted (sys_rmdir (h_os H)) (cbuf 80 (''/'' @ oldroot));
       if \<not> succeeds d then return (Inl (Exit EXIT_FAILURE))
       else do {
         r \<leftarrow> kernel H (Chdir ''/'');
         return (if r \<noteq> 0 then Inl (Exit EXIT_FAILURE) else Inr 0) } } }"

text \<open>The directory for the old root has a name the library makes up.\<close>

definition oldroot_name :: "host \<Rightarrow> nat \<Rightarrow> string" where
  "oldroot_name H t = ''.sandbox_oldroot_'' @ h_temp H t"

definition give_up :: "host \<Rightarrow> string \<Rightarrow> string \<Rightarrow> int proc" where
  "give_up H root old = do { rooted (sys_rmdir (h_os H)) (root @ ''/'' @ old); cleanup_bind H root }"

definition pivot_turn :: "host \<Rightarrow> string \<Rightarrow> string \<Rightarrow> bool \<Rightarrow> int proc" where
  "pivot_turn H root old mount_proc = do {
     r \<leftarrow> kernel H (Pivot_root ''.'' old);
     if r \<noteq> 0 then give_up H root old
     else do {
       modify (\<lambda>s. s\<lparr>j_root := j_root s @ root\<rparr>);
       leave_old_root H old mount_proc } }"

definition pivot_checked :: "host \<Rightarrow> string \<Rightarrow> string \<Rightarrow> bool \<Rightarrow> int proc" where
  "pivot_checked H root old mount_proc = do {
     st \<leftarrow> rooted (sys_lstat (h_os H)) (root @ ''/'' @ old);
     if \<not> is_dir_result st then give_up H root old
     else pivot_turn H root old mount_proc }"

definition pivot_inside :: "host \<Rightarrow> string \<Rightarrow> bool \<Rightarrow> int proc" where
  "pivot_inside H root mount_proc = do {
     t \<leftarrow> gets o_tick;
     let old = oldroot_name H t;
     r \<leftarrow> rooted (\<lambda>p. sys_mkdir (h_os H) p MODE_0700) (root @ ''/'' @ old);
     if \<not> succeeds r then cleanup_bind H root
     else pivot_checked H root old mount_proc }"

definition sandbox_pivot_root :: "host \<Rightarrow> string option \<Rightarrow> bool \<Rightarrow> int proc" where
  "sandbox_pivot_root H new_root mount_proc = (case new_root of
     None \<Rightarrow> return (Inr (- 1))
   | Some root \<Rightarrow>
       if root = [] then return (Inr (- 1))
       else do {
         kernel H (Mount (Some ''none'') ''/'' None (MS_REC OR MS_PRIVATE) None);
         r \<leftarrow> kernel H (Mount (Some root) root None (MS_BIND OR MS_REC) None);
         if r \<noteq> 0 then return (Inr (- 1))
         else do {
           r \<leftarrow> kernel H (Chdir root);
           if r \<noteq> 0 then cleanup_bind H root
           else pivot_inside H root mount_proc } })"

definition vsb_pivot_root :: "host \<Rightarrow> string option \<Rightarrow> bool \<Rightarrow> int proc" where
  "vsb_pivot_root H new_root mount_proc = sandbox_pivot_root H new_root mount_proc"

section \<open>Identity maps\<close>

text \<open>\<^verbatim>\<open>open(path, O_WRONLY)\<close>, \<^verbatim>\<open>write\<close>, \<^verbatim>\<open>close\<close>: was everything written?\<close>

definition write_proc :: "host \<Rightarrow> string \<Rightarrow> string \<Rightarrow> bool jio" where
  "write_proc H path txt = do {
     fd \<leftarrow> sys_open (h_os H) path O_WRONLY 0;
     if \<not> succeeds fd then return False
     else do {
       n \<leftarrow> kernel H (Kernel_write path txt);
       return (n = int (length txt)) } }"

definition map_line :: "int \<Rightarrow> string" where
  "map_line i = cbuf 128 (int_text i @ '' '' @ int_text i @ '' 1'' @ [NL])"

definition proc_file :: "int \<Rightarrow> string \<Rightarrow> string" where
  "proc_file pid name = cbuf 256 (''/proc/'' @ int_text pid @ name)"

definition sandbox_write_uid_gid_map :: "host \<Rightarrow> int \<Rightarrow> int \<Rightarrow> int \<Rightarrow> int jio" where
  "sandbox_write_uid_gid_map H child_pid ruid rgid = do {
     write_proc H (proc_file child_pid ''/setgroups'') ''deny'';
     uid_ok \<leftarrow> write_proc H (proc_file child_pid ''/uid_map'') (map_line ruid);
     gid_ok \<leftarrow> write_proc H (proc_file child_pid ''/gid_map'') (map_line rgid);
     return (if \<not> uid_ok \<or> \<not> gid_ok then - 1 else 0) }"

definition vsb_write_uid_gid_map :: "host \<Rightarrow> int \<Rightarrow> int \<Rightarrow> int \<Rightarrow> int jio" where
  "vsb_write_uid_gid_map H child_pid ruid rgid = sandbox_write_uid_gid_map H child_pid ruid rgid"

section \<open>Capabilities\<close>

definition CAP_LAST_CAP :: int where "CAP_LAST_CAP = 40"

definition drop_bounding :: "host \<Rightarrow> int \<Rightarrow> bool jio" where
  "drop_bounding H cap = do {
     (r, e) \<leftarrow> kernel_errno H (Prctl PR_CAPBSET_DROP cap);
     return (\<not> (r \<noteq> 0 \<and> e \<noteq> EINVAL_NO)) }"

text \<open>\<^verbatim>\<open>cap_to_text(cap_get_proc())\<close>; \<open>None\<close> when either fails.\<close>

definition cap_text :: "host \<Rightarrow> string option jio" where
  "cap_text H = do { t \<leftarrow> tick; return (h_input H t) }"

definition drop_effective :: "host \<Rightarrow> int jio" where
  "drop_effective H = do {
     cap_init \<leftarrow> alloc_ok (h_os H);
     if \<not> cap_init then return (- 1)
     else do {
       r \<leftarrow> kernel H Capset;
       if r \<noteq> 0 then return (- 1)
       else do {
         r \<leftarrow> kernel H (Prctl PR_SET_KEEPCAPS 0);
         if r \<noteq> 0 then return (- 1)
         else do {
           r \<leftarrow> kernel H (Prctl PR_SET_NO_NEW_PRIVS 1);
           if r \<noteq> 0 then return (- 1)
           else do {
             text \<leftarrow> cap_text H;
             return (case text of Some t \<Rightarrow> if t \<noteq> ''='' then - 1 else 0 | None \<Rightarrow> 0) } } } } }"

definition sandbox_drop_caps :: "host \<Rightarrow> int jio" where
  "sandbox_drop_caps H = do {
     ok \<leftarrow> all_ok [0..CAP_LAST_CAP] (drop_bounding H);
     if \<not> ok then return (- 1) else drop_effective H }"

definition vsb_drop_caps :: "host \<Rightarrow> int jio" where
  "vsb_drop_caps H = sandbox_drop_caps H"

section \<open>Resource limits\<close>

definition RLIMIT_FSIZE :: int where "RLIMIT_FSIZE = 1"
definition RLIMIT_NPROC :: int where "RLIMIT_NPROC = 6"
definition RLIMIT_NOFILE :: int where "RLIMIT_NOFILE = 7"
definition RLIMIT_AS :: int where "RLIMIT_AS = 9"
definition RLIM_INFINITY :: int where "RLIM_INFINITY = 2 ^ 64 - 1"

definition set_limit :: "host \<Rightarrow> int \<Rightarrow> int \<Rightarrow> unit jio" where
  "set_limit H res n = do { kernel H (Setrlimit res n n); return () }"

definition sandbox_limit_resources :: "host \<Rightarrow> bool \<Rightarrow> unit jio" where
  "sandbox_limit_resources H is_gui = do {
     set_limit H RLIMIT_NPROC (if is_gui then 1024 else 32);
     set_limit H RLIMIT_AS (if is_gui then RLIM_INFINITY else 128 * 1024 * 1024);
     set_limit H RLIMIT_FSIZE (if is_gui then 1024 * 1024 * 1024 else 32 * 1024 * 1024);
     set_limit H RLIMIT_NOFILE (if is_gui then 4096 else 64) }"

definition vsb_limit_resources :: "host \<Rightarrow> bool \<Rightarrow> unit jio" where
  "vsb_limit_resources H is_gui = sandbox_limit_resources H is_gui"

section \<open>Mounts of the jail\<close>

definition SANDBOX_TMP_SIZE :: string where "SANDBOX_TMP_SIZE = ''mode=1777,size=64m''"

definition sandbox_prepare_mounts :: "host \<Rightarrow> unit proc" where
  "sandbox_prepare_mounts H = do {
     rp \<leftarrow> kernel H (Mount (Some ''none'') ''/'' None (MS_REC OR MS_PRIVATE) None);
     if rp \<noteq> 0 then return (Inl (Exit (- err_code ERR_SYSTEM_MOUNT_FAILED)))
     else do {
       rooted (\<lambda>p. sys_mkdir (h_os H) p MODE_0555) ''/proc'';
       rr \<leftarrow> kernel H (proc_mount ''/proc'');
       if rr \<noteq> 0 then return (Inl (Exit (- err_code ERR_SYSTEM_MOUNT_FAILED)))
       else do {
         rooted (\<lambda>p. sys_mkdir (h_os H) p MODE_01777) ''/tmp'';
         kernel H (Mount (Some ''tmpfs'') ''/tmp'' (Some ''tmpfs'') (MS_NOSUID OR MS_NODEV) (Some SANDBOX_TMP_SIZE));
         rooted (\<lambda>p. sys_mkdir (h_os H) p MODE_01777) ''/dev/shm'';
         kernel H (Mount (Some ''tmpfs'') ''/dev/shm'' (Some ''tmpfs'') (MS_NOSUID OR MS_NODEV)
           (Some ''mode=1777,size=256m''));
         return (Inr ()) } } }"

definition vsb_prepare_mounts :: "host \<Rightarrow> unit proc" where
  "vsb_prepare_mounts H = sandbox_prepare_mounts H"

definition S_IFCHR :: "32 word" where "S_IFCHR = 0x2000"
definition MODE_0444 :: "32 word" where "MODE_0444 = 0x124"

definition dev_nodes :: "(string \<times> 32 word \<times> nat \<times> nat) list" where
  "dev_nodes = [(''/dev/null'', S_IFCHR OR MODE_0666, 1, 3), (''/dev/zero'', S_IFCHR OR MODE_0666, 1, 5),
     (''/dev/random'', S_IFCHR OR MODE_0444, 1, 8), (''/dev/urandom'', S_IFCHR OR MODE_0444, 1, 9),
     (''/dev/tty'', S_IFCHR OR MODE_0666, 5, 0), (''/dev/console'', S_IFCHR OR MODE_0600, 5, 1)]"

definition vsb_set_mount_dev :: "bool \<Rightarrow> unit jio" where
  "vsb_set_mount_dev enabled = modify (\<lambda>s. s\<lparr>j_mount_dev := enabled\<rparr>)"

definition dev_links :: "(string \<times> string) list" where
  "dev_links = [(''/proc/self/fd'', ''/dev/fd''), (''/proc/self/fd/0'', ''/dev/stdin''),
     (''/proc/self/fd/1'', ''/dev/stdout''), (''/proc/self/fd/2'', ''/dev/stderr'')]"

definition vsb_mount_dev :: "host \<Rightarrow> unit jio" where
  "vsb_mount_dev H = do {
     on \<leftarrow> gets j_mount_dev;
     if \<not> on then return ()
     else do {
       r \<leftarrow> kernel H (Mount (Some ''tmpfs'') ''/dev'' (Some ''tmpfs'') (MS_NOSUID OR MS_STRICTATIME)
         (Some ''mode=0755,size=65536k''));
       if r \<noteq> 0 then return ()
       else do {
         for_each dev_nodes (\<lambda>(p, m, maj, min). do { kernel H (Mknod p m maj min); return () });
         ok \<leftarrow> rooted (\<lambda>p. mkdir_ok H p MODE_0755) ''/dev/pts'';
         (if \<not> ok then return ()
          else do {
            kernel H (Mount (Some ''devpts'') ''/dev/pts'' (Some ''devpts'') (MS_NOSUID OR MS_NOEXEC)
              (Some ''newinstance,ptmxmode=0666,mode=0620''));
            return () });
         for_each dev_links (\<lambda>(a, b). do { kernel H (Symlink a b); return () }) } } }"

section \<open>Identification\<close>

definition hash_string :: "string \<Rightarrow> int" where
  "hash_string s = uint (foldl (\<lambda>h c. (push_bit 5 h + h) + word_of_nat (ord c)) (5381 :: 32 word) s AND 0x7FFFFFFF)"

record UuidArgs =
  ua_pid :: int
  ua_binary :: "string option"
  ua_pipe_write :: int

text \<open>The identifier is made up by the library; \<open>None\<close> stands for the null identifier.\<close>

definition uuid_generate :: "host \<Rightarrow> string option jio" where
  "uuid_generate H = do { t \<leftarrow> tick; return (h_input H t) }"

definition setup_uuid :: "host \<Rightarrow> UuidArgs \<Rightarrow> int jio" where
  "setup_uuid H args = do {
     u \<leftarrow> uuid_generate H;
     case u of
       None \<Rightarrow> return (- 1)
     | Some uuid \<Rightarrow> do {
         sent \<leftarrow> (if 0 \<le> ua_pipe_write args then lib_ret H else return 0);
         r \<leftarrow> kernel H (Prctl_name (cbuf 16 (int_text (hash_string uuid))));
         setenv H ''NUK4SD_SANDBOX_UUID'' uuid True;
         return (if sent < 0 \<or> r < 0 then 1 else 0) } }"

definition wait_init_binary :: "host \<Rightarrow> UuidArgs \<Rightarrow> int" where
  "wait_init_binary H args =
    (if ua_pid args \<le> 0 then - 1
     else (case h_readlink H (cbuf PATH_MAX (''/proc/'' @ int_text (ua_pid args) @ ''/exe'')) of
       None \<Rightarrow> - 1
     | Some l \<Rightarrow> (case ua_binary args of
         None \<Rightarrow> 0
       | Some b \<Rightarrow> if b \<noteq> cstr (take (PATH_MAX - 1) l) then - 1 else 0)))"


section \<open>Properties\<close>

lemma wp_kernel_errno [wp_simps]: "wp (kernel_errno H k) Q = (\<lambda>s. Q (h_ret H (o_tick s), h_errno H (o_tick s))
    (s\<lparr>o_tick := Suc (o_tick s), j_trace := j_trace s @ [(k, h_ret H (o_tick s))]\<rparr>))"
  by (rule ext) (simp add: kernel_errno_def wp_simps)

text \<open>The calls of a complete drop, and the answers it needs from call \<open>t\<close> on.\<close>

definition bounding_calls :: "nat \<Rightarrow> kcall list" where
  "bounding_calls n = map (\<lambda>c. Prctl PR_CAPBSET_DROP (int c)) [0..<n]"

definition cap_calls :: "kcall list" where
  "cap_calls = bounding_calls 41 @ [Capset, Prctl PR_SET_KEEPCAPS 0, Prctl PR_SET_NO_NEW_PRIVS 1]"

definition bounding_ok :: "host \<Rightarrow> nat \<Rightarrow> nat \<Rightarrow> bool" where
  "bounding_ok H t n \<longleftrightarrow> (\<forall>c < n. h_ret H (t + c) = 0 \<or> h_errno H (t + c) = EINVAL_NO)"

definition caps_ok :: "host \<Rightarrow> nat \<Rightarrow> bool" where
  "caps_ok H t \<longleftrightarrow> bounding_ok H t 41 \<and> e_malloc (h_os H) (t + 41)
     \<and> h_ret H (t + 42) = 0 \<and> h_ret H (t + 43) = 0 \<and> h_ret H (t + 44) = 0
     \<and> (h_input H (t + 45) = None \<or> h_input H (t + 45) = Some ''='')"

definition called :: "event list \<Rightarrow> kcall list \<Rightarrow> jail \<Rightarrow> bool" where
  "called tr0 ks u \<longleftrightarrow> (\<exists>tr. j_trace u = tr0 @ tr \<and> map fst tr = ks)"

lemma called_event: "called tr0 ks u \<Longrightarrow> called tr0 (ks @ [k]) (u\<lparr>o_tick := t, j_trace := j_trace u @ [(k, r)]\<rparr>)"
  by (auto simp: called_def)

lemma called_tick [simp]: "called tr0 ks (u\<lparr>o_tick := t\<rparr>) = called tr0 ks u"
  by (simp add: called_def)

lemma bounding_calls_Suc [simp]: "bounding_calls (Suc n) = bounding_calls n @ [Prctl PR_CAPBSET_DROP (int n)]"
  by (simp add: bounding_calls_def)

lemma wp_bounding:
  "wp (all_ok [0..CAP_LAST_CAP] (drop_bounding H)) (ok_post
      (\<lambda>u. called (j_trace s) (bounding_calls 41) u \<and> o_tick u = o_tick s + 41 \<and> bounding_ok H (o_tick s) 41)
      (\<lambda>u. (\<exists>n \<le> 41. called (j_trace s) (bounding_calls n) u) \<and> \<not> bounding_ok H (o_tick s) 41)) s"
proof -
  let ?I = "\<lambda>k u. called (j_trace s) (bounding_calls k) u \<and> o_tick u = o_tick s + k \<and> bounding_ok H (o_tick s) k"
  let ?X = "\<lambda>u. (\<exists>n \<le> 41. called (j_trace s) (bounding_calls n) u) \<and> \<not> bounding_ok H (o_tick s) 41"
  have n: "length [0..CAP_LAST_CAP] = 41" "\<And>k. k < 41 \<Longrightarrow> [0..CAP_LAST_CAP] ! k = int k"
    by (simp_all add: CAP_LAST_CAP_def)
  have "wp (drop_bounding H (int k)) (ok_post (?I (Suc k)) ?X) t" if "k < 41" "?I k t" for k t
  proof -
    have "called (j_trace s) (bounding_calls (Suc k)) (t\<lparr>o_tick := m, j_trace := j_trace t @ [(Prctl PR_CAPBSET_DROP (int k), r)]\<rparr>)" for m r
      using that(2) called_event by simp
    with that show ?thesis
      by (auto simp: drop_bounding_def wp_simps bounding_ok_def less_Suc_eq ok_post_def intro: exI [of _ "Suc k"])
  qed
  moreover have "?I 0 s" by (simp add: called_def bounding_calls_def bounding_ok_def)
  ultimately show ?thesis
    using wp_all_ok [of "[0..CAP_LAST_CAP]" ?I "drop_bounding H" ?X s] n by (simp add: eval_nat_numeral)
qed


lemma prefix_bounding: "n \<le> 41 \<Longrightarrow> prefix (bounding_calls n) cap_calls"
proof -
  assume "n \<le> 41"
  then have "[0..<41] = [0..<n] @ [n..<41]" using upt_add_eq_append [of 0 n "41 - n"] by simp
  then show ?thesis by (simp add: cap_calls_def bounding_calls_def)
qed

text \<open>The rest of the drop, from the state in which the bounding set is empty.\<close>

definition drop_post :: "host \<Rightarrow> jail \<Rightarrow> int \<Rightarrow> jail \<Rightarrow> bool" where
  "drop_post H s rc u \<longleftrightarrow> rc = (if caps_ok H (o_tick s) then 0 else - 1)
     \<and> (\<exists>ks. called (j_trace s) ks u \<and> prefix ks cap_calls \<and> (rc = 0 \<longrightarrow> ks = cap_calls))"

lemma drop_post_failed:
  "called (j_trace s) ks u \<Longrightarrow> prefix ks cap_calls \<Longrightarrow> \<not> caps_ok H (o_tick s) \<Longrightarrow> drop_post H s (- 1) u"
  by (auto simp: drop_post_def)

lemma called_append: "called tr0 ks s \<Longrightarrow> called (j_trace s) ks' u \<Longrightarrow> called tr0 (ks @ ks') u"
  by (fastforce simp: called_def)

text \<open>One checked call.\<close>

lemma wp_checked:
  assumes "called tr0 ks s" "o_tick s = n"
    and "\<And>u. h_ret H n \<noteq> 0 \<Longrightarrow> called tr0 (ks @ [k]) u \<Longrightarrow> Q (- 1) u"
    and "\<And>u. h_ret H n = 0 \<Longrightarrow> called tr0 (ks @ [k]) u \<Longrightarrow> o_tick u = Suc n \<Longrightarrow> wp m Q u"
  shows "wp (do { r \<leftarrow> kernel H k; if r \<noteq> 0 then return (- 1) else m }) Q s"
proof -
  have "called tr0 (ks @ [k]) (s\<lparr>o_tick := Suc n, j_trace := j_trace s @ [(k, h_ret H n)]\<rparr>)"
    using assms(1) by (rule called_event)
  with assms show ?thesis by (auto simp: wp_simps)
qed

lemma wp_drop_effective:
  assumes "called (j_trace s) (bounding_calls 41) t" "o_tick t = o_tick s + 41" "bounding_ok H (o_tick s) 41"
  shows "wp (drop_effective H) (drop_post H s) t"
proof -
  let ?n = "o_tick s"
  have fail: "drop_post H s (- 1) u" if "called (j_trace s) (bounding_calls 41 @ ks) u" "\<not> caps_ok H ?n"
    "ks = [] \<or> ks = [Capset] \<or> ks = [Capset, Prctl PR_SET_KEEPCAPS 0] \<or> ks = [Capset, Prctl PR_SET_KEEPCAPS 0, Prctl PR_SET_NO_NEW_PRIVS 1]" for ks u
    using that by (intro drop_post_failed [OF that(1)]) (auto simp: cap_calls_def)
  let ?verify = "do { text \<leftarrow> cap_text H; return (case text of Some t \<Rightarrow> if t \<noteq> ''='' then - 1 else 0 | None \<Rightarrow> 0) }"
  let ?nnp = "do { r \<leftarrow> kernel H (Prctl PR_SET_NO_NEW_PRIVS 1); if r \<noteq> 0 then return (- 1) else ?verify }"
  let ?keep = "do { r \<leftarrow> kernel H (Prctl PR_SET_KEEPCAPS 0); if r \<noteq> 0 then return (- 1) else ?nnp }"
  let ?caps = "do { r \<leftarrow> kernel H Capset; if r \<noteq> 0 then return (- 1) else ?keep }"
  have verify: "wp ?verify (drop_post H s) u"
    if "called (j_trace s) (bounding_calls 41 @ [Capset, Prctl PR_SET_KEEPCAPS 0, Prctl PR_SET_NO_NEW_PRIVS 1]) u"
      "o_tick u = ?n + 45" "caps_ok H ?n \<longleftrightarrow> h_input H (?n + 45) = None \<or> h_input H (?n + 45) = Some ''=''" for u
    using that by (auto simp: wp_simps cap_text_def drop_post_def cap_calls_def split: option.split)
  have nnp: "wp ?nnp (drop_post H s) u" if "called (j_trace s) (bounding_calls 41 @ [Capset, Prctl PR_SET_KEEPCAPS 0]) u"
      "o_tick u = ?n + 44" "e_malloc (h_os H) (?n + 41)" "h_ret H (?n + 42) = 0" "h_ret H (?n + 43) = 0" for u
    by (rule wp_checked [OF that(1,2)]) (use that assms fail verify in \<open>auto simp: caps_ok_def\<close>)
  have keep: "wp ?keep (drop_post H s) u" if "called (j_trace s) (bounding_calls 41 @ [Capset]) u"
      "o_tick u = ?n + 43" "e_malloc (h_os H) (?n + 41)" "h_ret H (?n + 42) = 0" for u
    by (rule wp_checked [OF that(1,2)]) (use that fail nnp in \<open>auto simp: caps_ok_def\<close>)
  have caps: "wp ?caps (drop_post H s) u" if "called (j_trace s) (bounding_calls 41) u"
      "o_tick u = ?n + 42" "e_malloc (h_os H) (?n + 41)" for u
    by (rule wp_checked [OF that(1,2)]) (use that fail keep in \<open>auto simp: caps_ok_def\<close>)
  show ?thesis
  proof (cases "e_malloc (h_os H) (?n + 41)")
    case False
    with fail [of "[]"] assms show ?thesis
      by (simp add: drop_effective_def wp_simps caps_ok_def)
  next
    case True
    with caps [of "t\<lparr>o_tick := Suc (?n + 41)\<rparr>"] assms show ?thesis
      by (simp add: drop_effective_def wp_alloc_ok wp_bind [of "alloc_ok _"])
  qed
qed

lemma wp_drop_caps: "wp (vsb_drop_caps H) (drop_post H s) s"
proof -
  have "drop_post H s (- 1) t" if "(\<exists>n \<le> 41. called (j_trace s) (bounding_calls n) t) \<and> \<not> bounding_ok H (o_tick s) 41" for t
    using that drop_post_failed prefix_bounding by (auto simp: caps_ok_def)
  then show ?thesis
    unfolding vsb_drop_caps_def sandbox_drop_caps_def
    by (intro wp_ok_bind [OF wp_bounding]) (simp_all add: wp_return wp_drop_effective)
qed


text \<open>The state of the process as far as the root directory is concerned.\<close>

definition spot :: "event list \<Rightarrow> string \<Rightarrow> jail \<Rightarrow> bool" where
  "spot tr root u \<longleftrightarrow> j_trace u = tr \<and> j_root u = root"

lemma spot_simps [simp]: "spot tr root (u\<lparr>o_fs := f\<rparr>) = spot tr root u" "spot tr root (u\<lparr>o_tick := t\<rparr>) = spot tr root u"
  "spot tr root (u\<lparr>j_trace := tr'\<rparr>) \<longleftrightarrow> tr' = tr \<and> j_root u = root"
  "spot tr root (u\<lparr>j_root := root'\<rparr>) \<longleftrightarrow> j_trace u = tr \<and> root' = root"
  by (auto simp: spot_def)

lemma wp_spot_syscall: "spot tr root s \<Longrightarrow> (\<And>r u. spot tr root u \<Longrightarrow> Q r u) \<Longrightarrow> wp (syscall E c) Q s"
  by (simp add: wp_simps split: option.split)

lemma wp_spot_rooted: "spot tr root s \<Longrightarrow> (\<And>r u. spot tr root u \<Longrightarrow> Q r u) \<Longrightarrow> wp (rooted (\<lambda>p. syscall E (c p)) q) Q s"
  by (auto simp: rooted_def wp_bind wp_gets intro: wp_spot_syscall)

lemma wp_spot_kernel: "spot tr root s \<Longrightarrow> (\<And>r u. spot (tr @ [(k, r)]) root u \<Longrightarrow> Q r u) \<Longrightarrow> wp (kernel H k) Q s"
  by (simp add: wp_simps spot_def)

definition ok_call :: "kcall \<Rightarrow> event \<Rightarrow> bool" where
  "ok_call k x \<longleftrightarrow> x = (k, 0)"

definition root_bind :: "string \<Rightarrow> kcall" where
  "root_bind root = Mount (Some root) root None (MS_BIND OR MS_REC) None"

definition pivoted :: "event list \<Rightarrow> bool" where
  "pivoted tr \<longleftrightarrow> (\<exists>old. (Pivot_root ''.'' old, 0) \<in> set tr)"

lemma pivoted_simps [simp]: "\<not> pivoted []" "pivoted (a @ b) \<longleftrightarrow> pivoted a \<or> pivoted b"
  "pivoted ((k, r) # tr) \<longleftrightarrow> (\<exists>old. k = Pivot_root ''.'' old \<and> r = 0) \<or> pivoted tr"
  by (auto simp: pivoted_def)

definition left_old_root :: "string \<Rightarrow> event list \<Rightarrow> bool" where
  "left_old_root root tr \<longleftrightarrow> (\<exists>old. passed [ok_call (root_bind root), ok_call (Pivot_root ''.'' old),
     ok_call (Umount2 (cbuf 80 (''/'' @ old)) MNT_DETACH), ok_call (Chdir ''/'')] tr)"

definition pivot_post :: "event list \<Rightarrow> string \<Rightarrow> string \<Rightarrow> ended + int \<Rightarrow> jail \<Rightarrow> bool" where
  "pivot_post tr0 old_root root r u \<longleftrightarrow> (\<exists>tr. j_trace u = tr0 @ tr \<and> no_exec tr \<and> (case r of
     Inl e \<Rightarrow> e = Exit EXIT_FAILURE \<and> pivoted tr
   | Inr v \<Rightarrow> (v = 0 \<and> left_old_root root tr \<and> j_root u = old_root @ root)
       \<or> (v = - 1 \<and> \<not> pivoted tr \<and> j_root u = old_root
          \<and> ((root_bind root, 0) \<in> set tr \<longrightarrow> fst (last tr) = Umount2 root MNT_DETACH))))"

lemma wp_leave_old_root:
  assumes "spot (tr0 @ a @ [(Pivot_root ''.'' old, 0)]) (r0 @ root) s" "no_exec a"
    "passed [ok_call (root_bind root)] a"
  shows "wp (leave_old_root H old mp) (pivot_post tr0 r0 root) s"
proof -
  let ?rest = "do {
     r \<leftarrow> kernel H (Umount2 (cbuf 80 (''/'' @ old)) MNT_DETACH);
     if r \<noteq> 0 then return (Inl (Exit EXIT_FAILURE))
     else do {
       d \<leftarrow> rooted (sys_rmdir (h_os H)) (cbuf 80 (''/'' @ old));
       if \<not> succeeds d then return (Inl (Exit EXIT_FAILURE))
       else do {
         r \<leftarrow> kernel H (Chdir ''/'');
         return (if r \<noteq> 0 then Inl (Exit EXIT_FAILURE) else Inr 0) } } }"
  have piv: "passed [ok_call (root_bind root), ok_call (Pivot_root ''.'' old)] (a @ [(Pivot_root ''.'' old, 0)])"
    using passed_append [OF assms(3), of "[ok_call (Pivot_root ''.'' old)]" "[(Pivot_root ''.'' old, 0)]"]
    by (simp add: ok_call_def)
  have "wp ?rest (pivot_post tr0 r0 root) u"
    if u: "spot (tr0 @ a @ (Pivot_root ''.'' old, 0) # b) (r0 @ root) u" "no_exec b" for u b
  proof -
    let ?m = "(Umount2 (cbuf 80 (''/'' @ old)) MNT_DETACH, 0 :: int)"
    have bad: "pivot_post tr0 r0 root (Inl (Exit EXIT_FAILURE)) w"
      if "spot (tr0 @ a @ (Pivot_root ''.'' old, 0) # b @ c) (r0 @ root) w" "no_exec c" for w c
      using that u(2) assms(2) by (auto simp: pivot_post_def spot_def)
    have good: "pivot_post tr0 r0 root (Inr 0) w"
      if "spot (tr0 @ a @ (Pivot_root ''.'' old, 0) # b @ [?m, (Chdir ''/'', 0)]) (r0 @ root) w" for w
    proof -
      have "passed [ok_call (fst ?m), ok_call (Chdir ''/'')] (b @ [?m, (Chdir ''/'', 0)])"
        by (intro passed_prepend) (simp add: ok_call_def)
      then have "left_old_root root (a @ (Pivot_root ''.'' old, 0) # b @ [?m, (Chdir ''/'', 0)])"
        using passed_append [OF piv] unfolding left_old_root_def by fastforce
      with that u(2) assms(2) show ?thesis by (auto simp: pivot_post_def spot_def)
    qed
    show ?thesis
      unfolding wp_bind
      apply (rule wp_spot_kernel [OF u(1)])
      subgoal for r w
        using bad [of "[(Umount2 (cbuf 80 (''/'' @ old)) MNT_DETACH, r)]" w]
        apply (cases "r = 0")
         apply (simp add: wp_bind)
         apply (rule wp_spot_rooted, assumption)
        subgoal for d w'
          using bad [of "[?m]" w']
          apply (cases "succeeds d")
           apply (simp add: wp_bind)
           apply (rule wp_spot_kernel, assumption)
          subgoal for r' w''
            using bad [of "[?m, (Chdir ''/'', r')]" w''] good [of w''] by (auto simp: wp_return)
          apply (simp add: wp_return)
          done
        apply (simp add: wp_return)
        done
      done
  qed
  note rest = this
  show ?thesis
  proof (cases mp)
    case False
    then show ?thesis using rest [of "[]" s] assms(1) by (simp add: leave_old_root_def wp_bind wp_return)
  next
    case True
    show ?thesis
      unfolding leave_old_root_def wp_bind
      apply (simp add: True wp_bind)
      apply (rule wp_spot_rooted [OF assms(1)])
      apply (rule wp_spot_kernel, assumption)
      using rest [of "[(proc_mount ''/proc'', _)]"] apply (simp add: wp_return wp_bind proc_mount_def)
      done
  qed
qed


lemma wp_cleanup_bind:
  assumes "spot (tr0 @ a) r0 s" "no_exec a" "\<not> pivoted a"
  shows "wp (cleanup_bind H root) (pivot_post tr0 r0 root) s"
  using assms by (auto simp: cleanup_bind_def wp_simps pivot_post_def spot_def)

lemma wp_give_up:
  assumes "spot (tr0 @ a) r0 s" "no_exec a" "\<not> pivoted a"
  shows "wp (give_up H root old) (pivot_post tr0 r0 root) s"
  unfolding give_up_def wp_bind by (rule wp_spot_rooted [OF assms(1)], rule wp_cleanup_bind) (use assms in simp_all)

lemma wp_pivot_turn:
  assumes "spot (tr0 @ a) r0 s" "no_exec a" "\<not> pivoted a" "passed [ok_call (root_bind root)] a"
  shows "wp (pivot_turn H root old mp) (pivot_post tr0 r0 root) s"
  unfolding pivot_turn_def wp_bind [of "kernel _ _"]
proof (rule wp_spot_kernel [OF assms(1)])
  fix r u assume u: "spot ((tr0 @ a) @ [(Pivot_root ''.'' old, r)]) r0 u"
  then have "wp (leave_old_root H old mp) (pivot_post tr0 r0 root) (u\<lparr>j_root := j_root u @ root\<rparr>)" if "r = 0"
    using that assms(2,4) by (intro wp_leave_old_root) (auto simp: spot_def)
  moreover have "wp (give_up H root old) (pivot_post tr0 r0 root) u" if "r \<noteq> 0"
    using u that assms by (intro wp_give_up [where a = "a @ [(Pivot_root ''.'' old, r)]"]) simp_all
  ultimately show "wp (if r \<noteq> 0 then give_up H root old
      else modify (\<lambda>s. s\<lparr>j_root := j_root s @ root\<rparr>) \<bind> (\<lambda>_. leave_old_root H old mp)) (pivot_post tr0 r0 root) u"
    by (cases "r = 0") (simp_all add: wp_bind [of "modify _"] wp_modify)
qed

lemma wp_pivot_checked:
  assumes "spot (tr0 @ a) r0 s" "no_exec a" "\<not> pivoted a" "passed [ok_call (root_bind root)] a"
  shows "wp (pivot_checked H root old mp) (pivot_post tr0 r0 root) s"
  unfolding pivot_checked_def wp_bind [of "rooted _ _"]
proof (rule wp_spot_rooted [OF assms(1)])
  fix st u assume "spot (tr0 @ a) r0 u"
  with assms show "wp (if \<not> is_dir_result st then give_up H root old else pivot_turn H root old mp) (pivot_post tr0 r0 root) u"
    by (cases "is_dir_result st") (simp_all add: wp_give_up wp_pivot_turn)
qed

lemma wp_pivot_inside:
  assumes "spot (tr0 @ a) r0 s" "no_exec a" "\<not> pivoted a" "passed [ok_call (root_bind root)] a"
  shows "wp (pivot_inside H root mp) (pivot_post tr0 r0 root) s"
  unfolding pivot_inside_def Let_def wp_bind [of "gets _"] wp_gets wp_bind [of "rooted _ _"]
proof (rule wp_spot_rooted [OF assms(1)])
  fix r u assume "spot (tr0 @ a) r0 u"
  with assms show "wp (if \<not> succeeds r then cleanup_bind H root
      else pivot_checked H root (oldroot_name H (o_tick s)) mp) (pivot_post tr0 r0 root) u"
    by (cases "succeeds r") (simp_all add: wp_cleanup_bind wp_pivot_checked)
qed

lemma wp_pivot_root: "wp (vsb_pivot_root H (Some root) mp) (pivot_post (j_trace s) (j_root s) root) s"
proof (cases "root = []")
  case True
  then show ?thesis
    by (auto simp: vsb_pivot_root_def sandbox_pivot_root_def wp_return pivot_post_def)
next
  case False
  let ?p = "(Mount (Some ''none'') ''/'' None (MS_REC OR MS_PRIVATE) None, h_ret H (o_tick s))"
  have undo: "wp (cleanup_bind H root) (pivot_post (j_trace s) (j_root s) root) u"
    and inside: "wp (pivot_inside H root mp) (pivot_post (j_trace s) (j_root s) root) u"
    if "spot (j_trace s @ [?p, (root_bind root, 0), (Chdir root, r)]) (j_root s) u" for r u
    using wp_cleanup_bind [OF that] wp_pivot_inside [OF that] by (simp_all add: root_bind_def ok_call_def)
  show ?thesis
  proof (cases "h_ret H (Suc (o_tick s)) = 0")
    case True
    with False show ?thesis
      unfolding vsb_pivot_root_def sandbox_pivot_root_def
      by (auto simp: wp_bind wp_kernel spot_def root_bind_def intro!: undo inside)
  next
    case fail: False
    with False show ?thesis
      unfolding vsb_pivot_root_def sandbox_pivot_root_def
      by (simp add: wp_bind wp_kernel wp_return pivot_post_def root_bind_def)
  qed
qed


text \<open>C15: capabilities are dropped completely or the drop is reported as failed: \<^verbatim>\<open>vsb_drop_caps\<close> answers 0
  exactly when every capability of the bounding set was dropped (or is unknown to the kernel), the
  effective, permitted and inheritable sets were emptied, \<^verbatim>\<open>KEEPCAPS\<close> was cleared, new privileges were
  forbidden, and the capabilities read back are empty if they could be read; in this case all 44 calls were
  made in this order. Otherwise it answers -1 after the first call that failed.\<close>

theorem capabilities_dropped_or_refused:
  assumes "run_state (vsb_drop_caps H) s = (rc, u)"
  shows "rc = (if caps_ok H (o_tick s) then 0 else - 1) \<and>
    (\<exists>ks. called (j_trace s) ks u \<and> prefix ks cap_calls \<and> (rc = 0 \<longrightarrow> ks = cap_calls))"
  using wp_drop_caps [of H s] assms by (auto simp: wp_def drop_post_def)

text \<open>On a machine where the call for capability 3 fails and nothing else, the drop stops there.\<close>

theorem capabilities_dropped_or_refused_witness:
  "let H = ex_host\<lparr>h_ret := \<lambda>t. if t = 3 then - 1 else 0\<rparr>; s = ex_jail\<lparr>o_tick := 0\<rparr>; (rc, u) = run_state (vsb_drop_caps H) s in
     rc = - 1 \<and> \<not> caps_ok H 0 \<and> length (j_trace u) = 4 \<and>
     (\<exists>ks. called (j_trace s) ks u \<and> prefix ks cap_calls \<and> (rc = 0 \<longrightarrow> ks = cap_calls))"
proof -
  let ?H = "ex_host\<lparr>h_ret := \<lambda>t. if t = 3 then - 1 else 0\<rparr>" and ?s = "ex_jail\<lparr>o_tick := 0\<rparr>"
  have run: "fst (run_state (vsb_drop_caps ?H) ?s) = - 1" "length (j_trace (snd (run_state (vsb_drop_caps ?H) ?s))) = 4"
    by code_simp+
  from capabilities_dropped_or_refused [OF surjective_pairing, of ?H ?s] run(1) have "\<not> caps_ok ?H 0"
    by (simp split: if_splits)
  with capabilities_dropped_or_refused [OF surjective_pairing, of ?H ?s] run show ?thesis
    by (simp add: Let_def case_prod_beta)
qed

text \<open>C14: \<^verbatim>\<open>vsb_pivot_root\<close> changes the root completely, or not at all, or ends the process. It returns 0
  only after it has turned to the new root, detached the old one and gone to the new root directory,
  in this order. When it returns -1 the root is the old one, no turn has succeeded, and the bind mount
  it had made is undone by its last call. When the turn succeeded but the old root could not be detached,
  the process exits: it never continues with the host's files still attached.\<close>

theorem pivot_all_or_nothing:
  assumes "run_state (vsb_pivot_root H (Some root) mount_proc) s = (r, u)"
  shows "\<exists>tr. j_trace u = j_trace s @ tr \<and> (case r of
     Inl e \<Rightarrow> e = Exit EXIT_FAILURE \<and> pivoted tr
   | Inr v \<Rightarrow> (v = 0 \<and> left_old_root root tr \<and> j_root u = j_root s @ root)
       \<or> (v = - 1 \<and> \<not> pivoted tr \<and> j_root u = j_root s
          \<and> ((root_bind root, 0) \<in> set tr \<longrightarrow> fst (last tr) = Umount2 root MNT_DETACH)))"
  using wp_pivot_root [of H root mount_proc s] assms by (auto simp: wp_def pivot_post_def)

theorem pivot_all_or_nothing_witness:
  "let (r, u) = run_state (vsb_pivot_root ex_host (Some ''/v'') True) ex_jail in
     r = Inr 0 \<and> j_root u = ''/v'' \<and> left_old_root ''/v'' (j_trace u)"
proof -
  have run: "fst (run_state (vsb_pivot_root ex_host (Some ''/v'') True) ex_jail) = Inr 0" by code_simp
  have start: "j_trace ex_jail = []" "j_root ex_jail = []" by code_simp+
  from pivot_all_or_nothing [OF surjective_pairing, of ex_host "''/v''" True ex_jail] run start show ?thesis
    by (auto simp: Let_def case_prod_beta)
qed


section \<open>The layers as steps of a process\<close>

definition caps_dropped :: "(event \<Rightarrow> bool) list" where
  "caps_dropped = [ok_call Capset, ok_call (Prctl PR_SET_KEEPCAPS 0), ok_call (Prctl PR_SET_NO_NEW_PRIVS 1)]"

lemma calm_then_layer: "calm tr0 t \<Longrightarrow> layer_post ps (j_trace t) ok u \<Longrightarrow> layer_post ps tr0 ok u"
  by (auto simp: calm_def layer_post_def intro: passed_prepend)

lemma wp_drop_effective_layer: "wp (drop_effective H) (\<lambda>rc u. layer_post caps_dropped (j_trace s) (rc = 0) u) s"
  by (auto simp: drop_effective_def wp_simps cap_text_def layer_post_def caps_dropped_def ok_call_def split: option.split)

lemma wp_drop_caps_layer: "wp (vsb_drop_caps H) (\<lambda>rc u. layer_post caps_dropped (j_trace s) (rc = 0) u) s"
proof -
  have "preserves (calm (j_trace s)) (all_ok [0..CAP_LAST_CAP] (drop_bounding H))"
    by (auto intro!: pres simp: drop_bounding_def kernel_errno_def)
  then have *: "wp (all_ok [0..CAP_LAST_CAP] (drop_bounding H)) (\<lambda>_. calm (j_trace s)) s"
    by (simp add: preserves_wp)
  have "wp (if \<not> ok then return (- 1) else drop_effective H) (\<lambda>rc u. layer_post caps_dropped (j_trace s) (rc = 0) u) t"
    if "calm (j_trace s) t" for ok t
    using that wp_drop_effective_layer [of H t]
    by (cases ok) (auto simp: wp_return calm_layer_post elim!: wp_mono intro: calm_then_layer)
  then show ?thesis
    unfolding vsb_drop_caps_def sandbox_drop_caps_def wp_bind by (intro wp_mono [OF *])
qed

lemma layer_drop_caps: "layer A caps_dropped (or_exit (vsb_drop_caps H) c)"
  by (rule layer_or_exit, rule wp_drop_caps_layer)

text \<open>\<^verbatim>\<open>if (vsb_pivot_root(root, p) != 0) _exit(c);\<close>\<close>

definition pivot_or_exit :: "host \<Rightarrow> string \<Rightarrow> bool \<Rightarrow> int \<Rightarrow> unit proc" where
  "pivot_or_exit H root mount_proc c = do {
     r \<leftarrow> vsb_pivot_root H (Some root) mount_proc;
     return (case r of Inl e \<Rightarrow> Inl e | Inr v \<Rightarrow> if v \<noteq> 0 then Inl (Exit c) else Inr ()) }"

definition is_pivot :: "event \<Rightarrow> bool" where
  "is_pivot x \<longleftrightarrow> (\<exists>old. x = (Pivot_root ''.'' old, 0))"

definition is_detach :: "event \<Rightarrow> bool" where
  "is_detach x \<longleftrightarrow> (\<exists>p. x = (Umount2 p MNT_DETACH, 0))"

definition root_changed :: "string \<Rightarrow> (event \<Rightarrow> bool) list" where
  "root_changed root = [ok_call (root_bind root), is_pivot, is_detach, ok_call (Chdir ''/'')]"

lemma passed_weaker: "list_all2 (\<lambda>p q. \<forall>x. p x \<longrightarrow> q x) ps qs \<Longrightarrow> passed ps tr \<Longrightarrow> passed qs tr"
proof (induction ps tr arbitrary: qs rule: passed.induct)
  case (3 p ps x tr)
  then obtain q qs' where qs: "qs = q # qs'" "\<forall>x. p x \<longrightarrow> q x" "list_all2 (\<lambda>p q. \<forall>x. p x \<longrightarrow> q x) ps qs'"
    by (auto simp: list_all2_Cons1)
  show ?case
  proof (cases "p x")
    case True
    with qs(2) have "q x" by blast
    moreover have "passed qs' tr" using 3(1) [OF True qs(3)] 3(4) True by simp
    ultimately show ?thesis using qs(1) by simp
  next
    case False
    with 3 qs have "passed qs tr" by auto
    with qs(1) show ?thesis by (auto intro: passed_fewer)
  qed
qed (auto simp: list_all2_Cons1)

lemma left_old_root_changed: "left_old_root root tr \<Longrightarrow> passed (root_changed root) tr"
  unfolding left_old_root_def root_changed_def
  by (elim exE, erule passed_weaker [rotated]) (auto simp: ok_call_def is_pivot_def is_detach_def)

lemma layer_pivot: "layer A (root_changed root) (pivot_or_exit H root mp c)"
  unfolding pivot_or_exit_def
  by (rule layerI, unfold wp_bind wp_return, rule wp_mono [OF wp_pivot_root])
    (auto simp: pivot_post_def layer_post_def left_old_root_changed split: sum.splits)

lemma pres_calm_rooted [pres]: "preserves (calm tr0) (rooted (\<lambda>p. syscall E (c p)) q)"
  by (auto simp: rooted_def intro!: pres pres_os)

lemma layer_prepare_mounts: "layer A [] (vsb_prepare_mounts H)"
  unfolding vsb_prepare_mounts_def sandbox_prepare_mounts_def proc_mount_def
  by (rule layer_calm) (auto intro!: pres)

lemma pres_calm_mount_dev [pres]: "preserves (calm tr0) (vsb_mount_dev H)"
  by (auto simp: vsb_mount_dev_def rooted_def mkdir_ok_def intro!: pres pres_os)

lemma pres_calm_limits [pres]: "preserves (calm tr0) (vsb_limit_resources H g)"
  by (auto simp: vsb_limit_resources_def sandbox_limit_resources_def set_limit_def intro!: pres)

end
