(* ===== verification/Jail_Setup.thy ===== *)
theory Jail_Setup
  imports Edit_Distance Isolation_Layers Vault_Ffi
begin

text \<open>
  The directory tree of a jail (\<^verbatim>\<open>sandbox/jail.c\<close>): the shell that is copied or installed into it, its
  device stubs, and the host directories bound for graphical programs. Device nodes and mounts are recorded;
  whether a path is a character device is an answer of the host (\<open>h_ischr\<close>). An installation forks, so these
  operations are processes: \<open>Inl\<close> is the end of the child.
\<close>

section \<open>The installer\<close>

definition installers :: "(string list \<times> string) list" where
  "installers = [
     ([''apt-get'', ''install'', ''-y'', ''--no-install-recommends'', ''busybox-static''], ''/usr/bin/apt-get''),
     ([''dnf'', ''install'', ''-y'', ''busybox''], ''/usr/bin/dnf''),
     ([''pacman'', ''-Sy'', ''--noconfirm'', ''busybox''], ''/usr/bin/pacman''),
     ([''apk'', ''add'', ''--no-cache'', ''busybox-static''], ''/sbin/apk''),
     ([''zypper'', ''install'', ''-y'', ''busybox-static''], ''/usr/bin/zypper'')]"

text \<open>The child: output to \<^verbatim>\<open>/dev/null\<close> unless root, the package manager, a program with a similar name, or
  exit code 127.\<close>

definition silence :: "host \<Rightarrow> unit jio" where
  "silence H = (if e_euid (h_os H) \<noteq> 0 then do {
       fd \<leftarrow> sys_open (h_os H) ''/dev/null'' O_WRONLY 0;
       (if succeeds fd then do { lib_ret H; lib_ret H; return () } else return ()) }
     else return ())"

definition exec_closest :: "host \<Rightarrow> string list \<Rightarrow> unit proc" where
  "exec_closest H argv = do {
     fallback \<leftarrow> find_closest_binary H (hd argv) 2;
     case fallback of Some p \<Rightarrow> execv H p argv | None \<Rightarrow> return (Inr ()) }"

definition installer_child :: "host \<Rightarrow> string list \<Rightarrow> unit proc" where
  "installer_child H argv = steps
     [always (silence H), execv H (hd argv) argv, exec_closest H argv, return (Inl (Exit 127))]"

text \<open>\<open>Inr\<close> carries the parent's answer.\<close>

definition in_child :: "unit proc \<Rightarrow> int proc" where
  "in_child m = do { r \<leftarrow> m; return (case r of Inl e \<Rightarrow> Inl e | Inr _ \<Rightarrow> Inr (- 1)) }"

fun installer_loop :: "host \<Rightarrow> (string list \<times> string) list \<Rightarrow> int proc" where
  "installer_loop H [] = return (Inr (- 1))"
| "installer_loop H ((argv, pm) # rest) = do {
     st \<leftarrow> sys_stat (h_os H) pm;
     if \<not> succeeds st then installer_loop H rest
     else do {
       pid \<leftarrow> kernel H Fork;
       if pid < 0 then installer_loop H rest
       else if pid = 0 then in_child (installer_child H argv)
       else do {
         (r, status) \<leftarrow> waitpid H pid;
         if r < 0 then installer_loop H rest
         else if WIFEXITED status \<and> WEXITSTATUS status = 0 then return (Inr 0)
         else installer_loop H rest } } }"

definition jail_run_installer :: "host \<Rightarrow> int proc" where
  "jail_run_installer H = installer_loop H installers"

section \<open>The shell\<close>

definition shell_candidates :: "string list" where
  "shell_candidates = [''/usr/bin/busybox-static'', ''/usr/bin/busybox'', ''/bin/busybox'', ''/usr/local/bin/busybox'']"

definition new_file_flags :: "32 word" where
  "new_file_flags = O_WRONLY OR O_CREAT OR O_TRUNC"

text \<open>The copy in blocks of 64 KiB. A read that fails ends it like the end of the file.\<close>

definition copy_blocks :: "host \<Rightarrow> string \<Rightarrow> string \<Rightarrow> bool jio" where
  "copy_blocks H src dst = do {
     r \<leftarrow> read_loop (h_os H) src 65536 (\<lambda>off b s. do {
        n \<leftarrow> sys_fwrite (h_os H) dst b;
        return (if n \<noteq> length b then Inl () else Inr ()) }) ();
     return (case r of Inl _ \<Rightarrow> False | Inr _ \<Rightarrow> True) }"

definition copy_candidate :: "host \<Rightarrow> string \<Rightarrow> string \<Rightarrow> bool jio" where
  "copy_candidate H cand dst = do {
     st \<leftarrow> sys_stat (h_os H) cand;
     if \<not> succeeds st then return False
     else do {
       src \<leftarrow> sys_open (h_os H) cand 0 0;
       case src of
         Inl _ \<Rightarrow> return False
       | Inr sp \<Rightarrow> do {
           out \<leftarrow> sys_open (h_os H) dst new_file_flags MODE_0755;
           case out of
             Inl _ \<Rightarrow> return False
           | Inr dp \<Rightarrow> do {
               ok \<leftarrow> copy_blocks H sp dp;
               if \<not> ok then do { sys_unlink (h_os H) dst; return False }
               else return True } } } }"

text \<open>The test for a statically linked program: no program header of type 3 (\<^verbatim>\<open>PT_INTERP\<close>) among the first 64.\<close>

definition bytes_at :: "nat \<Rightarrow> nat \<Rightarrow> string \<Rightarrow> nat" where
  "bytes_at i n s = le_val (take n (drop i s))"

definition read_bytes :: "host \<Rightarrow> string \<Rightarrow> nat \<Rightarrow> nat \<Rightarrow> string jio" where
  "read_bytes H p off n = do {
     r \<leftarrow> sys_pread (h_os H) p off n;
     return (case r of Inl _ \<Rightarrow> [] | Inr b \<Rightarrow> b) }"

fun has_interp :: "host \<Rightarrow> string \<Rightarrow> nat \<Rightarrow> nat \<Rightarrow> nat \<Rightarrow> bool jio" where
  "has_interp H p 0 off phentsize = return False"
| "has_interp H p (Suc k) off phentsize = do {
     b \<leftarrow> read_bytes H p off 4;
     if length b \<noteq> 4 then return False
     else if le_val b = 3 then return True
     else has_interp H p k (off + phentsize) phentsize }"

text \<open>\<^verbatim>\<open>phoff\<close>, \<^verbatim>\<open>phentsize\<close> and \<^verbatim>\<open>phnum\<close> of an ELF header.\<close>

definition program_headers :: "string \<Rightarrow> nat \<times> nat \<times> nat" where
  "program_headers e = (let bits = ord (e ! 4) in
     if bits = 2 \<and> 64 \<le> length e then (bytes_at 32 8 e, bytes_at 54 2 e, bytes_at 56 2 e)
     else if bits = 1 then (bytes_at 28 4 e, bytes_at 42 2 e, bytes_at 44 2 e)
     else (0, 0, 0))"

definition is_static_elf :: "host \<Rightarrow> string \<Rightarrow> bool jio" where
  "is_static_elf H cand = do {
     probe \<leftarrow> sys_open (h_os H) cand 0 0;
     case probe of
       Inl _ \<Rightarrow> return False
     | Inr p \<Rightarrow> do {
         e \<leftarrow> read_bytes H p 0 64;
         if 52 \<le> length e \<and> take 4 e = [CHR 0x7F, CHR ''E'', CHR ''L'', CHR ''F''] then
           (case program_headers e of (phoff, phentsize, phnum) \<Rightarrow>
             if 0 < phnum \<and> 0 < phentsize \<and> 0 < phoff then do {
               i \<leftarrow> has_interp H p (min phnum 64) (if phoff < 2 ^ 63 then phoff else length e) phentsize;
               return (\<not> i) }
             else return True)
         else return False } }"

fun install_static :: "host \<Rightarrow> string \<Rightarrow> string list \<Rightarrow> bool jio" where
  "install_static H dst [] = return False"
| "install_static H dst (c # cs) = do {
     ok \<leftarrow> copy_candidate H c dst;
     if \<not> ok then install_static H dst cs
     else do {
       static \<leftarrow> is_static_elf H c;
       if \<not> static then do { sys_unlink (h_os H) dst; install_static H dst cs }
       else return True } }"

text \<open>The second round, after an installation, without the test.\<close>

fun install_any :: "host \<Rightarrow> string \<Rightarrow> string list \<Rightarrow> bool jio" where
  "install_any H dst [] = return False"
| "install_any H dst (c # cs) = do {
     ok \<leftarrow> copy_candidate H c dst;
     if \<not> ok then install_any H dst cs else return True }"

definition shell_present :: "errno + inode \<Rightarrow> bool" where
  "shell_present r = (case r of Inl _ \<Rightarrow> False | Inr n \<Rightarrow> 0 < length (i_data n))"

definition install_after :: "host \<Rightarrow> string \<Rightarrow> int proc" where
  "install_after H dst = do {
     inst \<leftarrow> jail_run_installer H;
     case inst of
       Inl e \<Rightarrow> return (Inl e)
     | Inr rc \<Rightarrow>
         if rc = 0 then do {
           ok \<leftarrow> install_any H dst shell_candidates;
           return (Inr (if ok then 0 else - 1)) }
         else return (Inr (- 1)) }"

definition jail_install_shell :: "host \<Rightarrow> string \<Rightarrow> int proc" where
  "jail_install_shell H vault_path = do {
     let dst = cbuf VAULT_PATH_MAX (vault_path @ ''/bin/sh'');
     st \<leftarrow> sys_stat (h_os H) dst;
     if shell_present st then return (Inr 0)
     else do {
       ok \<leftarrow> install_static H dst shell_candidates;
       if ok then return (Inr 0) else install_after H dst } }"

section \<open>The tree\<close>

definition vault_mkdir_p :: "host \<Rightarrow> string \<Rightarrow> 32 word \<Rightarrow> int jio" where
  "vault_mkdir_p H path mode =
    (if length path = 0 \<or> VAULT_PATH_MAX \<le> length path then return (- 1)
     else do {
       let tmp = strip_slash path;
       ok \<leftarrow> all_ok (cut_points tmp) (\<lambda>d. mkdir_ok H d mode);
       if \<not> ok then return (- 1)
       else do {
         ok \<leftarrow> mkdir_ok H tmp mode;
         return (if ok then 0 else - 1) } })"

definition in_vault :: "string \<Rightarrow> string \<Rightarrow> string" where
  "in_vault vault_path p = cbuf VAULT_PATH_MAX (vault_path @ p)"

definition touch :: "host \<Rightarrow> string \<Rightarrow> 32 word \<Rightarrow> unit jio" where
  "touch H p mode = do { sys_open (h_os H) p (O_CREAT OR O_WRONLY) mode; return () }"

definition dev_stub :: "host \<Rightarrow> string \<Rightarrow> unit jio" where
  "dev_stub H p = do {
     st \<leftarrow> sys_stat (h_os H) p;
     if \<not> succeeds st then touch H p MODE_0666 else return () }"

definition dev_node :: "host \<Rightarrow> string \<Rightarrow> nat \<times> nat \<Rightarrow> unit jio" where
  "dev_node H p dev = do {
     st \<leftarrow> sys_stat (h_os H) p;
     if \<not> succeeds st \<or> \<not> h_ischr H p then do {
       sys_unlink (h_os H) p;
       kernel H (Mknod p (S_IFCHR OR MODE_0666) (fst dev) (snd dev));
       return () }
     else return () }"

definition jail_devices :: "(string \<times> nat \<times> nat) list" where
  "jail_devices = [(''/dev/null'', 1, 3), (''/dev/zero'', 1, 5), (''/dev/tty'', 5, 0)]"

definition subdirs_cli :: "string list" where
  "subdirs_cli = [''proc'', ''tmp'', ''dev'', ''bin'', ''lib'', ''lib64'']"

definition subdirs_gui :: "string list" where
  "subdirs_gui = [''proc'', ''tmp'', ''dev'', ''bin'', ''lib'', ''lib64'', ''usr'', ''etc'', ''etc/fonts'',
     ''etc/alternatives'', ''run'', ''run/user'', ''sys'', ''sys/dev'', ''sys/dev/char'']"

definition jail_subdir :: "host \<Rightarrow> string \<Rightarrow> unit jio" where
  "jail_subdir H dir = do {
     ok \<leftarrow> mkdir_ok H dir MODE_0755;
     if ok then return ()
     else do {
       (case before_last CHR ''/'' dir of
          Some parent \<Rightarrow> do { sys_mkdir (h_os H) parent MODE_0755; return () }
        | None \<Rightarrow> return ());
       mkdir_ok H dir MODE_0755;
       return () } }"

definition write_marker :: "host \<Rightarrow> string \<Rightarrow> unit jio" where
  "write_marker H marker = do {
     fd \<leftarrow> sys_open (h_os H) marker (O_CREAT OR O_WRONLY OR O_TRUNC OR O_NOFOLLOW) MODE_0400;
     case fd of
       Inl _ \<Rightarrow> return ()
     | Inr p \<Rightarrow> do { sys_fwrite (h_os H) p (''Nuk4sd Jail v2'' @ [NL]); return () } }"

definition jail_devs :: "host \<Rightarrow> string \<Rightarrow> unit jio" where
  "jail_devs H vault_path = do {
     sys_mkdir (h_os H) (in_vault vault_path ''/dev'') MODE_0755;
     for_each jail_devices (\<lambda>(p, d). dev_stub H (in_vault vault_path p));
     (if e_euid (h_os H) = 0 then for_each jail_devices (\<lambda>(p, d). dev_node H (in_vault vault_path p) d)
      else return ());
     sys_mkdir (h_os H) (in_vault vault_path ''/bin'') MODE_0755;
     return () }"

definition jail_tree :: "host \<Rightarrow> string \<Rightarrow> bool \<Rightarrow> unit jio" where
  "jail_tree H vault_path gui_mode = (let marker = in_vault vault_path (''/'' @ SANDBOX_JAIL_MARKER) in do {
     st \<leftarrow> sys_stat (h_os H) marker;
     if succeeds st then return ()
     else do {
       for_each (if gui_mode then subdirs_gui else subdirs_cli)
         (\<lambda>d. jail_subdir H (in_vault vault_path (''/'' @ d)));
       write_marker H marker } })"

definition install_step :: "host \<Rightarrow> string \<Rightarrow> unit proc" where
  "install_step H vault_path = do {
     r \<leftarrow> jail_install_shell H vault_path;
     return (case r of Inl e \<Rightarrow> Inl e | Inr _ \<Rightarrow> Inr ()) }"

definition vault_prepare_jail :: "host \<Rightarrow> string \<Rightarrow> bool \<Rightarrow> unit proc" where
  "vault_prepare_jail H vault_path gui_mode = steps
     [always (jail_devs H vault_path), install_step H vault_path, always (jail_tree H vault_path gui_mode)]"

definition vsb_prepare_jail :: "host \<Rightarrow> string \<Rightarrow> bool \<Rightarrow> unit proc" where
  "vsb_prepare_jail H path gui = vault_prepare_jail H path gui"

section \<open>Binds for graphical programs\<close>

definition gui_binds :: "string list" where
  "gui_binds = [''/usr'', ''/lib'', ''/lib64'', ''/etc/fonts'', ''/etc/alternatives'', ''/sys/dev/char'', ''/dev/dri'',
     ''/dev/null'', ''/dev/zero'', ''/dev/urandom'', ''/dev/random'', ''/dev/shm'', ''/dev/pts'', ''/tmp/.X11-unix'',
     ''/etc/resolv.conf'', ''/etc/nsswitch.conf'', ''/etc/ssl/certs'', ''/etc/machine-id'']"

definition bind_call :: "string \<Rightarrow> string \<Rightarrow> 64 word \<Rightarrow> kcall" where
  "bind_call src dst fl = Mount (Some src) dst None fl None"

definition remount_call :: "string \<Rightarrow> 64 word \<Rightarrow> kcall" where
  "remount_call dst fl = Mount None dst None fl None"

definition gui_mount :: "host \<Rightarrow> string \<Rightarrow> string \<Rightarrow> unit jio" where
  "gui_mount H src dst = do {
     r \<leftarrow> kernel H (bind_call src dst (MS_BIND OR MS_REC));
     if r = 0 \<and> take 5 src \<noteq> ''/dev/'' then do {
       kernel H (remount_call dst (MS_BIND OR MS_REMOUNT OR MS_RDONLY OR MS_REC));
       return () }
     else return () }"

definition gui_bind :: "host \<Rightarrow> string \<Rightarrow> string \<Rightarrow> unit jio" where
  "gui_bind H jail_path src = (let dst = in_vault jail_path src in do {
     st \<leftarrow> sys_stat (h_os H) src;
     if \<not> succeeds st then return ()
     else if is_dir_result st then do {
       r \<leftarrow> vault_mkdir_p H dst MODE_0755;
       if r \<noteq> 0 then return () else gui_mount H src dst }
     else do { touch H dst MODE_0666; gui_mount H src dst } })"

definition vsb_bind_gui_deps :: "host \<Rightarrow> string \<Rightarrow> unit jio" where
  "vsb_bind_gui_deps H jail_path = for_each gui_binds (gui_bind H jail_path)"

definition vault_isolate_path_readonly :: "host \<Rightarrow> string option \<Rightarrow> int jio" where
  "vault_isolate_path_readonly H path = (case path of
     None \<Rightarrow> return (- 1)
   | Some p \<Rightarrow> do {
       r \<leftarrow> kernel H (bind_call p p MS_BIND);
       if r \<noteq> 0 then return (- 1)
       else do {
         r \<leftarrow> kernel H (bind_call p p (MS_BIND OR MS_REMOUNT OR MS_RDONLY));
         if r \<noteq> 0 then do { kernel H (Umount2 p 0); return (- 1) }
         else return 0 } })"

end
