(* ===== verification/Seccomp_Policy.thy ===== *)
theory Seccomp_Policy
  imports Sandbox_State
begin

text \<open>
  The system call filter (\<^verbatim>\<open>sandbox/seccomp.c\<close>): the lists of calls the policy allows, the rules a user
  adds or takes away with \<^verbatim>\<open>--adapter "accept: ... decline: ..."\<close>, and the construction of the filter
  through libseccomp. The numbers of the calls are libseccomp's (\<open>h_sysno\<close>; negative when the
  architecture has no such call, \<open>- 1\<close> when the name is unknown). A filter is the list of the rules
  added to the context; what the kernel does with it is not modelled.
\<close>

section \<open>The mode, and the user's adapter\<close>

definition vsb_set_seccomp_mode :: "bool \<Rightarrow> bool \<Rightarrow> bool \<Rightarrow> bool \<Rightarrow> unit jio" where
  "vsb_set_seccomp_mode strict allow_c3 friendly permissive = modify (\<lambda>s. s\<lparr>
     j_seccomp_strict := strict, j_seccomp_allow_c3 := allow_c3,
     j_seccomp_friendly := friendly, j_seccomp_permissive := permissive\<rparr>)"

definition vsb_set_seccomp_adapter :: "string option \<Rightarrow> unit jio" where
  "vsb_set_seccomp_adapter adapter = modify (\<lambda>s. s\<lparr>j_seccomp_adapter := adapter\<rparr>)"

definition MAX_ADAPTER_DECLINES :: nat where "MAX_ADAPTER_DECLINES = 128"
definition ADAPTER_BUF :: nat where "ADAPTER_BUF = 1024"
definition adapter_delims :: string where "adapter_delims = '',; '' @ [CHR 0x09, CHR 0x0D, CHR 0x0A]"

definition is_syscall_declined :: "int list \<Rightarrow> int \<Rightarrow> bool" where
  "is_syscall_declined ds sc \<longleftrightarrow> list_ex (\<lambda>d. d = sc) ds"

text \<open>The tokens between the first \<^verbatim>\<open>key\<close> and the next \<^verbatim>\<open>stop\<close> of the adapter, cut to the buffer.\<close>

definition adapter_tokens :: "string \<Rightarrow> string \<Rightarrow> string option \<Rightarrow> string list" where
  "adapter_tokens key stop a = (case a of
     None \<Rightarrow> []
   | Some s \<Rightarrow> (case strstr_at (cbuf ADAPTER_BUF s) key of
       None \<Rightarrow> []
     | Some r \<Rightarrow> strtok_all adapter_delims (cut_at (drop (length key) r) stop)))"

definition names_syscall :: "host \<Rightarrow> string \<Rightarrow> bool" where
  "names_syscall H tok \<longleftrightarrow> \<not> strcasecmp_eq tok ''empty'' \<and> h_sysno H tok \<noteq> - 1 \<and> 0 \<le> h_sysno H tok"

definition decline_step :: "host \<Rightarrow> string \<Rightarrow> int list \<Rightarrow> int list" where
  "decline_step H tok ds =
     (if names_syscall H tok \<and> length ds < MAX_ADAPTER_DECLINES then ds @ [h_sysno H tok] else ds)"

definition parse_adapter_declines :: "host \<Rightarrow> string option \<Rightarrow> unit jio" where
  "parse_adapter_declines H a = do {
     modify (\<lambda>s. s\<lparr>j_declined := []\<rparr>);
     modify (\<lambda>s. s\<lparr>j_declined := fold (decline_step H) (adapter_tokens ''decline:'' ''accept:'' a) []\<rparr>) }"

section \<open>The lists of allowed calls\<close>

definition file_io_syscalls :: "string list" where
  "file_io_syscalls = [
    ''read'', ''write'', ''readv'', ''writev'', ''pread64'', ''pwrite64'', ''preadv'',
    ''pwritev'', ''preadv2'', ''pwritev2'', ''lseek'', ''open'', ''openat'', ''openat2'',
    ''close'', ''close_range'', ''dup'', ''dup2'', ''dup3'', ''pipe'', ''pipe2'', ''read'',
    ''fstat'', ''stat'', ''lstat'', ''newfstatat'', ''statx'', ''access'', ''faccessat'',
    ''faccessat2'', ''ioctl'', ''fcntl'', ''flock'', ''truncate'', ''ftruncate'']"

definition directory_syscalls :: "string list" where
  "directory_syscalls = [
    ''getcwd'', ''chdir'', ''fchdir'', ''mkdir'', ''mkdirat'', ''rmdir'', ''rename'',
    ''renameat'', ''renameat2'', ''unlink'', ''unlinkat'', ''link'', ''linkat'', ''symlink'',
    ''symlinkat'', ''readlink'', ''readlinkat'', ''chmod'', ''fchmod'', ''fchmodat'', ''chown'',
    ''fchown'', ''lchown'', ''fchownat'', ''getdents'', ''getdents64'', ''utimes'',
    ''utimensat'', ''futimesat'', ''inotify_init'', ''inotify_init1'', ''inotify_add_watch'',
    ''inotify_rm_watch'', ''statfs'', ''fstatfs'']"

definition process_syscalls :: "string list" where
  "process_syscalls = [
    ''getpid'', ''getppid'', ''gettid'', ''getuid'', ''geteuid'', ''getgid'', ''getegid'',
    ''getgroups'', ''getresuid'', ''getresgid'', ''getpgrp'', ''getpgid'', ''getsid'',
    ''setpgid'', ''setsid'', ''exit'', ''exit_group'', ''wait4'', ''waitid'', ''fork'',
    ''vfork'', ''clone'', ''execve'', ''execveat'', ''kill'', ''tgkill'', ''tkill'',
    ''sigaltstack'', ''rt_sigaction'', ''rt_sigprocmask'', ''rt_sigreturn'', ''rt_sigpending'',
    ''rt_sigsuspend'', ''rt_sigtimedwait'', ''pause'', ''alarm'', ''setitimer'', ''getitimer'',
    ''prctl'']"

definition memory_syscalls :: "string list" where
  "memory_syscalls = [
    ''mmap'', ''munmap'', ''mprotect'', ''mremap'', ''madvise'', ''mlock'', ''munlock'',
    ''mlockall'', ''munlockall'', ''brk'', ''mincore'']"

definition tls_syscalls :: "string list" where
  "tls_syscalls = [
    ''arch_prctl'', ''set_tid_address'', ''set_thread_area'']"

definition polling_syscalls :: "string list" where
  "polling_syscalls = [
    ''select'', ''pselect6'', ''poll'', ''ppoll'', ''epoll_create'', ''epoll_create1'',
    ''epoll_ctl'', ''epoll_wait'', ''epoll_pwait'', ''epoll_pwait2'', ''eventfd'', ''eventfd2'',
    ''signalfd'', ''signalfd4'', ''timerfd_create'', ''timerfd_settime'', ''timerfd_gettime'']"

definition timing_syscalls :: "string list" where
  "timing_syscalls = [
    ''nanosleep'', ''clock_nanosleep'', ''clock_gettime'', ''clock_getres'', ''clock_settime'',
    ''gettimeofday'', ''times'', ''time'', ''timer_create'', ''timer_settime'',
    ''timer_gettime'', ''timer_getoverrun'', ''timer_delete'']"

definition limit_syscalls :: "string list" where
  "limit_syscalls = [
    ''getrlimit'', ''setrlimit'', ''prlimit64'', ''getrusage'', ''sched_getaffinity'',
    ''sched_setaffinity'', ''sched_getparam'', ''sched_setparam'', ''sched_getscheduler'',
    ''sched_setscheduler'', ''sched_yield'', ''nice'', ''getpriority'', ''setpriority'']"

definition ipc_syscalls :: "string list" where
  "ipc_syscalls = [
    ''futex'', ''futex_waitv'', ''semget'', ''semop'', ''semtimedop'', ''semctl'']"

definition entropy_syscalls :: "string list" where
  "entropy_syscalls = [
    ''getrandom'']"

definition misc_syscalls :: "string list" where
  "misc_syscalls = [
    ''uname'', ''sysinfo'', ''getdents'', ''sendfile'', ''copy_file_range'', ''splice'', ''tee'',
    ''vmsplice'', ''mq_open'', ''mq_unlink'', ''mq_timedsend'', ''mq_timedreceive'',
    ''mq_notify'', ''mq_getsetattr'', ''syslog'', ''restart_syscall'']"

definition permissive_syscalls :: "string list" where
  "permissive_syscalls = [
    ''chroot'', ''capset'', ''capget'', ''setuid'', ''setgid'', ''setreuid'', ''setregid'',
    ''setresuid'', ''setresgid'', ''setgroups'']"

definition open_syscalls :: "string list" where
  "open_syscalls = [
    ''socket'', ''connect'', ''bind'', ''listen'', ''accept'', ''accept4'', ''sendmsg'',
    ''recvmsg'', ''sendto'', ''recvfrom'', ''socketpair'', ''getsockopt'', ''setsockopt'',
    ''getsockname'', ''getpeername'', ''shutdown'', ''sendmmsg'', ''recvmmsg'', ''shmget'',
    ''shmat'', ''shmctl'', ''shmdt'', ''memfd_create'', ''clone3'', ''userfaultfd'']"

definition friendly_syscalls :: "string list" where
  "friendly_syscalls = [
    ''fsync'', ''fdatasync'', ''sync'', ''syncfs'', ''sync_file_range'', ''fallocate'',
    ''name_to_handle_at'', ''open_by_handle_at'']"

text \<open>All the names the policy allows in the mode of the state, in the order of the code.\<close>

definition base_syscalls :: "string list" where
  "base_syscalls = file_io_syscalls @ directory_syscalls @ process_syscalls @ memory_syscalls @ tls_syscalls
     @ polling_syscalls @ timing_syscalls @ limit_syscalls @ ipc_syscalls @ entropy_syscalls @ misc_syscalls"

definition policy_names :: "jail \<Rightarrow> string list" where
  "policy_names s = base_syscalls
     @ (if j_seccomp_permissive s then permissive_syscalls else [])
     @ (if \<not> j_seccomp_strict s then open_syscalls
        else if j_seccomp_allow_c3 s then [''clone3''] else [])
     @ (if j_seccomp_friendly s then friendly_syscalls else [])"

section \<open>Building and loading the filter\<close>

text \<open>\<^verbatim>\<open>seccomp_rule_add\<close> of a rule without arguments: the rule is in the context when it returns 0.\<close>

definition EEXIST_RET :: int where "EEXIST_RET = - 17"

definition seccomp_rule_add :: "host \<Rightarrow> scmp_action \<Rightarrow> int \<Rightarrow> int jio" where
  "seccomp_rule_add H a nr = do {
     rc \<leftarrow> lib_ret H;
     if rc = 0 then do { modify (\<lambda>s. s\<lparr>j_ctx := j_ctx s @ [(a, nr)]\<rparr>); return rc }
     else return rc }"

definition seccomp_release :: "unit jio" where
  "seccomp_release = modify (\<lambda>s. s\<lparr>j_ctx := []\<rparr>)"

definition ALLOW :: "host \<Rightarrow> string \<Rightarrow> bool jio" where
  "ALLOW H name = (let nr = h_sysno H name in do {
     ds \<leftarrow> gets j_declined;
     if 0 \<le> nr \<and> \<not> is_syscall_declined ds nr then do {
       rc \<leftarrow> seccomp_rule_add H SCMP_ACT_ALLOW nr;
       return (rc = 0 \<or> rc = EEXIST_RET) }
     else return True })"

definition adapter_accept :: "host \<Rightarrow> string \<Rightarrow> bool jio" where
  "adapter_accept H tok = (if names_syscall H tok then do {
       ds \<leftarrow> gets j_declined;
       if \<not> is_syscall_declined ds (h_sysno H tok) then do {
         rc \<leftarrow> seccomp_rule_add H SCMP_ACT_ALLOW (h_sysno H tok);
         return (rc = 0 \<or> rc = EEXIST_RET) }
       else return True }
     else return True)"

definition apply_adapter_accept_rules :: "host \<Rightarrow> string option \<Rightarrow> bool jio" where
  "apply_adapter_accept_rules H a = all_ok (adapter_tokens ''accept:'' ''decline:'' a) (adapter_accept H)"

definition kill_rules :: "host \<Rightarrow> bool jio" where
  "kill_rules H = do {
     r1 \<leftarrow> seccomp_rule_add H SCMP_ACT_KILL_PROCESS (h_sysno H ''kexec_load'');
     if r1 \<noteq> 0 then return False
     else do {
       r2 \<leftarrow> seccomp_rule_add H SCMP_ACT_KILL_PROCESS (h_sysno H ''process_vm_writev'');
       return (r2 = 0) } }"

definition seccomp_load :: "host \<Rightarrow> int jio" where
  "seccomp_load H = do {
     rc \<leftarrow> kernel H Seccomp_load;
     if rc = 0 then do { modify (\<lambda>s. s\<lparr>j_loaded := Some (j_ctx s)\<rparr>); return rc }
     else return rc }"

definition seccomp_rules :: "host \<Rightarrow> bool jio" where
  "seccomp_rules H = do {
     names \<leftarrow> gets policy_names;
     ok \<leftarrow> all_ok names (ALLOW H);
     if \<not> ok then return False
     else do {
       ok \<leftarrow> kill_rules H;
       if \<not> ok then return False
       else do {
         a \<leftarrow> gets j_seccomp_adapter;
         apply_adapter_accept_rules H a } } }"

definition apply_seccomp_policy :: "host \<Rightarrow> int jio" where
  "apply_seccomp_policy H = do {
     a \<leftarrow> gets j_seccomp_adapter;
     parse_adapter_declines H a;
     init \<leftarrow> lib_ret H;
     if init \<noteq> 0 then return (- 1)
     else do {
       modify (\<lambda>s. s\<lparr>j_ctx := []\<rparr>);
       ok \<leftarrow> seccomp_rules H;
       if \<not> ok then do { seccomp_release; return (- 1) }
       else do {
         ret \<leftarrow> seccomp_load H;
         seccomp_release;
         return ret } } }"

definition vsb_apply_seccomp :: "host \<Rightarrow> int jio" where
  "vsb_apply_seccomp H = apply_seccomp_policy H"

section \<open>What the loaded filter allows\<close>

text \<open>The numbers the user's adapter declines and accepts.\<close>

definition adapter_declined :: "host \<Rightarrow> string option \<Rightarrow> int list" where
  "adapter_declined H a = take MAX_ADAPTER_DECLINES
     (map (h_sysno H) (filter (names_syscall H) (adapter_tokens ''decline:'' ''accept:'' a)))"

definition adapter_accepted :: "host \<Rightarrow> string option \<Rightarrow> string list" where
  "adapter_accepted H a = filter (names_syscall H) (adapter_tokens ''accept:'' ''decline:'' a)"

text \<open>The rules of \<open>f\<close> allow exactly the names of \<open>N\<close> that exist and are not declined; that all of
  them are there needs that libseccomp reports an existing rule only when there is one.\<close>

definition allowed_set :: "host \<Rightarrow> int list \<Rightarrow> string set \<Rightarrow> int set" where
  "allowed_set H D N = {nr. 0 \<le> nr \<and> nr \<notin> set D \<and> nr \<in> h_sysno H ` N}"

definition allowed_of :: "scmp_filter \<Rightarrow> int set" where
  "allowed_of f = {nr. (SCMP_ACT_ALLOW, nr) \<in> set f}"

definition no_duplicates_reported :: "host \<Rightarrow> bool" where
  "no_duplicates_reported H \<longleftrightarrow> (\<forall>t. h_ret H t \<noteq> EEXIST_RET)"

definition allows_exactly :: "host \<Rightarrow> int list \<Rightarrow> string set \<Rightarrow> scmp_filter \<Rightarrow> bool" where
  "allows_exactly H D N f \<longleftrightarrow> allowed_of f \<subseteq> allowed_set H D N \<and>
     (no_duplicates_reported H \<longrightarrow> allowed_set H D N \<subseteq> allowed_of f)"

definition mode_kept :: "jail \<Rightarrow> jail \<Rightarrow> bool" where
  "mode_kept s u \<longleftrightarrow> policy_names u = policy_names s \<and> j_seccomp_adapter u = j_seccomp_adapter s
     \<and> j_declined u = j_declined s \<and> j_loaded u = j_loaded s"

lemma is_syscall_declined_iff [simp]: "is_syscall_declined ds sc \<longleftrightarrow> sc \<in> set ds"
  by (auto simp: is_syscall_declined_def list_ex_iff)

lemma decline_fold: "length ds \<le> MAX_ADAPTER_DECLINES \<Longrightarrow>
  fold (decline_step H) toks ds = take MAX_ADAPTER_DECLINES (ds @ map (h_sysno H) (filter (names_syscall H) toks))"
proof (induction toks arbitrary: ds)
  case (Cons a toks)
  have "MAX_ADAPTER_DECLINES - Suc (length ds) = MAX_ADAPTER_DECLINES - length ds - 1" by simp
  with Cons show ?case
    by (cases "MAX_ADAPTER_DECLINES - length ds") (auto simp: decline_step_def)
qed simp

lemma policy_names_indep [simp]:
  "policy_names (s\<lparr>o_tick := t\<rparr>) = policy_names s" "policy_names (s\<lparr>j_ctx := c\<rparr>) = policy_names s"
  "policy_names (s\<lparr>j_declined := d\<rparr>) = policy_names s"
  "policy_names (s\<lparr>j_trace := r\<rparr>) = policy_names s" "policy_names (s\<lparr>j_loaded := l\<rparr>) = policy_names s"
  by (simp_all add: policy_names_def)

lemma mode_kept_refl [simp]: "mode_kept s s"
  by (simp add: mode_kept_def)

lemma mode_kept_upd [simp]:
  "mode_kept s (u\<lparr>o_tick := t\<rparr>) = mode_kept s u" "mode_kept s (u\<lparr>j_ctx := c\<rparr>) = mode_kept s u"
  by (simp_all add: mode_kept_def)

lemma allowed_set_insert: "allowed_set H D (insert n N) =
    (if 0 \<le> h_sysno H n \<and> h_sysno H n \<notin> set D then insert (h_sysno H n) (allowed_set H D N) else allowed_set H D N)"
  by (auto simp: allowed_set_def)

lemma allowed_of_append [simp]: "allowed_of (f @ g) = allowed_of f \<union> allowed_of g"
  by (auto simp: allowed_of_def)

lemma allowed_of_rule [simp]: "allowed_of [] = {}"
  "allowed_of [(a, nr)] = (if a = SCMP_ACT_ALLOW then {nr} else {})"
  by (auto simp: allowed_of_def)

lemma allows_exactly_skip: "allows_exactly H D N f \<Longrightarrow> h_sysno H n < 0 \<or> h_sysno H n \<in> set D \<Longrightarrow>
    allows_exactly H D (insert n N) f"
  by (auto simp: allows_exactly_def allowed_set_insert)

lemma allows_exactly_old: "allows_exactly H D N f \<Longrightarrow> h_ret H t = EEXIST_RET \<Longrightarrow> allows_exactly H D (insert n N) f"
  by (auto simp: allows_exactly_def allowed_set_insert no_duplicates_reported_def)

lemma allows_exactly_add: "allows_exactly H D N f \<Longrightarrow> 0 \<le> h_sysno H n \<Longrightarrow> h_sysno H n \<notin> set D \<Longrightarrow>
    allows_exactly H D (insert n N) (f @ [(SCMP_ACT_ALLOW, h_sysno H n)])"
  by (auto simp: allows_exactly_def allowed_set_insert)

lemma allows_exactly_kill: "allows_exactly H D N (f @ [(SCMP_ACT_KILL_PROCESS, nr)]) = allows_exactly H D N f"
  by (simp add: allows_exactly_def)

text \<open>One rule, then a list of rules.\<close>

definition filter_inv :: "host \<Rightarrow> jail \<Rightarrow> string set \<Rightarrow> jail \<Rightarrow> bool" where
  "filter_inv H s N u \<longleftrightarrow> mode_kept s u \<and> allows_exactly H (j_declined s) N (j_ctx u)"

lemma wp_ALLOW:
  assumes "filter_inv H s N u"
  shows "wp (ALLOW H n) (ok_post (filter_inv H s (insert n N)) (mode_kept s)) u"
  using assms allows_exactly_skip [of H "j_declined s" N "j_ctx u" n]
    allows_exactly_add [of H "j_declined s" N "j_ctx u" n] allows_exactly_old [of H "j_declined s" N "j_ctx u" "o_tick u" n]
  by (auto simp: ALLOW_def Let_def seccomp_rule_add_def wp_simps filter_inv_def mode_kept_def ok_post_def)

lemma wp_ALLOW_list:
  assumes "filter_inv H s N u"
  shows "wp (all_ok ns (ALLOW H)) (ok_post (filter_inv H s (N \<union> set ns)) (mode_kept s)) u"
proof -
  have "wp (ALLOW H (ns ! k)) (ok_post (filter_inv H s (N \<union> set (take (Suc k) ns))) (mode_kept s)) t"
    if "k < length ns" "filter_inv H s (N \<union> set (take k ns)) t" for k t
    using wp_ALLOW [OF that(2), of "ns ! k"] that(1) by (simp add: take_Suc_conv_app_nth)
  then show ?thesis
    using wp_all_ok [of ns "\<lambda>k. filter_inv H s (N \<union> set (take k ns))" "ALLOW H" "mode_kept s" u] assms
    by (simp)
qed

lemma adapter_accept_ALLOW: "adapter_accept H tok = (if names_syscall H tok then ALLOW H tok else return True)"
  by (simp add: adapter_accept_def ALLOW_def Let_def names_syscall_def)

lemma all_ok_filter: "all_ok xs (\<lambda>x. if P x then f x else return True) = all_ok (filter P xs) f"
  by (induction xs) (simp_all cong: if_cong)

lemma wp_adapter:
  assumes "filter_inv H s N u"
  shows "wp (apply_adapter_accept_rules H a)
     (ok_post (filter_inv H s (N \<union> set (adapter_accepted H a))) (mode_kept s)) u"
  using wp_ALLOW_list [OF assms, of "adapter_accepted H a"]
  unfolding apply_adapter_accept_rules_def adapter_accept_ALLOW [abs_def] all_ok_filter adapter_accepted_def .

lemma wp_kill_rules:
  assumes "filter_inv H s N u"
  shows "wp (kill_rules H) (ok_post (filter_inv H s N) (mode_kept s)) u"
  using assms by (auto simp: kill_rules_def seccomp_rule_add_def wp_simps filter_inv_def allows_exactly_kill)

lemma wp_seccomp_rules:
  assumes "j_ctx s = []"
  shows "wp (seccomp_rules H) (ok_post (filter_inv H s (set (policy_names s) \<union> set (adapter_accepted H (j_seccomp_adapter s))))
     (mode_kept s)) s"
proof -
  let ?N = "set (policy_names s)" and ?a = "j_seccomp_adapter s"
  let ?Q = "ok_post (filter_inv H s (?N \<union> set (adapter_accepted H ?a))) (mode_kept s)"
  have "filter_inv H s {} s" using assms by (simp add: filter_inv_def allows_exactly_def allowed_set_def)
  from wp_ALLOW_list [OF this, of "policy_names s"]
  have one: "wp (all_ok (policy_names s) (ALLOW H)) (ok_post (filter_inv H s ?N) (mode_kept s)) s"
    by simp
  have three: "wp (gets j_seccomp_adapter \<bind> apply_adapter_accept_rules H) ?Q u" if "filter_inv H s ?N u" for u
    using wp_adapter [OF that, of ?a] that by (simp add: wp_simps filter_inv_def mode_kept_def)
  show ?thesis
    unfolding seccomp_rules_def wp_bind [of "gets policy_names"] wp_gets
    by (rule wp_ok_bind [OF one]) (use three in \<open>auto simp: wp_return intro!: wp_ok_bind [OF wp_kill_rules]\<close>)
qed

section \<open>Properties\<close>

text \<open>The set of calls the loaded filter allows, from the mode and the adapter.\<close>

definition policy_set :: "host \<Rightarrow> jail \<Rightarrow> int set" where
  "policy_set H s = allowed_set H (adapter_declined H (j_seccomp_adapter s))
     (set (policy_names s) \<union> set (adapter_accepted H (j_seccomp_adapter s)))"

definition installs :: "host \<Rightarrow> jail \<Rightarrow> int \<Rightarrow> jail \<Rightarrow> bool" where
  "installs H s rc u \<longleftrightarrow> (if rc = 0
     then \<exists>f. j_loaded u = Some f \<and> allowed_of f \<subseteq> policy_set H s
            \<and> (no_duplicates_reported H \<longrightarrow> allowed_of f = policy_set H s)
     else j_loaded u = j_loaded s) \<and> j_ctx u = (if rc = 0 then [] else j_ctx u)"

lemma wp_vsb_apply_seccomp: "wp (vsb_apply_seccomp H) (installs H s) s"
proof -
  let ?a = "j_seccomp_adapter s"
  let ?D = "fold (decline_step H) (adapter_tokens ''decline:'' ''accept:'' ?a) []"
  have D: "?D = adapter_declined H ?a" by (simp add: decline_fold adapter_declined_def)
  define s1 where "s1 = s\<lparr>j_declined := ?D, o_tick := Suc (o_tick s), j_ctx := []\<rparr>"
  have s1: "j_ctx s1 = []" "policy_names s1 = policy_names s" "j_seccomp_adapter s1 = ?a" "j_loaded s1 = j_loaded s"
    "j_declined s1 = adapter_declined H ?a"
    by (simp_all add: s1_def D)
  have load: "wp (seccomp_load H \<bind> (\<lambda>ret. seccomp_release \<bind> (\<lambda>_. return ret))) (installs H s) u"
    if "filter_inv H s1 (set (policy_names s1) \<union> set (adapter_accepted H (j_seccomp_adapter s1))) u" for u
    using that by (auto simp: seccomp_load_def seccomp_release_def wp_simps installs_def filter_inv_def s1
        mode_kept_def allows_exactly_def policy_set_def)
  have fail: "wp (seccomp_release \<bind> (\<lambda>_. return (- 1))) (installs H s) u" if "mode_kept s1 u" for u
    using that by (simp add: seccomp_release_def wp_simps installs_def mode_kept_def s1)
  have rules: "wp (seccomp_rules H \<bind> (\<lambda>ok. if \<not> ok then seccomp_release \<bind> (\<lambda>_. return (- 1))
      else seccomp_load H \<bind> (\<lambda>ret. seccomp_release \<bind> (\<lambda>_. return ret)))) (installs H s) s1"
    by (rule wp_ok_bind [OF wp_seccomp_rules [OF s1(1)]]) (simp_all add: load fail)
  show ?thesis
    unfolding vsb_apply_seccomp_def apply_seccomp_policy_def parse_adapter_declines_def wp_bind [of "gets _"]
      wp_bind [of "_ \<bind> _"] wp_bind [of "modify _"] wp_bind [of "lib_ret H"] wp_gets wp_modify wp_lib_ret wp_if
    using rules by (simp add: s1_def wp_simps installs_def)
qed

text \<open>C8: when the filter is installed, it allows exactly the calls of the policy's lists for the chosen
  mode and those the adapter accepts, less those the adapter declines (at most 128 of them, read from the
  first 1023 bytes), and nothing else; when the function reports a failure, no filter was installed and
  the one that was there before stays. That no rule of the list is missing needs that libseccomp never
  reports a rule as a duplicate of one that is not there.\<close>

theorem seccomp_filter_exact:
  assumes "run_state (vsb_apply_seccomp H) s = (rc, u)"
  shows "if rc = 0
     then \<exists>f. j_loaded u = Some f \<and> allowed_of f \<subseteq> policy_set H s
            \<and> (no_duplicates_reported H \<longrightarrow> allowed_of f = policy_set H s)
     else j_loaded u = j_loaded s"
  using wpD [OF wp_vsb_apply_seccomp [of H s] assms] by (auto simp: installs_def split: if_splits)

text \<open>The calls the header of the file promises to deny in every mode.\<close>

definition forbidden_syscalls :: "string list" where
  "forbidden_syscalls = [''mount'', ''umount2'', ''pivot_root'', ''ptrace'', ''bpf'', ''kexec_load'', ''unshare'',
     ''setns'', ''init_module'', ''finit_module'', ''delete_module'', ''reboot'', ''swapon'', ''swapoff'',
     ''process_vm_readv'', ''process_vm_writev'', ''perf_event_open'', ''keyctl'', ''add_key'', ''settimeofday'',
     ''io_uring_setup'', ''mknod'', ''mknodat'', ''move_mount'', ''open_tree'', ''fsopen'']"

definition network_syscalls :: "string list" where
  "network_syscalls = [''socket'', ''connect'', ''bind'', ''listen'', ''accept'', ''accept4'', ''sendto'', ''recvfrom'',
     ''socketpair'', ''sendmsg'', ''recvmsg'']"

lemmas syscall_lists = base_syscalls_def file_io_syscalls_def directory_syscalls_def process_syscalls_def
  memory_syscalls_def tls_syscalls_def polling_syscalls_def timing_syscalls_def limit_syscalls_def
  ipc_syscalls_def entropy_syscalls_def misc_syscalls_def permissive_syscalls_def open_syscalls_def
  friendly_syscalls_def

lemma forbidden_not_listed:
  "set forbidden_syscalls \<inter> set (base_syscalls @ permissive_syscalls @ open_syscalls @ friendly_syscalls) = {}"
  by code_simp

lemma network_not_base: "set network_syscalls \<inter> set (base_syscalls @ permissive_syscalls @ friendly_syscalls) = {}"
  by code_simp

lemma policy_names_upper:
  "set (policy_names s) \<subseteq> set (base_syscalls @ permissive_syscalls @ open_syscalls @ friendly_syscalls)"
proof -
  have "''clone3'' \<in> set open_syscalls" by code_simp
  then show ?thesis by (auto simp: policy_names_def)
qed

lemma policy_names_strict: "j_seccomp_strict s \<Longrightarrow>
    set (policy_names s) \<subseteq> insert ''clone3'' (set (base_syscalls @ permissive_syscalls @ friendly_syscalls))"
  by (auto simp: policy_names_def)

text \<open>On a machine where libseccomp does not fail the filter is installed.\<close>

lemma wp_all_ok_True: "(\<And>x s. wp (f x) (\<lambda>ok _. ok) s) \<Longrightarrow> wp (all_ok xs f) (\<lambda>ok _. ok) s"
proof (induction xs arbitrary: s)
  case (Cons x xs)
  show ?case
    unfolding all_ok.simps wp_bind by (rule wp_mono [OF Cons.prems]) (simp add: Cons)
qed (simp add: wp_return)

lemma seccomp_succeeds:
  assumes "\<And>t. h_ret H t = 0"
  shows "wp (vsb_apply_seccomp H) (\<lambda>rc _. rc = 0) s"
proof -
  have allow: "wp (ALLOW H n) (\<lambda>ok _. ok) s" for n s
    by (simp add: ALLOW_def Let_def seccomp_rule_add_def wp_simps assms)
  have accept: "wp (adapter_accept H n) (\<lambda>ok _. ok) s" for n s
    using allow by (simp add: adapter_accept_ALLOW wp_return)
  have adapter: "wp (apply_adapter_accept_rules H a) (\<lambda>ok _. ok) s" for a s
    unfolding apply_adapter_accept_rules_def by (rule wp_all_ok_True) (rule accept)
  have kill: "wp (kill_rules H) (\<lambda>ok _. ok) s" for s
    by (simp add: kill_rules_def seccomp_rule_add_def wp_simps assms)
  have tail: "wp (kill_rules H \<bind> (\<lambda>ok. if \<not> ok then return False
      else gets j_seccomp_adapter \<bind> apply_adapter_accept_rules H)) (\<lambda>ok _. ok) s" for s
    unfolding wp_bind [of "kill_rules H"] by (rule wp_mono [OF kill]) (simp add: wp_bind wp_gets adapter)
  have rules: "wp (seccomp_rules H) (\<lambda>ok _. ok) s" for s
    unfolding seccomp_rules_def wp_bind [of "gets _"] wp_bind [of "all_ok _ _"] wp_gets
    by (rule wp_mono [OF wp_all_ok_True]) (simp_all add: allow tail)
  have "wp (seccomp_rules H \<bind> (\<lambda>ok. if \<not> ok then seccomp_release \<bind> (\<lambda>_. return (- 1))
      else seccomp_load H \<bind> (\<lambda>ret. seccomp_release \<bind> (\<lambda>_. return ret)))) (\<lambda>rc _. rc = 0) s" for s
    unfolding wp_bind [of "seccomp_rules H"]
    by (rule wp_mono [OF rules]) (simp add: seccomp_load_def seccomp_release_def wp_simps assms)
  then show ?thesis
    by (simp add: vsb_apply_seccomp_def apply_seccomp_policy_def parse_adapter_declines_def wp_bind [of "gets _"]
      wp_bind [of "_ \<bind> _"] wp_bind [of "modify _"] wp_bind [of "lib_ret H"] wp_gets wp_modify wp_lib_ret assms)
qed

theorem seccomp_filter_exact_witness:
  "fst (run_state (vsb_apply_seccomp ex_host) ex_jail) = 0 \<and>
   (\<exists>f. j_loaded (snd (run_state (vsb_apply_seccomp ex_host) ex_jail)) = Some f
      \<and> allowed_of f = policy_set ex_host ex_jail)"
proof -
  let ?r = "run_state (vsb_apply_seccomp ex_host) ex_jail"
  have "fst ?r = 0"
    using seccomp_succeeds [of ex_host ex_jail] by (simp add: wp_def split: prod.splits)
  moreover have "no_duplicates_reported ex_host" by (simp add: no_duplicates_reported_def EEXIST_RET_def)
  ultimately show ?thesis
    using seccomp_filter_exact [of ex_host ex_jail "fst ?r" "snd ?r", OF surjective_pairing] by auto
qed



end
