(* ===== verification/Sandbox_Open.thy ===== *)
theory Sandbox_Open
  imports Jail_Setup Seccomp_Policy
begin

text \<open>
  The shell in a vault's own directory (\<^verbatim>\<open>vault_sandbox_open\<close> of \<^verbatim>\<open>sandbox/jail.c\<close>): the process that waits
  and the process that goes through the layers, each with its own answers of the kernel. Shown is that the
  inner process executes nothing before all layers are in place, whatever fails, and that the waiting
  process seals the cipher directory again on every path on which it waited for a session.
\<close>

section \<open>The waiting process\<close>

text \<open>An operation of the vault half of the program.\<close>

definition lift_vio :: "'a vio \<Rightarrow> 'a jio" where
  "lift_vio m = do {
     s \<leftarrow> State_Monad.get;
     let (r, w) = run_state m (world.truncate s);
     State_Monad.set (world.extend w (world.more s));
     return r }"

definition session_error :: "int \<Rightarrow> VaultErrorr" where
  "session_error status = (if WIFSIGNALED status then ERR_SYSTEM
     else (let c = WEXITSTATUS status in
       if c = - err_code ERR_SYSTEM_UNSHARE_FAILED then ERR_SYSTEM_UNSHARE_FAILED
       else if c = - err_code ERR_SYSTEM_CLONE_FAILED then ERR_SYSTEM_CLONE_FAILED
       else if c = - err_code ERR_SYSTEM_PIVOT_ROOT_FAILED then ERR_SYSTEM_PIVOT_ROOT_FAILED
       else if c = - err_code ERR_SYSTEM_MOUNT_FAILED then ERR_SYSTEM_MOUNT_FAILED
       else ERR_OK))"

definition open_parent :: "host \<Rightarrow> string \<Rightarrow> int \<Rightarrow> VaultErrorr jio" where
  "open_parent H cipher pid = do {
     lift_vio (vault_auth_pid_add_ffi (h_os H) (nat pid));
     lib_ret H;
     rc \<leftarrow> vsb_write_uid_gid_map H pid (e_uid (h_os H)) (h_gid H);
     if rc \<noteq> 0 then do {
       kernel H (Kill pid SIGKILL);
       waitpid H pid;
       lift_vio (vault_auth_pid_remove_ffi (nat pid));
       return ERR_PERM_DENIED }
     else do {
       (r, status) \<leftarrow> waitpid H pid;
       lift_vio (vault_auth_pid_remove_ffi (nat pid));
       sys_chmod (h_os H) cipher MODE_0000;
       return (session_error status) } }"

section \<open>The sandboxed process\<close>

text \<open>The second \<^verbatim>\<open>fork\<close>: the outer of the two waits and passes on how the inner one ended.\<close>

definition namespace_fork :: "host \<Rightarrow> int \<Rightarrow> unit proc" where
  "namespace_fork H fork_failed = do {
     ns_pid \<leftarrow> kernel H Fork;
     if ns_pid < 0 then return (Inl (Exit fork_failed))
     else if 0 < ns_pid then do {
       (r, st) \<leftarrow> waitpid H ns_pid;
       return (Inl (Exit (if WIFSIGNALED st then 128 + WTERMSIG st
                          else if WIFEXITED st then WEXITSTATUS st else 1))) }
     else return (Inr ()) }"

definition bind_devices :: "host \<Rightarrow> string \<Rightarrow> unit jio" where
  "bind_devices H root = for_each [''/dev/null'', ''/dev/zero'', ''/dev/tty'']
     (\<lambda>d. do { kernel H (bind_call d (in_vault root d) MS_BIND); return () })"

text \<open>A variable of the environment, unless it is empty, or else a default.\<close>

definition env_or :: "host \<Rightarrow> string \<Rightarrow> string \<Rightarrow> string jio" where
  "env_or H k d = do {
     v \<leftarrow> getenv H k;
     return (case v of Some x \<Rightarrow> if x \<noteq> [] then x else d | None \<Rightarrow> d) }"

definition gui_session :: "host \<Rightarrow> string \<Rightarrow> int \<Rightarrow> unit jio" where
  "gui_session H root uid = do {
     vsb_bind_gui_deps H root;
     let sock = cbuf 256 (''/run/user/'' @ int_text uid);
     let dst = in_vault root sock;
     vault_mkdir_p H dst MODE_0700;
     r \<leftarrow> kernel H (bind_call sock dst (MS_BIND OR MS_REC));
     (if r = 0 then do {
        kernel H (remount_call dst (MS_BIND OR MS_REMOUNT OR MS_RDONLY OR MS_REC));
        return () } else return ());
     w \<leftarrow> env_or H ''WAYLAND_DISPLAY'' ''wayland-0'';
     setenv H ''WAYLAND_DISPLAY'' w True;
     d \<leftarrow> env_or H ''DISPLAY'' '':0'';
     setenv H ''DISPLAY'' d True;
     setenv H ''XDG_RUNTIME_DIR'' sock True;
     setenv H ''QT_QPA_PLATFORM'' ''wayland;xcb'' True;
     setenv H ''GDK_BACKEND'' ''wayland,x11'' True }"

definition open_layers :: "host \<Rightarrow> string \<Rightarrow> bool \<Rightarrow> unit proc list" where
  "open_layers H root gui_mode = [
     always (kernel H (Prctl_name ''Nuk4sd-Jail'')),
     or_exit (kernel H (Unshare CLONE_NEWUSER)) (- err_code ERR_SYSTEM_UNSHARE_FAILED),
     always (lib_ret H),
     always (lib_ret H),
     or_exit (kernel H (Unshare (CLONE_NEWNS OR CLONE_NEWPID))) (- err_code ERR_SYSTEM_UNSHARE_FAILED),
     namespace_fork H (- err_code ERR_SYSTEM_CLONE_FAILED),
     always (if e_euid (h_os H) \<noteq> 0 then bind_devices H root else return ()),
     always (if gui_mode then gui_session H root (e_uid (h_os H)) else return ()),
     pivot_or_exit H root True (- err_code ERR_SYSTEM_PIVOT_ROOT_FAILED),
     always (vsb_mount_dev H),
     vsb_prepare_mounts H,
     or_exit (vsb_drop_caps H) 1,
     always (vsb_limit_resources H gui_mode),
     or_exit (vsb_apply_seccomp H) 1]"

definition shell_argv :: "bool \<Rightarrow> string option \<Rightarrow> string list" where
  "shell_argv gui_mode app = (case app of
     Some cmd \<Rightarrow> if gui_mode \<and> cmd \<noteq> [] then [''sh'', ''-c'', cmd] else [''sh'']
   | None \<Rightarrow> [''sh''])"

definition open_child :: "host \<Rightarrow> string \<Rightarrow> bool \<Rightarrow> string option \<Rightarrow> unit proc" where
  "open_child H root gui_mode app = do {
     r \<leftarrow> steps (open_layers H root gui_mode);
     case r of
       Inl e \<Rightarrow> return (Inl e)
     | Inr _ \<Rightarrow> steps [execv H ''/bin/sh'' (shell_argv gui_mode app), return (Inl (Exit 127))] }"

section \<open>Opening a sandbox\<close>

definition open_auth :: "host \<Rightarrow> nat \<Rightarrow> Vault \<Rightarrow> string option \<Rightarrow> VaultErrorr jio" where
  "open_auth H i v pw =
    (if v_type v = VAULT_TYPE_PROTECTED then
       (if pw = None \<or> pw = Some [] then return ERR_PASS_REQUIRED
        else lift_vio (auth_verify_password (h_os H) i pw))
     else return ERR_OK)"

definition open_session :: "host \<Rightarrow> Vault \<Rightarrow> bool \<Rightarrow> string option \<Rightarrow> VaultErrorr proc" where
  "open_session H v gui_mode app = do {
     p1 \<leftarrow> lib_ret H;
     p2 \<leftarrow> (if p1 = 0 then lib_ret H else return p1);
     if p2 \<noteq> 0 then return (Inr ERR_SYSTEM)
     else do {
       pid \<leftarrow> kernel H Fork;
       if pid < 0 then return (Inr ERR_SYSTEM)
       else if 0 < pid then do { e \<leftarrow> open_parent H (v_cipher v) pid; return (Inr e) }
       else do {
         r \<leftarrow> open_child H (v_path v) gui_mode app;
         return (case r of Inl e \<Rightarrow> Inl e | Inr _ \<Rightarrow> Inr ERR_OK) } } }"

text \<open>\<open>None\<close> is the null pointer; \<open>Some i\<close> the vault at that place of the catalog.\<close>

definition vault_sandbox_open :: "host \<Rightarrow> nat option \<Rightarrow> string option \<Rightarrow> bool \<Rightarrow> string option \<Rightarrow> VaultErrorr proc" where
  "vault_sandbox_open H vault pw gui_mode app = (case vault of
     None \<Rightarrow> return (Inr ERR_INVALID_ARGS)
   | Some i \<Rightarrow> do {
       v \<leftarrow> lift_vio (get_vault i);
       err \<leftarrow> open_auth H i v pw;
       if err \<noteq> ERR_OK then return (Inr err)
       else if v_path v = [] then return (Inr ERR_PATH_INVALID)
       else do {
         sys_chmod (h_os H) (v_cipher v) MODE_0700;
         r \<leftarrow> vault_prepare_jail H (v_path v) gui_mode;
         case r of
           Inl e \<Rightarrow> return (Inl e)
         | Inr _ \<Rightarrow> open_session H v gui_mode app } })"


section \<open>Nothing is executed before the layers are in place\<close>

lemma layer_or_exit_call: "\<not> is_exec k \<Longrightarrow> layer A [ok_call k] (or_exit (kernel H k) c)"
  by (rule layer_or_exit) (simp add: wp_simps layer_post_def ok_call_def)

lemma pres_calm_lib_ret [pres]: "preserves (calm tr0) (lib_ret H)"
  by (auto simp: preserves_wp wp_simps calm_def)

lemma pres_calm_modify: "(\<And>s. j_trace (f s) = j_trace s) \<Longrightarrow> preserves (calm tr0) (modify f)"
  by (rule pres_modify) (simp add: calm_def)

lemma pres_calm_env [pres]: "preserves (calm tr0) (getenv H k)" "preserves (calm tr0) (setenv H k v b)"
  "preserves (calm tr0) (unsetenv k)" "preserves (calm tr0) (env_or H k v)"
  by (auto simp: getenv_def setenv_def unsetenv_def env_or_def intro!: pres pres_calm_modify split: option.split)

lemma pres_calm_waitpid [pres]: "preserves (calm tr0) (waitpid H pid)"
  by (auto simp: waitpid_def intro!: pres)

lemma pres_calm_mkdir_p [pres]: "preserves (calm tr0) (mkdir_ok H p m)" "preserves (calm tr0) (vault_mkdir_p H p m)"
  by (auto simp: mkdir_ok_def vault_mkdir_p_def Let_def intro!: pres pres_os)

lemma pres_calm_gui [pres]: "preserves (calm tr0) (vsb_bind_gui_deps H root)"
  unfolding vsb_bind_gui_deps_def gui_bind_def gui_mount_def touch_def bind_call_def remount_call_def Let_def
  by (auto intro!: pres pres_os)

lemma pres_calm_gui_session [pres]: "preserves (calm tr0) (gui_session H root uid)"
  unfolding gui_session_def Let_def bind_call_def remount_call_def by (auto intro!: pres)

lemma pres_calm_bind_devices [pres]: "preserves (calm tr0) (bind_devices H root)"
  unfolding bind_devices_def bind_call_def by (auto intro!: pres)

lemma layer_namespace_fork: "layer A [] (namespace_fork H c)"
  unfolding namespace_fork_def
  by (rule layer_calm) (auto intro!: pres split: prod.split)

lemma pres_calm_seccomp_rules: "preserves (calm tr0) (seccomp_rules H)"
  unfolding seccomp_rules_def kill_rules_def apply_adapter_accept_rules_def ALLOW_def adapter_accept_def
    seccomp_rule_add_def Let_def
  by (auto intro!: pres pres_calm_modify)

lemma passed_last: "p x \<Longrightarrow> passed [p] (tr @ [x])"
  by (rule passed_prepend) simp

lemma wp_seccomp_layer: "wp (vsb_apply_seccomp H) (\<lambda>rc u. layer_post [ok_call Seccomp_load] (j_trace s) (rc = 0) u) s"
proof -
  have load: "wp (if \<not> ok then seccomp_release \<bind> (\<lambda>_. return (- 1))
      else seccomp_load H \<bind> (\<lambda>ret. seccomp_release \<bind> (\<lambda>_. return ret)))
      (\<lambda>rc u. layer_post [ok_call Seccomp_load] (j_trace s) (rc = 0) u) t" if "calm (j_trace s) t" for ok t
    using that by (auto simp: seccomp_load_def seccomp_release_def wp_simps layer_post_def calm_def
        intro!: passed_last) (simp_all add: ok_call_def)
  have rules: "wp (seccomp_rules H) (\<lambda>_. calm (j_trace s)) t" if "calm (j_trace s) t" for t
    using that pres_calm_seccomp_rules by (simp add: preserves_wp)
  have all: "wp (seccomp_rules H \<bind> (\<lambda>ok. if \<not> ok then seccomp_release \<bind> (\<lambda>_. return (- 1))
      else seccomp_load H \<bind> (\<lambda>ret. seccomp_release \<bind> (\<lambda>_. return ret))))
      (\<lambda>rc u. layer_post [ok_call Seccomp_load] (j_trace s) (rc = 0) u) t" if "calm (j_trace s) t" for t
    unfolding wp_bind [of "seccomp_rules H"] by (rule wp_mono [OF rules [OF that] load])
  show ?thesis
    unfolding vsb_apply_seccomp_def apply_seccomp_policy_def parse_adapter_declines_def wp_bind [of "gets _"]
      wp_bind [of "_ \<bind> _"] wp_bind [of "modify _"] wp_bind [of "lib_ret H"] wp_gets wp_modify wp_lib_ret wp_if wp_return
    by (auto intro!: all simp: calm_layer_post calm_def)
qed

definition open_tests :: "string \<Rightarrow> (event \<Rightarrow> bool) list" where
  "open_tests root = [ok_call (Unshare CLONE_NEWUSER), ok_call (Unshare (CLONE_NEWNS OR CLONE_NEWPID))]
     @ root_changed root @ caps_dropped @ [ok_call Seccomp_load]"

lemma layer_open: "layer A (open_tests root) (steps (open_layers H root gui_mode))"
proof -
  have "list_all2 (layer A) [[], [ok_call (Unshare CLONE_NEWUSER)], [], [], [ok_call (Unshare (CLONE_NEWNS OR CLONE_NEWPID))],
      [], [], [], root_changed root, [], [], caps_dropped, [], [ok_call Seccomp_load]] (open_layers H root gui_mode)"
    unfolding open_layers_def
    by (simp add: layer_or_exit_call layer_namespace_fork layer_pivot layer_prepare_mounts layer_drop_caps
        layer_or_exit [OF wp_seccomp_layer]) (auto intro!: layer_always pres)
  from layer_steps [OF this] show ?thesis by (simp add: open_tests_def)
qed

text \<open>C35: the process that opens a sandbox executes no program before it has passed every layer, in this
  order: its own user namespace, its own mount and process namespaces, the new root directory with the old
  one detached, empty capability sets with no way to new privileges, and the loaded system call filter.
  This holds whatever call fails, and the process always ends.\<close>

theorem sandbox_open_layered:
  "case run_state (open_child H root gui_mode app) s of
     (r, u) \<Rightarrow> exec_after (\<lambda>_. False) (open_tests root) (j_trace s) u \<and> \<not> goes_on r"
proof -
  have "wp (open_child H root gui_mode app) (\<lambda>r. exec_after (\<lambda>_. False) (open_tests root) (j_trace s)) s"
    unfolding open_child_def by (rule wp_exec_at_end [OF layer_open]) (auto simp: execv_def intro!: pres)
  moreover have "yields (open_child H root gui_mode app) (\<lambda>r. \<not> goes_on r)"
    by (auto simp: open_child_def execv_def intro!: yields_bind yields_return yields_if split: sum.split)
  ultimately show ?thesis by (simp add: wp_def yields_def case_prod_beta)
qed

end
