(* ===== verification/Mini_Init.thy ===== *)
theory Mini_Init
  imports Sandbox_Open
begin

text \<open>
  The first process of a sandbox that runs with \<^verbatim>\<open>--init\<close> (\<^verbatim>\<open>experimental/common.c\<close>): it starts the program,
  collects every process that ends, and when the program has ended asks all others to end. Its loop runs as
  long as processes are left, so its model has fuel: \<open>Running\<close> stands for a loop that has not ended. Shown
  are the exit code and that the loop ends once no process is left.
\<close>

definition EINTR_NO :: nat where "EINTR_NO = 4"

definition sig_forward_handler :: "host \<Rightarrow> int \<Rightarrow> unit jio" where
  "sig_forward_handler H sig = do {
     target \<leftarrow> gets j_target;
     if 0 < target then do { kernel H (Kill target sig); return () } else return () }"

definition init_code :: "int \<Rightarrow> int" where
  "init_code st = (if WIFEXITED st then WEXITSTATUS st else if WIFSIGNALED st then 128 + WTERMSIG st else 1)"

fun supervise :: "nat \<Rightarrow> host \<Rightarrow> int \<Rightarrow> int option \<Rightarrow> int proc" where
  "supervise 0 H child code = return (Inl Running)"
| "supervise (Suc n) H child code = do {
     t \<leftarrow> gets o_tick;
     (p, st) \<leftarrow> waitpid H (- 1);
     if p < 0 then
       (if h_errno H t = EINTR_NO then supervise n H child code
        else return (Inr (case code of Some c \<Rightarrow> c | None \<Rightarrow> 1)))
     else if p = child then do {
       kernel H (Kill (- 1) SIGTERM);
       supervise n H child (Some (init_code st)) }
     else supervise n H child code }"

definition nuk_mini_init :: "nat \<Rightarrow> host \<Rightarrow> string option \<Rightarrow> string list option \<Rightarrow> int proc" where
  "nuk_mini_init n H exec_path argv = (case (exec_path, argv) of
     (Some path, Some av) \<Rightarrow> do {
       child \<leftarrow> kernel H Fork;
       if child < 0 then return (Inr 1)
       else if child = 0 then do {
         r \<leftarrow> execv H path av;
         return (Inl (case r of Inl e \<Rightarrow> e | Inr _ \<Rightarrow> Exit 127)) }
       else do {
         modify (\<lambda>s. s\<lparr>j_target := child\<rparr>);
         kernel H (Prctl_name ''nuk-init'');
         supervise n H child None } }
   | _ \<Rightarrow> return (Inr (- 1)))"

section \<open>Every end of the program is answered\<close>

text \<open>The events of a supervision: what \<^verbatim>\<open>waitpid\<close> answered, and after the end of the program the signal to
  all.\<close>

fun answered :: "int \<Rightarrow> event list \<Rightarrow> bool" where
  "answered child [] = True"
| "answered child ((k, r) # tr) =
    (if k = Waitpid (- 1) then
       (if r = child then (case tr of (k', r') # tr' \<Rightarrow> k' = Kill (- 1) SIGTERM \<and> answered child tr' | [] \<Rightarrow> False)
        else answered child tr)
     else False)"

definition program_ended :: "int \<Rightarrow> event list \<Rightarrow> bool" where
  "program_ended child tr \<longleftrightarrow> (Waitpid (- 1), child) \<in> set tr"

definition ended_with :: "host \<Rightarrow> int \<Rightarrow> int \<Rightarrow> bool" where
  "ended_with H child c \<longleftrightarrow> (\<exists>t. h_ret H t = child \<and> c = init_code (h_status H t))"

definition supervised :: "host \<Rightarrow> int \<Rightarrow> int option \<Rightarrow> event list \<Rightarrow> ended + int \<Rightarrow> jail \<Rightarrow> bool" where
  "supervised H child code tr0 r u \<longleftrightarrow> (\<exists>tr. j_trace u = tr0 @ tr \<and> answered child tr
     \<and> (case r of
          Inl e \<Rightarrow> e = Running
        | Inr c \<Rightarrow> if program_ended child tr then ended_with H child c
                  else c = (case code of Some c \<Rightarrow> c | None \<Rightarrow> 1)))"

lemma wp_supervise:
  assumes "0 < child"
  shows "wp (supervise n H child code) (supervised H child code (j_trace s)) s"
proof (induction n arbitrary: code s)
  case 0
  show ?case by (auto simp: wp_return supervised_def)
next
  case (Suc n)
  let ?t = "o_tick s"
  let ?r = "h_ret H ?t"
  let ?u = "s\<lparr>o_tick := Suc ?t, j_trace := j_trace s @ [(Waitpid (- 1), ?r)]\<rparr>"
  have other: "wp (supervise n H child code) (supervised H child code (j_trace s)) ?u" if "?r \<noteq> child"
    by (rule wp_mono [OF Suc]) (use that in \<open>auto simp: supervised_def program_ended_def split: sum.splits\<close>)
  let ?v = "?u\<lparr>o_tick := Suc (Suc ?t), j_trace := j_trace ?u @ [(Kill (- 1) SIGTERM, h_ret H (Suc ?t))]\<rparr>"
  have own: "wp (supervise n H child (Some (init_code (h_status H ?t)))) (supervised H child code (j_trace s)) ?v"
    if "?r = child"
  proof (rule wp_mono [OF Suc])
    fix r u assume "supervised H child (Some (init_code (h_status H ?t))) (j_trace ?v) r u"
    then obtain tr where tr: "j_trace u = j_trace ?v @ tr" "answered child tr"
      "case r of Inl e \<Rightarrow> e = Running | Inr c \<Rightarrow> if program_ended child tr then ended_with H child c
         else c = init_code (h_status H ?t)"
      unfolding supervised_def option.case by blast
    let ?tr = "(Waitpid (- 1), child) # (Kill (- 1) SIGTERM, h_ret H (Suc ?t)) # tr"
    have "j_trace u = j_trace s @ ?tr" using tr(1) that by simp
    moreover have "answered child ?tr" "program_ended child ?tr" using tr(2) assms by (simp_all add: program_ended_def)
    moreover have "ended_with H child c" if "r = Inr c" for c
      using tr(3) that \<open>?r = child\<close> by (auto simp: ended_with_def split: if_splits)
    moreover have "e = Running" if "r = Inl e" for e using tr(3) that by simp
    ultimately show "supervised H child code (j_trace s) r u"
      unfolding supervised_def by (intro exI [of _ ?tr]) (simp split: sum.split del: answered.simps)
  qed
  show ?case
  proof (cases "?r = child")
    case True
    with own assms show ?thesis by (simp add: wp_simps waitpid_def)
  next
    case False
    then have "supervised H child code (j_trace s) (Inr (case code of None \<Rightarrow> 1 | Some c \<Rightarrow> c)) ?u"
      by (auto simp: supervised_def program_ended_def)
    with False other show ?thesis by (simp add: wp_simps waitpid_def)
  qed
qed

lemma wp_supervise_ends:
  assumes "\<forall>t \<ge> T. h_ret H t < 0 \<and> h_errno H t \<noteq> EINTR_NO" "T < n + o_tick s" "0 < n"
  shows "wp (supervise n H child code) (\<lambda>r u. r \<noteq> Inl Running) s"
  using assms(2,3)
proof (induction n arbitrary: child code s)
  case (Suc n)
  have next_round: "wp (supervise n H child' code') (\<lambda>r u. r \<noteq> Inl Running) u"
    if "o_tick s < T" "o_tick s < o_tick u" for child' code' u
    using that Suc.prems by (intro Suc.IH) linarith+
  show ?case
  proof (cases "T \<le> o_tick s")
    case True
    with assms(1) show ?thesis by (simp add: wp_simps waitpid_def)
  next
    case False
    then show ?thesis by (auto simp: wp_simps waitpid_def intro!: next_round)
  qed
qed simp

text \<open>C37: the first process of a sandbox answers the end of its program by a signal to all other processes and
  returns the exit code of the program, or 1 when the program was never seen to end; when from some moment on
  no process is left, its loop ends.\<close>

theorem mini_init_supervises:
  assumes "run_state (nuk_mini_init n H (Some path) (Some argv)) s = (r, u)"
    and "0 < h_ret H (o_tick s)" and "\<forall>t \<ge> T. h_ret H t < 0 \<and> h_errno H t \<noteq> EINTR_NO" and "T < n"
  shows "\<exists>c tr. r = Inr c
    \<and> j_trace u = j_trace s @ [(Fork, h_ret H (o_tick s)), (Prctl_name ''nuk-init'', h_ret H (Suc (o_tick s)))] @ tr
    \<and> answered (h_ret H (o_tick s)) tr
    \<and> (if program_ended (h_ret H (o_tick s)) tr then ended_with H (h_ret H (o_tick s)) c else c = 1)"
proof -
  let ?child = "h_ret H (o_tick s)" and ?p = "h_ret H (Suc (o_tick s))"
  let ?w = "s\<lparr>j_target := ?child, o_tick := Suc (Suc (o_tick s)),
    j_trace := j_trace s @ [(Fork, ?child), (Prctl_name ''nuk-init'', ?p)]\<rparr>"
  let ?Q = "\<lambda>r u. supervised H ?child None (j_trace ?w) r u \<and> r \<noteq> Inl Running"
  have "wp (supervise n H ?child None) ?Q ?w"
    using wp_supervise [OF assms(2), of n H None ?w] wp_supervise_ends [OF assms(3), of n ?w ?child None] assms(4)
    by (simp add: wp_conj)
  then have "wp (nuk_mini_init n H (Some path) (Some argv)) ?Q s"
    using assms(2) by (simp add: nuk_mini_init_def wp_simps)
  from wpD [OF this assms(1)] obtain tr where tr: "j_trace u = j_trace ?w @ tr" "answered ?child tr" "r \<noteq> Inl Running"
    "case r of Inl e \<Rightarrow> e = Running | Inr c \<Rightarrow> if program_ended ?child tr then ended_with H ?child c else c = 1"
    unfolding supervised_def option.case by blast
  then obtain c where "r = Inr c" by (cases r) auto
  with tr show ?thesis by auto
qed

text \<open>A program that ends with exit code 3.\<close>

definition init_host :: host where
  "init_host = ex_host\<lparr>h_ret := (\<lambda>t. if t \<in> {0, 2} then 5 else if t < 4 then 0 else - 1), h_status := (\<lambda>_. 768)\<rparr>"

theorem mini_init_supervises_witness:
  "fst (run_state (nuk_mini_init 9 init_host (Some ''/bin/app'') (Some [''app''])) ex_jail) = Inr 3
    \<and> (\<exists>tr. answered 5 tr \<and> program_ended 5 tr \<and> ended_with init_host 5 3)"
proof -
  have t: "o_tick ex_jail = 0" by code_simp
  have h: "\<forall>t \<ge> 4. h_ret init_host t < 0 \<and> h_errno init_host t \<noteq> EINTR_NO" "h_ret init_host 0 = 5"
    by (auto simp: init_host_def ex_host_def EINTR_NO_def)
  from mini_init_supervises [of 9 init_host "''/bin/app''" "[''app'']" ex_jail, OF surjective_pairing _ h(1)]
  obtain c tr where "fst (run_state (nuk_mini_init 9 init_host (Some ''/bin/app'') (Some [''app''])) ex_jail) = Inr c"
    "answered 5 tr" "if program_ended 5 tr then ended_with init_host 5 c else c = 1"
    unfolding t h(2) by fastforce
  moreover have "fst (run_state (nuk_mini_init 9 init_host (Some ''/bin/app'') (Some [''app''])) ex_jail) = Inr 3"
    by code_simp
  ultimately show ?thesis by (auto split: if_splits)
qed

end
