(* ===== verification/Sandbox_Binds.thy ===== *)
theory Sandbox_Binds
  imports Sandbox_Open
begin

text \<open>
  What \<^verbatim>\<open>run_isolated\<close> of \<^verbatim>\<open>cli/vault_cli.c\<close> makes visible inside a jail: the binds of the command line, the
  home directory, the sockets of the desktop, devices and system directories. Shown is what a process that
  goes on has mounted for each bind of the command line.
\<close>

section \<open>The binds of the command line\<close>

definition in_jail :: "string \<Rightarrow> string \<Rightarrow> string" where
  "in_jail root p = cbuf PATH_MAX (root @ p)"

definition bind_target :: "host \<Rightarrow> errno + inode \<Rightarrow> string \<Rightarrow> bool jio" where
  "bind_target H st dst =
    (if is_dir_result st then do { r \<leftarrow> cli_mkdir_p H dst MODE_0755; return (r = 0) }
     else do {
       (case before_last CHR ''/'' (cbuf PATH_MAX dst) of
          Some parent \<Rightarrow> do { cli_mkdir_p H parent MODE_0755; return () }
        | None \<Rightarrow> return ());
       fd \<leftarrow> sys_open (h_os H) dst (O_CREAT OR O_WRONLY) MODE_0666;
       return (succeeds fd) })"

text \<open>\<^verbatim>\<open>open(dst, O_PATH | O_NOFOLLOW | O_CLOEXEC)\<close> opens a symbolic link itself, so it succeeds where \<^verbatim>\<open>lstat\<close>
  does.\<close>

definition link_refused :: "host \<Rightarrow> string \<Rightarrow> bool jio" where
  "link_refused H dst = do { fd \<leftarrow> sys_lstat (h_os H) dst; return (fd = Inl ELOOP) }"

definition check_link :: "host \<Rightarrow> string \<Rightarrow> ended + unit \<Rightarrow> unit proc" where
  "check_link H dst refused = do {
     bad \<leftarrow> link_refused H dst;
     if bad then do { kernel H (Umount2 dst MNT_DETACH); return refused } else return (Inr ()) }"

definition ro_remount :: "64 word" where "ro_remount = MS_BIND OR MS_REMOUNT OR MS_RDONLY OR MS_REC"

definition bind_ro_mount :: "host \<Rightarrow> string \<Rightarrow> string \<Rightarrow> unit proc" where
  "bind_ro_mount H src dst = do {
     r \<leftarrow> kernel H (bind_call src dst (MS_BIND OR MS_REC));
     if r \<noteq> 0 then return (Inl (Exit 1))
     else do {
       r \<leftarrow> kernel H (remount_call dst ro_remount);
       if r \<noteq> 0 then do { kernel H (Umount2 dst MNT_DETACH); return (Inl (Exit 1)) }
       else check_link H dst (Inl (Exit 1)) } }"

definition bind_rw_mount :: "host \<Rightarrow> string \<Rightarrow> string \<Rightarrow> unit proc" where
  "bind_rw_mount H src dst = do {
     r \<leftarrow> kernel H (bind_call src dst (MS_BIND OR MS_REC));
     if r \<noteq> 0 then return (Inr ())
     else do {
       kernel H (remount_call dst (MS_BIND OR MS_REMOUNT OR MS_NOSUID OR MS_NODEV OR MS_REC));
       check_link H dst (Inr ()) } }"

definition bind_into :: "host \<Rightarrow> string \<Rightarrow> errno + inode \<Rightarrow> string \<Rightarrow> (string \<Rightarrow> unit proc) \<Rightarrow> unit proc" where
  "bind_into H root st dst mnt = do {
     safe \<leftarrow> bind_path_is_safe H root dst;
     if \<not> safe then return (Inr ())
     else do {
       ok \<leftarrow> bind_target H st dst;
       if \<not> ok then return (Inr ()) else mnt dst } }"

definition mask_call :: "errno + inode \<Rightarrow> string \<Rightarrow> kcall" where
  "mask_call st dst = (if is_dir_result st
     then Mount (Some ''tmpfs'') dst (Some ''tmpfs'') (MS_NOSUID OR MS_NODEV OR MS_RDONLY) (Some ''size=0'')
     else bind_call ''/dev/null'' dst MS_BIND)"

definition mask_path :: "host \<Rightarrow> string \<Rightarrow> unit proc" where
  "mask_path H dst = do {
     st \<leftarrow> sys_stat (h_os H) dst;
     st' \<leftarrow> (if succeeds st then return st else sys_lstat (h_os H) dst);
     if \<not> succeeds st' then return (Inr ())
     else or_exit (kernel H (mask_call st' dst)) 1 }"

definition apply_bind :: "host \<Rightarrow> string \<Rightarrow> BindEntry \<Rightarrow> unit proc" where
  "apply_bind H root b = (let src = b_path b; dst = in_jail root src in do {
     st \<leftarrow> sys_stat (h_os H) src;
     if \<not> succeeds st then return (Inr ())
     else (case b_type b of
       BIND_RO \<Rightarrow> bind_into H root st dst (bind_ro_mount H src)
     | BIND_RW \<Rightarrow> bind_into H root st dst (bind_rw_mount H src)
     | BIND_BLACKLIST \<Rightarrow> mask_path H dst) })"

definition apply_binds :: "host \<Rightarrow> string \<Rightarrow> BindEntry list \<Rightarrow> unit proc" where
  "apply_binds H root bs = steps (map (apply_bind H root) bs)"

section \<open>The home directory\<close>

definition sudo_user_unsafe :: string where "sudo_user_unsafe = ''/.'' @ [CHR 0x5C] @ '' :@!''"

definition sudo_home :: "string option \<Rightarrow> string" where
  "sudo_home u = (case u of
     Some n \<Rightarrow> if n \<noteq> [] \<and> length n < 64 \<and> set n \<inter> set sudo_user_unsafe = {} then cbuf PATH_MAX (''/home/'' @ n) else []
   | None \<Rightarrow> [])"

definition nonempty :: "string option \<Rightarrow> string option" where
  "nonempty x = (case x of Some (c # cs) \<Rightarrow> Some (c # cs) | _ \<Rightarrow> None)"

definition home_path :: "host \<Rightarrow> int \<Rightarrow> string jio" where
  "home_path H ruid = do {
     u \<leftarrow> getenv H ''SUDO_USER'';
     if sudo_home u \<noteq> [] then return (sudo_home u)
     else do {
       h \<leftarrow> getenv H ''HOME'';
       return (case nonempty h of
         Some d \<Rightarrow> cbuf PATH_MAX d
       | None \<Rightarrow> (case h_pwdir H ruid of Some d \<Rightarrow> cbuf PATH_MAX d | None \<Rightarrow> [])) } }"

definition own_store :: string where "own_store = ''/.local/share/Nuk4sd''"

definition bind_home_mount :: "host \<Rightarrow> string \<Rightarrow> bool \<Rightarrow> string \<Rightarrow> unit jio" where
  "bind_home_mount H root ro home = (let dst = in_vault root home; store = in_vault root (home @ own_store) in do {
     kernel H (Umount2 store MNT_DETACH);
     r \<leftarrow> kernel H (bind_call home dst (MS_BIND OR MS_REC));
     if r \<noteq> 0 then return ()
     else if ro then do { kernel H (remount_call dst ro_remount); return () }
     else do {
       k \<leftarrow> cli_mkdir_p H store MODE_0700;
       if k = 0 then do {
         kernel H (Mount (Some ''tmpfs'') store (Some ''tmpfs'') (MS_NOSUID OR MS_NODEV) (Some ''size=4m''));
         return () }
       else return () } })"

definition bind_home :: "host \<Rightarrow> CliConfig \<Rightarrow> string \<Rightarrow> int \<Rightarrow> unit jio" where
  "bind_home H cfg root ruid =
    (if iso_ro_home cfg \<or> iso_rw_home cfg then do {
       home \<leftarrow> home_path H ruid;
       if home = [] then return ()
       else do {
         st \<leftarrow> sys_stat (h_os H) home;
         if \<not> succeeds st then return ()
         else do {
           k \<leftarrow> cli_mkdir_p H (in_vault root home) MODE_0755;
           if k = 0 then bind_home_mount H root (iso_ro_home cfg) home else return () } } }
     else return ())"

section \<open>The desktop\<close>

definition is_reg_result :: "errno + inode \<Rightarrow> bool" where
  "is_reg_result r = (case r of Inl _ \<Rightarrow> False | Inr n \<Rightarrow> i_type n = S_IFREG)"

text \<open>A bind mount that is made read-only when it succeeded.\<close>

definition mount_ro :: "host \<Rightarrow> string \<Rightarrow> string \<Rightarrow> unit jio" where
  "mount_ro H src dst = do {
     r \<leftarrow> kernel H (bind_call src dst (MS_BIND OR MS_REC));
     if r = 0 then do { kernel H (remount_call dst ro_remount); return () } else return () }"

definition mount_file_ro :: "host \<Rightarrow> string \<Rightarrow> string \<Rightarrow> unit jio" where
  "mount_file_ro H src dst = do {
     r \<leftarrow> kernel H (bind_call src dst MS_BIND);
     if r = 0 then do { kernel H (remount_call dst (MS_BIND OR MS_REMOUNT OR MS_RDONLY)); return () } else return () }"

definition run_user :: "int \<Rightarrow> string" where
  "run_user ruid = cbuf 128 (''/run/user/'' @ int_text ruid)"

definition wayland_display :: "host \<Rightarrow> string \<Rightarrow> unit jio" where
  "wayland_display H xdg = do {
     d \<leftarrow> getenv H ''WAYLAND_DISPLAY'';
     case nonempty d of
       Some v \<Rightarrow> setenv H ''WAYLAND_DISPLAY'' v True
     | None \<Rightarrow> do {
         st \<leftarrow> sys_stat (h_os H) (cbuf VAULT_PATH_MAX (xdg @ ''/wayland-0''));
         if succeeds st then setenv H ''WAYLAND_DISPLAY'' ''wayland-0'' True else unsetenv ''WAYLAND_DISPLAY'' } }"

definition wayland_socket :: "host \<Rightarrow> string \<Rightarrow> int \<Rightarrow> unit jio" where
  "wayland_socket H root ruid = (let xdg = run_user ruid; dst = in_vault root xdg in do {
     sys_mkdir (h_os H) dst MODE_0700;
     st \<leftarrow> sys_stat (h_os H) xdg;
     (if succeeds st then mount_ro H xdg dst else return ());
     wayland_display H xdg;
     setenv H ''XDG_RUNTIME_DIR'' xdg True;
     setenv H ''QT_QPA_PLATFORM'' ''wayland;xcb'' True;
     setenv H ''GDK_BACKEND'' ''wayland,x11'' True })"

definition x11_auth :: "host \<Rightarrow> string \<Rightarrow> int \<Rightarrow> unit jio" where
  "x11_auth H root ruid = do {
     x \<leftarrow> getenv H ''XAUTHORITY'';
     case (case nonempty x of
             Some a \<Rightarrow> Some a
           | None \<Rightarrow> map_option (\<lambda>d. cbuf VAULT_PATH_MAX (d @ ''/.Xauthority'')) (h_pwdir H ruid)) of
       None \<Rightarrow> return ()
     | Some src \<Rightarrow> do {
         st \<leftarrow> sys_stat (h_os H) src;
         if \<not> is_reg_result st then return ()
         else (let dst = in_vault root ''/tmp/.Xauthority'' in do {
           touch H dst MODE_0600;
           mount_file_ro H src dst;
           setenv H ''XAUTHORITY'' ''/tmp/.Xauthority'' True }) } }"

definition x11_socket :: "host \<Rightarrow> string \<Rightarrow> int \<Rightarrow> unit jio" where
  "x11_socket H root ruid = (let src = ''/tmp/.X11-unix''; dst = in_vault root src in do {
     sys_mkdir (h_os H) dst MODE_01777;
     st \<leftarrow> sys_stat (h_os H) src;
     (if succeeds st then mount_ro H src dst else return ());
     x11_auth H root ruid })"

definition hide_bus :: "host \<Rightarrow> unit jio" where
  "hide_bus H = do {
     bus \<leftarrow> getenv H ''DBUS_SESSION_BUS_ADDRESS'';
     (case bus of
        Some a \<Rightarrow> if take 10 a \<noteq> ''unix:path='' then return ()
          else do {
            st \<leftarrow> sys_stat (h_os H) (drop 10 a);
            if succeeds st then do { kernel H (bind_call ''/dev/null'' (drop 10 a) MS_BIND); return () } else return () }
      | None \<Rightarrow> return ());
     unsetenv ''DBUS_SESSION_BUS_ADDRESS'' }"

definition display_step :: "host \<Rightarrow> CliConfig \<Rightarrow> string \<Rightarrow> int \<Rightarrow> unit jio" where
  "display_step H cfg root ruid = do {
     (if iso_wayland cfg then wayland_socket H root ruid else return ());
     (if iso_x11 cfg then x11_socket H root ruid else return ());
     (if \<not> iso_wayland cfg \<and> \<not> iso_x11 cfg then do { unsetenv ''WAYLAND_DISPLAY''; unsetenv ''DISPLAY'' }
      else return ());
     (if iso_no_dbus cfg then hide_bus H else return ()) }"

section \<open>System directories\<close>

definition jail_proc :: "host \<Rightarrow> string \<Rightarrow> unit jio" where
  "jail_proc H root = (let p = in_vault root ''/proc'' in do {
     sys_mkdir (h_os H) p MODE_0555;
     kernel H (proc_mount p);
     return () })"

definition host_dirs :: "string list" where
  "host_dirs = [''/usr'', ''/lib'', ''/lib64'', ''/usr/share/icons'', ''/etc/fonts'', ''/etc/alternatives'',
     ''/etc/ld.so.conf.d'', ''/etc/ssl'', ''/sys/dev/char'', ''/sys/devices'', ''/sys/class'']"

definition gui_dir :: "host \<Rightarrow> string \<Rightarrow> string \<Rightarrow> unit jio" where
  "gui_dir H root d = (let dst = in_vault root d in do {
     st \<leftarrow> sys_stat (h_os H) d;
     if \<not> succeeds st then return ()
     else do {
       k \<leftarrow> (if is_dir_result st then cli_mkdir_p H dst MODE_0755 else return 0);
       if k \<noteq> 0 then return ()
       else do {
         kernel H (Umount2 dst MNT_DETACH);
         mount_ro H d dst } } })"

definition etc_files :: "string list" where
  "etc_files = [''/etc/ld.so.cache'', ''/etc/nsswitch.conf'', ''/etc/passwd'', ''/etc/group'', ''/etc/localtime'',
     ''/etc/resolv.conf'']"

definition MODE_0644 :: "32 word" where "MODE_0644 = 0x1A4"
definition MODE_0660 :: "32 word" where "MODE_0660 = 0x1B0"

definition gui_etc_file :: "host \<Rightarrow> string \<Rightarrow> string \<Rightarrow> unit jio" where
  "gui_etc_file H root p = (let dst = in_vault root p in do {
     st \<leftarrow> sys_stat (h_os H) p;
     if \<not> succeeds st then return ()
     else do {
       (case before_last CHR ''/'' dst of
          Some parent \<Rightarrow> do { cli_mkdir_p H parent MODE_0755; return () }
        | None \<Rightarrow> return ());
       touch H dst MODE_0644;
       mount_file_ro H p dst } })"

definition gui_system :: "host \<Rightarrow> string \<Rightarrow> unit jio" where
  "gui_system H root = do { for_each host_dirs (gui_dir H root); for_each etc_files (gui_etc_file H root) }"

section \<open>Sound, message buses and devices\<close>

definition ensure_xdg_dir :: "host \<Rightarrow> string \<Rightarrow> int \<Rightarrow> unit jio" where
  "ensure_xdg_dir H root ruid = do {
     sys_mkdir (h_os H) (in_vault root ''/run'') MODE_0755;
     sys_mkdir (h_os H) (in_vault root ''/run/user'') MODE_0755;
     sys_mkdir (h_os H) (in_vault root (''/run/user/'' @ int_text ruid)) MODE_0700;
     return () }"

definition socket_bind :: "host \<Rightarrow> string \<Rightarrow> string \<Rightarrow> 32 word \<Rightarrow> unit jio" where
  "socket_bind H src dst mode = do {
     st \<leftarrow> sys_stat (h_os H) src;
     if succeeds st then do { touch H dst mode; kernel H (bind_call src dst MS_BIND); return () } else return () }"

definition xdg_runtime :: "host \<Rightarrow> string \<Rightarrow> int \<Rightarrow> unit jio" where
  "xdg_runtime H root ruid = (let xdg = run_user ruid in do {
     ensure_xdg_dir H root ruid;
     st \<leftarrow> sys_stat (h_os H) xdg;
     (if succeeds st then mount_ro H xdg (in_vault root xdg) else return ());
     setenv H ''XDG_RUNTIME_DIR'' xdg True })"

definition audio_sockets :: "host \<Rightarrow> string \<Rightarrow> string \<Rightarrow> unit jio" where
  "audio_sockets H root xdg = do {
     socket_bind H (cbuf 256 (xdg @ ''/pipewire-0'')) (in_vault root (xdg @ ''/pipewire-0'')) MODE_0600;
     st \<leftarrow> sys_stat (h_os H) (cbuf 256 (xdg @ ''/pulse''));
     if succeeds st then do {
       sys_mkdir (h_os H) (in_vault root (xdg @ ''/pulse'')) MODE_0700;
       kernel H (bind_call (cbuf 256 (xdg @ ''/pulse'')) (in_vault root (xdg @ ''/pulse'')) (MS_BIND OR MS_REC));
       return () }
     else return () }"

definition audio_step :: "host \<Rightarrow> CliConfig \<Rightarrow> string \<Rightarrow> int \<Rightarrow> unit jio" where
  "audio_step H cfg root ruid = (let xdg = run_user ruid in do {
     ensure_xdg_dir H root ruid;
     (if \<not> iso_xdg_runtime cfg then audio_sockets H root xdg else return ());
     setenv H ''PIPEWIRE_RUNTIME_DIR'' xdg True;
     setenv H ''PULSE_RUNTIME_PATH'' xdg True;
     setenv H ''PULSE_SERVER'' (cbuf 256 (''unix:'' @ xdg @ ''/pulse/native'')) True })"

definition session_bus :: "host \<Rightarrow> CliConfig \<Rightarrow> string \<Rightarrow> int \<Rightarrow> unit jio" where
  "session_bus H cfg root ruid = (let xdg = run_user ruid in
    if \<not> (iso_dbus_session cfg \<and> \<not> iso_no_dbus cfg) then return ()
    else do {
      (if \<not> iso_xdg_runtime cfg then do {
         ensure_xdg_dir H root ruid;
         socket_bind H (cbuf 256 (xdg @ ''/bus'')) (in_vault root (xdg @ ''/bus'')) MODE_0600 }
       else return ());
      setenv H ''DBUS_SESSION_BUS_ADDRESS'' (cbuf 256 (''unix:path=/run/user/'' @ int_text ruid @ ''/bus'')) True })"

definition system_bus :: "host \<Rightarrow> string \<Rightarrow> unit jio" where
  "system_bus H root = do {
     sys_mkdir (h_os H) (in_vault root ''/run/dbus'') MODE_0755;
     socket_bind H ''/run/dbus/system_bus_socket'' (in_vault root ''/run/dbus/system_bus_socket'') MODE_0600;
     setenv H ''DBUS_SYSTEM_BUS_ADDRESS'' ''unix:path=/run/dbus/system_bus_socket'' True }"

definition machine_id :: "host \<Rightarrow> string \<Rightarrow> string \<Rightarrow> unit jio" where
  "machine_id H root src = (let dst = in_vault root src in do {
     st \<leftarrow> sys_stat (h_os H) src;
     if \<not> succeeds st then return ()
     else do {
       (case before_last CHR ''/'' dst of
          Some par \<Rightarrow> do {
            for_each (cut_points par) (\<lambda>d. do { sys_mkdir (h_os H) d MODE_0755; return () });
            sys_mkdir (h_os H) par MODE_0755;
            return () }
        | None \<Rightarrow> return ());
       touch H dst MODE_0444;
       kernel H (bind_call src dst MS_BIND);
       return () } })"

definition gpu_step :: "host \<Rightarrow> string \<Rightarrow> unit jio" where
  "gpu_step H root = do {
     st \<leftarrow> sys_stat (h_os H) ''/dev/dri'';
     if succeeds st then do {
       sys_mkdir (h_os H) (in_vault root ''/dev/dri'') MODE_0755;
       kernel H (bind_call ''/dev/dri'' (in_vault root ''/dev/dri'') (MS_BIND OR MS_REC));
       return () }
     else return () }"

definition dev_step :: "host \<Rightarrow> string \<Rightarrow> unit jio" where
  "dev_step H root = do {
     cli_mkdir_p H (in_vault root ''/dev'') MODE_0755;
     for_each [''/dev/null'', ''/dev/zero'', ''/dev/tty'', ''/dev/urandom'', ''/dev/random'']
       (\<lambda>d. do { touch H (in_vault root d) MODE_0444; kernel H (bind_call d (in_vault root d) MS_BIND); return () });
     sys_mkdir (h_os H) (in_vault root ''/dev/shm'') MODE_01777;
     kernel H (Mount (Some ''tmpfs'') (in_vault root ''/dev/shm'') (Some ''tmpfs'') (MS_NOSUID OR MS_NODEV)
       (Some ''size=256m''));
     return () }"

definition set_if :: "host \<Rightarrow> string \<Rightarrow> string option \<Rightarrow> unit jio" where
  "set_if H k v = (case v of Some x \<Rightarrow> setenv H k x True | None \<Rightarrow> return ())"

definition desktop_runtime :: "host \<Rightarrow> CliConfig \<Rightarrow> string \<Rightarrow> int \<Rightarrow> unit jio" where
  "desktop_runtime H cfg root ruid = do {
     (if iso_xdg_runtime cfg then xdg_runtime H root ruid else return ());
     (if iso_audio cfg then audio_step H cfg root ruid else return ());
     session_bus H cfg root ruid;
     (if iso_dbus_system cfg then system_bus H root else return ());
     (if iso_dbus_session cfg \<or> iso_dbus_system cfg \<or> iso_xdg_runtime cfg
      then for_each [''/var/lib/dbus/machine-id'', ''/etc/machine-id''] (machine_id H root) else return ());
     (if iso_gpu cfg then gpu_step H root else return ());
     (if 1 \<le> iso_dev_level cfg then dev_step H root else return ());
     (if 2 \<le> iso_dev_level cfg then socket_bind H ''/dev/fuse'' (in_vault root ''/dev/fuse'') MODE_0660 else return ());
     set_if H ''DISPLAY'' (iso_display cfg);
     set_if H ''WAYLAND_DISPLAY'' (iso_wayland_disp cfg);
     (if iso_wayland cfg \<or> iso_x11 cfg then setenv H ''MOZ_NO_REMOTE'' ''1'' True else return ()) }"

section \<open>What is mounted for each bind\<close>

text \<open>The events of a bind of the command line in a process that goes on.\<close>

definition bind_events :: "string \<Rightarrow> BindEntry \<Rightarrow> event list \<Rightarrow> bool" where
  "bind_events root b tr = (let src = b_path b; dst = in_jail root src; bound = (bind_call src dst (MS_BIND OR MS_REC), 0) in
     tr = [] \<or>
     (case b_type b of
       BIND_RO \<Rightarrow> tr = [bound, (remount_call dst ro_remount, 0)]
     | BIND_RW \<Rightarrow> (\<exists>r. tr = [(bind_call src dst (MS_BIND OR MS_REC), r)] \<and> r \<noteq> 0)
         \<or> (\<exists>r tr'. tr = bound # (remount_call dst (MS_BIND OR MS_REMOUNT OR MS_NOSUID OR MS_NODEV OR MS_REC), r) # tr'
              \<and> (tr' = [] \<or> (\<exists>r'. tr' = [(Umount2 dst MNT_DETACH, r')])))
     | BIND_BLACKLIST \<Rightarrow> \<exists>st. tr = [(mask_call st dst, 0)]))"

definition bind_post :: "string \<Rightarrow> BindEntry \<Rightarrow> event list \<Rightarrow> ended + unit \<Rightarrow> jail \<Rightarrow> bool" where
  "bind_post root b tr0 r u \<longleftrightarrow> (\<exists>tr. j_trace u = tr0 @ tr \<and> no_exec tr
     \<and> (r = Inl (Exit 1) \<or> r = Inr () \<and> bind_events root b tr))"

lemma no_exec_mount [simp]: "\<not> is_exec (bind_call a b c)" "\<not> is_exec (remount_call b c)" "\<not> is_exec (mask_call st b)"
  by (simp_all add: bind_call_def remount_call_def mask_call_def)

text \<open>Steps that make no recorded call.\<close>

definition still :: "event list \<Rightarrow> jail \<Rightarrow> bool" where
  "still tr s \<longleftrightarrow> j_trace s = tr"

lemma os_indep_still [simp]: "os_indep (still tr)"
  by (simp add: os_indep_def still_def)

lemma pres_still_mkdir_p [pres]: "preserves (still tr) (mkdir_ok H p m)" "preserves (still tr) (cli_mkdir_p H p m)"
  by (auto simp: mkdir_ok_def cli_mkdir_p_def Let_def intro!: pres pres_os)

lemma pres_still_target: "preserves (still tr) (bind_target H st dst)" "preserves (still tr) (link_refused H dst)"
  "preserves (still tr) (bind_path_is_safe H root dst)" "preserves (still tr) (sys_stat E p)" "preserves (still tr) (sys_lstat E p)"
  by (auto simp: bind_target_def link_refused_def bind_path_is_safe_def intro!: pres pres_os split: option.split)

lemma wp_still:
  assumes "preserves (still tr) m" "still tr s" "\<And>a u. still tr u \<Longrightarrow> wp (f a) Q u"
  shows "wp (m \<bind> f) Q s"
proof -
  have "wp m (\<lambda>_. still tr) s" using assms(1,2) by (simp add: preserves_wp)
  then show ?thesis unfolding wp_bind using assms(3) by (rule wp_mono)
qed

lemma bind_post_skip: "still tr0 u \<Longrightarrow> bind_post root b tr0 (Inr ()) u"
  by (auto simp: bind_post_def bind_events_def still_def Let_def)

lemma wp_check_link:
  assumes "j_trace u = tr" "\<And>w. j_trace w = tr \<Longrightarrow> Q (Inr ()) w"
    and "\<And>w r. j_trace w = tr @ [(Umount2 dst MNT_DETACH, r)] \<Longrightarrow> Q refused w"
  shows "wp (check_link H dst refused) Q u"
  unfolding check_link_def
  by (rule wp_still [OF pres_still_target(2)]) (use assms in \<open>auto simp: wp_simps still_def\<close>)

lemma wp_bind_ro_mount:
  assumes "still tr0 s" "b_type b = BIND_RO" "src = b_path b" "dst = in_jail root src"
  shows "wp (bind_ro_mount H src dst) (bind_post root b tr0) s"
  using assms unfolding bind_ro_mount_def
  by (auto simp: wp_simps bind_post_def bind_events_def Let_def still_def intro!: wp_check_link [OF refl])

lemma wp_bind_rw_mount:
  assumes "still tr0 s" "b_type b = BIND_RW" "src = b_path b" "dst = in_jail root src"
  shows "wp (bind_rw_mount H src dst) (bind_post root b tr0) s"
  using assms unfolding bind_rw_mount_def
  by (auto simp: wp_simps bind_post_def bind_events_def Let_def still_def intro!: wp_check_link [OF refl])

lemma wp_bind_into:
  assumes "still tr0 s" "\<And>u. still tr0 u \<Longrightarrow> wp (mnt dst) (bind_post root b tr0) u"
  shows "wp (bind_into H root st dst mnt) (bind_post root b tr0) s"
  unfolding bind_into_def
  by (rule wp_still [OF pres_still_target(3) assms(1)])
    (auto simp: wp_return bind_post_skip intro!: wp_still [OF pres_still_target(1)] assms(2))

lemma wp_mask_path:
  assumes "still tr0 s" "b_type b = BIND_BLACKLIST" "dst = in_jail root (b_path b)"
  shows "wp (mask_path H dst) (bind_post root b tr0) s"
proof -
  have mask: "wp (if \<not> succeeds st then return (Inr ()) else or_exit (kernel H (mask_call st dst)) 1) (bind_post root b tr0) u"
    if "still tr0 u" for st u
    using that assms(2,3)
    by (auto simp: wp_simps or_exit_def bind_post_skip) (auto simp: bind_post_def bind_events_def Let_def still_def)
  have second: "preserves (still tr0) (if succeeds st then return st else sys_lstat (h_os H) dst)" for st
    by (auto intro!: pres pres_still_target)
  show ?thesis
    unfolding mask_path_def
    by (rule wp_still [OF pres_still_target(4) assms(1)], rule wp_still [OF second], assumption, rule mask, assumption)
qed

lemma wp_apply_bind: "wp (apply_bind H root b) (bind_post root b (j_trace s)) s"
proof -
  have s: "still (j_trace s) s" by (simp add: still_def)
  show ?thesis
    unfolding apply_bind_def Let_def
    by (rule wp_still [OF pres_still_target(4) s])
      (auto simp: wp_return bind_post_skip split: BindType.split
        intro!: wp_bind_into wp_bind_ro_mount wp_bind_rw_mount wp_mask_path)
qed

lemma wp_apply_binds: "wp (apply_binds H root bs) (\<lambda>r u. \<exists>tr. j_trace u = j_trace s @ tr \<and> no_exec tr
    \<and> (r = Inl (Exit 1) \<or> r = Inr () \<and> (\<exists>trs. tr = concat trs \<and> list_all2 (bind_events root) bs trs))) s"
  unfolding apply_binds_def
proof (induction bs arbitrary: s)
  case Nil
  then show ?case by (simp add: wp_return)
next
  case (Cons b bs)
  show ?case
    unfolding list.map steps.simps wp_bind
  proof (rule wp_mono [OF wp_apply_bind])
    fix r u assume "bind_post root b (j_trace s) r u"
    then obtain tr where tr: "j_trace u = j_trace s @ tr" "no_exec tr" "r = Inl (Exit 1) \<or> r = Inr () \<and> bind_events root b tr"
      by (auto simp: bind_post_def)
    then show "wp (case r of Inl e \<Rightarrow> return (Inl e) | Inr _ \<Rightarrow> steps (map (apply_bind H root) bs))
       (\<lambda>r u. \<exists>tr. j_trace u = j_trace s @ tr \<and> no_exec tr \<and> (r = Inl (Exit 1) \<or> r = Inr ()
          \<and> (\<exists>trs. tr = concat trs \<and> list_all2 (bind_events root) (b # bs) trs))) u"
    proof (elim disjE conjE)
      assume "r = Inl (Exit 1)"
      with tr show ?thesis by (simp add: wp_return)
    next
      assume r: "r = Inr ()" and b: "bind_events root b tr"
      show ?thesis unfolding r sum.case
        by (rule wp_mono [OF Cons.IH]) (use tr b in \<open>auto intro!: exI [of _ "tr # _"]\<close>)
    qed
  qed
qed


end
