(* ===== verification/Sandbox_Run.thy ===== *)
theory Sandbox_Run
  imports Mini_Init Sandbox_Binds
begin

text \<open>
  Running a program in a sandbox (\<^verbatim>\<open>run_isolated\<close> of \<^verbatim>\<open>cli/vault_cli.c\<close>): the parent, which writes the
  identity maps, applies the limits of a control group, sets up the network and cleans up, and the child,
  which goes through the layers and becomes the program. The search for the files a program needs
  (\<^verbatim>\<open>preflight_scan\<close>) is written in Rust and adds binds to the configuration; it is the parameter \<open>scan\<close>.
  Shown is that the program is executed only after every layer the configuration asks for, whatever fails,
  and that the parent leaves no jail behind once it has a child.
\<close>

section \<open>Identities\<close>

definition real_id :: "host \<Rightarrow> string \<Rightarrow> int \<Rightarrow> int jio" where
  "real_id H var own = do {
     v \<leftarrow> getenv H var;
     return (case nonempty v of
       None \<Rightarrow> own
     | Some s \<Rightarrow> (case strtol s of (n, rest, erange) \<Rightarrow>
         if \<not> erange \<and> rest \<noteq> s \<and> rest = [] \<and> 0 \<le> n \<and> n \<le> 65535 then n else own)) }"

definition resolve_real_uid :: "host \<Rightarrow> int jio" where
  "resolve_real_uid H = real_id H ''SUDO_UID'' (e_uid (h_os H))"

definition resolve_real_gid :: "host \<Rightarrow> int jio" where
  "resolve_real_gid H = real_id H ''SUDO_GID'' (h_gid H)"

definition is_gui :: "CliConfig \<Rightarrow> bool" where
  "is_gui cfg \<longleftrightarrow> iso_wayland cfg \<or> iso_x11 cfg"

text \<open>\<^verbatim>\<open>mkdtemp\<close>: a new directory with a name the library completes.\<close>

definition mkdtemp :: "host \<Rightarrow> string \<Rightarrow> string option jio" where
  "mkdtemp H start = do {
     t \<leftarrow> gets o_tick;
     r \<leftarrow> rooted (\<lambda>p. sys_mkdir (h_os H) p MODE_0700) (start @ h_temp H t);
     return (if succeeds r then Some (start @ h_temp H t) else None) }"

definition pipe_pair :: "host \<Rightarrow> bool jio" where
  "pipe_pair H = do {
     a \<leftarrow> lib_ret H;
     b \<leftarrow> (if a = 0 then lib_ret H else return a);
     return (b = 0) }"

section \<open>The network\<close>

definition or_else :: "string option \<Rightarrow> string \<Rightarrow> string" where
  "or_else x d = (case x of Some y \<Rightarrow> y | None \<Rightarrow> d)"

definition jail_ip :: "CliConfig \<Rightarrow> string" where "jail_ip cfg = or_else (iso_net_veth_ip cfg) ''10.0.0.3''"
definition gate_ip :: "CliConfig \<Rightarrow> string" where "gate_ip cfg = or_else (iso_net_veth_gw cfg) ''10.0.0.2''"
definition veth_name :: string where "veth_name = ''nuk4sd-veth''"

definition veth_parent :: "host \<Rightarrow> CliConfig \<Rightarrow> int \<Rightarrow> unit jio" where
  "veth_parent H cfg pid = (if \<not> iso_net_veth cfg then return () else do {
     got \<leftarrow> lib_ret H;
     (if got = 1 then do {
        vsb_net_veth_setup H (nat pid) (Some (jail_ip cfg)) (Some (gate_ip cfg)) (Some veth_name);
        return () }
      else return ());
     lib_ret H;
     return () })"

definition veth_inside :: "host \<Rightarrow> CliConfig \<Rightarrow> unit jio" where
  "veth_inside H cfg = do {
     lib_ret H;
     lib_ret H;
     vsb_configure_veth_inside H (jail_ip cfg) (gate_ip cfg) (Some veth_name);
     return () }"

definition veth_child :: "host \<Rightarrow> CliConfig \<Rightarrow> unit proc" where
  "veth_child H cfg = (if \<not> iso_net_veth cfg then return (Inr ()) else steps
     [always (veth_inside H cfg),
      if iso_nfilter cfg then or_exit (nfilterflag H (Some (or_else (iso_nfilter_jail cfg) default_jail))) 1
      else return (Inr ())])"

section \<open>The parent\<close>

definition leave_jail :: "host \<Rightarrow> string \<Rightarrow> unit jio" where
  "leave_jail H root = do {
     kernel H (Umount2 root MNT_DETACH);
     sys_rmdir (h_os H) root;
     return () }"

definition abort_child :: "host \<Rightarrow> string \<Rightarrow> int \<Rightarrow> int jio" where
  "abort_child H root pid = do {
     kernel H (Kill pid SIGKILL);
     waitpid H pid;
     lift_vio (vault_auth_pid_remove_ffi (nat pid));
     leave_jail H root;
     return (- 1) }"

definition wants_cgroup :: "CliConfig \<Rightarrow> bool" where
  "wants_cgroup cfg \<longleftrightarrow> iso_cgroup cfg \<or> 0 < iso_cpu_shares cfg \<or> 0 < iso_cpu_quota_us cfg \<or> 0 < iso_cgroup_mem_mb cfg"

definition cgroup_name :: "CliConfig \<Rightarrow> int \<Rightarrow> string" where
  "cgroup_name cfg pid = (case nonempty (iso_cgroup_name cfg) of
     Some n \<Rightarrow> cbuf 128 (''nuk4sd/'' @ n)
   | None \<Rightarrow> cbuf 128 (''nuk4sd/sandbox-'' @ int_text pid))"

definition cgroup_call :: "CliConfig \<Rightarrow> int \<Rightarrow> kcall" where
  "cgroup_call cfg pid = Rust_call ''rust_cgroup_apply'' [cgroup_name cfg pid, int_text pid,
     int_text (if 0 < iso_cgroup_mem_mb cfg then iso_cgroup_mem_mb cfg
               else if 0 < iso_max_mem_gb cfg then iso_max_mem_gb cfg * 1024 else 0),
     int_text (if 0 < iso_cpu_shares cfg then iso_cpu_shares cfg else 1024),
     int_text (if 0 < iso_cpu_quota_us cfg then iso_cpu_quota_us cfg else 0),
     int_text (if 0 < iso_max_procs cfg then iso_max_procs cfg else 0)]"

text \<open>\<open>None\<close>: the limits were demanded and could not be applied. Otherwise whether they apply.\<close>

definition cgroup_step :: "host \<Rightarrow> CliConfig \<Rightarrow> int \<Rightarrow> bool option jio" where
  "cgroup_step H cfg pid = (if \<not> wants_cgroup cfg then return (Some False) else do {
     rc \<leftarrow> kernel H (cgroup_call cfg pid);
     return (if rc = 0 then Some True else if iso_cgroup cfg then None else Some False) })"

definition exit_code :: "int \<Rightarrow> int" where
  "exit_code status = (if WIFSIGNALED status then - 1 else if WIFEXITED status then WEXITSTATUS status else - 1)"

definition run_wait :: "host \<Rightarrow> CliConfig \<Rightarrow> string \<Rightarrow> int \<Rightarrow> bool \<Rightarrow> int jio" where
  "run_wait H cfg root pid grouped = do {
     lib_ret H;
     veth_parent H cfg pid;
     (r, status) \<leftarrow> waitpid H pid;
     lift_vio (vault_auth_pid_remove_ffi (nat pid));
     (if grouped then do { kernel H (Rust_call ''rust_cgroup_cleanup'' [cgroup_name cfg pid]); return () } else return ());
     (if iso_net_veth cfg then do { vsb_cleanup_veth H (Some veth_name); return () } else return ());
     leave_jail H root;
     return (exit_code status) }"

definition run_parent :: "host \<Rightarrow> CliConfig \<Rightarrow> string \<Rightarrow> int \<Rightarrow> int \<Rightarrow> int \<Rightarrow> int jio" where
  "run_parent H cfg root ruid rgid pid = do {
     lift_vio (vault_auth_pid_add_ffi (h_os H) (nat pid));
     lib_ret H;
     rc \<leftarrow> vsb_write_uid_gid_map H pid ruid rgid;
     if rc \<noteq> 0 then abort_child H root pid
     else do {
       g \<leftarrow> cgroup_step H cfg pid;
       case g of
         None \<Rightarrow> abort_child H root pid
       | Some grouped \<Rightarrow> run_wait H cfg root pid grouped } }"

section \<open>The layers of the child\<close>

definition flag_if :: "bool \<Rightarrow> 32 word \<Rightarrow> 32 word" where
  "flag_if b f = (if b then f else 0)"

definition ns_flags :: "CliConfig \<Rightarrow> 32 word" where
  "ns_flags cfg = CLONE_NEWNS OR CLONE_NEWPID
     OR flag_if (iso_no_net cfg \<or> iso_net_veth cfg) CLONE_NEWNET
     OR flag_if (iso_unshare_ipc cfg) CLONE_NEWIPC
     OR flag_if (iso_unshare_uts cfg) CLONE_NEWUTS
     OR flag_if (iso_cgroup cfg \<or> iso_unshare_cgroup cfg) CLONE_NEWCGROUP"

definition vault_mount :: "host \<Rightarrow> string \<Rightarrow> string \<Rightarrow> unit proc" where
  "vault_mount H root vault = (let p = cbuf PATH_MAX (root @ ''/vault'') in do {
     ok \<leftarrow> mkdir_ok H p MODE_0755;
     if \<not> ok then return (Inl (Exit 1))
     else or_exit (kernel H (bind_call vault p (MS_BIND OR MS_REC))) 1 })"

definition uts_session :: "host \<Rightarrow> CliConfig \<Rightarrow> unit jio" where
  "uts_session H cfg = do {
     (case iso_hostname cfg of
        Some h \<Rightarrow> if iso_unshare_uts cfg then do { kernel H (Sethostname h); return () } else return ()
      | None \<Rightarrow> return ());
     (if iso_new_session cfg then do { kernel H Setsid; return () } else return ()) }"

definition private_mounts :: "host \<Rightarrow> unit jio" where
  "private_mounts H = do {
     kernel H (Mount (Some ''none'') ''/'' None (MS_REC OR MS_PRIVATE) None);
     kernel H (Mount (Some ''none'') ''/'' None (MS_REC OR MS_PRIVATE) None);
     return () }"

definition enter_root :: "host \<Rightarrow> string \<Rightarrow> unit proc" where
  "enter_root H root = do {
     r \<leftarrow> kernel H (Chroot root);
     if r \<noteq> 0 then return (Inl (Exit 1))
     else do { modify (\<lambda>s. s\<lparr>j_root := j_root s @ root\<rparr>); return (Inr ()) } }"

definition change_root :: "host \<Rightarrow> CliConfig \<Rightarrow> string \<Rightarrow> unit proc" where
  "change_root H cfg root =
    (if iso_use_chroot cfg then steps [enter_root H root, or_exit (kernel H (Chdir ''/'')) 1]
     else pivot_or_exit H root (\<not> iso_no_proc cfg) 1)"

definition proc_after :: "host \<Rightarrow> CliConfig \<Rightarrow> unit jio" where
  "proc_after H cfg = do {
     kernel H (Umount2 ''/proc'' MNT_DETACH);
     (if \<not> iso_no_proc cfg \<and> iso_use_chroot cfg then do {
        rooted (\<lambda>p. sys_mkdir (h_os H) p MODE_0555) ''/proc'';
        kernel H (proc_mount ''/proc'');
        return () }
      else return ()) }"

definition tmp_after :: "host \<Rightarrow> CliConfig \<Rightarrow> unit jio" where
  "tmp_after H cfg = (let sz = (if iso_tmp_size_mb cfg \<noteq> 0 then iso_tmp_size_mb cfg else 64) in do {
     rooted (\<lambda>p. sys_mkdir (h_os H) p MODE_01777) ''/tmp'';
     kernel H (Mount (Some ''tmpfs'') ''/tmp'' (Some ''tmpfs'') (MS_NOSUID OR MS_NODEV)
       (Some (cbuf 32 (''size='' @ int_text sz @ ''m''))));
     return () })"

definition tmp_home :: "host \<Rightarrow> CliConfig \<Rightarrow> int \<Rightarrow> int \<Rightarrow> unit jio" where
  "tmp_home H cfg ruid rgid = (if \<not> iso_tmp_home cfg then return () else do {
     d \<leftarrow> mkdtemp H ''/tmp/Nuk4sd-home-'';
     case d of
       None \<Rightarrow> return ()
     | Some dir \<Rightarrow> do {
         setenv H ''HOME'' dir True;
         (if is_gui cfg \<and> ruid \<noteq> 0 then do { kernel H (Chown dir ruid rgid); return () } else return ()) } })"

definition gui_home :: "host \<Rightarrow> CliConfig \<Rightarrow> unit jio" where
  "gui_home H cfg = (if \<not> is_gui cfg then return () else do {
     u \<leftarrow> getenv H ''SUDO_USER'';
     case u of
       Some n \<Rightarrow> if iso_tmp_home cfg then return () else setenv H ''HOME'' (cbuf 256 (''/home/'' @ n)) True
     | None \<Rightarrow> return () })"

definition or_default :: "int \<Rightarrow> int \<Rightarrow> int" where
  "or_default x d = (if x \<noteq> 0 then x else d)"

text \<open>The cast to \<^verbatim>\<open>rlim_t\<close>.\<close>

definition to_rlim :: "int \<Rightarrow> int" where
  "to_rlim x = x mod 2 ^ 64"

definition run_limits :: "host \<Rightarrow> CliConfig \<Rightarrow> unit jio" where
  "run_limits H cfg = do {
     (if 0 < iso_max_mem_gb cfg then set_limit H RLIMIT_AS (to_rlim (iso_max_mem_gb cfg * 1024 * 1024 * 1024))
      else return ());
     set_limit H RLIMIT_NPROC (to_rlim (or_default (iso_max_procs cfg) 512));
     set_limit H RLIMIT_FSIZE (to_rlim (if iso_max_fsize_mb cfg \<noteq> 0 then iso_max_fsize_mb cfg * 1024 * 1024
       else if is_gui cfg then 1024 * 1024 * 1024 else 512 * 1024 * 1024));
     set_limit H RLIMIT_NOFILE (to_rlim (or_default (iso_max_fds cfg) 4096)) }"

definition filter_mode :: "host \<Rightarrow> CliConfig \<Rightarrow> unit jio" where
  "filter_mode H cfg = (let gui = is_gui cfg \<and> \<not> seccomp_strict cfg in do {
     vsb_set_seccomp_mode (seccomp_strict cfg) (allow_clone3 cfg) (friendly_sandbox cfg \<or> gui)
       (permissive_sandbox cfg \<or> gui);
     (case nonempty (iso_adapter cfg) of
        Some a \<Rightarrow> vsb_set_seccomp_adapter (Some a)
      | None \<Rightarrow> return ());
     vsb_set_mount_dev (iso_mount_dev cfg) })"

definition filter_step :: "host \<Rightarrow> CliConfig \<Rightarrow> string \<Rightarrow> unit proc" where
  "filter_step H cfg root = (if iso_no_seccomp cfg then return (Inr ()) else steps
     [always (filter_mode H cfg),
      always (if \<not> permissive_sandbox cfg \<and> iso_landlock cfg then do { landlock_apply H cfg (Some root); return () }
              else return ()),
      or_exit (vsb_apply_seccomp H) 1])"

text \<open>The second \<^verbatim>\<open>fork\<close> and the devices are those of \<^verbatim>\<open>vault_sandbox_open\<close>.\<close>

definition run_fork :: "host \<Rightarrow> unit proc" where
  "run_fork H = namespace_fork H 1"

definition run_devices :: "host \<Rightarrow> string \<Rightarrow> unit jio" where
  "run_devices H root = bind_devices H root"

definition run_layers :: "host \<Rightarrow> CliConfig \<Rightarrow> string \<Rightarrow> string \<Rightarrow> int \<Rightarrow> int \<Rightarrow> unit proc list" where
  "run_layers H cfg vault root ruid rgid = [
     always (kernel H (Prctl_name ''Nuk4sd-Run'')),
     or_exit (kernel H (Unshare CLONE_NEWUSER)) 1,
     always (lib_ret H),
     always (lib_ret H),
     or_exit (kernel H (Unshare (ns_flags cfg))) 1,
     veth_child H cfg,
     vault_mount H root vault,
     vsb_prepare_jail H root (is_gui cfg),
     always (uts_session H cfg),
     run_fork H,
     always (private_mounts H),
     apply_binds H root (binds cfg),
     always (bind_home H cfg root ruid),
     always (display_step H cfg root ruid),
     always (run_devices H root),
     always (if \<not> iso_no_proc cfg then jail_proc H root else return ()),
     always (if is_gui cfg then gui_system H root else return ()),
     always (desktop_runtime H cfg root ruid),
     change_root H cfg root,
     always (proc_after H cfg),
     always (tmp_after H cfg),
     always (tmp_home H cfg ruid rgid),
     always (gui_home H cfg),
     or_exit (vsb_drop_caps H) 1,
     always (run_limits H cfg),
     filter_step H cfg root]"

section \<open>The program\<close>

text \<open>The process is the first of its namespace, so \<^verbatim>\<open>getpid()\<close> is 1.\<close>

definition run_program :: "nat \<Rightarrow> host \<Rightarrow> CliConfig \<Rightarrow> string \<Rightarrow> int proc" where
  "run_program n H cfg prog = do {
     ok \<leftarrow> alloc_ok (h_os H);
     if \<not> ok then return (Inl (Exit 1))
     else do {
       lib_ret H;
       (if iso_uuid cfg then do {
          setup_uuid H \<lparr>ua_pid = 1, ua_binary = Some prog, ua_pipe_write = - 1\<rparr>;
          return () }
        else return ());
       if iso_init cfg then nuk_mini_init n H (Some prog) (Some (prog # run_argv cfg))
       else do {
         r \<leftarrow> execv H prog (prog # run_argv cfg);
         return (Inl (case r of Inl e \<Rightarrow> e | Inr _ \<Rightarrow> Exit 127)) } } }"

definition run_child :: "nat \<Rightarrow> host \<Rightarrow> CliConfig \<Rightarrow> string \<Rightarrow> string \<Rightarrow> string \<Rightarrow> int \<Rightarrow> int \<Rightarrow> int proc" where
  "run_child n H cfg prog vault root ruid rgid = do {
     r \<leftarrow> steps (run_layers H cfg vault root ruid rgid);
     case r of
       Inl e \<Rightarrow> return (Inl e)
     | Inr _ \<Rightarrow> run_program n H cfg prog }"

definition run_forked :: "nat \<Rightarrow> host \<Rightarrow> CliConfig \<Rightarrow> string \<Rightarrow> string \<Rightarrow> string \<Rightarrow> int \<Rightarrow> int \<Rightarrow> int proc" where
  "run_forked n H cfg prog vault root ruid rgid = do {
     pid \<leftarrow> kernel H Fork;
     if pid < 0 then return (Inr (- 1))
     else if 0 < pid then do { c \<leftarrow> run_parent H cfg root ruid rgid pid; return (Inr c) }
     else run_child n H cfg prog vault root ruid rgid }"

definition run_isolated :: "(CliConfig \<Rightarrow> string \<Rightarrow> CliConfig) \<Rightarrow> nat \<Rightarrow> host \<Rightarrow> CliConfig \<Rightarrow> string \<Rightarrow> string \<Rightarrow> int proc" where
  "run_isolated scan n H cfg0 prog vault = (let cfg = (if skip_preflight cfg0 then cfg0 else scan cfg0 prog) in do {
     ruid \<leftarrow> resolve_real_uid H;
     rgid \<leftarrow> resolve_real_gid H;
     d \<leftarrow> mkdtemp H ''/tmp/Nuk4sd-jail-'';
     case d of
       None \<Rightarrow> return (Inr (- 1))
     | Some root \<Rightarrow> do {
         ok \<leftarrow> pipe_pair H;
         ok' \<leftarrow> (if ok \<and> iso_net_veth cfg then pipe_pair H else return ok);
         if \<not> ok' then return (Inr (- 1))
         else run_forked n H cfg prog vault root ruid rgid } })"

section \<open>Nothing but an installer is executed before the layers\<close>

lemma layer_after:
  assumes "\<And>tr0. preserves (calm tr0) m" "\<And>x. layer A ps (f x)"
  shows "layer A ps (m \<bind> f)"
  unfolding layer_def wp_bind
proof (intro allI, rule wp_mono)
  fix s
  show "wp m (\<lambda>_. calm (j_trace s)) s" using assms(1) by (simp add: preserves_wp)
  fix x u assume "calm (j_trace s) u"
  then obtain tr where tr: "j_trace u = j_trace s @ tr" "no_exec tr" by (auto simp: calm_def)
  have "wp (f x) (\<lambda>r. step_post A ps (j_trace u) (goes_on r)) u" using assms(2) by (simp add: layer_def)
  then show "wp (f x) (\<lambda>r. step_post A ps (j_trace s) (goes_on r)) u"
    by (rule wp_mono) (use tr in \<open>auto simp: step_post_def intro: no_exec_admitted passed_prepend\<close>)
qed

lemma layer_if: "(b \<Longrightarrow> layer A ps m) \<Longrightarrow> (\<not> b \<Longrightarrow> layer A ps n) \<Longrightarrow> layer A ps (if b then m else n)"
  by simp

lemma layer_return: "layer A [] (return r)"
  by (simp add: layer_def wp_return step_post_def)

text \<open>A process that only ends, after executing at most admitted programs.\<close>

definition only :: "(kcall \<Rightarrow> bool) \<Rightarrow> event list \<Rightarrow> jail \<Rightarrow> bool" where
  "only A tr0 s \<longleftrightarrow> (\<exists>tr. j_trace s = tr0 @ tr \<and> admitted A tr)"

lemma os_indep_only [simp]: "os_indep (only A tr0)"
  by (simp add: os_indep_def only_def)

lemma only_refl [simp]: "only A (j_trace s) s"
  by (simp add: only_def)

lemma pres_only_kernel: "(is_exec k \<Longrightarrow> A k) \<Longrightarrow> preserves (only A tr0) (kernel H k)"
  by (auto simp: preserves_wp wp_simps only_def)

lemma pres_only_lib_ret [pres]: "preserves (only A tr0) (lib_ret H)"
  by (auto simp: preserves_wp wp_simps only_def)

lemma layer_ends:
  assumes "\<And>tr0. preserves (only A tr0) m" "yields m (\<lambda>r. \<not> goes_on r)"
  shows "layer A ps m"
  unfolding layer_def
proof
  fix s
  have "wp m (\<lambda>r u. \<not> goes_on r \<and> only A (j_trace s) u) s"
    using assms by (simp add: wp_conj preserves_wp yields_def)
  then show "wp m (\<lambda>r. step_post A ps (j_trace s) (goes_on r)) s"
    by (rule wp_mono) (auto simp: only_def step_post_def)
qed

definition is_installer :: "kcall \<Rightarrow> bool" where
  "is_installer k \<longleftrightarrow> (case k of Execv p argv \<Rightarrow> argv \<in> fst ` set installers | _ \<Rightarrow> False)"

lemma is_installer_simps [simp]: "is_installer (Execv p argv) \<longleftrightarrow> argv \<in> fst ` set installers"
  by (simp add: is_installer_def)

lemma yields_then: "yields m R \<Longrightarrow> (\<And>a. R a \<Longrightarrow> yields (f a) Q) \<Longrightarrow> yields (m \<bind> f) Q"
  by (auto simp: yields_def wp_bind intro: wp_mono)

lemma steps_end: "yields (steps (ms @ [return (Inl e)])) (\<lambda>r. \<not> goes_on r)"
  by (induction ms) (auto intro!: yields_bind yields_return split: sum.split)

lemma pres_closest [pres_os]: "os_indep I \<Longrightarrow> preserves I (closest_entries H t d ns b)"
  "os_indep I \<Longrightarrow> preserves I (closest_in H t ds b)" "os_indep I \<Longrightarrow> preserves I (find_closest_binary H t k)"
proof -
  show entries: "preserves I (closest_entries H t d ns b)" if "os_indep I" for b d ns
    using that by (induction ns arbitrary: b) (auto intro!: pres pres_os simp: Let_def)
  show dirs: "preserves I (closest_in H t ds b)" if "os_indep I" for ds b
    using that by (induction ds arbitrary: b) (auto intro!: pres pres_os entries)
  show "preserves I (find_closest_binary H t k)" if "os_indep I" for k
    unfolding find_closest_binary_def using that by (auto intro!: pres dirs)
qed

lemma layer_installer_child:
  assumes "argv \<in> fst ` set installers"
  shows "layer is_installer ps (in_child (installer_child H argv))"
proof (rule layer_ends)
  show "preserves (only is_installer tr0) (in_child (installer_child H argv))" for tr0
    unfolding in_child_def installer_child_def silence_def exec_closest_def execv_def always_def
    by (auto intro!: pres pres_os pres_only_kernel simp: assms split: sum.split)
  have "yields (installer_child H argv) (\<lambda>r. \<not> goes_on r)"
    using steps_end [of "[always (silence H), execv H (hd argv) argv, exec_closest H argv]"]
    by (simp add: installer_child_def)
  then show "yields (in_child (installer_child H argv)) (\<lambda>r. \<not> goes_on r)"
    unfolding in_child_def by (rule yields_then) (auto intro: yields_return split: sum.split)
qed

lemma layer_installer_loop: "set pms \<subseteq> set installers \<Longrightarrow> layer is_installer [] (installer_loop H pms)"
proof (induction pms)
  case (Cons pm pms)
  obtain argv m where pm: "pm = (argv, m)" by (cases pm)
  with Cons have rest: "layer is_installer [] (installer_loop H pms)" and "argv \<in> fst ` set installers" by force+
  from this(2) have child: "layer is_installer [] (in_child (installer_child H argv))"
    by (rule layer_installer_child)
  show ?case unfolding pm
    by (auto intro!: layer_after layer_if layer_return rest child pres pres_os split: prod.split)
qed (simp add: layer_return)

lemma pres_shell [pres_os]:
  assumes "os_indep I"
  shows "preserves I (copy_candidate H c dst)" "preserves I (is_static_elf H c)" "preserves I (install_static H dst cs)"
    "preserves I (install_any H dst cs)"
proof -
  have interp: "preserves I (has_interp H p k off n)" for p k off n
    using assms by (induction k arbitrary: off) (auto intro!: pres pres_os simp: read_bytes_def)
  show copy: "preserves I (copy_candidate H c dst)" for c
    using assms unfolding copy_candidate_def copy_blocks_def by (auto intro!: pres pres_os)
  show static: "preserves I (is_static_elf H c)" for c
    using assms unfolding is_static_elf_def read_bytes_def by (auto intro!: pres pres_os interp)
  show "preserves I (install_static H dst cs)"
    using assms by (induction cs) (auto intro!: pres pres_os copy static)
  show "preserves I (install_any H dst cs)"
    using assms by (induction cs) (auto intro!: pres copy)
qed

lemma layer_install_step: "layer is_installer [] (install_step H root)"
proof -
  have after: "layer is_installer [] (install_after H dst)" for dst
    unfolding install_after_def jail_run_installer_def
    by (rule layer_bind [where ps = "[]" and ps' = "[]", simplified])
      (auto intro!: layer_installer_loop layer_stop layer_if layer_after layer_return pres pres_os simp: wp_return)
  have "layer is_installer [] (jail_install_shell H root)"
    unfolding jail_install_shell_def Let_def
    by (auto intro!: layer_after layer_if layer_return after pres pres_os)
  then show ?thesis
    unfolding install_step_def
    by (rule layer_bind [where ps = "[]" and ps' = "[]", simplified]) (auto intro!: layer_return simp: wp_return)
qed

lemma pres_calm_jail_devs: "preserves (calm tr0) (jail_devs H root)" "preserves (calm tr0) (jail_tree H root g)"
  unfolding jail_devs_def jail_tree_def dev_stub_def dev_node_def touch_def jail_subdir_def write_marker_def Let_def
  by (auto intro!: pres pres_os split: option.split prod.split)

lemma layer_prepare_jail: "layer is_installer [] (vsb_prepare_jail H root g)"
proof -
  have "list_all2 (layer is_installer) [[], [], []]
      [always (jail_devs H root), install_step H root, always (jail_tree H root g)]"
    by (simp add: layer_install_step layer_always pres_calm_jail_devs)
  from layer_steps [OF this] show ?thesis by (simp add: vsb_prepare_jail_def vault_prepare_jail_def)
qed

section \<open>The layers of a run\<close>

lemma pres_calm_cli_mkdir_p [pres]: "preserves (calm tr0) (cli_mkdir_p H p m)"
  by (auto simp: cli_mkdir_p_def Let_def intro!: pres)

lemma pres_calm_mount_ro [pres]: "preserves (calm tr0) (mount_ro H src dst)" "preserves (calm tr0) (mount_file_ro H src dst)"
  by (auto simp: mount_ro_def mount_file_ro_def intro!: pres)

lemma pres_calm_touch [pres]: "preserves (calm tr0) (touch H p m)"
  by (auto simp: touch_def intro!: pres pres_os)

lemma pres_calm_bind_home [pres]: "preserves (calm tr0) (bind_home H cfg root ruid)"
  unfolding bind_home_def home_path_def bind_home_mount_def Let_def by (auto intro!: pres pres_os)

lemma pres_calm_display [pres]: "preserves (calm tr0) (display_step H cfg root ruid)"
  unfolding display_step_def wayland_socket_def wayland_display_def x11_socket_def x11_auth_def hide_bus_def Let_def
  by (auto intro!: pres pres_os)

lemma pres_calm_jail_proc [pres]: "preserves (calm tr0) (jail_proc H root)"
  unfolding jail_proc_def proc_mount_def Let_def by (auto intro!: pres pres_os)

lemma pres_calm_gui_system [pres]: "preserves (calm tr0) (gui_system H root)"
  unfolding gui_system_def gui_dir_def gui_etc_file_def Let_def by (auto intro!: pres pres_os)

lemma pres_calm_socket_bind [pres]: "preserves (calm tr0) (socket_bind H src dst m)" "preserves (calm tr0) (ensure_xdg_dir H root ruid)"
  unfolding socket_bind_def ensure_xdg_dir_def by (auto intro!: pres pres_os)

lemma pres_calm_sockets [pres]: "preserves (calm tr0) (xdg_runtime H root ruid)" "preserves (calm tr0) (audio_step H cfg root ruid)"
  "preserves (calm tr0) (session_bus H cfg root ruid)" "preserves (calm tr0) (system_bus H root)"
  unfolding xdg_runtime_def audio_step_def audio_sockets_def session_bus_def system_bus_def Let_def
  by (auto intro!: pres pres_os)

lemma pres_calm_devices [pres]: "preserves (calm tr0) (machine_id H root src)" "preserves (calm tr0) (gpu_step H root)"
  "preserves (calm tr0) (dev_step H root)" "preserves (calm tr0) (set_if H k v)"
  unfolding machine_id_def gpu_step_def dev_step_def set_if_def Let_def by (auto intro!: pres pres_os)

lemma pres_calm_desktop [pres]: "preserves (calm tr0) (desktop_runtime H cfg root ruid)"
  unfolding desktop_runtime_def by (intro pres)

lemma pres_calm_after [pres]: "preserves (calm tr0) (uts_session H cfg)" "preserves (calm tr0) (private_mounts H)"
  "preserves (calm tr0) (proc_after H cfg)" "preserves (calm tr0) (tmp_after H cfg)" "preserves (calm tr0) (gui_home H cfg)"
  "preserves (calm tr0) (run_limits H cfg)"
  unfolding uts_session_def private_mounts_def proc_after_def tmp_after_def gui_home_def run_limits_def proc_mount_def
    set_limit_def Let_def
  by (auto intro!: pres pres_os)

lemma pres_calm_tmp_home [pres]: "preserves (calm tr0) (mkdtemp H p)" "preserves (calm tr0) (tmp_home H cfg ruid rgid)"
  unfolding tmp_home_def mkdtemp_def by (auto intro!: pres pres_os)

lemma pres_calm_filter_mode [pres]: "preserves (calm tr0) (filter_mode H cfg)"
  unfolding filter_mode_def vsb_set_seccomp_mode_def vsb_set_seccomp_adapter_def vsb_set_mount_dev_def Let_def
  by (auto intro!: pres pres_calm_modify)

lemma pres_calm_landlock [pres]: "preserves (calm tr0) (landlock_apply H cfg root)"
proof -
  have allow [pres]: "preserves (calm tr0) (ll_allow_path H p a)" for p a
    unfolding ll_allow_path_def by (auto intro!: pres pres_os)
  have rules: "preserves (calm tr0) (ll_rules H cfg root a)" for a
    unfolding ll_rules_def by (intro pres pres_ll_bind pres_ll_home allow)
  show ?thesis
    unfolding landlock_apply_def landlock_abi_version_def Let_def by (auto intro!: pres rules)
qed

lemma pres_calm_veth [pres]: "preserves (calm tr0) (vsb_configure_veth_inside H a b c)" "preserves (calm tr0) (veth_inside H cfg)"
  unfolding veth_inside_def vsb_configure_veth_inside_def net_exec_def Let_def by (auto intro!: pres)

definition nft_loaded :: "event \<Rightarrow> bool" where
  "nft_loaded x \<longleftrightarrow> (\<exists>b. x = (Nft_run b, 0))"

lemma wp_nfilter_layer: "wp (nfilterflag H j) (\<lambda>rc u. layer_post [nft_loaded] (j_trace s) (rc = 0) u) s"
  by (auto simp: nfilterflag_def wp_simps layer_post_def nft_loaded_def split: option.split)

lemma layer_veth_child: "layer A (if iso_net_veth cfg \<and> iso_nfilter cfg then [nft_loaded] else []) (veth_child H cfg)"
proof (cases "iso_net_veth cfg")
  case True
  have "list_all2 (layer A) [[], if iso_nfilter cfg then [nft_loaded] else []]
     [always (veth_inside H cfg),
      if iso_nfilter cfg then or_exit (nfilterflag H (Some (or_else (iso_nfilter_jail cfg) default_jail))) 1
      else return (Inr ())]"
    by (auto intro!: layer_always pres layer_or_exit wp_nfilter_layer layer_return)
  from layer_steps [OF this] True show ?thesis by (simp add: veth_child_def)
qed (simp add: veth_child_def layer_return)

definition vault_bind :: "string \<Rightarrow> string \<Rightarrow> kcall" where
  "vault_bind root vault = bind_call vault (cbuf PATH_MAX (root @ ''/vault'')) (MS_BIND OR MS_REC)"

lemma no_exec_vault_bind [simp]: "\<not> is_exec (vault_bind root vault)"
  by (simp add: vault_bind_def)

lemma layer_vault_mount: "layer A [ok_call (vault_bind root vault)] (vault_mount H root vault)"
  unfolding vault_mount_def Let_def vault_bind_def [symmetric]
  by (auto intro!: layer_after layer_if layer_stop layer_or_exit_call pres)

lemma layer_apply_binds: "layer A [] (apply_binds H root bs)"
  by (rule layerI, rule wp_mono [OF wp_apply_binds]) (auto simp: layer_post_def)

definition root_tests :: "CliConfig \<Rightarrow> string \<Rightarrow> (event \<Rightarrow> bool) list" where
  "root_tests cfg root = (if iso_use_chroot cfg then [ok_call (Chroot root), ok_call (Chdir ''/'')] else root_changed root)"

lemma layer_change_root: "layer A (root_tests cfg root) (change_root H cfg root)"
proof (cases "iso_use_chroot cfg")
  case True
  have "layer A [ok_call (Chroot root)] (enter_root H root)"
    unfolding enter_root_def by (rule layerI) (auto simp: wp_simps layer_post_def ok_call_def)
  then have "list_all2 (layer A) [[ok_call (Chroot root)], [ok_call (Chdir ''/'')]]
     [enter_root H root, or_exit (kernel H (Chdir ''/'')) 1]"
    by (simp add: layer_or_exit_call)
  from layer_steps [OF this] True show ?thesis by (simp add: change_root_def root_tests_def)
qed (simp add: change_root_def root_tests_def layer_pivot)

definition filter_tests :: "CliConfig \<Rightarrow> (event \<Rightarrow> bool) list" where
  "filter_tests cfg = (if iso_no_seccomp cfg then [] else [ok_call Seccomp_load])"

lemma layer_filter_step: "layer A (filter_tests cfg) (filter_step H cfg root)"
proof (cases "iso_no_seccomp cfg")
  case False
  have "list_all2 (layer A) [[], [], [ok_call Seccomp_load]]
     [always (filter_mode H cfg),
      always (if \<not> permissive_sandbox cfg \<and> iso_landlock cfg then do { landlock_apply H cfg (Some root); return () }
              else return ()),
      or_exit (vsb_apply_seccomp H) 1]"
    by (simp add: layer_or_exit [OF wp_seccomp_layer]) (auto intro!: layer_always pres)
  from layer_steps [OF this] False show ?thesis by (simp add: filter_step_def filter_tests_def)
qed (simp add: filter_step_def filter_tests_def layer_return)

definition run_tests :: "CliConfig \<Rightarrow> string \<Rightarrow> string \<Rightarrow> (event \<Rightarrow> bool) list" where
  "run_tests cfg vault root = [ok_call (Unshare CLONE_NEWUSER), ok_call (Unshare (ns_flags cfg))]
     @ (if iso_net_veth cfg \<and> iso_nfilter cfg then [nft_loaded] else [])
     @ [ok_call (vault_bind root vault)] @ root_tests cfg root @ caps_dropped @ filter_tests cfg"

lemma layer_run: "layer is_installer (run_tests cfg vault root) (steps (run_layers H cfg vault root ruid rgid))"
proof -
  let ?n = "if iso_net_veth cfg \<and> iso_nfilter cfg then [nft_loaded] else []"
  have "list_all2 (layer is_installer) [[], [ok_call (Unshare CLONE_NEWUSER)], [], [], [ok_call (Unshare (ns_flags cfg))],
      ?n, [ok_call (vault_bind root vault)], [], [], [], [], [], [], [], [], [], [], [], root_tests cfg root, [], [], [], [],
      caps_dropped, [], filter_tests cfg] (run_layers H cfg vault root ruid rgid)"
    unfolding run_layers_def run_fork_def run_devices_def
    by (simp add: layer_or_exit_call layer_namespace_fork layer_veth_child layer_vault_mount layer_prepare_jail
        layer_apply_binds layer_change_root layer_drop_caps layer_filter_step)
      (auto intro!: layer_always pres)
  from layer_steps [OF this] show ?thesis by (simp add: run_tests_def)
qed

lemma pres_traced_lib [pres]: "preserves (traced tr) (lib_ret H)" "preserves (traced tr) (getenv H k)"
  "preserves (traced tr) (setenv H k v b)"
  by (auto simp: getenv_def setenv_def lib_ret_def intro!: pres pres_os pres_modify split: option.split) (simp_all add: traced_def)

lemma pres_traced_program: "preserves (traced tr) (run_program n H cfg prog)"
proof -
  have loop: "preserves (traced tr) (supervise n H child code)" for child code
    by (induction n arbitrary: code) (auto intro!: pres simp: waitpid_def split: prod.split)
  show ?thesis
    unfolding run_program_def setup_uuid_def uuid_generate_def nuk_mini_init_def execv_def
    by (auto intro!: pres pres_os loop pres_modify split: option.split simp: traced_def)
qed

lemma wp_run_child: "wp (run_child n H cfg prog vault root ruid rgid)
    (\<lambda>r. exec_after is_installer (run_tests cfg vault root) (j_trace s)) s"
  unfolding run_child_def by (rule wp_exec_at_end [OF layer_run pres_traced_program]) auto

lemma exec_after_later:
  assumes "calm tr0 s" "exec_after A ps (j_trace s) u"
  shows "exec_after A ps tr0 u"
proof -
  from assms obtain a tr where a: "j_trace s = tr0 @ a" "no_exec a" and u: "j_trace u = j_trace s @ tr"
    and tr: "\<And>b x c. tr = b @ x # c \<Longrightarrow> is_exec (fst x) \<Longrightarrow> A (fst x) \<or> passed ps b"
    by (auto simp: calm_def exec_after_def)
  have all: "A (fst x) \<or> passed ps b" if x: "a @ tr = b @ x # c" "is_exec (fst x)" for b x c
  proof -
    from x(1) [unfolded append_eq_append_conv2] obtain us
      where "a = b @ us \<and> us @ tr = x # c \<or> a @ us = b \<and> tr = us @ x # c" by blast
    with x(2) a(2) tr [of us x c] tr [of "[]" x c] show ?thesis
      by (cases us) (auto intro: passed_prepend dest: passed_prepend [where b = "[]" and a = b])
  qed
  have "j_trace u = tr0 @ (a @ tr)" using a u by simp
  with all show ?thesis unfolding exec_after_def by blast
qed

lemma wp_exec_later:
  assumes "\<And>tr. preserves (calm tr) m" "calm tr0 s" "\<And>x u. calm tr0 u \<Longrightarrow> wp (f x) Q u"
  shows "wp (m \<bind> f) Q s"
proof -
  have "wp m (\<lambda>_. calm tr0) s" using assms(1,2) by (simp add: preserves_wp)
  then show ?thesis unfolding wp_bind using assms(3) by (rule wp_mono)
qed

lemma exec_after_calm: "calm tr0 u \<Longrightarrow> exec_after A ps tr0 u"
  by (auto simp: calm_def intro: exec_after_admitted no_exec_admitted)

lemma j_trace_extend [simp]: "j_trace (world.extend w (world.more s)) = j_trace s"
  by (cases s) (simp add: world.extend_def)

lemma pres_calm_lift [pres]: "preserves (calm tr0) (lift_vio m)"
  by (auto simp: lift_vio_def preserves_wp wp_simps calm_def Let_def split: prod.split)

lemma pres_calm_maps [pres]: "preserves (calm tr0) (vsb_write_uid_gid_map H pid ruid rgid)"
  unfolding vsb_write_uid_gid_map_def sandbox_write_uid_gid_map_def write_proc_def by (auto intro!: pres pres_os)

lemma pres_calm_leave [pres]: "preserves (calm tr0) (leave_jail H root)" "preserves (calm tr0) (abort_child H root pid)"
  unfolding abort_child_def leave_jail_def by (auto intro!: pres pres_os)

lemma pres_calm_veth_parent [pres]: "preserves (calm tr0) (veth_parent H cfg pid)" "preserves (calm tr0) (vsb_cleanup_veth H p)"
  unfolding veth_parent_def vsb_net_veth_setup_def vsb_setup_veth_host_def veth_host_steps_def vsb_cleanup_veth_def
    net_exec_def Let_def
  by (auto intro!: pres split: prod.split option.split)

lemma pres_calm_cgroup [pres]: "preserves (calm tr0) (cgroup_step H cfg pid)"
  unfolding cgroup_step_def cgroup_call_def by (auto intro!: pres)

lemma pres_calm_run_wait [pres]: "preserves (calm tr0) (run_wait H cfg root pid g)"
  unfolding run_wait_def by (intro pres) simp_all

lemma pres_calm_parent [pres]: "preserves (calm tr0) (run_parent H cfg root ruid rgid pid)"
  unfolding run_parent_def by (intro pres)

lemma wp_run_forked:
  assumes "calm tr0 s"
  shows "wp (run_forked n H cfg prog vault root ruid rgid) (\<lambda>r. exec_after is_installer (run_tests cfg vault root) tr0) s"
proof -
  let ?Q = "\<lambda>r::ended + int. exec_after is_installer (run_tests cfg vault root) tr0"
  have parent: "wp (run_parent H cfg root ruid rgid pid \<bind> (\<lambda>c. return (Inr c))) ?Q u" if "calm tr0 u" for pid u
    by (rule wp_exec_later [OF pres_calm_parent that]) (simp add: wp_return exec_after_calm)
  have child: "wp (run_child n H cfg prog vault root ruid rgid) ?Q u" if "calm tr0 u" for u
    by (rule wp_mono [OF wp_run_child]) (rule exec_after_later [OF that])
  show ?thesis
    unfolding run_forked_def
    by (rule wp_exec_later [OF _ assms]) (auto intro!: pres parent child simp: wp_return exec_after_calm)
qed

text \<open>C3: the program of a sandbox replaces its process only after every layer the configuration asks for, in this
  order: a user namespace, the other namespaces, the egress filter, the vault inside the jail, the new root
  directory with nothing of the old one, empty capability sets with no way to new privileges, and the loaded
  system call filter unless it was switched off. The only programs executed before are the package managers
  that fetch a shell for the jail. This holds whatever call fails.\<close>

theorem run_program_layered:
  "let cfg = (if skip_preflight cfg0 then cfg0 else scan cfg0 prog) in
   case run_state (run_isolated scan n H cfg0 prog vault) s of (r, u) \<Rightarrow>
     \<exists>root. prefix ''/tmp/Nuk4sd-jail-'' root \<and> exec_after is_installer (run_tests cfg vault root) (j_trace s) u"
proof -
  define cfg where "cfg = (if skip_preflight cfg0 then cfg0 else scan cfg0 prog)"
  let ?Q = "\<lambda>(r::ended + int) u. \<exists>root. prefix ''/tmp/Nuk4sd-jail-'' root
    \<and> exec_after is_installer (run_tests cfg vault root) (j_trace s) u"
  have quiet: "?Q r u" if "calm (j_trace s) u" for r u
    using exec_after_calm [OF that] by auto
  have forked: "wp (run_forked n H cfg prog vault root ruid rgid) ?Q u"
    if "calm (j_trace s) u" "prefix ''/tmp/Nuk4sd-jail-'' root" for root ruid rgid u
    by (rule wp_mono [OF wp_run_forked [OF that(1)]]) (use that(2) in blast)
  have ids: "preserves (calm tr0) (real_id H k d)" and pipes: "preserves (calm tr0) (pipe_pair H)" for tr0 k d
    by (auto simp: real_id_def pipe_pair_def intro!: pres)
  have name: "yields (mkdtemp H p) (\<lambda>d. \<forall>root. d = Some root \<longrightarrow> prefix p root)" for p
    unfolding mkdtemp_def by (auto intro!: yields_bind yields_return split: if_splits)
  have dir: "wp (mkdtemp H p) (\<lambda>d u. (\<forall>root. d = Some root \<longrightarrow> prefix p root) \<and> calm (j_trace s) u) u"
    if "calm (j_trace s) u" for p u
    using name that pres_calm_tmp_home(1) by (simp add: wp_conj yields_def preserves_wp)
  have start: "wp (case d of None \<Rightarrow> return (Inr (- 1))
      | Some root \<Rightarrow> pipe_pair H \<bind> (\<lambda>ok. (if ok \<and> iso_net_veth cfg then pipe_pair H else return ok)
          \<bind> (\<lambda>ok'. if \<not> ok' then return (Inr (- 1)) else run_forked n H cfg prog vault root ruid rgid))) ?Q u"
    if "(\<forall>root. d = Some root \<longrightarrow> prefix ''/tmp/Nuk4sd-jail-'' root) \<and> calm (j_trace s) u" for d u ruid rgid
    using that by (cases d) (auto intro!: wp_exec_later [where ?tr0.0 = "j_trace s"] forked quiet pipes pres simp: wp_return)
  have "wp (run_isolated scan n H cfg0 prog vault) ?Q s"
    unfolding run_isolated_def cfg_def [symmetric] Let_def resolve_real_uid_def resolve_real_gid_def
    by (rule wp_exec_later [OF ids calm_refl], rule wp_exec_later [OF ids], assumption, subst wp_bind,
        rule wp_mono [OF dir], assumption, rule start)
  then show ?thesis by (simp add: wp_def cfg_def Let_def)
qed

section \<open>The parent cleans up\<close>

definition is_call :: "kcall \<Rightarrow> event \<Rightarrow> bool" where
  "is_call k x \<longleftrightarrow> fst x = k"

definition wrote :: "string \<Rightarrow> string \<Rightarrow> event \<Rightarrow> bool" where
  "wrote p txt x \<longleftrightarrow> x = (Kernel_write p txt, int (length txt))"

text \<open>The events of \<open>m\<close> pass the tests when its result says so.\<close>

definition passes :: "(event \<Rightarrow> bool) list \<Rightarrow> ('a \<Rightarrow> bool) \<Rightarrow> 'a jio \<Rightarrow> bool" where
  "passes ps P m \<longleftrightarrow> (\<forall>s. wp m (\<lambda>a. layer_post ps (j_trace s) (P a)) s)"

lemma passes_calm:
  assumes "\<And>tr0. preserves (calm tr0) m"
  shows "passes [] P m"
  unfolding passes_def
proof
  fix s
  have "wp m (\<lambda>_. calm (j_trace s)) s" using assms by (simp add: preserves_wp)
  then show "wp m (\<lambda>a. layer_post [] (j_trace s) (P a)) s" by (rule wp_mono) (rule calm_layer_post)
qed

lemma passes_bind:
  assumes "passes ps P m" "\<And>a. passes (if P a then qs else []) Q (f a)" "\<And>a. \<not> P a \<Longrightarrow> yields (f a) (\<lambda>b. \<not> Q b)"
  shows "passes (ps @ qs) Q (m \<bind> f)"
  unfolding passes_def wp_bind
proof (intro allI, rule wp_mono)
  fix s
  show "wp m (\<lambda>a. layer_post ps (j_trace s) (P a)) s" using assms(1) by (simp add: passes_def)
  fix a u assume "layer_post ps (j_trace s) (P a) u"
  then obtain tr where tr: "j_trace u = j_trace s @ tr" "no_exec tr" "P a \<longrightarrow> passed ps tr"
    by (auto simp: layer_post_def)
  have "wp (f a) (\<lambda>b w. layer_post (if P a then qs else []) (j_trace u) (Q b) w \<and> (\<not> P a \<longrightarrow> \<not> Q b)) u"
    using assms(2) [of a] assms(3) [of a] by (cases "P a") (simp_all add: passes_def wp_conj yields_def)
  then show "wp (f a) (\<lambda>b. layer_post (ps @ qs) (j_trace s) (Q b)) u"
    by (rule wp_mono) (use tr in \<open>auto simp: layer_post_def intro: passed_append split: if_splits\<close>)
qed

lemma passes_one: "\<not> is_exec k \<Longrightarrow> (\<And>v. P v \<Longrightarrow> p (k, v)) \<Longrightarrow> passes [p] P (kernel H k)"
  by (auto simp: passes_def wp_simps layer_post_def)

lemma passes_weaker: "passes ps P m \<Longrightarrow> (\<And>a. Q a \<Longrightarrow> P a) \<Longrightarrow> passes ps Q m"
  unfolding passes_def layer_post_def by (blast intro: wp_mono)

lemma passes_fewer: "passes (p # ps) P m \<Longrightarrow> passes ps P m"
  unfolding passes_def layer_post_def by (blast intro: wp_mono passed_fewer)

lemma passes_then: "passes ps (\<lambda>_. True) m \<Longrightarrow> (\<And>a. passes qs Q (f a)) \<Longrightarrow> passes (ps @ qs) Q (m \<bind> f)"
  using passes_bind [of ps "\<lambda>_. True" m qs Q f] by (simp only: if_True not_True_eq_False)

lemmas passes_cons = passes_then [where ps = "[p]" for p, simplified]
lemmas passes_skip = passes_then [OF passes_calm, simplified]

lemma passes_leave_jail: "passes [is_call (Umount2 root MNT_DETACH)] P (leave_jail H root)"
  unfolding leave_jail_def
  by (rule passes_weaker [where P = "\<lambda>_. True"], rule passes_bind [where qs = "[]" and P = "\<lambda>_. True", simplified])
    (auto intro!: passes_one passes_calm pres pres_os simp: is_call_def)

lemma passes_waitpid: "passes [is_call (Waitpid pid)] P (waitpid H pid)"
  by (auto simp: passes_def waitpid_def wp_simps layer_post_def is_call_def)

text \<open>Killed, waited for, and the jail removed.\<close>

definition abort_tests :: "string \<Rightarrow> int \<Rightarrow> (event \<Rightarrow> bool) list" where
  "abort_tests root pid = [is_call (Kill pid SIGKILL), is_call (Waitpid pid), is_call (Umount2 root MNT_DETACH)]"

lemma passes_abort: "passes (abort_tests root pid) P (abort_child H root pid)"
  unfolding abort_child_def abort_tests_def
  by (rule passes_cons, simp add: passes_one is_call_def, rule passes_cons, rule passes_waitpid, rule passes_skip,
      rule pres_calm_lift, rule passes_bind [where qs = "[]" and P = "\<lambda>_. True", simplified], rule passes_leave_jail)
    (auto intro!: passes_calm pres)

lemma passes_fail: "\<not> P a \<Longrightarrow> passes ps P (return a)"
  by (auto simp: passes_def wp_return layer_post_def)

lemma passes_return: "passes [] P (return a)"
  by (rule passes_calm) (rule pres)

lemma pres_calm_write_proc [pres]: "preserves (calm tr0) (write_proc H p txt)"
  unfolding write_proc_def by (auto intro!: pres pres_os)

lemma passes_write_proc: "passes [wrote p txt] id (write_proc H p txt)"
proof -
  have "passes [wrote p txt] id (kernel H (Kernel_write p txt) \<bind> (\<lambda>n. return (n = int (length txt))))"
    by (rule passes_bind [where qs = "[]" and P = "\<lambda>n. n = int (length txt)", simplified])
      (auto intro!: passes_one passes_return yields_return simp: wrote_def)
  then show ?thesis
    unfolding write_proc_def by (intro passes_skip pres pres_os) (auto intro!: passes_fail pres_os)
qed

definition maps_written :: "int \<Rightarrow> int \<Rightarrow> int \<Rightarrow> (event \<Rightarrow> bool) list" where
  "maps_written pid ruid rgid = [wrote (proc_file pid ''/uid_map'') (map_line ruid),
     wrote (proc_file pid ''/gid_map'') (map_line rgid)]"

lemma passes_maps: "passes (maps_written pid ruid rgid) (\<lambda>rc. rc = 0) (vsb_write_uid_gid_map H pid ruid rgid)"
proof -
  let ?u = "wrote (proc_file pid ''/uid_map'') (map_line ruid)" and ?g = "wrote (proc_file pid ''/gid_map'') (map_line rgid)"
  have gid: "passes [?g] (\<lambda>rc. rc = 0) (write_proc H (proc_file pid ''/gid_map'') (map_line rgid)
      \<bind> (\<lambda>ok. return (if \<not> True \<or> \<not> ok then - 1 else (0 :: int))))"
    by (rule passes_bind [where qs = "[]" and P = id, simplified])
      (auto intro!: passes_write_proc passes_return yields_return)
  have body: "passes ([?u] @ [?g]) (\<lambda>rc. rc = 0) (write_proc H (proc_file pid ''/uid_map'') (map_line ruid)
      \<bind> (\<lambda>uid_ok. write_proc H (proc_file pid ''/gid_map'') (map_line rgid)
      \<bind> (\<lambda>ok. return (if \<not> uid_ok \<or> \<not> ok then - 1 else (0 :: int)))))"
    by (rule passes_bind [where P = id])
      (use gid in \<open>auto intro!: passes_write_proc passes_calm yields_bind yields_return pres\<close>)
  show ?thesis
    unfolding vsb_write_uid_gid_map_def sandbox_write_uid_gid_map_def maps_written_def
    by (rule passes_skip, rule pres_calm_write_proc, rule body [unfolded append_Cons append_Nil])
qed

definition waited_tests :: "string \<Rightarrow> int \<Rightarrow> (event \<Rightarrow> bool) list" where
  "waited_tests root pid = [is_call (Waitpid pid), is_call (Umount2 root MNT_DETACH)]"

lemma passes_run_wait: "passes (waited_tests root pid) P (run_wait H cfg root pid g)"
proof -
  have last: "passes [is_call (Umount2 root MNT_DETACH)] P (leave_jail H root \<bind> (\<lambda>_. return c))" for c
    by (rule passes_bind [where qs = "[]" and P = "\<lambda>_. True", simplified])
      (auto intro!: passes_leave_jail passes_return)
  show ?thesis
    unfolding run_wait_def waited_tests_def
    by (rule passes_skip, rule pres, rule passes_skip, rule pres, rule passes_cons, rule passes_waitpid, unfold case_prod_beta,
        rule passes_skip, rule pres, rule passes_skip, intro pres, simp, rule passes_skip, intro pres, rule last)
qed

definition group_tests :: "CliConfig \<Rightarrow> int \<Rightarrow> (event \<Rightarrow> bool) list" where
  "group_tests cfg pid = (if iso_cgroup cfg then [ok_call (cgroup_call cfg pid)] else [])"

lemma no_exec_cgroup [simp]: "\<not> is_exec (cgroup_call cfg pid)"
  by (simp add: cgroup_call_def)

lemma passes_cgroup: "passes (group_tests cfg pid) (\<lambda>g. g \<noteq> None) (cgroup_step H cfg pid)"
proof (cases "iso_cgroup cfg")
  case True
  have "passes [ok_call (cgroup_call cfg pid)] (\<lambda>g. g \<noteq> None) (kernel H (cgroup_call cfg pid)
      \<bind> (\<lambda>rc. return (if rc = 0 then Some True else None)))"
    by (rule passes_bind [where qs = "[]" and P = "\<lambda>rc. rc = 0", simplified])
      (auto intro!: passes_one passes_return yields_return simp: ok_call_def)
  with True show ?thesis by (simp add: cgroup_step_def group_tests_def wants_cgroup_def)
next
  case False
  then show ?thesis by (simp add: group_tests_def passes_calm pres_calm_cgroup)
qed

lemma yields_abort: "yields (abort_child H root pid) (\<lambda>c. c = - 1)"
  unfolding abort_child_def by (intro yields_bind yields_return) simp

lemma passes_group_wait: "passes (group_tests cfg pid @ waited_tests root pid) (\<lambda>c. c \<noteq> - 1)
   (cgroup_step H cfg pid \<bind> (\<lambda>g. case g of None \<Rightarrow> abort_child H root pid | Some grouped \<Rightarrow> run_wait H cfg root pid grouped))"
proof (rule passes_bind [OF passes_cgroup])
  show "passes (if g \<noteq> None then waited_tests root pid else []) (\<lambda>c. c \<noteq> - 1)
      (case g of None \<Rightarrow> abort_child H root pid | Some grouped \<Rightarrow> run_wait H cfg root pid grouped)" for g
    by (cases g) (auto intro: passes_run_wait passes_calm pres)
  show "yields (case g of None \<Rightarrow> abort_child H root pid | Some grouped \<Rightarrow> run_wait H cfg root pid grouped)
      (\<lambda>c. \<not> c \<noteq> - 1)" if "\<not> g \<noteq> None" for g
    using that yields_abort by simp
qed

lemma passes_run_parent: "passes (maps_written pid ruid rgid @ group_tests cfg pid @ waited_tests root pid) (\<lambda>c. c \<noteq> - 1)
   (run_parent H cfg root ruid rgid pid)"
  unfolding run_parent_def
  by (rule passes_skip, rule pres, rule passes_skip, rule pres, rule passes_bind [OF passes_maps])
    (auto intro: passes_group_wait passes_calm pres yields_abort)

lemma waited_always: "passes (waited_tests root pid) (\<lambda>_. True) (run_parent H cfg root ruid rgid pid)"
proof -
  have abort: "passes (waited_tests root pid) (\<lambda>_. True) (abort_child H root pid)"
    using passes_abort unfolding abort_tests_def waited_tests_def by (rule passes_fewer)
  have rest: "passes (waited_tests root pid) (\<lambda>_. True)
     (case g of None \<Rightarrow> abort_child H root pid | Some grouped \<Rightarrow> run_wait H cfg root pid grouped)" for g
    by (cases g) (simp_all add: abort passes_run_wait)
  have group: "passes (waited_tests root pid) (\<lambda>_. True)
     (cgroup_step H cfg pid \<bind> (\<lambda>g. case g of None \<Rightarrow> abort_child H root pid | Some grouped \<Rightarrow> run_wait H cfg root pid grouped))"
    by (rule passes_skip, rule pres, rule rest)
  show ?thesis
    unfolding run_parent_def
    by (rule passes_skip, rule pres, rule passes_skip, rule pres, rule passes_skip, rule pres) (simp add: abort group)
qed

lemma yields_run_parent: "yields (run_parent H cfg root ruid rgid pid) (\<lambda>c. c = - 1 \<or> (\<exists>t. c = exit_code (h_status H t)))"
proof -
  have abort: "yields (abort_child H root pid) (\<lambda>c. c = - 1 \<or> (\<exists>t. c = exit_code (h_status H t)))"
    unfolding abort_child_def by (intro yields_bind yields_return) simp
  have wait: "yields (run_wait H cfg root pid g) (\<lambda>c. c = - 1 \<or> (\<exists>t. c = exit_code (h_status H t)))" for g
    by (auto simp: run_wait_def waitpid_def yields_def wp_bind wp_gets wp_kernel wp_return intro!: wp_mono [OF wp_True])
  show ?thesis
    unfolding run_parent_def by (auto intro!: yields_bind abort wait split: option.split)
qed


end
