(* ===== verification/Vault_Report.thy ===== *)
theory Vault_Report
  imports Vault_Ffi C_Strings
begin

text \<open>
  The reports of \<^verbatim>\<open>vault/vault_ffi.c\<close> that are written to the terminal, as the text they consist of. The text of
  a date (\<^verbatim>\<open>strftime\<close> of \<^verbatim>\<open>localtime\<close>) depends on the time zone and is the parameter \<open>day\<close>.
\<close>

text \<open>The conversion \<^verbatim>\<open>%-Ns\<close> and the end of a line.\<close>

definition column :: "nat \<Rightarrow> string \<Rightarrow> string" where
  "column n s = s @ replicate (n - length s) CHR '' ''"

definition row :: "string \<Rightarrow> string" where
  "row s = s @ [CHR 0x0A]"

definition type_text :: "Vault \<Rightarrow> string" where
  "type_text v = (if v_type v = VAULT_TYPE_PROTECTED then ''PROTECTED'' else ''NORMAL'')"

fun status_text :: "VaultStatus \<Rightarrow> string" where
  "status_text VAULT_STATUS_OK = ''OK''"
| "status_text VAULT_STATUS_LOCKED = ''LOCKED''"
| "status_text VAULT_STATUS_ALERT = ''ALERT''"
| "status_text VAULT_STATUS_DELETED = ''DELETED''"
| "status_text (VAULT_STATUS_RAW w) = ''?''"

text \<open>The line of a report on one vault, whose \<^verbatim>\<open>switch\<close> has no default.\<close>

fun status_line :: "VaultStatus \<Rightarrow> string" where
  "status_line (VAULT_STATUS_RAW w) = []"
| "status_line st = row (status_text st)"

definition list_line :: "Vault \<Rightarrow> string" where
  "list_line v = row ('' '' @ column 4 (dec_digits (unat (v_id v))) @ '' '' @ column 26 (v_name v) @ '' ''
     @ column 11 (type_text v) @ '' '' @ column 10 (status_text (v_status v)) @ '' ''
     @ (if v_has_pass v then ''Y'' else '' ''))"

definition ffi_cmd_list :: "string vio" where
  "ffi_cmd_list = do {
     c \<leftarrow> gets g_catalog;
     let head = row [] @ row (''CATALOG: '' @ c_category c @ '' ('' @ dec_digits (length (c_vaults c)) @ '' vaults)'')
       @ row '' ID   NAME                       TYPE        STATUS     PASS''
       @ row ''-------------------------------------------------------------'';
     return (head @ (if c_vaults c = [] then row ('' No vaults available for '' @ c_category c @ '' category'')
       else concat (map list_line (c_vaults c)))) }"

definition not_found :: "32 word \<Rightarrow> string" where
  "not_found vid = row (''  Vault #'' @ dec_digits (unat vid) @ '' not found.'')"

definition ffi_cmd_info :: "(string \<Rightarrow> int \<Rightarrow> string) \<Rightarrow> 32 word \<Rightarrow> string vio" where
  "ffi_cmd_info day vid = do {
     p \<leftarrow> vault_find_by_id vid;
     case p of
       None \<Rightarrow> return (not_found vid)
     | Some i \<Rightarrow> do {
         v \<leftarrow> get_vault i;
         return (row [] @ row ''  -- Vault Info --------------------------------------------------''
           @ row (''  ID           : '' @ dec_digits (unat (v_id v)))
           @ row (''  Name         : '' @ v_name v)
           @ row (''  Type         : '' @ type_text v)
           @ ''  Status       : '' @ status_line (v_status v)
           @ row (''  Password     : '' @ (if v_has_pass v then ''Yes'' else ''No''))
           @ row (''  Path         : '' @ v_path v)
           @ row (''  Created      : '' @ day ''%Y-%m-%d %H:%M:%S'' (v_created v))
           @ row (''  Last check   : '' @ day ''%Y-%m-%d %H:%M:%S'' (v_last_check v))
           @ row (''  Files tracked: '' @ dec_digits (hm_count (v_map v)))
           @ row (''  Fail attempts: '' @ int_text (v_failed v))
           @ (if v_status v = VAULT_STATUS_ALERT then
                row (''  Alert reason : '' @ al_reason (v_alert v))
                @ row (''  Alert count  : '' @ dec_digits (unat (al_count (v_alert v))))
              else [])
           @ row ''  ------------------------------------------------------------------'' @ row []) } }"

definition file_line :: "(string \<Rightarrow> int \<Rightarrow> string) \<Rightarrow> FileEntry \<Rightarrow> string" where
  "file_line day e = row (''  '' @ column 40 (fe_name e) @ ''  '' @ column 16 (day ''%Y-%m-%d %H:%M'' (fe_last_seen e)) @ ''  ''
     @ (if fe_modified e then ''YES !'' else ''no''))"

definition ffi_cmd_files :: "(string \<Rightarrow> int \<Rightarrow> string) \<Rightarrow> 32 word \<Rightarrow> string vio" where
  "ffi_cmd_files day vid = do {
     p \<leftarrow> vault_find_by_id vid;
     case p of
       None \<Rightarrow> return (not_found vid)
     | Some i \<Rightarrow> do {
         v \<leftarrow> get_vault i;
         let es = concat (hm_buckets (v_map v));
         return (row [] @ row (''  Files in vault '' @ [CHR 0x27] @ v_name v @ [CHR 0x27] @ '':'')
           @ row (''  '' @ column 40 ''Filename'' @ ''  '' @ column 16 ''Last seen'' @ ''  Modified'')
           @ row ''  -------------------------------------------------------------''
           @ (if es = [] then row ''  (no files tracked)'' else concat (map (file_line day) es))
           @ row []) } }"

definition vault_info_ffi :: "(string \<Rightarrow> int \<Rightarrow> string) \<Rightarrow> 32 word \<Rightarrow> string vio" where
  "vault_info_ffi day vid = do { mutex_lock; r \<leftarrow> ffi_cmd_info day vid; unlock_return r }"

definition vault_list_ffi :: "string vio" where
  "vault_list_ffi = do { mutex_lock; r \<leftarrow> ffi_cmd_list; unlock_return r }"

definition vault_files_ffi :: "(string \<Rightarrow> int \<Rightarrow> string) \<Rightarrow> 32 word \<Rightarrow> string vio" where
  "vault_files_ffi day vid = do { mutex_lock; r \<leftarrow> ffi_cmd_files day vid; unlock_return r }"

end
