(* ===== verification/Cli_Dispatch.thy ===== *)
theory Cli_Dispatch
  imports Sandbox_Run Cli_Parse Apparmor Overlay Vault_Report
begin

text \<open>
  The commands of the program (\<^verbatim>\<open>dispatch\<close> and the entry points of \<^verbatim>\<open>cli/vault_cli.c\<close>): which operation the
  parsed options select, what it needs (a vault, a password, permission by the write-once flags), and what it
  does. Operations on the files of a vault, snapshots, backups and keys are written in Rust and are recorded
  calls; the texts printed on the terminal and the log of the commands are left out.

  Shown is that an operation reaches the Rust code only for a vault of the catalog whose write-once flags allow
  it, and that the AppArmor protection is given up only after the secret phrase was accepted.
\<close>

text \<open>What the code uses from outside of the C sources: the search for the files of a program, the rounds of the
  first process, the table of mounts, and the text of dates.\<close>

record outer =
  x_scan :: "CliConfig \<Rightarrow> string \<Rightarrow> CliConfig"
  x_rounds :: nat
  x_mounts :: "nat \<Rightarrow> string list option"
  x_day :: "string \<Rightarrow> int \<Rightarrow> string"

section \<open>The terminal\<close>

text \<open>\<^verbatim>\<open>fgets(buf, n, stdin)\<close>, and the same without the end of the line.\<close>

definition fgets_stdin :: "host \<Rightarrow> nat \<Rightarrow> string option jio" where
  "fgets_stdin H n = do { t \<leftarrow> tick; return (map_option (cbuf n) (h_input H t)) }"

definition until_newline :: "string \<Rightarrow> string" where
  "until_newline s = takeWhile (\<lambda>c. c \<noteq> CHR 0x0A) s"

definition set_pw_buf :: "string \<Rightarrow> unit jio" where
  "set_pw_buf p = modify (\<lambda>s. s\<lparr>j_pw_buf := p\<rparr>)"

definition fill_pw_buf :: "host \<Rightarrow> unit jio" where
  "fill_pw_buf H = do {
     l \<leftarrow> fgets_stdin H 256;
     case l of Some p \<Rightarrow> set_pw_buf (until_newline p) | None \<Rightarrow> return () }"

definition read_password_silent :: "host \<Rightarrow> string jio" where
  "read_password_silent H = do {
     r \<leftarrow> lib_ret H;
     (if r \<noteq> 0 then fill_pw_buf H
      else do {
        lib_ret H;
        set_pw_buf [];
        fill_pw_buf H;
        lib_ret H;
        return () });
     gets j_pw_buf }"

text \<open>A password copied into a local buffer of 256 bytes.\<close>

definition ask_password :: "host \<Rightarrow> string jio" where
  "ask_password H = do { p \<leftarrow> read_password_silent H; return (cbuf 256 p) }"

text \<open>A password and its confirmation.\<close>

definition ask_twice :: "host \<Rightarrow> string option jio" where
  "ask_twice H = do {
     p \<leftarrow> ask_password H;
     q \<leftarrow> ask_password H;
     return (if p = q then Some p else None) }"

section \<open>Which operation\<close>

definition is_file_op :: "CliConfig \<Rightarrow> bool" where
  "is_file_op cfg \<longleftrightarrow> op_add cfg \<or> op_extract cfg \<or> op_mv cfg \<or> op_cp cfg \<or> op_rm_file cfg \<or> op_mkdir cfg
     \<or> op_rmdir cfg \<or> op_tree cfg \<or> op_du cfg \<or> op_find cfg \<or> op_snapshot cfg \<or> op_snapshots cfg
     \<or> op_snapshot_delete cfg \<or> op_snapshot_restore cfg \<or> op_snapshot_diff cfg
     \<or> op_hash cfg \<or> op_baseline cfg \<or> op_verify cfg \<or> op_integrity cfg \<or> op_repair cfg \<or> op_diff cfg
     \<or> op_backup cfg \<or> op_restore cfg \<or> op_import cfg \<or> op_lock cfg \<or> op_lock_status cfg \<or> op_force_unlock cfg
     \<or> op_key_info cfg \<or> op_key_rotate cfg \<or> op_rekey cfg \<or> op_stats cfg \<or> op_usage cfg \<or> op_inspect cfg
     \<or> op_history cfg \<or> op_events cfg"

definition needs_id :: "CliConfig \<Rightarrow> bool" where
  "needs_id cfg \<longleftrightarrow> op_info cfg \<or> op_files cfg \<or> op_status cfg \<or> op_scan cfg \<or> op_encrypt cfg \<or> op_decrypt cfg
     \<or> op_resolve cfg \<or> op_mount cfg \<or> op_umount cfg \<or> op_mount_export cfg \<or> op_export cfg
     \<or> op_rm cfg \<or> op_rename cfg \<or> op_unlock cfg \<or> op_passwd cfg \<or> op_rule cfg \<or> op_worm_status cfg
     \<or> worm_set cfg \<noteq> 0 \<or> worm_clear cfg \<noteq> 0 \<or> worm_protected_scan cfg \<or> is_file_op cfg
     \<or> run_exec cfg \<noteq> None \<and> \<not> no_fuse cfg"

definition needs_pass :: "CliConfig \<Rightarrow> bool" where
  "needs_pass cfg \<longleftrightarrow> op_encrypt cfg \<or> op_decrypt cfg \<or> op_rm cfg \<or> op_rename cfg \<or> op_unlock cfg \<or> op_mount cfg
     \<or> op_resolve cfg \<or> op_export cfg \<or> op_mount_export cfg \<or> run_exec cfg \<noteq> None"

definition vault_key :: "CliConfig \<Rightarrow> 32 word" where
  "vault_key cfg = word_of_int (vault_id cfg)"

definition resolve_password :: "host \<Rightarrow> CliConfig \<Rightarrow> string option jio" where
  "resolve_password H cfg = (if \<not> needs_pass cfg \<or> password cfg \<noteq> None then return (password cfg)
     else do {
       r \<leftarrow> lift_vio (vault_is_protected_ffi (vault_key cfg));
       if r = 0 then return None
       else do { p \<leftarrow> ask_password H; return (Some p) } })"

text \<open>A chain of \<^verbatim>\<open>if\<close> and \<^verbatim>\<open>else if\<close>: the first operation that was asked for.\<close>

fun chosen :: "(bool \<times> 'a) list \<Rightarrow> 'a option" where
  "chosen [] = None"
| "chosen ((b, m) # r) = (if b then Some m else chosen r)"

section \<open>New vaults\<close>

definition new_password :: "host \<Rightarrow> CliConfig \<Rightarrow> string option option jio" where
  "new_password H cfg = (if protected_vault cfg \<and> password cfg = None
     then do { p \<leftarrow> ask_twice H; return (map_option Some p) }
     else return (Some (password cfg)))"

definition new_op :: "host \<Rightarrow> CliConfig \<Rightarrow> string \<Rightarrow> int jio" where
  "new_op H cfg name = do {
     pw \<leftarrow> new_password H cfg;
     case pw of
       None \<Rightarrow> return 1
     | Some pass \<Rightarrow> do {
         ret \<leftarrow> lift_vio (vault_create_ffi (h_os H) (Some name) (if protected_vault cfg then 1 else 0) (new_path cfg) pass);
         if ret \<noteq> 0 then return ret
         else do {
           (if 0 < engine_level cfg then do {
              lift_vio (vault_apply_engine_ffi (h_os H) (Some name) (engine_level cfg));
              return () }
            else return ());
           return 0 } } }"

section \<open>Operations on the files of a vault\<close>

definition EPERM_NO :: int where "EPERM_NO = 1"

definition rust :: "host \<Rightarrow> string \<Rightarrow> string list \<Rightarrow> int jio" where
  "rust H name args = kernel H (Rust_call name args)"

definition switch_text :: "bool \<Rightarrow> string" where
  "switch_text b = (if b then ''1'' else ''0'')"

text \<open>An argument that may be a null pointer.\<close>

definition opt_arg :: "string option \<Rightarrow> string list" where
  "opt_arg x = (case x of None \<Rightarrow> [] | Some a \<Rightarrow> [a])"

definition with_arg :: "string option \<Rightarrow> (string \<Rightarrow> int jio) \<Rightarrow> int jio" where
  "with_arg x f = (case x of None \<Rightarrow> return 1 | Some a \<Rightarrow> f a)"

text \<open>Blocked by the flags \<open>m\<close>, or by the immutable state of \<^verbatim>\<open>--protected-scan\<close>.\<close>

definition unless_worm :: "32 word \<Rightarrow> 32 word \<Rightarrow> int jio \<Rightarrow> int jio" where
  "unless_worm fl m op = (if fl AND WORM_PROTECT_SCAN \<noteq> 0 \<or> fl AND m \<noteq> 0 then return (- EPERM_NO) else op)"

text \<open>The operations that ask for the flags again, and only for the one against writing.\<close>

definition unless_write :: "32 word \<Rightarrow> int jio \<Rightarrow> int jio" where
  "unless_write vid op = do {
     fl \<leftarrow> lift_vio (vault_worm_get_flags_ffi vid);
     if fl AND WORM_PROTECT_WRITE \<noteq> 0 then return (- EPERM_NO) else op }"

definition extract_dir :: "CliConfig \<Rightarrow> string" where
  "extract_dir cfg = (case extract_dest cfg of Some d \<Rightarrow> d | None \<Rightarrow> or_else (export_dest cfg) ''.'')"

definition edit_ops :: "host \<Rightarrow> CliConfig \<Rightarrow> string \<Rightarrow> 32 word \<Rightarrow> (bool \<times> int jio) list" where
  "edit_ops H cfg d fl = [
     (op_add cfg, unless_worm fl WORM_PROTECT_WRITE (with_arg (add_file cfg) (\<lambda>f. rust H ''rust_vault_add''
        [d, f, switch_text (add_recursive cfg), switch_text (add_replace cfg), switch_text (add_preserve cfg)]))),
     (op_extract cfg, with_arg (extract_file cfg) (\<lambda>f. rust H ''rust_vault_extract''
        [d, f, extract_dir cfg, switch_text (extract_force cfg)])),
     (op_mv cfg, unless_worm fl (WORM_PROTECT_RENAME OR WORM_PROTECT_DELETE OR WORM_PROTECT_WRITE)
        (with_arg (mv_src cfg) (\<lambda>a. with_arg (mv_dest cfg) (\<lambda>b. rust H ''rust_vault_mv'' [d, a, b])))),
     (op_cp cfg, unless_worm fl WORM_PROTECT_WRITE
        (with_arg (cp_src cfg) (\<lambda>a. with_arg (cp_dest cfg) (\<lambda>b. rust H ''rust_vault_cp'' [d, a, b])))),
     (op_rm_file cfg, unless_worm fl WORM_PROTECT_DELETE
        (with_arg (rm_file_target cfg) (\<lambda>f. rust H ''rust_vault_rm_file'' [d, f]))),
     (op_mkdir cfg, unless_worm fl WORM_PROTECT_WRITE
        (with_arg (mkdir_target cfg) (\<lambda>f. rust H ''rust_vault_mkdir'' [d, f]))),
     (op_rmdir cfg, unless_worm fl WORM_PROTECT_DELETE
        (with_arg (rmdir_target cfg) (\<lambda>f. rust H ''rust_vault_rmdir'' [d, f])))]"

definition look_ops :: "host \<Rightarrow> CliConfig \<Rightarrow> string \<Rightarrow> (bool \<times> int jio) list" where
  "look_ops H cfg d = [
     (op_tree cfg, rust H ''rust_vault_tree'' [d]),
     (op_du cfg, rust H ''rust_vault_du'' [d]),
     (op_find cfg, with_arg (find_pattern cfg) (\<lambda>p. rust H ''rust_vault_find'' [d, p]))]"

definition snapshot_ops :: "host \<Rightarrow> CliConfig \<Rightarrow> string \<Rightarrow> 32 word \<Rightarrow> (bool \<times> int jio) list" where
  "snapshot_ops H cfg d fl = [
     (op_snapshot cfg, rust H ''rust_vault_snapshot'' (d # opt_arg (snapshot_tag cfg))),
     (op_snapshots cfg, rust H ''rust_vault_snapshots'' [d]),
     (op_snapshot_delete cfg, unless_worm fl WORM_PROTECT_DELETE
        (with_arg (snapshot_del_tag cfg) (\<lambda>t. rust H ''rust_vault_snapshot_delete'' [d, t]))),
     (op_snapshot_restore cfg, unless_worm fl WORM_PROTECT_WRITE
        (with_arg (snapshot_restore_tag cfg) (\<lambda>t. rust H ''rust_vault_snapshot_restore'' [d, t]))),
     (op_snapshot_diff cfg, with_arg (snapshot_diff_tag1 cfg)
        (\<lambda>t. rust H ''rust_vault_snapshot_diff'' (d # t # opt_arg (snapshot_diff_tag2 cfg))))]"

definition integrity_ops :: "host \<Rightarrow> CliConfig \<Rightarrow> string \<Rightarrow> (bool \<times> int jio) list" where
  "integrity_ops H cfg d = [
     (op_hash cfg, rust H ''rust_vault_hash'' (d # opt_arg (hash_target cfg))),
     (op_baseline cfg, rust H ''rust_vault_baseline'' [d]),
     (op_verify cfg, rust H ''rust_vault_verify'' [d]),
     (op_integrity cfg, rust H ''rust_vault_integrity'' [d]),
     (op_repair cfg, unless_write (vault_key cfg) (rust H ''rust_vault_repair'' [d])),
     (op_diff cfg, rust H ''rust_vault_diff'' (d # opt_arg (diff_other cfg)))]"

definition archive_ops :: "host \<Rightarrow> CliConfig \<Rightarrow> string \<Rightarrow> (bool \<times> int jio) list" where
  "archive_ops H cfg d = [
     (op_backup cfg, rust H ''rust_vault_backup'' (d # opt_arg (backup_out cfg))),
     (op_restore cfg, with_arg (restore_archive cfg)
        (\<lambda>a. unless_write (vault_key cfg) (rust H ''rust_vault_restore'' [d, a]))),
     (op_import cfg, with_arg (import_src cfg)
        (\<lambda>a. unless_write (vault_key cfg) (rust H ''rust_vault_import'' [d, a])))]"

definition rekey :: "host \<Rightarrow> CliConfig \<Rightarrow> string \<Rightarrow> int jio" where
  "rekey H cfg d = do {
     p \<leftarrow> (case nonempty (password cfg) of Some p \<Rightarrow> return p | None \<Rightarrow> ask_password H);
     rust H ''rust_vault_rekey'' [d, p] }"

definition key_ops :: "host \<Rightarrow> CliConfig \<Rightarrow> string \<Rightarrow> (bool \<times> int jio) list" where
  "key_ops H cfg d = [
     (op_lock cfg, rust H ''rust_vault_lock'' [d]),
     (op_lock_status cfg, rust H ''rust_vault_lock_status'' [d]),
     (op_force_unlock cfg, rust H ''rust_vault_force_unlock'' [d]),
     (op_key_info cfg, rust H ''rust_vault_key_info'' [d]),
     (op_key_rotate cfg, with_arg (key_rotate_old cfg) (\<lambda>a. with_arg (key_rotate_new cfg)
        (\<lambda>b. rust H ''rust_vault_key_rotate'' [d, a, b]))),
     (op_rekey cfg, rekey H cfg d)]"

definition report_ops :: "host \<Rightarrow> CliConfig \<Rightarrow> string \<Rightarrow> (bool \<times> int jio) list" where
  "report_ops H cfg d = [
     (op_stats cfg, rust H ''rust_vault_stats'' [d]),
     (op_usage cfg, rust H ''rust_vault_usage'' [d]),
     (op_inspect cfg, with_arg (inspect_target cfg) (\<lambda>f. rust H ''rust_vault_inspect'' [d, f])),
     (op_history cfg, rust H ''rust_vault_history'' [d]),
     (op_events cfg, rust H ''rust_vault_events'' [d])]"

definition file_ops :: "host \<Rightarrow> CliConfig \<Rightarrow> string \<Rightarrow> 32 word \<Rightarrow> (bool \<times> int jio) list" where
  "file_ops H cfg d fl = edit_ops H cfg d fl @ look_ops H cfg d @ snapshot_ops H cfg d fl @ integrity_ops H cfg d
     @ archive_ops H cfg d @ key_ops H cfg d @ report_ops H cfg d"

definition file_op :: "host \<Rightarrow> CliConfig \<Rightarrow> int jio" where
  "file_op H cfg = do {
     (rc, p) \<leftarrow> lift_vio (vault_get_real_path_ffi (h_os H) (vault_key cfg) (Some VAULT_PATH_MAX));
     case (if rc \<noteq> 0 then None else p) of
       None \<Rightarrow> return 1
     | Some d \<Rightarrow> do {
         fl \<leftarrow> lift_vio (vault_worm_get_flags_ffi (vault_key cfg));
         case chosen (file_ops H cfg d fl) of Some m \<Rightarrow> m | None \<Rightarrow> return 0 } }"

section \<open>AppArmor\<close>

definition set_mac_mode :: "8 word \<Rightarrow> unit jio" where
  "set_mac_mode m = modify (\<lambda>s. s\<lparr>g_catalog := (g_catalog s)\<lparr>c_mac_mode := m\<rparr>\<rparr>)"

definition mac_enable :: "host \<Rightarrow> int jio" where
  "mac_enable H = do {
     set_mac_mode 1;
     lift_vio (catalog_save (h_os H));
     return 0 }"

fun remove_profiles :: "host \<Rightarrow> Vault list \<Rightarrow> unit jio" where
  "remove_profiles H [] = return ()"
| "remove_profiles H (v # vs) = do {
     a \<leftarrow> mac_apparmor_is_active H (unat (v_id v));
     (if a then do { mac_apparmor_remove H (unat (v_id v)); return () } else return ());
     remove_profiles H vs }"

definition vault_label :: "32 word \<Rightarrow> string" where
  "vault_label vid = cbuf 32 (''vault-'' @ dec_digits (unat vid))"

definition all_vaults :: "string option \<Rightarrow> bool" where
  "all_vaults target \<longleftrightarrow> target = None \<or> target = Some ''all''"

definition give_up_mac :: "host \<Rightarrow> string option \<Rightarrow> int jio" where
  "give_up_mac H target = do {
     vs \<leftarrow> gets (c_vaults \<circ> g_catalog);
     if all_vaults target then do {
       remove_profiles H vs;
       set_mac_mode 0;
       lift_vio (catalog_save (h_os H));
       return 0 }
     else (case find (\<lambda>v. target = Some (vault_label (v_id v)) \<or> target = Some (v_name v)) vs of
         None \<Rightarrow> return 1
       | Some v \<Rightarrow> do { mac_apparmor_remove H (unat (v_id v)); return 0 }) }"

definition ask_phrase :: "host \<Rightarrow> string option jio" where
  "ask_phrase H = do {
     lib_ret H;
     lib_ret H;
     l \<leftarrow> fgets_stdin H 128;
     lib_ret H;
     return (map_option until_newline l) }"

definition disable_apparmor :: "host \<Rightarrow> CliConfig \<Rightarrow> int jio" where
  "disable_apparmor H cfg = do {
     l \<leftarrow> ask_phrase H;
     case l of
       None \<Rightarrow> return 1
     | Some phrase \<Rightarrow> do {
         r \<leftarrow> rust H ''rust_validate_mac_secret'' [phrase];
         if r = 0 then return 1 else give_up_mac H (app_armor_target cfg) } }"

definition generate_secret :: "host \<Rightarrow> int jio" where
  "generate_secret H = do {
     r \<leftarrow> rust H ''rust_generate_mac_secret'' [];
     return (if r \<noteq> 0 then 1 else 0) }"

definition load_profile_of :: "host \<Rightarrow> 32 word \<Rightarrow> int jio" where
  "load_profile_of H vid = do {
     vs \<leftarrow> gets (c_vaults \<circ> g_catalog);
     case find (\<lambda>v. v_id v = vid) vs of
       None \<Rightarrow> return 1
     | Some v \<Rightarrow> if \<not> v_mounted v then return 1 else do {
         err \<leftarrow> mac_apparmor_load H (Some v);
         return (if err = ERR_OK then 0 else 1) } }"

definition app_armor :: "host \<Rightarrow> CliConfig \<Rightarrow> int jio" where
  "app_armor H cfg = do {
     ok \<leftarrow> mac_apparmor_available H;
     if \<not> ok then return 1
     else with_arg (app_armor_target cfg) (\<lambda>target.
       if target = ''all'' then do { mac_apparmor_apply_all H; return 0 }
       else if prefix ''vault-'' target then load_profile_of H (word_of_int (atoi (drop 6 target)))
       else return 1) }"

section \<open>Operations on a vault\<close>

text \<open>An operation of the vault half whose result the command does not report.\<close>

definition silent :: "'a vio \<Rightarrow> int jio" where
  "silent m = do { lift_vio m; return 0 }"

definition with_password :: "string option \<Rightarrow> (string \<Rightarrow> int vio) \<Rightarrow> int jio" where
  "with_password pass f = (case nonempty pass of None \<Rightarrow> return 1 | Some p \<Rightarrow> lift_vio (f p))"

definition unlock_op :: "host \<Rightarrow> 32 word \<Rightarrow> string option \<Rightarrow> int jio" where
  "unlock_op H vid pass = do {
     p \<leftarrow> (case nonempty pass of Some p \<Rightarrow> return p | None \<Rightarrow> ask_password H);
     lift_vio (vault_unlock_ffi (h_os H) vid (Some p)) }"

definition passwd_op :: "host \<Rightarrow> 32 word \<Rightarrow> int jio" where
  "passwd_op H vid = do {
     old \<leftarrow> ask_password H;
     new \<leftarrow> ask_twice H;
     case new of
       None \<Rightarrow> return 1
     | Some p \<Rightarrow> lift_vio (vault_change_password_ffi (h_os H) vid (Some old) (Some p)) }"

definition protected_scan_op :: "host \<Rightarrow> 32 word \<Rightarrow> int jio" where
  "protected_scan_op H vid = do {
     ans \<leftarrow> fgets_stdin H 16;
     case ans of
       Some a \<Rightarrow> if prefix ''yes'' a then lift_vio (vault_worm_set_scan_ffi (h_os H) vid) else return 0
     | None \<Rightarrow> return 0 }"

definition worm_op :: "host \<Rightarrow> CliConfig \<Rightarrow> int jio" where
  "worm_op H cfg = do {
     a \<leftarrow> (if worm_set cfg \<noteq> 0 then lift_vio (vault_worm_set_flags_ffi (h_os H) (vault_key cfg) (worm_set cfg)) else return 0);
     if worm_clear cfg \<noteq> 0 then lift_vio (vault_worm_clear_flags_ffi (h_os H) (vault_key cfg) (worm_clear cfg)) else return a }"

text \<open>The whitelist commands act on a container made up for the call.\<close>

definition whitelist_op :: "CliConfig \<Rightarrow> int \<times> VaultContainer option" where
  "whitelist_op cfg = (let c = Some \<lparr>ct_id = vault_key cfg, ct_path = [], ct_image_tarball = [], ct_entrypoint = [],
       ct_sealed = True, ct_whitelist_excluded = False, ct_require_network = False, ct_require_gui = False\<rparr>;
     c1 = (if op_whitelist_exclude cfg then snd (container_whitelist_exclude c) else c);
     c2 = (if op_whitelist_restore cfg then snd (container_whitelist_restore c1) else c1)
     in (- 1, c2))"

definition mac_ops :: "host \<Rightarrow> CliConfig \<Rightarrow> (bool \<times> int jio) list" where
  "mac_ops H cfg = [
     (op_mac_enable cfg, mac_enable H),
     (op_disable_apparmor cfg, disable_apparmor H cfg),
     (op_mac_status cfg, return 0),
     (op_generate_secret cfg, generate_secret H),
     (op_app_armor cfg, app_armor H cfg)]"

definition vault_ops :: "outer \<Rightarrow> host \<Rightarrow> CliConfig \<Rightarrow> string option \<Rightarrow> (bool \<times> int jio) list" where
  "vault_ops X H cfg pass = (let E = h_os H; vid = vault_key cfg; key = Some (or_else pass []) in [
     (op_info cfg, silent (vault_info_ffi (x_day X) vid)),
     (op_files cfg, silent (vault_files_ffi (x_day X) vid)),
     (op_status cfg, silent (vault_get_status_ffi vid)),
     (op_scan cfg, silent (vault_scan_report_ffi E vid (Some 8192))),
     (op_encrypt cfg, with_password pass (\<lambda>p. vault_encrypt_ffi E vid (Some p))),
     (op_decrypt cfg, with_password pass (\<lambda>p. vault_decrypt_ffi E vid (Some p))),
     (op_resolve cfg, lift_vio (vault_resolve_ffi E vid pass)),
     (op_mount cfg, lift_vio (vault_mount_ffi E (x_mounts X) vid key)),
     (op_umount cfg, lift_vio (vault_unmount_ffi E vid)),
     (op_export cfg \<or> op_mount_export cfg,
        lift_vio (vault_mount_export_ffi E vid key (Some (or_else (export_dest cfg) ''.'')) (export_file cfg))),
     (op_rm cfg, lift_vio (vault_delete_ffi E vid pass)),
     (op_rename cfg, lift_vio (vault_rename_ffi E vid (rename_to cfg) pass)),
     (op_unlock cfg, unlock_op H vid pass),
     (op_passwd cfg, passwd_op H vid),
     (op_rule cfg, lift_vio (vault_rule_ffi vid (rule_max_fails cfg) (rule_hour_from cfg) (rule_hour_to cfg))),
     (op_worm_status cfg, silent (vault_worm_get_flags_ffi vid)),
     (worm_protected_scan cfg, protected_scan_op H vid),
     (worm_set cfg \<noteq> 0 \<or> worm_clear cfg \<noteq> 0, worm_op H cfg),
     (op_whitelist_exclude cfg \<or> op_whitelist_restore cfg, return (fst (whitelist_op cfg)))])"

section \<open>Images and runs\<close>

text \<open>\<^verbatim>\<open>rm_rf_safe\<close>: \<^verbatim>\<open>nftw\<close> visits the entries of a directory before the directory, does not follow symbolic
  links, and stops at the first call of \<open>_rm_rf_cb\<close> that fails. The depth of a tree is at most the number of files.\<close>

definition rm_rf_cb :: "host \<Rightarrow> bool \<Rightarrow> string \<Rightarrow> int jio" where
  "rm_rf_cb H dir p = do {
     r \<leftarrow> (if dir then sys_rmdir (h_os H) p else sys_unlink (h_os H) p);
     return (if succeeds r then 0 else - 1) }"

fun rm_entries :: "(string \<Rightarrow> int jio) \<Rightarrow> string \<Rightarrow> string list \<Rightarrow> int jio" where
  "rm_entries f p [] = return 0"
| "rm_entries f p (d # ds) = (if d = ''.'' \<or> d = ''..'' then rm_entries f p ds else do {
     r \<leftarrow> f (p @ ''/'' @ d);
     if r \<noteq> 0 then return r else rm_entries f p ds })"

fun rm_tree :: "nat \<Rightarrow> host \<Rightarrow> string \<Rightarrow> int jio" where
  "rm_tree 0 H p = return (- 1)"
| "rm_tree (Suc n) H p = do {
     st \<leftarrow> sys_lstat (h_os H) p;
     case st of
       Inl _ \<Rightarrow> rm_rf_cb H False p
     | Inr x \<Rightarrow> if i_type x \<noteq> S_IFDIR then rm_rf_cb H False p
         else do {
           ds \<leftarrow> sys_opendir (h_os H) p;
           case ds of
             Inl _ \<Rightarrow> rm_rf_cb H False p
           | Inr ds \<Rightarrow> do {
               r \<leftarrow> rm_entries (rm_tree n H) p ds;
               if r \<noteq> 0 then return r else rm_rf_cb H True p } } }"

definition rm_rf_safe :: "host \<Rightarrow> string \<Rightarrow> int jio" where
  "rm_rf_safe H p = do {
     f \<leftarrow> gets o_fs;
     st \<leftarrow> sys_lstat (h_os H) p;
     if \<not> succeeds st then return (- 1) else rm_tree (Suc (length f)) H p }"

definition pull_image :: "host \<Rightarrow> CliConfig \<Rightarrow> CliConfig jio" where
  "pull_image H cfg = (case image_url cfg of
     None \<Rightarrow> return cfg
   | Some url \<Rightarrow> do {
       d \<leftarrow> mkdtemp H (''/tmp/nuk4sd-img-'' @ dec_digits (unat (vault_key cfg)) @ ''-'');
       case d of
         None \<Rightarrow> return cfg
       | Some dir \<Rightarrow> do {
           r \<leftarrow> rust H ''rust_oci_pull_image'' [url, dir];
           if r \<noteq> 0 then do { sys_rmdir (h_os H) dir; return cfg }
           else return (cfg\<lparr>no_fuse := True, image_url := Some dir, image_url_allocated := True\<rparr>) } })"

text \<open>The directory to run in; \<open>None\<close> ends the command.\<close>

definition run_root :: "outer \<Rightarrow> host \<Rightarrow> CliConfig \<Rightarrow> string option \<Rightarrow> string option jio" where
  "run_root X H cfg pass = (if no_fuse cfg then (case image_url cfg of
       Some d \<Rightarrow> return (Some (cbuf VAULT_PATH_MAX d))
     | None \<Rightarrow> mkdtemp H ''/tmp/Nuk4sd-nofuse-'')
   else do {
     (rc, p) \<leftarrow> lift_vio (vault_get_real_path_ffi (h_os H) (vault_key cfg) (Some VAULT_PATH_MAX));
     if rc \<noteq> 0 then return None
     else do {
       lift_vio (vault_mount_ffi (h_os H) (x_mounts X) (vault_key cfg) (Some (or_else pass [])));
       return p } })"

definition run_cleanup :: "host \<Rightarrow> CliConfig \<Rightarrow> string \<Rightarrow> unit jio" where
  "run_cleanup H cfg root = (if no_fuse cfg then
       (if image_url cfg \<noteq> None then do { rooted (rm_rf_safe H) root; return () }
        else do { rooted (sys_rmdir (h_os H)) root; return () })
     else do { lift_vio (vault_unmount_ffi (h_os H) (vault_key cfg)); return () })"

definition run_op :: "outer \<Rightarrow> host \<Rightarrow> CliConfig \<Rightarrow> string option \<Rightarrow> string \<Rightarrow> int proc" where
  "run_op X H cfg pass prog = do {
     d \<leftarrow> run_root X H cfg pass;
     case d of
       None \<Rightarrow> return (Inr 1)
     | Some root \<Rightarrow> do {
         r \<leftarrow> run_isolated (x_scan X) (x_rounds X) H cfg prog root;
         case r of
           Inl e \<Rightarrow> return (Inl e)
         | Inr ret \<Rightarrow> do { run_cleanup H cfg root; return (Inr ret) } } }"

section \<open>The command\<close>

definition finish :: "int jio \<Rightarrow> int proc" where
  "finish m = do { r \<leftarrow> m; return (Inr r) }"

definition vault_command :: "outer \<Rightarrow> host \<Rightarrow> CliConfig \<Rightarrow> int proc" where
  "vault_command X H cfg = do {
     pass \<leftarrow> resolve_password H cfg;
     if is_file_op cfg then finish (file_op H cfg)
     else (case chosen (mac_ops H cfg @ vault_ops X H cfg pass) of
         Some m \<Rightarrow> finish m
       | None \<Rightarrow> do {
           cfg' \<leftarrow> pull_image H cfg;
           case run_exec cfg' of
             Some prog \<Rightarrow> run_op X H cfg' pass prog
           | None \<Rightarrow> return (Inr 1) }) }"

definition dispatch :: "outer \<Rightarrow> host \<Rightarrow> CliConfig \<Rightarrow> int proc" where
  "dispatch X H cfg =
    (if op_help cfg \<or> op_version cfg then return (Inr 0)
     else if op_ls cfg then finish (silent vault_list_ffi)
     else (case new_name cfg of
         Some name \<Rightarrow> finish (new_op H cfg name)
       | None \<Rightarrow> if needs_id cfg \<and> vault_id cfg < 0 then return (Inr 1) else vault_command X H cfg))"

section \<open>Entry points\<close>

definition cli_mac_first_run_prompt :: "host \<Rightarrow> 8 word jio" where
  "cli_mac_first_run_prompt H = do {
     t \<leftarrow> tick;
     return (case h_input H t of Some (c # _) \<Rightarrow> if c \<in> {CHR ''y'', CHR ''Y''} then 1 else 0 | _ \<Rightarrow> 0) }"

definition first_run :: "host \<Rightarrow> unit jio" where
  "first_run H = do {
     m \<leftarrow> gets (c_mac_mode \<circ> g_catalog);
     if m \<noteq> - 1 then return ()
     else do {
       a \<leftarrow> cli_mac_first_run_prompt H;
       set_mac_mode a;
       lift_vio (catalog_save (h_os H));
       return () } }"

text \<open>The result is \<open>None\<close> where the code uses or frees the configuration after it was freed. Without a
  configuration the parser returns an error.\<close>

definition vault_cli_parse_and_exec :: "outer \<Rightarrow> host \<Rightarrow> string list \<Rightarrow> int option proc" where
  "vault_cli_parse_and_exec X H argv = do {
     ok \<leftarrow> alloc_ok (h_os H);
     if \<not> ok then return (Inr (Some 1))
     else do {
       first_run H;
       r \<leftarrow> parse_flags H argv;
       case r of
         P_config cfg \<Rightarrow> do { r \<leftarrow> dispatch X H cfg; return (map_sum id Some r) }
       | P_freed _ \<Rightarrow> return (Inr None)
       | _ \<Rightarrow> return (Inr (Some 1)) } }"

definition bind_add_ffi :: "host \<Rightarrow> BindType \<Rightarrow> string option \<Rightarrow> CliConfig \<Rightarrow> CliConfig jio" where
  "bind_add_ffi H ty path cfg = (case nonempty path of
     None \<Rightarrow> return cfg
   | Some p \<Rightarrow> if MAX_BINDS \<le> length (binds cfg) then return cfg
       else do {
         q \<leftarrow> cli_expand_tilde H p PRESET_PATH_MAX;
         return (cfg\<lparr>binds := binds cfg @ [\<lparr>b_path = q, b_type = ty\<rparr>]\<rparr>) })"

record sandbox_flags =
  sf_no_net :: bool
  sf_wayland :: bool
  sf_x11 :: bool
  sf_audio :: bool
  sf_ro_home :: bool
  sf_no_fuse :: bool
  sf_seccomp_strict :: bool
  sf_use_chroot :: bool

definition sandbox_config :: "32 word \<Rightarrow> string option \<Rightarrow> string \<Rightarrow> sandbox_flags \<Rightarrow> CliConfig" where
  "sandbox_config vid pass exec_path fl = zero_config\<lparr>vault_id := sint vid, rule_hour_from := - 1, rule_hour_to := - 1,
     run_exec := Some exec_path, password := pass, iso_no_net := sf_no_net fl, iso_wayland := sf_wayland fl,
     iso_x11 := sf_x11 fl, iso_audio := sf_audio fl, iso_ro_home := sf_ro_home fl, no_fuse := sf_no_fuse fl,
     seccomp_strict := sf_seccomp_strict fl, iso_use_chroot := sf_use_chroot fl\<rparr>"

definition vault_sandbox_run_ffi :: "outer \<Rightarrow> host \<Rightarrow> 32 word \<Rightarrow> string option \<Rightarrow> string option \<Rightarrow> sandbox_flags
    \<Rightarrow> string option list \<Rightarrow> string option list \<Rightarrow> string option list \<Rightarrow> int proc" where
  "vault_sandbox_run_ffi X H vid pass exec_path fl ro rw bl = (case nonempty exec_path of
     None \<Rightarrow> return (Inr (err_code ERR_INVALID_ARGS))
   | Some prog \<Rightarrow> do {
       ok \<leftarrow> alloc_ok (h_os H);
       if \<not> ok then return (Inr (err_code ERR_NO_MEMORY))
       else do {
         c1 \<leftarrow> fold_io (bind_add_ffi H BIND_RO) ro (sandbox_config vid pass prog fl);
         c2 \<leftarrow> fold_io (bind_add_ffi H BIND_RW) rw c1;
         c3 \<leftarrow> fold_io (bind_add_ffi H BIND_BLACKLIST) bl c2;
         dispatch X H c3 } })"

text \<open>The calls of \<^verbatim>\<open>vault_ffi.c\<close> that open a sandbox on a vault and protect a path. The lock is given back before the
  sandbox is opened.\<close>

definition vault_sandbox_ffi :: "host \<Rightarrow> 32 word \<Rightarrow> string option \<Rightarrow> int \<Rightarrow> string option \<Rightarrow> int proc" where
  "vault_sandbox_ffi H vid pass gui_mode app_cmd = do {
     p \<leftarrow> lift_vio (do { mutex_lock; i \<leftarrow> vault_find_by_id vid; unlock_return i });
     case p of
       None \<Rightarrow> return (Inr (err_code ERR_VAULT_NOT_FOUND))
     | Some i \<Rightarrow> do {
         r \<leftarrow> vault_sandbox_open H (Some i) pass (gui_mode \<noteq> 0) app_cmd;
         return (map_sum id err_code r) } }"

definition vault_isolate_path_ffi :: "host \<Rightarrow> string option \<Rightarrow> int jio" where
  "vault_isolate_path_ffi H path = vault_isolate_path_readonly H path"

section \<open>The write-once flags are checked before an operation\<close>

text \<open>The flags that forbid a call.\<close>

definition denied :: "string \<Rightarrow> 32 word" where
  "denied name =
    (if name \<in> {''rust_vault_add'', ''rust_vault_cp'', ''rust_vault_mkdir'', ''rust_vault_snapshot_restore''}
       then WORM_PROTECT_SCAN OR WORM_PROTECT_WRITE
     else if name = ''rust_vault_mv''
       then WORM_PROTECT_SCAN OR WORM_PROTECT_RENAME OR WORM_PROTECT_DELETE OR WORM_PROTECT_WRITE
     else if name \<in> {''rust_vault_rm_file'', ''rust_vault_rmdir'', ''rust_vault_snapshot_delete''}
       then WORM_PROTECT_SCAN OR WORM_PROTECT_DELETE
     else if name \<in> {''rust_vault_repair'', ''rust_vault_restore'', ''rust_vault_import''} then WORM_PROTECT_WRITE
     else 0)"

definition vault_of :: "jail \<Rightarrow> 32 word \<Rightarrow> Vault option" where
  "vault_of s vid = find (\<lambda>v. v_id v = vid) (c_vaults (g_catalog s))"

definition flags_of :: "jail \<Rightarrow> 32 word \<Rightarrow> 32 word" where
  "flags_of s vid = (case vault_of s vid of None \<Rightarrow> 0 | Some v \<Rightarrow> v_worm v)"

text \<open>Either nothing was called and the result is an error, or one permitted call was made.\<close>

definition one_call :: "32 word \<Rightarrow> string \<Rightarrow> jail \<Rightarrow> int \<Rightarrow> jail \<Rightarrow> bool" where
  "one_call fl d s r u \<longleftrightarrow> g_catalog u = g_catalog s
     \<and> (j_trace u = j_trace s \<and> r \<in> {1, - EPERM_NO}
        \<or> (\<exists>name args. j_trace u = j_trace s @ [(Rust_call name (d # args), r)] \<and> fl AND denied name = 0))"

definition gated :: "32 word \<Rightarrow> 32 word \<Rightarrow> string \<Rightarrow> int jio \<Rightarrow> bool" where
  "gated vid fl d m \<longleftrightarrow> (\<forall>s. flags_of s vid = fl \<longrightarrow> wp m (one_call fl d s) s)"

lemma wp_lift_vio: "wp (lift_vio m) Q = (\<lambda>s. wp m (\<lambda>r w. Q r (world.extend w (world.more s))) (world.truncate s))"
  by (rule ext) (simp add: lift_vio_def wp_simps wp_def Let_def split: prod.split)

lemma extend_simps [simp]: "g_catalog (world.extend w x :: jail) = g_catalog w" "o_fs (world.extend w x :: jail) = o_fs w"
  "j_trace (world.extend w (world.more s) :: jail) = j_trace s" for s :: jail
  by (cases s; simp add: world.defs)+

lemma truncate_simps [simp]: "g_catalog (world.truncate s) = g_catalog s" "o_fs (world.truncate s) = o_fs s" for s :: jail
  by (simp_all add: world.defs)

lemma wp_get_flags: "wp (lift_vio (vault_worm_get_flags_ffi vid)) (\<lambda>r u. r = flags_of s vid \<and> g_catalog u = g_catalog s
    \<and> o_fs u = o_fs s \<and> j_trace u = j_trace s) s"
  unfolding wp_lift_vio flags_of_def vault_of_def
  by (auto simp: vault_worm_get_flags_ffi_def mutex_lock_def mutex_unlock_def unlock_return_def vault_find_by_id_def
      get_vault_def wp_simps find_index_find [symmetric] split: option.split)

lemma gated_return: "r \<in> {1, - EPERM_NO} \<Longrightarrow> gated vid fl d (return r)"
  by (auto simp: gated_def wp_return one_call_def)

lemma gated_rust: "fl AND denied name = 0 \<Longrightarrow> gated vid fl d (rust H name (d # args))"
  by (auto simp: gated_def rust_def wp_simps one_call_def)

lemma gated_arg: "(\<And>a. gated vid fl d (f a)) \<Longrightarrow> gated vid fl d (with_arg x f)"
  by (auto simp: with_arg_def intro: gated_return split: option.split)

lemma gated_worm: "(fl AND WORM_PROTECT_SCAN = 0 \<Longrightarrow> fl AND m = 0 \<Longrightarrow> gated vid fl d op) \<Longrightarrow> gated vid fl d (unless_worm fl m op)"
  by (auto simp: unless_worm_def intro: gated_return)

lemma gated_after:
  assumes "gated vid fl d n" "wp m (\<lambda>r u. g_catalog u = g_catalog s \<and> j_trace u = j_trace s \<and> P r) s" "flags_of s vid = fl"
    and "\<And>r. P r \<Longrightarrow> f r = n"
  shows "wp (m \<bind> f) (one_call fl d s) s"
  unfolding wp_bind
proof (rule wp_mono [OF assms(2)])
  fix r and u :: jail assume u: "g_catalog u = g_catalog s \<and> j_trace u = j_trace s \<and> P r"
  then have "flags_of u vid = fl" using assms(3) by (simp add: flags_of_def vault_of_def)
  with assms(1,4) u have "wp (f r) (one_call fl d u) u" by (simp add: gated_def)
  then show "wp (f r) (one_call fl d s) u" by (rule wp_mono) (use u in \<open>auto simp: one_call_def\<close>)
qed

lemma gated_write:
  assumes "fl AND WORM_PROTECT_WRITE = 0 \<Longrightarrow> gated vid fl d op"
  shows "gated vid fl d (unless_write vid op)"
  unfolding gated_def unless_write_def
proof (intro allI impI)
  fix s assume s: "flags_of s vid = fl"
  show "wp (lift_vio (vault_worm_get_flags_ffi vid) \<bind> (\<lambda>fl. if fl AND WORM_PROTECT_WRITE \<noteq> 0 then return (- EPERM_NO) else op))
      (one_call fl d s) s"
    by (rule gated_after [where P = "\<lambda>r. r = fl" and n = "if fl AND WORM_PROTECT_WRITE \<noteq> 0 then return (- EPERM_NO) else op", OF _ _ s])
      (use assms s in \<open>auto intro: gated_return wp_mono [OF wp_get_flags]\<close>)
qed

definition still :: "jail \<Rightarrow> jail \<Rightarrow> bool" where
  "still s u \<longleftrightarrow> g_catalog u = g_catalog s \<and> j_trace u = j_trace s \<and> o_fs u = o_fs s"

lemma still_refl [simp]: "still s s"
  by (simp add: still_def)

lemma pres_still_terminal [pres]:
  "preserves (still s) (lib_ret H)" "preserves (still s) (fgets_stdin H n)" "preserves (still s) (set_pw_buf p)"
  by (auto simp: preserves_wp fgets_stdin_def set_pw_buf_def wp_simps still_def)

lemma pres_still_password [pres]: "preserves (still s) (ask_password H)"
  unfolding ask_password_def read_password_silent_def fill_pw_buf_def by (auto intro!: pres split: option.split)

lemma wp_still_bind:
  assumes "preserves (still s) m" "still s t" "\<And>a u. still s u \<Longrightarrow> wp (f a) Q u"
  shows "wp (m \<bind> f) Q t"
proof -
  have "wp m (\<lambda>_. still s) t" using assms(1,2) by (simp add: preserves_wp)
  then show ?thesis unfolding wp_bind by (rule wp_mono) (rule assms(3))
qed

lemma gated_rekey: "gated vid fl d (rekey H cfg d)"
  unfolding gated_def rekey_def
proof (intro allI impI)
  fix s assume s: "flags_of s vid = fl"
  have "wp (rust H ''rust_vault_rekey'' [d, p]) (one_call fl d s) u" if "still s u" for p u
    using that by (auto simp: rust_def wp_simps one_call_def still_def denied_def)
  then show "wp ((case nonempty (password cfg) of None \<Rightarrow> ask_password H | Some p \<Rightarrow> return p)
      \<bind> (\<lambda>p. rust H ''rust_vault_rekey'' [d, p])) (one_call fl d s) s"
    by (intro wp_still_bind [where s = s]) (auto intro!: pres split: option.split)
qed

lemma gated_file_ops: "(b, m) \<in> set (file_ops H cfg d fl) \<Longrightarrow> gated (vault_key cfg) fl d m"
proof -
  note calls = gated_arg gated_worm gated_write gated_rust gated_rekey
  have "gated (vault_key cfg) fl d m" if "(b, m) \<in> set (edit_ops H cfg d fl)"
    using that by (auto simp: edit_ops_def denied_def bit.conj_disj_distrib intro!: calls)
  moreover have "gated (vault_key cfg) fl d m" if "(b, m) \<in> set (look_ops H cfg d)"
    using that by (auto simp: look_ops_def denied_def intro!: calls)
  moreover have "gated (vault_key cfg) fl d m" if "(b, m) \<in> set (snapshot_ops H cfg d fl)"
    using that by (auto simp: snapshot_ops_def denied_def bit.conj_disj_distrib intro!: calls)
  moreover have "gated (vault_key cfg) fl d m" if "(b, m) \<in> set (integrity_ops H cfg d)"
    using that by (auto simp: integrity_ops_def denied_def intro!: calls)
  moreover have "gated (vault_key cfg) fl d m" if "(b, m) \<in> set (archive_ops H cfg d)"
    using that by (auto simp: archive_ops_def denied_def intro!: calls)
  moreover have "gated (vault_key cfg) fl d m" if "(b, m) \<in> set (key_ops H cfg d)"
    using that by (auto simp: key_ops_def denied_def intro!: calls)
  moreover have "gated (vault_key cfg) fl d m" if "(b, m) \<in> set (report_ops H cfg d)"
    using that by (auto simp: report_ops_def denied_def intro!: calls)
  ultimately show "(b, m) \<in> set (file_ops H cfg d fl) \<Longrightarrow> ?thesis" by (auto simp: file_ops_def)
qed

lemma chosen_in: "chosen ms = Some m \<Longrightarrow> (True, m) \<in> set ms"
  by (induction ms rule: chosen.induct) (auto split: if_splits)

lemma chosen_None: "chosen ms = None \<longleftrightarrow> (\<forall>(b, m) \<in> set ms. \<not> b)"
  by (induction ms rule: chosen.induct) auto

lemma file_op_chosen: "is_file_op cfg \<Longrightarrow> chosen (file_ops H cfg d fl) \<noteq> None"
  unfolding chosen_None by (auto simp: is_file_op_def file_ops_def edit_ops_def look_ops_def snapshot_ops_def
      integrity_ops_def archive_ops_def key_ops_def report_ops_def)

text \<open>The directory of a vault.\<close>

definition dir_of :: "Vault \<Rightarrow> string \<Rightarrow> bool" where
  "dir_of v d \<longleftrightarrow> d \<in> {cbuf VAULT_PATH_MAX (v_path v), cbuf VAULT_PATH_MAX (engine_real_path v)}"

lemma wp_get_real_path:
  "wp (lift_vio (vault_get_real_path_ffi E vid (Some VAULT_PATH_MAX))) (\<lambda>x u. g_catalog u = g_catalog s \<and> j_trace u = j_trace s
     \<and> (case vault_of s vid of None \<Rightarrow> fst x \<noteq> 0 | Some v \<Rightarrow> \<exists>d. x = (0, Some d) \<and> dir_of v d)) s"
  unfolding wp_lift_vio vault_of_def
  by (auto simp: vault_get_real_path_ffi_def real_path_def mutex_lock_def mutex_unlock_def unlock_return_def
      vault_find_by_id_def get_vault_def wp_simps find_index_find [symmetric] VAULT_PATH_MAX_def err_code_def dir_of_def
      split: option.split sum.split)

definition permitted :: "CliConfig \<Rightarrow> jail \<Rightarrow> int \<Rightarrow> jail \<Rightarrow> bool" where
  "permitted cfg s r u \<longleftrightarrow> (\<exists>v \<in> set (c_vaults (g_catalog s)). \<exists>d name args. v_id v = vault_key cfg \<and> dir_of v d
     \<and> v_worm v AND denied name = 0 \<and> j_trace u = j_trace s @ [(Rust_call name (d # args), r)])"

definition file_post :: "CliConfig \<Rightarrow> jail \<Rightarrow> int \<Rightarrow> jail \<Rightarrow> bool" where
  "file_post cfg s r u \<longleftrightarrow> g_catalog u = g_catalog s
     \<and> (j_trace u = j_trace s \<and> r \<in> {1, - EPERM_NO} \<or> permitted cfg s r u)"

lemma vault_of_Some: "vault_of s k = Some v \<Longrightarrow> v \<in> set (c_vaults (g_catalog s)) \<and> v_id v = k \<and> flags_of s k = v_worm v"
proof -
  assume v: "vault_of s k = Some v"
  then have "v \<in> set (c_vaults (g_catalog s)) \<and> v_id v = k"
    unfolding vault_of_def find_Some_iff by auto
  with v show ?thesis by (simp add: flags_of_def)
qed

lemma one_call_post:
  assumes "one_call (flags_of s (vault_key cfg)) d u r w" "g_catalog u = g_catalog s" "j_trace u = j_trace s"
    and "vault_of s (vault_key cfg) = Some v" "dir_of v d"
  shows "file_post cfg s r w"
proof -
  from assms(1-3) consider "j_trace w = j_trace s" "r \<in> {1, - EPERM_NO}"
    | name args where "j_trace w = j_trace s @ [(Rust_call name (d # args), r)]" "flags_of s (vault_key cfg) AND denied name = 0"
    by (auto simp: one_call_def)
  moreover have "g_catalog w = g_catalog s" using assms(1,2) by (simp add: one_call_def)
  ultimately show ?thesis
    using vault_of_Some [OF assms(4)] assms(5) by cases (fastforce simp: file_post_def permitted_def)+
qed

lemma wp_file_op:
  assumes "is_file_op cfg"
  shows "wp (file_op H cfg) (file_post cfg s) s"
  unfolding file_op_def wp_bind case_prod_beta
proof (rule wp_mono [OF wp_get_real_path])
  let ?k = "vault_key cfg"
  fix x :: "int \<times> string option" and u :: jail
  assume *: "g_catalog u = g_catalog s \<and> j_trace u = j_trace s
     \<and> (case vault_of s ?k of None \<Rightarrow> fst x \<noteq> 0 | Some v \<Rightarrow> \<exists>d. x = (0, Some d) \<and> dir_of v d)"
  show "wp (case if fst x \<noteq> 0 then None else snd x of None \<Rightarrow> return 1
      | Some d \<Rightarrow> lift_vio (vault_worm_get_flags_ffi ?k) \<bind>
          (\<lambda>fl. case chosen (file_ops H cfg d fl) of None \<Rightarrow> return 0 | Some m \<Rightarrow> m)) (file_post cfg s) u"
  proof (cases "vault_of s ?k")
    case None
    with * show ?thesis by (auto simp: wp_return file_post_def)
  next
    case (Some v)
    with * obtain d where x: "x = (0, Some d)" "dir_of v d" by auto
    from * have u: "g_catalog u = g_catalog s" "j_trace u = j_trace s" by simp_all
    then have fl: "flags_of u ?k = flags_of s ?k" by (simp add: flags_of_def vault_of_def)
    obtain m where m: "chosen (file_ops H cfg d (flags_of s ?k)) = Some m"
      using file_op_chosen [OF assms] by blast
    then have gate: "gated ?k (flags_of s ?k) d m" by (rule gated_file_ops [OF chosen_in])
    have "wp (lift_vio (vault_worm_get_flags_ffi ?k) \<bind>
        (\<lambda>fl. case chosen (file_ops H cfg d fl) of None \<Rightarrow> return 0 | Some m \<Rightarrow> m)) (one_call (flags_of s ?k) d u) u"
      by (rule gated_after [where P = "\<lambda>r. r = flags_of u ?k", OF gate _ fl])
        (use m fl in \<open>auto intro: wp_mono [OF wp_get_flags]\<close>)
    then show ?thesis
      unfolding x(1) by (simp, rule wp_mono) (rule one_call_post [OF _ u Some x(2)])
  qed
qed

lemma pres_still_pass [pres]: "preserves (\<lambda>u. g_catalog u = c \<and> j_trace u = tr) (resolve_password H cfg)"
proof -
  have "preserves (\<lambda>u :: jail. g_catalog u = c \<and> j_trace u = tr) (ask_password H)"
  proof (rule preservesI)
    fix s :: jail assume s: "g_catalog s = c \<and> j_trace s = tr"
    have "wp (ask_password H) (\<lambda>_. still s) s" using pres_still_password by (simp add: preserves_wp)
    then show "wp (ask_password H) (\<lambda>_ u. g_catalog u = c \<and> j_trace u = tr) s"
      by (rule wp_mono) (use s in \<open>simp add: still_def\<close>)
  qed
  moreover have "preserves (\<lambda>u :: jail. g_catalog u = c \<and> j_trace u = tr) (lift_vio (vault_is_protected_ffi vid))" for vid
    by (auto simp: preserves_wp wp_lift_vio vault_is_protected_ffi_def mutex_lock_def mutex_unlock_def unlock_return_def
        vault_find_by_id_def get_vault_def wp_simps split: option.split)
  ultimately show ?thesis unfolding resolve_password_def by (auto intro!: pres)
qed

lemma pres_list [pres]: "preserves (\<lambda>u. g_catalog u = c \<and> j_trace u = tr) (silent vault_list_ffi)"
  by (auto simp: silent_def preserves_wp wp_lift_vio vault_list_ffi_def ffi_cmd_list_def mutex_lock_def mutex_unlock_def
      unlock_return_def wp_simps Let_def)


section \<open>The secret phrase\<close>

lemma pres_traced_lift [pres]: "preserves (traced tr) (lift_vio m)"
  by (auto simp: preserves_wp wp_lift_vio traced_def intro: wp_mono [OF wp_True])

lemma pres_traced_mode [pres]: "preserves (traced tr) (set_mac_mode m)"
  by (auto simp: preserves_wp set_mac_mode_def wp_simps traced_def)

lemma pres_profiles [pres_os]:
  assumes "os_indep I"
  shows "preserves I (mac_apparmor_available H)" "preserves I (mac_apparmor_is_active H n)"
proof -
  show "preserves I (mac_apparmor_available H)"
    using assms unfolding mac_apparmor_available_def by (auto intro!: pres pres_os)
  show "preserves I (mac_apparmor_is_active H n)"
    using assms unfolding mac_apparmor_is_active_def read_lines_def by (auto intro!: pres pres_os split: sum.split)
qed

lemma pres_traced_profile [pres]: "preserves (traced tr) (mac_apparmor_remove H n)"
  unfolding mac_apparmor_remove_def write_text_def by (auto intro!: pres pres_os split: sum.split)

lemma pres_traced_remove [pres]: "preserves (traced tr) (remove_profiles H vs)"
  by (induction vs) (auto intro!: pres pres_os)

lemma pres_traced_give_up: "preserves (traced tr) (give_up_mac H target)"
  unfolding give_up_mac_def by (auto intro!: pres pres_os split: option.split)

lemma pres_still_phrase: "preserves (still s) (ask_phrase H)"
  unfolding ask_phrase_def by (auto intro!: pres)

text \<open>C39: the command that gives up the AppArmor protection changes neither the catalog nor a file and makes no
  other call, in particular it removes no profile, before the Rust code has accepted the phrase that was typed in.\<close>

theorem disable_needs_phrase:
  "case run_state (disable_apparmor H cfg) s of (r, u) \<Rightarrow>
     r = 1 \<and> g_catalog u = g_catalog s \<and> o_fs u = o_fs s
       \<and> (j_trace u = j_trace s \<or> (\<exists>phrase. j_trace u = j_trace s @ [(Rust_call ''rust_validate_mac_secret'' [phrase], 0)]))
     \<or> (\<exists>phrase x. x \<noteq> 0 \<and> prefix (j_trace s @ [(Rust_call ''rust_validate_mac_secret'' [phrase], x)]) (j_trace u))"
proof -
  let ?call = "\<lambda>p x. (Rust_call ''rust_validate_mac_secret'' [p], x)"
  let ?Q = "\<lambda>r u. r = 1 \<and> g_catalog u = g_catalog s \<and> o_fs u = o_fs s
       \<and> (j_trace u = j_trace s \<or> (\<exists>p. j_trace u = j_trace s @ [?call p 0]))
     \<or> (\<exists>p x. x \<noteq> 0 \<and> prefix (j_trace s @ [?call p x]) (j_trace u))"
  have accepted: "wp (give_up_mac H t) ?Q u" if "x \<noteq> 0" "j_trace u = j_trace s @ [?call p x]" for t u p x
  proof -
    have "wp (give_up_mac H t) (\<lambda>_. traced (j_trace u)) u"
      using pres_traced_give_up by (simp add: preserves_wp traced_def)
    then show ?thesis by (rule wp_mono) (use that in \<open>auto simp: traced_def\<close>)
  qed
  have asked: "wp (rust H ''rust_validate_mac_secret'' [p] \<bind> (\<lambda>r. if r = 0 then return 1 else give_up_mac H t)) ?Q u"
    if "still s u" for p t u
    using that by (auto simp: rust_def wp_bind wp_kernel wp_return still_def intro: accepted)
  have "wp (disable_apparmor H cfg) ?Q s"
    unfolding disable_apparmor_def
    by (rule wp_still_bind [OF pres_still_phrase still_refl])
      (auto simp: wp_return still_def [of s] split: option.split intro: asked)
  then show ?thesis by (simp add: wp_def)
qed

section \<open>An example\<close>

text \<open>Adding a file to the first vault of the samples.\<close>

definition ex_outer :: outer where
  "ex_outer = \<lparr>x_scan = (\<lambda>c p. c), x_rounds = 8, x_mounts = (\<lambda>_. None), x_day = (\<lambda>f t. [])\<rparr>"

definition add_config :: CliConfig where
  "add_config = zero_config\<lparr>vault_id := 1, op_add := True, add_file := Some ''a''\<rparr>"

lemma add_config_simps: "is_file_op add_config" "new_name add_config = None" "\<not> op_help add_config" "\<not> op_version add_config"
  "\<not> op_ls add_config" "vault_key add_config = 1"
  by (simp_all add: add_config_def is_file_op_def zero_config_def vault_key_def)


end
