(* ===== verification/Cli_Log.thy ===== *)
theory Cli_Log
  imports Cli_Config Vault_Report Process_Steps
begin

text \<open>
  The log of the commands (\<^verbatim>\<open>cli/vault_cli_log.c\<close>): where it is kept, which lines go to the file and which to the
  terminal, and the text of every kind of record. The parameters are the text of the current time, the process
  number and the text of an error number. Shown is that the record of a command line replaces the value after
  \<^verbatim>\<open>--password\<close> before anything is written.
\<close>

section \<open>Levels and streams\<close>

datatype CliLogLevel = CLI_LOG_CMD | CLI_LOG_INFO | CLI_LOG_KERN | CLI_LOG_SEC | CLI_LOG_WARN | CLI_LOG_ERROR

text \<open>The static variables, and the lines written to the file and to the standard error stream.\<close>

record cli_logger =
  s_logfp :: bool
  s_verbose :: bool
  log_file :: "string list"
  log_stderr :: "string list"

record log_host =
  lh_now :: string
  lh_pid :: int
  lh_errno :: int
  lh_strerror :: "int \<Rightarrow> string"

fun level_str :: "CliLogLevel \<Rightarrow> string" where
  "level_str CLI_LOG_CMD = ''CMD ''"
| "level_str CLI_LOG_INFO = ''INFO''"
| "level_str CLI_LOG_KERN = ''KERN''"
| "level_str CLI_LOG_SEC = ''SEC ''"
| "level_str CLI_LOG_WARN = ''WARN''"
| "level_str CLI_LOG_ERROR = ''ERRO''"

definition colour :: "string \<Rightarrow> string" where
  "colour n = [CHR 0x1B] @ ''['' @ n @ ''m''"

fun level_color :: "CliLogLevel \<Rightarrow> string" where
  "level_color CLI_LOG_CMD = colour ''36''"
| "level_color CLI_LOG_INFO = colour ''32''"
| "level_color CLI_LOG_KERN = colour ''34''"
| "level_color CLI_LOG_SEC = colour ''35''"
| "level_color CLI_LOG_WARN = colour ''33''"
| "level_color CLI_LOG_ERROR = colour ''31''"

definition log_path :: "string option \<Rightarrow> string" where
  "log_path home = cbuf 512 ((case home of Some h \<Rightarrow> h | None \<Rightarrow> ''/tmp'') @ ''/.local/share/Nuk4sd'')"

definition log_name :: "string option \<Rightarrow> string" where
  "log_name home = cbuf 512 ((case home of Some h \<Rightarrow> h | None \<Rightarrow> ''/tmp'') @ ''/.local/share/Nuk4sd/cli.log'')"

text \<open>The path that is opened for appending, and whether that succeeded.\<close>

definition open_append :: "host \<Rightarrow> string \<Rightarrow> bool jio" where
  "open_append H p = do {
     r \<leftarrow> sys_open (h_os H) p (O_WRONLY OR O_CREAT OR O_APPEND) MODE_0666;
     return (succeeds r) }"

definition cli_log_init :: "host \<Rightarrow> string option \<Rightarrow> bool jio" where
  "cli_log_init H path = (case path of
     Some p \<Rightarrow> open_append H p
   | None \<Rightarrow> do {
       home \<leftarrow> getenv H ''HOME'';
       sys_mkdir (h_os H) (log_path home) MODE_0700;
       open_append H (log_name home) })"

definition cli_log_close :: "cli_logger \<Rightarrow> cli_logger" where
  "cli_log_close L = L\<lparr>s_logfp := False\<rparr>"

definition cli_log_set_verbose :: "bool \<Rightarrow> cli_logger \<Rightarrow> cli_logger" where
  "cli_log_set_verbose v L = L\<lparr>s_verbose := v\<rparr>"

definition to_stderr :: "CliLogLevel \<Rightarrow> cli_logger \<Rightarrow> bool" where
  "to_stderr l L \<longleftrightarrow> l \<in> {CLI_LOG_WARN, CLI_LOG_ERROR} \<or> s_verbose L"

definition file_record :: "log_host \<Rightarrow> CliLogLevel \<Rightarrow> string \<Rightarrow> string \<Rightarrow> string" where
  "file_record E l m msg = row (''['' @ lh_now E @ ''] [PID '' @ column 6 (int_text (lh_pid E)) @ ''] ['' @ level_str l
     @ ''] ['' @ column 8 m @ ''] '' @ msg)"

definition stderr_record :: "log_host \<Rightarrow> CliLogLevel \<Rightarrow> string \<Rightarrow> string \<Rightarrow> string" where
  "stderr_record E l m msg = row (level_color l @ ''['' @ lh_now E @ ''] ['' @ level_str l @ ''] ['' @ column 8 m @ '']''
     @ colour ''0'' @ '' '' @ msg)"

definition name_or_cli :: "string option \<Rightarrow> string" where
  "name_or_cli m = (case m of Some x \<Rightarrow> x | None \<Rightarrow> ''CLI'')"

definition cli_log :: "log_host \<Rightarrow> CliLogLevel \<Rightarrow> string option \<Rightarrow> string \<Rightarrow> cli_logger \<Rightarrow> cli_logger" where
  "cli_log E l m text L = (let msg = cbuf 2048 text;
     L1 = (if s_logfp L then L\<lparr>log_file := log_file L @ [file_record E l (name_or_cli m) msg]\<rparr> else L)
     in if to_stderr l L1 then L1\<lparr>log_stderr := log_stderr L1 @ [stderr_record E l (name_or_cli m) msg]\<rparr> else L1)"

section \<open>Texts that are put together in a buffer\<close>

text \<open>\<^verbatim>\<open>pos += snprintf(buf + pos, n - pos, t)\<close>: the position advances by the whole length, also when the buffer is full.\<close>

definition append_at :: "nat \<Rightarrow> nat \<Rightarrow> string \<Rightarrow> string \<Rightarrow> string" where
  "append_at n pos buf t = take pos buf @ take (n - 1 - pos) t"

definition LINE_MAX :: nat where "LINE_MAX = 1024"

fun text_loop :: "nat \<Rightarrow> string \<Rightarrow> string list \<Rightarrow> string" where
  "text_loop pos buf [] = buf"
| "text_loop pos buf (t # ts) = (if LINE_MAX - 4 \<le> pos then buf
     else text_loop (pos + length t) (append_at LINE_MAX pos buf t) ts)"

section \<open>Records\<close>

fun command_loop :: "bool \<Rightarrow> nat \<Rightarrow> string \<Rightarrow> string list \<Rightarrow> string" where
  "command_loop skip pos buf [] = buf"
| "command_loop skip pos buf (a # r) = (if LINE_MAX - 4 \<le> pos then buf
     else if skip then command_loop False (pos + 4) (append_at LINE_MAX pos buf ''*** '') r
     else command_loop (a = ''--password'') (pos + Suc (length a)) (append_at LINE_MAX pos buf (a @ '' '')) r)"

definition cli_log_command :: "log_host \<Rightarrow> string list \<Rightarrow> int \<Rightarrow> cli_logger \<Rightarrow> cli_logger" where
  "cli_log_command E argv vid = cli_log E CLI_LOG_CMD (Some ''COMMAND'')
     (''argv=['' @ command_loop False 0 [] argv @ ''] vault_id='' @ int_text vid)"

definition cli_log_operation_start :: "log_host \<Rightarrow> string \<Rightarrow> int \<Rightarrow> cli_logger \<Rightarrow> cli_logger" where
  "cli_log_operation_start E op_name vid = cli_log E CLI_LOG_INFO (Some op_name)
     (if 0 \<le> vid then ''starting operation vault_id='' @ int_text vid else ''starting operation (no vault_id)'')"

text \<open>The arrow of the messages, in UTF-8.\<close>

definition arrow :: string where
  "arrow = '' '' @ [CHR 0xE2, CHR 0x86, CHR 0x92] @ '' ''"

definition errno_text :: "log_host \<Rightarrow> int \<Rightarrow> string" where
  "errno_text E e = ''errno='' @ int_text e @ '' ('' @ lh_strerror E e @ '')''"

definition cli_log_operation_result :: "log_host \<Rightarrow> string \<Rightarrow> int \<Rightarrow> int \<Rightarrow> cli_logger \<Rightarrow> cli_logger" where
  "cli_log_operation_result E op_name vid ret =
    (if ret = 0 then cli_log E CLI_LOG_INFO (Some op_name) (''vault_id='' @ int_text vid @ arrow @ ''OK (ret=0)'')
     else cli_log E CLI_LOG_ERROR (Some op_name) (''vault_id='' @ int_text vid @ arrow @ ''FAILED ret='' @ int_text ret @ '' (errno=''
       @ int_text (lh_errno E) @ '': '' @ lh_strerror E (lh_errno E) @ '')''))"

definition worm_flags_to_str :: "32 word \<Rightarrow> nat \<Rightarrow> string" where
  "worm_flags_to_str flags n = (let t = concat (map snd (filter (\<lambda>(m, _). flags AND m \<noteq> 0)
       [(WORM_PROTECT_DELETE, ''DELETE ''), (WORM_PROTECT_RENAME, ''RENAME ''), (WORM_PROTECT_WRITE, ''WRITE ''),
        (WORM_PROTECT_READ, ''READ ''), (WORM_PROTECT_SCAN, ''PROTECTED-SCAN '')]))
     in cbuf n (if t = [] then ''(none)'' else t))"

text \<open>The conversions \<^verbatim>\<open>%x\<close> and \<^verbatim>\<open>%02x\<close>.\<close>

fun hex_text :: "nat \<Rightarrow> string" where
  "hex_text n = (if n < 16 then [hex_digit n] else hex_text (n div 16) @ [hex_digit (n mod 16)])"

declare hex_text.simps [simp del]

definition hex2 :: "nat \<Rightarrow> string" where
  "hex2 n = (if n < 16 then ''0'' @ hex_text n else hex_text n)"

definition flags_record :: "int \<Rightarrow> string \<Rightarrow> 32 word \<Rightarrow> nat \<Rightarrow> string" where
  "flags_record vid what f n = ''vault_id='' @ int_text vid @ '' '' @ what @ '' flags=0x'' @ hex2 (unat f) @ '' ['' @ worm_flags_to_str f n @ '']''"

definition cli_log_worm_flags :: "log_host \<Rightarrow> int \<Rightarrow> 32 word \<Rightarrow> 32 word \<Rightarrow> cli_logger \<Rightarrow> cli_logger" where
  "cli_log_worm_flags E vid set_mask clear_mask =
    (if clear_mask \<noteq> 0 then cli_log E CLI_LOG_SEC (Some ''WORM'') (flags_record vid ''CLEAR'' clear_mask 128) else id)
    \<circ> (if set_mask \<noteq> 0 then cli_log E CLI_LOG_SEC (Some ''WORM'') (flags_record vid ''SET'' set_mask 128) else id)"

definition cli_log_worm_status :: "log_host \<Rightarrow> int \<Rightarrow> 32 word \<Rightarrow> cli_logger \<Rightarrow> cli_logger" where
  "cli_log_worm_status E vid f = cli_log E CLI_LOG_SEC (Some ''WORM'') (flags_record vid ''status'' f 256)"

definition on_off :: "string \<Rightarrow> string \<Rightarrow> bool \<Rightarrow> string" where
  "on_off a b x = (if x then a else b)"

definition bind_name :: "BindType \<Rightarrow> string" where
  "bind_name t = (case t of BIND_RO \<Rightarrow> ''RO'' | BIND_RW \<Rightarrow> ''RW'' | BIND_BLACKLIST \<Rightarrow> ''BLACKLIST'')"

definition quoted :: "string \<Rightarrow> string" where
  "quoted s = [CHR 0x27] @ s @ [CHR 0x27]"

definition bind_record :: "nat \<Rightarrow> BindEntry \<Rightarrow> string" where
  "bind_record i b = ''bind['' @ dec_digits i @ ''] type='' @ column 9 (bind_name (b_type b)) @ '' path='' @ quoted (b_path b)"

text \<open>The records on the configuration of a sandbox, in their order.\<close>

definition sandbox_records :: "CliConfig \<Rightarrow> string \<Rightarrow> string \<Rightarrow> (CliLogLevel \<times> string) list" where
  "sandbox_records cfg exec vault_path = (let isolated = on_off ''ON(isolated)'' ''OFF(host)''; on = on_off ''ON'' ''OFF'' in
     [(CLI_LOG_SEC, ''exec='' @ quoted exec @ '' vault_path='' @ quoted vault_path),
      (CLI_LOG_KERN, ''namespaces: USER=ON MOUNT=ON PID=ON NET='' @ isolated (iso_no_net cfg) @ '' IPC=''
         @ isolated (iso_unshare_ipc cfg) @ '' UTS='' @ isolated (iso_unshare_uts cfg))]
     @ (case iso_hostname cfg of Some h \<Rightarrow> if iso_unshare_uts cfg then [(CLI_LOG_KERN, ''UTS hostname='' @ quoted h)] else []
        | None \<Rightarrow> [])
     @ [(CLI_LOG_INFO, ''display: wayland='' @ on (iso_wayland cfg) @ '' x11='' @ on (iso_x11 cfg) @ '' no-dbus='' @ on (iso_no_dbus cfg)),
        (CLI_LOG_INFO, ''fs: ro-home='' @ on (iso_ro_home cfg) @ '' tmp-home='' @ on (iso_tmp_home cfg) @ '' no-proc=''
           @ on (iso_no_proc cfg) @ '' new-session='' @ on (iso_new_session cfg))]
     @ map (\<lambda>(i, b). (CLI_LOG_KERN, bind_record i b)) (enumerate 0 (binds cfg)))"

definition cli_log_sandbox_config :: "log_host \<Rightarrow> CliConfig \<Rightarrow> string \<Rightarrow> string \<Rightarrow> cli_logger \<Rightarrow> cli_logger" where
  "cli_log_sandbox_config E cfg exec vault_path =
     fold (\<lambda>(l, t). cli_log E l (Some ''SANDBOX'') t) (sandbox_records cfg exec vault_path)"

definition cli_log_namespace_event :: "log_host \<Rightarrow> string \<Rightarrow> nat \<Rightarrow> int \<Rightarrow> int \<Rightarrow> cli_logger \<Rightarrow> cli_logger" where
  "cli_log_namespace_event E ns flags pid result =
    (let t = ''unshare('' @ ns @ '') flags=0x'' @ hex_text flags @ '' pid='' @ int_text pid @ arrow in
     if result = 0 then cli_log E CLI_LOG_KERN (Some ''NAMESPACE'') (t @ ''OK'')
     else cli_log E CLI_LOG_ERROR (Some ''NAMESPACE'') (t @ ''FAILED '' @ errno_text E result))"

definition mount_flag_str :: "64 word \<Rightarrow> string" where
  "mount_flag_str flags = (let t = concat (map snd (filter (\<lambda>(m, _). flags AND m \<noteq> 0)
       [(MS_BIND, ''BIND ''), (MS_REC, ''REC ''), (MS_RDONLY, ''RDONLY ''), (MS_REMOUNT, ''REMOUNT ''), (MS_NOSUID, ''NOSUID ''),
        (MS_NODEV, ''NODEV ''), (MS_NOEXEC, ''NOEXEC ''), (MS_PRIVATE, ''PRIVATE '')]))
     in cbuf 256 (if t = [] then ''0x'' @ hex_text (unat flags) else t))"

text \<open>A file system type that is a null pointer is printed as the library does.\<close>

definition or_null :: "string option \<Rightarrow> string" where
  "or_null x = (case x of Some s \<Rightarrow> s | None \<Rightarrow> ''(null)'')"

definition cli_log_mount_event :: "log_host \<Rightarrow> string option \<Rightarrow> string \<Rightarrow> string option \<Rightarrow> 64 word \<Rightarrow> int \<Rightarrow> cli_logger \<Rightarrow> cli_logger" where
  "cli_log_mount_event E src dst fstype flags result =
    (let t = ''mount('' @ quoted (or_null src) @ arrow @ quoted dst @ '') fstype='' @ or_null fstype
         @ '' flags=['' @ mount_flag_str flags @ '']'' @ arrow in
     if result = 0 then cli_log E CLI_LOG_KERN (Some ''MOUNT'') (t @ ''OK'')
     else cli_log E CLI_LOG_ERROR (Some ''MOUNT'') (t @ ''FAILED '' @ errno_text E result))"

definition cli_log_pivot_root :: "log_host \<Rightarrow> string \<Rightarrow> int \<Rightarrow> cli_logger \<Rightarrow> cli_logger" where
  "cli_log_pivot_root E new_root result = (let t = ''pivot_root('' @ quoted new_root @ '')'' @ arrow in
     if result = 0 then cli_log E CLI_LOG_KERN (Some ''PIVOT_ROOT'') (t @ ''OK (root filesystem replaced)'')
     else cli_log E CLI_LOG_ERROR (Some ''PIVOT_ROOT'') (t @ ''FAILED '' @ errno_text E result))"

definition cli_log_cap_drop :: "log_host \<Rightarrow> int \<Rightarrow> cli_logger \<Rightarrow> cli_logger" where
  "cli_log_cap_drop E result =
    (if result = 0 then cli_log E CLI_LOG_SEC (Some ''CAPABILITIES'')
       (''cap_set_proc(empty) + PR_SET_KEEPCAPS=0 + NO_NEW_PRIVS=1'' @ arrow @ ''OK (all Linux Capabilities removed)'')
     else cli_log E CLI_LOG_ERROR (Some ''CAPABILITIES'') (''cap drop'' @ arrow @ ''FAILED '' @ errno_text E result))"

definition cli_log_seccomp :: "log_host \<Rightarrow> int \<Rightarrow> cli_logger \<Rightarrow> cli_logger" where
  "cli_log_seccomp E result =
    (if result = 0 then cli_log E CLI_LOG_SEC (Some ''SECCOMP'') (''seccomp-BPF allowlist loaded'' @ arrow
       @ ''OK (policy: ERRNO(EPERM) for non-allowlisted syscalls; kexec_load/process_vm_writev remain KILL_PROCESS)'')
     else cli_log E CLI_LOG_ERROR (Some ''SECCOMP'') (''seccomp load'' @ arrow @ ''FAILED '' @ errno_text E result))"

definition cli_log_exec :: "log_host \<Rightarrow> string \<Rightarrow> string option list \<Rightarrow> cli_logger \<Rightarrow> cli_logger" where
  "cli_log_exec E exec argv = cli_log E CLI_LOG_SEC (Some ''EXEC'') (''execvp('' @ quoted exec @ '') argc='' @ dec_digits (length argv)
     @ '' args=['' @ text_loop 0 [] (map (\<lambda>a. quoted (or_null a) @ '' '') argv) @ '']'')"

definition cli_log_sandbox_exit :: "log_host \<Rightarrow> int \<Rightarrow> int \<Rightarrow> int \<Rightarrow> cli_logger \<Rightarrow> cli_logger" where
  "cli_log_sandbox_exit E pid exit_status signal_num =
    (if signal_num \<noteq> 0 then cli_log E CLI_LOG_WARN (Some ''SANDBOX'') (''child process pid='' @ int_text pid @ '' killed by signal=''
       @ int_text signal_num @ '' (possible seccomp/namespace violation)'')
     else cli_log E (if exit_status = 0 then CLI_LOG_INFO else CLI_LOG_WARN) (Some ''SANDBOX'')
       (''child process pid='' @ int_text pid @ '' exited exit_code='' @ int_text exit_status))"

definition cli_log_auth_event :: "log_host \<Rightarrow> int \<Rightarrow> bool \<Rightarrow> cli_logger \<Rightarrow> cli_logger" where
  "cli_log_auth_event E vid success = cli_log E CLI_LOG_SEC (Some ''AUTH'') (''vault_id='' @ int_text vid
     @ (if success then '' authentication OK'' else '' authentication FAILED (incorrect password or vault locked)''))"

definition cli_log_rlimit :: "log_host \<Rightarrow> string \<Rightarrow> nat \<Rightarrow> nat \<Rightarrow> cli_logger \<Rightarrow> cli_logger" where
  "cli_log_rlimit E name soft hard = cli_log E CLI_LOG_KERN (Some ''RLIMIT'') (''setrlimit('' @ name @ '') soft='' @ dec_digits soft
     @ '' hard='' @ dec_digits hard)"

section \<open>The password does not reach the log\<close>

text \<open>A command line as the log may show it.\<close>

fun masked :: "bool \<Rightarrow> string list \<Rightarrow> string list" where
  "masked skip [] = []"
| "masked skip (a # r) = (if skip then ''***'' # masked False r else a # masked (a = ''--password'') r)"

lemma command_loop_masked: "command_loop skip pos buf argv = text_loop pos buf (map (\<lambda>a. a @ '' '') (masked skip argv))"
  by (induction skip pos buf argv rule: command_loop.induct) (auto simp: numeral_eq_Suc)

lemma text_loop_full: "LINE_MAX - 4 \<le> pos \<Longrightarrow> text_loop pos buf ts = buf"
  by (cases ts) simp_all

lemma text_loop_prefix:
  "length buf = min pos (LINE_MAX - 1) \<Longrightarrow> pos < LINE_MAX - 4 \<or> ts = []
     \<Longrightarrow> prefix (text_loop pos buf ts) (buf @ concat ts) \<and> length (text_loop pos buf ts) < LINE_MAX"
proof (induction ts arbitrary: pos buf)
  case Nil
  then show ?case by (simp add: LINE_MAX_def)
next
  case (Cons t ts)
  then have pos: "pos < LINE_MAX - 4" "length buf = pos" by (auto simp: LINE_MAX_def)
  let ?b = "append_at LINE_MAX pos buf t" and ?p = "pos + length t"
  have b: "?b = buf @ take (LINE_MAX - 1 - pos) t" "length ?b = min ?p (LINE_MAX - 1)"
    using pos by (simp_all add: append_at_def LINE_MAX_def)
  have step: "text_loop pos buf (t # ts) = text_loop ?p ?b ts" using pos(1) by simp
  show ?case
  proof (cases "?p < LINE_MAX - 4")
    case True
    then have "?b = buf @ t" using b(1) by (simp add: LINE_MAX_def)
    with Cons.IH [OF b(2)] True step show ?thesis by simp
  next
    case False
    then have "text_loop pos buf (t # ts) = ?b" using step text_loop_full [of ?p ?b ts] by simp
    with b show ?thesis by (simp add: LINE_MAX_def take_is_prefix prefix_prefix)
  qed
qed


text \<open>The value is found by its position only: in the other form of the option it is written to the log.\<close>

lemma equals_form_logged:
  "command_loop False 0 [] [''nuk4sd'', ''--password=secret'', ''--mount''] = ''nuk4sd --password=secret --mount ''"
  by code_simp

end
