(* ===== verification/Spec2Isabelle.thy ===== *)
theory Spec2Isabelle
  imports Vault_Text Alert_Rules Call_Contracts Parse_Props Apparmor Overlay Cli_Dispatch Cli_Log
begin

text \<open>
  A verification development of Nuk4sd, a Linux tool that keeps password-protected vaults and runs programs in
  a sandbox. It covers the C sources of both halves and of the command line in front of them
  (\<^verbatim>\<open>src/c_src\<close>); the Rust sources are the environment.

  \<^bold>\<open>The vault half.\<close> A catalog (\<^verbatim>\<open>g_catalog\<close>) holds an array of vaults. Each vault has a directory where the user sees
  it, a cipher directory where the files of its FUSE mount are stored, a salt and a verifier for its password,
  write-once flags, an alert record, and a hash table of the files that the integrity scan tracks. The manager
  (\<^verbatim>\<open>vault_catalog.c\<close>) creates, renames, unlocks and deletes vaults and saves the catalog after each change; the
  cryptography (\<^verbatim>\<open>vault_crypto.c\<close>) derives keys, verifies passwords with a limit of three attempts, and encrypts
  single files; the monitor (\<^verbatim>\<open>vault_monitor.c\<close>) scans for changes, raises and escalates alerts, and evaluates
  rules; the FUSE layer (\<^verbatim>\<open>vault_fuse.c\<close>) serves the mounted vault and enforces the write-once flags; the engine
  (\<^verbatim>\<open>vault_engine.c\<close>) builds a labyrinth of decoys around the real directory. All of them are reached through
  \<^verbatim>\<open>vault_ffi.c\<close>, whose calls take one lock.

  \<^bold>\<open>The sandbox half.\<close> A sandboxed program is a process that goes through a fixed sequence of layers before it
  becomes the program: user namespace, other namespaces, network, the tree of the jail, a second \<^verbatim>\<open>fork\<close>, private
  mounts, the binds of the user, the desktop, the change of the root, capabilities, resource limits, file access
  rules and the filter of system calls. \<^verbatim>\<open>run_isolated\<close> (\<^verbatim>\<open>cli/vault_cli.c\<close>) and \<^verbatim>\<open>vault_sandbox_open\<close>
  (\<^verbatim>\<open>sandbox/jail.c\<close>) are two such sequences; the parent writes the identity maps, waits and cleans up. The layers are
  the files of \<^verbatim>\<open>sandbox/\<close>, the first process of a sandbox is \<^verbatim>\<open>experimental/common.c\<close>, the inspector of a running
  sandbox is \<^verbatim>\<open>vault/vault_health.c\<close>, and containers are \<^verbatim>\<open>container/\<close>. The command line parses the options, the
  profiles and the presets into one structure (\<^verbatim>\<open>CliConfig\<close>), chooses an operation, asks for the password it needs,
  and calls \<^verbatim>\<open>vault_ffi.c\<close>, the Rust code or \<^verbatim>\<open>run_isolated\<close>.

  \<^bold>\<open>The model.\<close> State is passed explicitly with the library's state monad: a \<^typ>\<open>world\<close> holds the operating system
  (files by path, a counter of calls) and the global variables of the vault half; a \<^typ>\<open>jail\<close> extends it by the
  static variables of the sandbox and the command line and by the trace of the kernel calls made so far, with
  their results. The environment \<^typ>\<open>env\<close> is an argument of every operation that calls out: it fixes which system
  call fails, how short a read is, the clock, the random bytes, and the OpenSSL functions. The record \<^typ>\<open>host\<close> adds
  the result of every recorded kernel call, the numbering of system calls by libseccomp, what is typed in, and
  the state of other processes; \<^typ>\<open>outer\<close> holds the search for the files of a program (Rust), the table of mounts
  and the text of dates. No theorem assumes that calls succeed unless it says so (\<^const>\<open>reliable\<close>), so the theorems
  hold for every pattern of failures; laws of the cryptographic functions are named hypotheses
  (\<^const>\<open>gcm_inverse\<close>). C strings in buffers are cut by \<^const>\<open>cbuf\<close> as \<^verbatim>\<open>snprintf\<close> and \<^verbatim>\<open>strncpy\<close> do; integers that wrap
  are words; errors are the values of \<^typ>\<open>VaultErrorr\<close>; a process is a sequence of steps each of which may end
  it (\<^typ>\<open>ended\<close>).

  \<^bold>\<open>The theories of the vault half.\<close>
  \<^item> \<^verbatim>\<open>Nuk_Prelude\<close>: the state monad's weakest preconditions, the rules for preserved predicates, C buffers, encodings
    of integers in bytes, the collections of rules the component proofs use.
  \<^item> \<^verbatim>\<open>Posix\<close>: files, permissions, symbolic links, and one function per system call with its errors.
  \<^item> \<^verbatim>\<open>Vault_Types\<close>: constants, enumerations and records of \<^verbatim>\<open>vault_core.h\<close>, and the state of the program.
  \<^item> \<^verbatim>\<open>Hash_Map\<close>: the table of tracked files, as an implementation of the locale of finite maps.
  \<^item> \<^verbatim>\<open>Vault_Text\<close>: checks of names and paths, the text of log records.
  \<^item> \<^verbatim>\<open>Vault_Crypto\<close>, \<^verbatim>\<open>File_Crypto\<close>: keys, passwords, encryption of files; what they guarantee.
  \<^item> \<^verbatim>\<open>Catalog_Store\<close>, \<^verbatim>\<open>Catalog_Roundtrip\<close>: the binary catalog; saving and loading give back the catalog.
  \<^item> \<^verbatim>\<open>Vault_Monitor\<close>, \<^verbatim>\<open>Alert_Rules\<close>, \<^verbatim>\<open>Integrity_Scan\<close>: write protection, alerts, rules, credits, the scan.
  \<^item> \<^verbatim>\<open>Vault_Manager\<close>, \<^verbatim>\<open>Catalog_Invariant\<close>, \<^verbatim>\<open>Vault_Steps\<close>: the operations of the manager, the invariant of the
    catalog under all of them, and their contracts.
  \<^item> \<^verbatim>\<open>Vault_Fuse\<close>, \<^verbatim>\<open>Worm_Guard\<close>, \<^verbatim>\<open>Fuse_Stream\<close>, \<^verbatim>\<open>Mount_Life\<close>: requests of the mount, the write-once flags, the stream
    cipher at any offset, mounting and sealing.
  \<^item> \<^verbatim>\<open>Engine\<close>, \<^verbatim>\<open>Engine_Tree\<close>, \<^verbatim>\<open>Engine_Check\<close>: the labyrinth, its size, and its validation.
  \<^item> \<^verbatim>\<open>Vault_Ffi\<close>, \<^verbatim>\<open>Vault_Report\<close>, \<^verbatim>\<open>Vault_Api\<close>, \<^verbatim>\<open>Vault_Calls\<close>, \<^verbatim>\<open>Vault_Files\<close>, \<^verbatim>\<open>Call_Contracts\<close>: the calls of the
    interface and the reports they print; what each kind of write does to a vault; invariants of every sequence of
    calls (types of the fields, the lock); the encryption of whole vaults; contracts of single calls.
  \<^item> \<^verbatim>\<open>Samples\<close>: a concrete environment and state on which the examples are evaluated.

  \<^bold>\<open>The theories of the sandbox half.\<close>
  \<^item> \<^verbatim>\<open>C_Strings\<close>, \<^verbatim>\<open>Sandbox_State\<close>, \<^verbatim>\<open>Process_Steps\<close>: string functions of the C library; the recorded kernel calls;
    processes as steps, and the rules that reduce the order of their calls to single steps.
  \<^item> \<^verbatim>\<open>Seccomp_Policy\<close> (\<^verbatim>\<open>seccomp.c\<close>): the filter that is loaded is exactly the policy of the mode, and denies the
    dangerous calls.
  \<^item> \<^verbatim>\<open>Landlock_Rules\<close> (\<^verbatim>\<open>landlock.c\<close>): the rules handed to the kernel, and what they permit.
  \<^item> \<^verbatim>\<open>Net_Rules\<close> (\<^verbatim>\<open>net.c\<close>): the commands of the virtual network and the firewall program; what reaches the shell.
  \<^item> \<^verbatim>\<open>Apparmor\<close> (\<^verbatim>\<open>apparmor.c\<close>), \<^verbatim>\<open>Health_Check\<close> (\<^verbatim>\<open>vault_health.c\<close>), \<^verbatim>\<open>Overlay\<close> (\<^verbatim>\<open>container/\<close>): profiles of vaults, the
    report on a running sandbox, layered file systems.
  \<^item> \<^verbatim>\<open>Isolation_Layers\<close> (\<^verbatim>\<open>userns.c\<close>, \<^verbatim>\<open>caps.c\<close>, \<^verbatim>\<open>rlimits.c\<close>, \<^verbatim>\<open>mounts.c\<close>, \<^verbatim>\<open>mount_dev.c\<close>, \<^verbatim>\<open>autority.c\<close>): each layer either
    does all of its calls or reports that it did not.
  \<^item> \<^verbatim>\<open>Edit_Distance\<close>, \<^verbatim>\<open>Jail_Setup\<close>, \<^verbatim>\<open>Sandbox_Open\<close> (\<^verbatim>\<open>jail.c\<close>): the search for a similar name, the tree of a jail and
    its shell, and the session of \<^verbatim>\<open>vault_sandbox_open\<close>.
  \<^item> \<^verbatim>\<open>Mini_Init\<close> (\<^verbatim>\<open>experimental/common.c\<close>): the supervisor of \<^verbatim>\<open>--init\<close>.
  \<^item> \<^verbatim>\<open>Cli_Record\<close>, \<^verbatim>\<open>Cli_Config\<close>, \<^verbatim>\<open>Cli_Parse\<close>, \<^verbatim>\<open>Parse_Props\<close> (\<^verbatim>\<open>vault_cli.c\<close>, \<^verbatim>\<open>preset.h\<close>): the configuration, profiles
    and presets, the option parser with its termination, and the bounds of what it accepts.
  \<^item> \<^verbatim>\<open>Sandbox_Binds\<close>, \<^verbatim>\<open>Sandbox_Run\<close> (\<^verbatim>\<open>run_isolated\<close>): binds and masks are in force or the process ends; the program is
    executed only after every layer; the parent cleans up on every path.
  \<^item> \<^verbatim>\<open>Cli_Dispatch\<close> (\<^verbatim>\<open>dispatch\<close> and the entry points): the choice of an operation; the write-once flags guard every
    operation on the files of a vault, and the secret phrase guards the AppArmor protection.
  \<^item> \<^verbatim>\<open>Cli_Log\<close> (\<^verbatim>\<open>cli/vault_cli_log.c\<close>): the records of the command log; a password is masked before it is written.

  \<^bold>\<open>Bounds.\<close> Loops over directories, tables, buffers and options are recursion over what the loop walks; the
  labyrinth is built by recursion on the remaining depth, which the tables of the code bound by 5. Symbolic links
  are followed at most \<^const>\<open>SYMLOOP_MAX\<close> times, as the kernel does. One round of the monitor thread is one step, so no
  fuel stands for its endless loop. Only \<^const>\<open>nuk_mini_init\<close> takes fuel, the number of its calls of \<^verbatim>\<open>waitpid\<close>; it is shown
  to end when the kernel has no child left within that number. The depth of \<^const>\<open>rm_tree\<close> is the number of files, which
  bounds the depth of every tree.

  \<^bold>\<open>Not modelled.\<close> Threads run one at a time: the lock is a value, and properties are about sequences of calls. A
  \<^verbatim>\<open>fork\<close> is followed on the side its result selects, and statements about both sides are two statements. Mounts
  and other kernel calls are recorded and do not change the file model, so properties of the sandbox are about
  which calls were made, in which order and with which results, and not about what a program in it can see. The
  effects of the Rust functions on files are likewise only recorded. Log records of the vault are built but their
  streams are not part of the state; the functions of the command log are modelled in a theory of their own, and
  the commands do not call them in the model. The texts shown on the terminal are left out, except for the three
  reports of \<^verbatim>\<open>vault_ffi.c\<close>. The parser and launcher of Nukfiles (\<^verbatim>\<open>experimental/nukfile.c\<close>, \<^verbatim>\<open>nuk_sandbox.c\<close>) are
  not part of the build and name a kind of bind that no header declares, so they have no meaning to model. The Rust sources are modelled only in the one
  callback the C code uses.
\<close>

end
